(* ===== verification/Prelude.thy ===== *)
theory Prelude
  imports Main "HOL-Library.Word" "HOL-Library.Monad_Syntax"
begin

text \<open>
  Shared vocabulary of the development: the C integer types of \<^verbatim>\<open>port.h\<close>, checked
  reads and writes of C arrays, the split of a 16-bit value into its two bytes,
  and the generic lemmas that the component proofs rest on.

  A C array is a list; a pointer into it is the list together with an offset.
  An access outside the array is undefined in C: here it is \<^const>\<open>None\<close>, so that a
  theorem which says that an operation yields \<^const>\<open>Some\<close> also says that it stays
  inside its buffers.
\<close>

unbundle bit_operations_syntax

named_theorems cmem \<open>in-range reads and writes of C arrays\<close>
named_theorems bytes \<open>byte order of 16-bit values\<close>

section \<open>Integer types\<close>

type_synonym UCHAR = "8 word"
type_synonym USHORT = "16 word"
type_synonym ULONG = "32 word"

section \<open>C arrays\<close>

definition rd :: "'a list \<Rightarrow> nat \<Rightarrow> 'a option" where
  "rd xs i = (if i < length xs then Some (xs ! i) else None)"

definition wr :: "'a list \<Rightarrow> nat \<Rightarrow> 'a \<Rightarrow> 'a list option" where
  "wr xs i v = (if i < length xs then Some (xs[i := v]) else None)"

text \<open>\<^verbatim>\<open>RT_ASSERT\<close> of \<^verbatim>\<open>rtdebug.h\<close>: a failed assertion never returns to its caller.\<close>

definition rt_assert :: "bool \<Rightarrow> unit option" where
  "rt_assert c = (if c then Some () else None)"

lemma rd_in [simp, cmem]: "i < length xs \<Longrightarrow> rd xs i = Some (xs ! i)"
  by (simp add: rd_def)

lemma rd_out [cmem]: "length xs \<le> i \<Longrightarrow> rd xs i = None"
  by (simp add: rd_def)

lemma wr_in [simp, cmem]: "i < length xs \<Longrightarrow> wr xs i v = Some (xs[i := v])"
  by (simp add: wr_def)

lemma wr_out [cmem]: "length xs \<le> i \<Longrightarrow> wr xs i v = None"
  by (simp add: wr_def)

lemma rd_eq_Some [cmem]: "rd xs i = Some v \<longleftrightarrow> i < length xs \<and> v = xs ! i"
  by (auto simp: rd_def)

lemma wr_eq_Some [cmem]: "wr xs i v = Some ys \<longleftrightarrow> i < length xs \<and> ys = xs[i := v]"
  by (auto simp: wr_def)

lemma rt_assert_simps [simp]: "rt_assert True = Some ()" "rt_assert False = None"
  by (simp_all add: rt_assert_def)

lemma rt_assert_eq_Some: "rt_assert c = Some u \<longleftrightarrow> c"
  by (simp add: rt_assert_def)

section \<open>Replacing a segment of an array\<close>

definition blit :: "'a list \<Rightarrow> nat \<Rightarrow> 'a list \<Rightarrow> 'a list" where
  "blit xs i ys = take i xs @ ys @ drop (i + length ys) xs"

lemma length_blit [simp]: "i + length ys \<le> length xs \<Longrightarrow> length (blit xs i ys) = length xs"
  by (simp add: blit_def)

lemma blit_Nil [simp]: "blit xs i [] = xs"
  by (simp add: blit_def)

lemma blit_Cons:
  assumes "i + Suc (length ys) \<le> length xs"
  shows "blit (xs[i := y]) (Suc i) ys = blit xs i (y # ys)"
  using assms by (simp add: blit_def take_update_swap take_Suc_conv_app_nth list_update_append)

lemma nth_blit:
  assumes "i + length ys \<le> length xs"
  shows "blit xs i ys ! k = (if i \<le> k \<and> k < i + length ys then ys ! (k - i) else xs ! k)"
  using assms by (auto simp: blit_def nth_append)

lemma segment_blit [simp]:
  "i + length ys \<le> length xs \<Longrightarrow> take (length ys) (drop i (blit xs i ys)) = ys"
  by (simp add: blit_def)

lemma blit_append:
  "i + length ys + length zs \<le> length xs \<Longrightarrow>
   blit (blit xs i ys) (i + length ys) zs = blit xs i (ys @ zs)"
  by (simp add: blit_def ac_simps)

lemma blit_snoc:
  assumes "i + length ys < length xs"
  shows "(blit xs i ys)[i + length ys := y] = blit xs i (ys @ [y])"
proof -
  have "drop (i + length ys) xs = xs ! (i + length ys) # drop (Suc (i + length ys)) xs"
    using assms by (rule Cons_nth_drop_Suc [symmetric])
  then show ?thesis
    using assms by (simp add: blit_def list_update_append)
qed

text \<open>\<^verbatim>\<open>rt_memcpy(dst, src, n)\<close> between two objects, both given from the pointers on.\<close>

definition rt_memcpy :: "'a list \<Rightarrow> 'a list \<Rightarrow> nat \<Rightarrow> 'a list option" where
  "rt_memcpy dst src n = (if n \<le> length dst \<and> n \<le> length src then Some (take n src @ drop n dst) else None)"

lemma rt_memcpy_in [simp, cmem]:
  "n \<le> length dst \<Longrightarrow> n \<le> length src \<Longrightarrow> rt_memcpy dst src n = Some (take n src @ drop n dst)"
  by (simp add: rt_memcpy_def)

text \<open>\<^verbatim>\<open>RT_ALIGN(size, RT_ALIGN_SIZE)\<close> of \<^verbatim>\<open>rtdef.h\<close>.\<close>

definition rt_align :: "32 word \<Rightarrow> 32 word" where
  "rt_align size' = (size' + 4 - 1) AND NOT (4 - 1)"

section \<open>The two bytes of a 16-bit value\<close>

definition hi8 :: "USHORT \<Rightarrow> UCHAR" where
  "hi8 w = ucast (drop_bit 8 w)"

definition lo8 :: "USHORT \<Rightarrow> UCHAR" where
  "lo8 w = ucast (w AND 0xFF)"

definition mk16 :: "UCHAR \<Rightarrow> UCHAR \<Rightarrow> USHORT" where
  "mk16 h l = push_bit 8 (ucast h) OR ucast l"

lemma ff_eq_mask: "(0xFF :: 16 word) = mask 8"
  by (simp add: mask_eq_exp_minus_1)

lemma bit_hi8: "bit (hi8 w) n \<longleftrightarrow> n < 8 \<and> bit w (n + 8)"
  by (auto simp: hi8_def bit_simps add.commute)

lemma bit_lo8: "bit (lo8 w) n \<longleftrightarrow> n < 8 \<and> bit w n"
  unfolding lo8_def ff_eq_mask by (auto simp: bit_simps)

lemma bit_mk16: "bit (mk16 h l) n \<longleftrightarrow> (if n < 8 then bit l n else bit h (n - 8))"
  by (auto simp: mk16_def bit_simps dest: bit_imp_le_length)

lemma hi8_mk16 [simp, bytes]: "hi8 (mk16 h l) = h"
  by (rule bit_word_eqI) (simp add: bit_hi8 bit_mk16)

lemma lo8_mk16 [simp, bytes]: "lo8 (mk16 h l) = l"
  by (rule bit_word_eqI) (simp add: bit_lo8 bit_mk16)

lemma mk16_hi8_lo8 [simp, bytes]: "mk16 (hi8 w) (lo8 w) = w"
  by (rule bit_word_eqI) (auto simp: bit_hi8 bit_lo8 bit_mk16)

lemma mk16_inject: "mk16 a b = mk16 c d \<longleftrightarrow> a = c \<and> b = d"
  by (metis hi8_mk16 lo8_mk16)

lemma lo8_alt: "lo8 w = ucast w"
  by (rule bit_word_eqI) (simp add: bit_lo8 bit_simps)

lemma hi8_0 [simp]: "hi8 0 = 0" and lo8_0 [simp]: "lo8 0 = 0" and mk16_0 [simp]: "mk16 0 0 = 0"
  by (simp_all add: hi8_def lo8_def mk16_def)

lemma xor_right_cancel: "a XOR c = b XOR c \<longleftrightarrow> a = (b :: 'a::len word)"
  by (metis xor.assoc xor.right_neutral xor_self_eq)

lemma xor_left_cancel: "c XOR a = c XOR b \<longleftrightarrow> a = (b :: 'a::len word)"
  by (metis xor.assoc xor.left_neutral xor_self_eq)

lemma xor_eq_zero: "a XOR b = 0 \<longleftrightarrow> a = (b :: 'a::len word)"
  by (metis xor_right_cancel xor_self_eq)

lemma hi8_xor: "hi8 (a XOR b) = hi8 a XOR hi8 b"
  by (rule bit_word_eqI) (simp add: bit_hi8 bit_simps)

lemma lo8_xor: "lo8 (a XOR b) = lo8 a XOR lo8 b"
  by (rule bit_word_eqI) (simp add: bit_lo8 bit_simps)

lemma unat8_lt: "unat (b :: 8 word) < 256"
  using unsigned_less [of b, where 'a = nat] by simp

lemma unat16_lt: "unat (w :: 16 word) < 65536"
  using unsigned_less [of w, where 'a = nat] by simp

lemma unat_mk16: "unat (mk16 h l) = 256 * unat h + unat l"
proof -
  have "push_bit 8 (ucast h :: 16 word) AND ucast l = 0"
    by (rule bit_word_eqI) (auto simp: bit_simps dest: bit_imp_le_length)
  then have "mk16 h l = push_bit 8 (ucast h) + ucast l"
    by (simp add: mk16_def disjunctive_add_eq_or)
  also have "\<dots> = of_nat (256 * unat h + unat l)"
    by (simp add: push_bit_eq_mult mult.commute)
  finally have eq: "mk16 h l = of_nat (256 * unat h + unat l)" .
  show ?thesis
    unfolding eq using unat8_lt [of h] unat8_lt [of l] by (simp add: unat_of_nat take_bit_nat_def del: of_nat_add of_nat_mult)
qed

lemma unat16_Suc: "i < (m :: 16 word) \<Longrightarrow> unat (i + 1) = Suc (unat i)"
  using unat16_lt [of m] by (simp add: unat_word_ariths word_less_nat_alt)

end
