(* ===== verification/Rt_Kernel.thy ===== *)
theory Rt_Kernel
  imports Prelude
begin

text \<open>
  The thread states and the single-core scheduler of RT-Thread: \<^verbatim>\<open>scheduler.c\<close>,
  the state changes of \<^verbatim>\<open>thread.c\<close> and the bit search of \<^verbatim>\<open>kservice.c\<close> under
  \<^verbatim>\<open>Kernel\<close>, in the configuration of \<^verbatim>\<open>rtconfig.h\<close> (32 priorities, one core, no signals).

  A thread is a number. A call of \<^verbatim>\<open>rt_schedule\<close> is the switch itself: its result
  is the state in which the chosen thread runs. \<^const>\<open>None\<close> stands for a failed
  assertion or an access outside an array.
\<close>

section \<open>First set bit\<close>

definition lowest_bit_bitmap :: "nat list" where
  "lowest_bit_bitmap = [
    0, 0, 1, 0, 2, 0, 1, 0, 3, 0, 1, 0, 2, 0, 1, 0,
    4, 0, 1, 0, 2, 0, 1, 0, 3, 0, 1, 0, 2, 0, 1, 0,
    5, 0, 1, 0, 2, 0, 1, 0, 3, 0, 1, 0, 2, 0, 1, 0,
    4, 0, 1, 0, 2, 0, 1, 0, 3, 0, 1, 0, 2, 0, 1, 0,
    6, 0, 1, 0, 2, 0, 1, 0, 3, 0, 1, 0, 2, 0, 1, 0,
    4, 0, 1, 0, 2, 0, 1, 0, 3, 0, 1, 0, 2, 0, 1, 0,
    5, 0, 1, 0, 2, 0, 1, 0, 3, 0, 1, 0, 2, 0, 1, 0,
    4, 0, 1, 0, 2, 0, 1, 0, 3, 0, 1, 0, 2, 0, 1, 0,
    7, 0, 1, 0, 2, 0, 1, 0, 3, 0, 1, 0, 2, 0, 1, 0,
    4, 0, 1, 0, 2, 0, 1, 0, 3, 0, 1, 0, 2, 0, 1, 0,
    5, 0, 1, 0, 2, 0, 1, 0, 3, 0, 1, 0, 2, 0, 1, 0,
    4, 0, 1, 0, 2, 0, 1, 0, 3, 0, 1, 0, 2, 0, 1, 0,
    6, 0, 1, 0, 2, 0, 1, 0, 3, 0, 1, 0, 2, 0, 1, 0,
    4, 0, 1, 0, 2, 0, 1, 0, 3, 0, 1, 0, 2, 0, 1, 0,
    5, 0, 1, 0, 2, 0, 1, 0, 3, 0, 1, 0, 2, 0, 1, 0,
    4, 0, 1, 0, 2, 0, 1, 0, 3, 0, 1, 0, 2, 0, 1, 0]"

definition rt_ffs :: "32 word \<Rightarrow> nat" where
  "rt_ffs value =
    (if value = 0 then 0
     else if value AND 0xff \<noteq> 0 then lowest_bit_bitmap ! unat (value AND 0xff) + 1
     else if value AND 0xff00 \<noteq> 0 then lowest_bit_bitmap ! unat (drop_bit 8 (value AND 0xff00)) + 9
     else if value AND 0xff0000 \<noteq> 0
       then lowest_bit_bitmap ! unat (drop_bit 16 (value AND 0xff0000)) + 17
     else lowest_bit_bitmap ! unat (drop_bit 24 (value AND 0xff000000)) + 25)"

definition first_bit :: "nat \<Rightarrow> nat \<Rightarrow> bool" where
  "first_bit v n \<longleftrightarrow> bit v n \<and> (\<forall>j < n. \<not> bit v j)"

lemma bitmap_eval: "list_all2 (\<lambda>v n. odd (v div 2 ^ n) \<and> v mod 2 ^ n = 0) [1..<256] (tl lowest_bit_bitmap)"
  by (simp add: lowest_bit_bitmap_def upt_rec_numeral upt_conv_Cons)

lemma bitmap_first:
  assumes "0 < v" "v < 256"
  shows "first_bit v (lowest_bit_bitmap ! v)"
proof -
  have "lowest_bit_bitmap ! v = tl lowest_bit_bitmap ! (v - 1)"
    using assms by (subst nth_tl) (simp_all add: lowest_bit_bitmap_def)
  moreover have "[1..<256] ! (v - 1) = v"
    using assms by (simp add: nth_upt)
  ultimately have n: "odd (v div 2 ^ (lowest_bit_bitmap ! v)) \<and> v mod 2 ^ (lowest_bit_bitmap ! v) = 0"
    using list_all2_nthD [OF bitmap_eval, of "v - 1"] assms by simp
  have "\<not> bit v j" if "j < lowest_bit_bitmap ! v" for j
  proof -
    have "bit v j = bit (take_bit (lowest_bit_bitmap ! v) v) j"
      using that by (simp add: bit_take_bit_iff)
    then show ?thesis
      using n by (simp add: take_bit_eq_mod)
  qed
  with n show ?thesis
    by (simp add: first_bit_def bit_iff_odd)
qed

definition byte_at :: "32 word \<Rightarrow> nat \<Rightarrow> 32 word" where
  "byte_at w k = take_bit 8 (drop_bit (8 * k) w)"

lemma byte_masks:
  "w AND 0xff = byte_at w 0" "w AND 0xff00 = push_bit 8 (byte_at w 1)"
  "w AND 0xff0000 = push_bit 16 (byte_at w 2)" "w AND 0xff000000 = push_bit 24 (byte_at w 3)"
proof -
  have m: "(0xff :: 32 word) = mask 8" "(0xff00 :: 32 word) = push_bit 8 (mask 8)"
    "(0xff0000 :: 32 word) = push_bit 16 (mask 8)" "(0xff000000 :: 32 word) = push_bit 24 (mask 8)"
    by (simp_all add: mask_eq_exp_minus_1 push_bit_eq_mult)
  show "w AND 0xff = byte_at w 0" "w AND 0xff00 = push_bit 8 (byte_at w 1)"
    "w AND 0xff0000 = push_bit 16 (byte_at w 2)" "w AND 0xff000000 = push_bit 24 (byte_at w 3)"
    unfolding m by (rule bit_word_eqI; auto simp: byte_at_def bit_simps)+
qed

lemma byte_at_lt: "unat (byte_at w k) < 256"
  by (simp add: byte_at_def unsigned_take_bit_eq take_bit_nat_less_exp [of 8, simplified])

lemma drop_push_byte:
  "k \<le> 3 \<Longrightarrow> drop_bit (8 * k) (push_bit (8 * k) (byte_at w k)) = byte_at w k"
  by (rule bit_word_eqI) (auto simp: byte_at_def bit_simps)

lemma push_byte_zero: "k \<le> 3 \<Longrightarrow> push_bit (8 * k) (byte_at w k) = 0 \<longleftrightarrow> byte_at w k = 0"
  by (metis drop_bit_of_0 drop_push_byte push_bit_of_0)

lemma byte_zero_bits: "byte_at w k = 0 \<Longrightarrow> 8 * k \<le> j \<Longrightarrow> j < 8 * k + 8 \<Longrightarrow> \<not> bit w j"
  using bit_take_bit_iff [of 8 "drop_bit (8 * k) w" "j - 8 * k"]
  by (simp add: byte_at_def bit_simps)

lemma rt_ffs_byte:
  assumes "k \<le> 3" "byte_at w k \<noteq> 0" "\<And>i. i < k \<Longrightarrow> byte_at w i = 0"
  shows "bit w (8 * k + lowest_bit_bitmap ! unat (byte_at w k))"
    "\<And>j. j < 8 * k + lowest_bit_bitmap ! unat (byte_at w k) \<Longrightarrow> \<not> bit w j"
proof -
  let ?n = "lowest_bit_bitmap ! unat (byte_at w k)"
  have "0 < unat (byte_at w k)"
    using assms(2) by (simp add: unat_gt_0)
  then have fb: "first_bit (unat (byte_at w k)) ?n"
    by (rule bitmap_first) (rule byte_at_lt)
  then have b: "bit (byte_at w k) ?n" "\<And>j. j < ?n \<Longrightarrow> \<not> bit (byte_at w k) j"
    by (simp_all add: first_bit_def bit_unsigned_iff bit_imp_le_length)
  from b(1) show "bit w (8 * k + ?n)"
    by (simp add: byte_at_def bit_simps)
  fix j
  assume j: "j < 8 * k + ?n"
  have n8: "?n < 8"
    using b(1) by (simp add: byte_at_def bit_simps)
  show "\<not> bit w j"
  proof (cases "j < 8 * k")
    case True
    then have "j div 8 < k" by simp
    then show ?thesis
      using byte_zero_bits [OF assms(3), of "j div 8" j] by simp
  next
    case False
    then show ?thesis
      using b(2) [of "j - 8 * k"] j n8 by (simp add: byte_at_def bit_simps)
  qed
qed

lemma rt_ffs_first:
  assumes "w \<noteq> 0"
  shows "0 < rt_ffs w" "bit w (rt_ffs w - 1)" "\<And>j. j < rt_ffs w - 1 \<Longrightarrow> \<not> bit w j"
proof -
  have "\<exists>k \<le> 3. byte_at w k \<noteq> 0"
  proof (rule ccontr)
    assume "\<not> ?thesis"
    then have "\<not> bit w j" if "j < 32" for j
      using byte_zero_bits [of w "j div 8" j] that by simp
    then have "w = 0" by (intro bit_word_eqI) simp
    with assms show False by simp
  qed
  then obtain k where k: "k \<le> 3" "byte_at w k \<noteq> 0" "\<And>i. i < k \<Longrightarrow> byte_at w i = 0"
    using exists_least_iff [of "\<lambda>k. k \<le> 3 \<and> byte_at w k \<noteq> 0"] by auto
  have cases_k: "k = 0 \<or> k = 1 \<or> k = 2 \<or> k = 3"
    using k(1) by linarith
  have "rt_ffs w = Suc (8 * k + lowest_bit_bitmap ! unat (byte_at w k))"
    using cases_k
    apply (elim disjE)
    using k assms k(3)[of 0] k(3) [of 1] k(3) [of 2] drop_push_byte [of k w] push_byte_zero [of k w] push_byte_zero [of 1 w] push_byte_zero [of 2 w]
    by (simp_all add: rt_ffs_def byte_masks)
  then show "0 < rt_ffs w" "bit w (rt_ffs w - 1)" "\<And>j. j < rt_ffs w - 1 \<Longrightarrow> \<not> bit w j"
    using rt_ffs_byte [OF k] by simp_all
qed

section \<open>Threads and the ready queue\<close>

type_synonym tid = nat
type_synonym rt_err_t = int

abbreviation (input) RT_EOK :: rt_err_t where "RT_EOK \<equiv> 0"
abbreviation (input) RT_ERROR :: rt_err_t where "RT_ERROR \<equiv> 1"
abbreviation (input) RT_ETIMEOUT :: rt_err_t where "RT_ETIMEOUT \<equiv> 2"
abbreviation (input) RT_THREAD_PRIORITY_MAX :: nat where "RT_THREAD_PRIORITY_MAX \<equiv> 32"

datatype thread_stat =
  RT_THREAD_INIT | RT_THREAD_READY | RT_THREAD_SUSPEND | RT_THREAD_RUNNING | RT_THREAD_CLOSE

text \<open>
  The fields of \<^verbatim>\<open>struct rt_thread\<close> that the scheduler and the IPC objects use.
  \<open>thread_timer\<close> is the built-in timer: \<^const>\<open>Some\<close> the timeout it was started with, or
  \<^const>\<open>None\<close> when it is stopped.
\<close>

record rt_thread =
  error :: rt_err_t
  stat :: thread_stat
  current_priority :: "8 word"
  init_priority :: "8 word"
  number_mask :: "32 word"
  event_set :: "32 word"
  event_info :: "8 word"
  thread_timer :: "int option"

record kernel =
  threads :: "tid \<Rightarrow> rt_thread"
  rt_current_thread :: "tid option"
  rt_current_priority :: "8 word"
  rt_thread_priority_table :: "tid list list"
  rt_thread_ready_priority_group :: "32 word"
  rt_scheduler_lock_nest :: "16 word"
  rt_interrupt_nest :: "8 word"

definition upd_thread :: "tid \<Rightarrow> (rt_thread \<Rightarrow> rt_thread) \<Rightarrow> kernel \<Rightarrow> kernel" where
  "upd_thread t f k = k\<lparr>threads := (threads k)(t := f (threads k t))\<rparr>"

definition set_stat :: "tid \<Rightarrow> thread_stat \<Rightarrow> kernel \<Rightarrow> kernel" where
  "set_stat t st = upd_thread t (\<lambda>th. th\<lparr>stat := st\<rparr>)"

definition set_error :: "tid \<Rightarrow> rt_err_t \<Rightarrow> kernel \<Rightarrow> kernel" where
  "set_error t e = upd_thread t (\<lambda>th. th\<lparr>error := e\<rparr>)"

definition rt_system_scheduler_init :: "kernel \<Rightarrow> kernel" where
  "rt_system_scheduler_init k = k\<lparr>rt_scheduler_lock_nest := 0,
     rt_thread_priority_table := replicate RT_THREAD_PRIORITY_MAX [],
     rt_thread_ready_priority_group := 0\<rparr>"

definition rt_schedule_insert_thread :: "tid \<Rightarrow> kernel \<Rightarrow> kernel option" where
  "rt_schedule_insert_thread thread k =
    (if Some thread = rt_current_thread k
     then Some (set_stat thread RT_THREAD_RUNNING k)
     else do {
       let k = set_stat thread RT_THREAD_READY k;
       let p = unat (current_priority (threads k thread));
       q \<leftarrow> rd (rt_thread_priority_table k) p;
       tab \<leftarrow> wr (rt_thread_priority_table k) p (q @ [thread]);
       Some (k\<lparr>rt_thread_priority_table := tab,
         rt_thread_ready_priority_group :=
           rt_thread_ready_priority_group k OR number_mask (threads k thread)\<rparr>)
     })"

text \<open>\<^verbatim>\<open>rt_list_remove\<close> unlinks the thread from the queue it is on, whichever that is.\<close>

definition rt_schedule_remove_thread :: "tid \<Rightarrow> kernel \<Rightarrow> kernel option" where
  "rt_schedule_remove_thread thread k = do {
     let k = k\<lparr>rt_thread_priority_table := map (remove1 thread) (rt_thread_priority_table k)\<rparr>;
     q \<leftarrow> rd (rt_thread_priority_table k) (unat (current_priority (threads k thread)));
     Some (if q = []
       then k\<lparr>rt_thread_ready_priority_group :=
                rt_thread_ready_priority_group k AND NOT (number_mask (threads k thread))\<rparr>
       else k)
   }"

definition get_highest_priority_thread :: "kernel \<Rightarrow> (tid \<times> nat) option" where
  "get_highest_priority_thread k = do {
     let highest_ready_priority = rt_ffs (rt_thread_ready_priority_group k) - 1;
     q \<leftarrow> rd (rt_thread_priority_table k) highest_ready_priority;
     t \<leftarrow> rd q 0;
     Some (t, highest_ready_priority)
   }"

definition rt_system_scheduler_start :: "kernel \<Rightarrow> kernel option" where
  "rt_system_scheduler_start k = do {
     (to_thread, highest_ready_priority) \<leftarrow> get_highest_priority_thread k;
     let k = k\<lparr>rt_current_thread := Some to_thread\<rparr>;
     k \<leftarrow> rt_schedule_remove_thread to_thread k;
     Some (set_stat to_thread RT_THREAD_RUNNING k)
   }"

definition rt_schedule :: "kernel \<Rightarrow> kernel option" where
  "rt_schedule k =
    (if rt_scheduler_lock_nest k = 0 \<and> rt_thread_ready_priority_group k \<noteq> 0
     then do {
       (highest, highest_ready_priority) \<leftarrow> get_highest_priority_thread k;
       cur \<leftarrow> rt_current_thread k;
       let running = (stat (threads k cur) = RT_THREAD_RUNNING);
       let keep = (running \<and> unat (current_priority (threads k cur)) < highest_ready_priority);
       let to_thread = (if keep then cur else highest);
       let need_insert_from_thread = (running \<and> \<not> keep);
       if to_thread \<noteq> cur
       then do {
         let from_thread = cur;
         let k = k\<lparr>rt_current_priority := of_nat highest_ready_priority,
                   rt_current_thread := Some to_thread\<rparr>;
         k \<leftarrow> (if need_insert_from_thread then rt_schedule_insert_thread from_thread k else Some k);
         k \<leftarrow> rt_schedule_remove_thread to_thread k;
         Some (set_stat to_thread RT_THREAD_RUNNING k)
       }
       else do {
         k \<leftarrow> rt_schedule_remove_thread cur k;
         Some (set_stat cur RT_THREAD_RUNNING k)
       }
     }
     else Some k)"

definition rt_enter_critical :: "kernel \<Rightarrow> kernel" where
  "rt_enter_critical k = k\<lparr>rt_scheduler_lock_nest := rt_scheduler_lock_nest k + 1\<rparr>"

definition rt_exit_critical :: "kernel \<Rightarrow> kernel option" where
  "rt_exit_critical k =
    (let nest = rt_scheduler_lock_nest k - 1 in
     if sint nest \<le> 0
     then rt_schedule (k\<lparr>rt_scheduler_lock_nest := 0\<rparr>)
     else Some (k\<lparr>rt_scheduler_lock_nest := nest\<rparr>))"

definition rt_critical_level :: "kernel \<Rightarrow> 16 word" where
  "rt_critical_level k = rt_scheduler_lock_nest k"

section \<open>Thread state changes\<close>

definition timer_stop :: "tid \<Rightarrow> kernel \<Rightarrow> kernel" where
  "timer_stop t = upd_thread t (\<lambda>th. th\<lparr>thread_timer := None\<rparr>)"

definition timer_start :: "tid \<Rightarrow> int \<Rightarrow> kernel \<Rightarrow> kernel" where
  "timer_start t ticks = upd_thread t (\<lambda>th. th\<lparr>thread_timer := Some ticks\<rparr>)"

definition rt_thread_suspend :: "tid \<Rightarrow> kernel \<Rightarrow> (rt_err_t \<times> kernel) option" where
  "rt_thread_suspend thread k =
    (let st = stat (threads k thread) in
     if st \<noteq> RT_THREAD_READY \<and> st \<noteq> RT_THREAD_RUNNING
     then Some (- RT_ERROR, k)
     else do {
       rt_assert (st = RT_THREAD_RUNNING \<longrightarrow> Some thread = rt_current_thread k);
       k \<leftarrow> rt_schedule_remove_thread thread k;
       let k = timer_stop thread (set_stat thread RT_THREAD_SUSPEND k);
       Some (RT_EOK, k)
     })"

text \<open>
  \<^verbatim>\<open>rt_thread_resume\<close> takes the thread off the suspend list it is on: that list is
  passed in and returned.
\<close>

definition rt_thread_resume ::
  "tid \<Rightarrow> tid list \<Rightarrow> kernel \<Rightarrow> (rt_err_t \<times> tid list \<times> kernel) option" where
  "rt_thread_resume thread suspend_thread k =
    (if stat (threads k thread) \<noteq> RT_THREAD_SUSPEND
     then Some (- RT_ERROR, suspend_thread, k)
     else do {
       let suspend_thread = remove1 thread suspend_thread;
       k \<leftarrow> rt_schedule_insert_thread thread (timer_stop thread k);
       Some (RT_EOK, suspend_thread, k)
     })"

definition rt_thread_timeout :: "tid \<Rightarrow> tid list \<Rightarrow> kernel \<Rightarrow> (tid list \<times> kernel) option" where
  "rt_thread_timeout thread suspend_thread k = do {
     rt_assert (stat (threads k thread) = RT_THREAD_SUSPEND);
     let k = set_error thread (- RT_ETIMEOUT) k;
     let suspend_thread = remove1 thread suspend_thread;
     k \<leftarrow> rt_schedule_insert_thread thread k;
     k \<leftarrow> rt_schedule k;
     Some (suspend_thread, k)
   }"

definition change_priority :: "tid \<Rightarrow> 8 word \<Rightarrow> kernel \<Rightarrow> kernel" where
  "change_priority t p = upd_thread t (\<lambda>th. th\<lparr>current_priority := p,
     number_mask := push_bit (unat p) 1\<rparr>)"

text \<open>\<^verbatim>\<open>rt_thread_control\<close> with \<^verbatim>\<open>RT_THREAD_CTRL_CHANGE_PRIORITY\<close>.\<close>

definition rt_thread_control_priority :: "tid \<Rightarrow> 8 word \<Rightarrow> kernel \<Rightarrow> (rt_err_t \<times> kernel) option" where
  "rt_thread_control_priority thread p k =
    (if stat (threads k thread) = RT_THREAD_READY
     then do {
       k \<leftarrow> rt_schedule_remove_thread thread k;
       k \<leftarrow> rt_schedule_insert_thread thread (change_priority thread p k);
       Some (RT_EOK, k)
     }
     else Some (RT_EOK, change_priority thread p k))"

text \<open>\<^verbatim>\<open>_rt_thread_init\<close> on the fields kept here.\<close>

definition rt_thread_init :: "tid \<Rightarrow> 8 word \<Rightarrow> kernel \<Rightarrow> kernel option" where
  "rt_thread_init thread priority k = do {
     rt_assert (unat priority < RT_THREAD_PRIORITY_MAX);
     Some (upd_thread thread (\<lambda>th. th\<lparr>init_priority := priority, current_priority := priority,
       number_mask := 0, error := RT_EOK, stat := RT_THREAD_INIT, thread_timer := None\<rparr>) k)
   }"

definition rt_thread_startup :: "tid \<Rightarrow> kernel \<Rightarrow> (rt_err_t \<times> kernel) option" where
  "rt_thread_startup thread k = do {
     rt_assert (stat (threads k thread) = RT_THREAD_INIT);
     let k = change_priority thread (init_priority (threads k thread)) k;
     let k = set_stat thread RT_THREAD_SUSPEND k;
     (_, _, k) \<leftarrow> rt_thread_resume thread [] k;
     k \<leftarrow> (if rt_current_thread k \<noteq> None then rt_schedule k else Some k);
     Some (RT_EOK, k)
   }"

text \<open>\<^verbatim>\<open>rt_thread_sleep\<close> up to the switch; what follows runs when the thread is chosen again.\<close>

definition rt_thread_sleep :: "int \<Rightarrow> kernel \<Rightarrow> kernel option" where
  "rt_thread_sleep tick k = do {
     thread \<leftarrow> rt_current_thread k;
     (_, k) \<leftarrow> rt_thread_suspend thread k;
     rt_schedule (timer_start thread tick k)
   }"

definition rt_thread_sleep_return :: "tid \<Rightarrow> kernel \<Rightarrow> rt_err_t \<times> kernel" where
  "rt_thread_sleep_return thread k =
    (RT_EOK, if error (threads k thread) = - RT_ETIMEOUT then set_error thread RT_EOK k else k)"

section \<open>Invariant of the ready queue\<close>

definition live :: "thread_stat \<Rightarrow> bool" where
  "live st \<longleftrightarrow> st \<noteq> RT_THREAD_INIT \<and> st \<noteq> RT_THREAD_CLOSE"

definition wf_thread :: "rt_thread \<Rightarrow> bool" where
  "wf_thread th \<longleftrightarrow> unat (current_priority th) < 32 \<and>
     number_mask th = push_bit (unat (current_priority th)) 1"

text \<open>
  Queue \<open>p\<close> holds exactly the ready threads of priority \<open>p\<close>, once each, and the
  group word has the bits of the non-empty queues.
\<close>

definition ready_inv :: "kernel \<Rightarrow> bool" where
  "ready_inv k \<longleftrightarrow>
     length (rt_thread_priority_table k) = 32 \<and>
     (\<forall>p < 32. bit (rt_thread_ready_priority_group k) p = (rt_thread_priority_table k ! p \<noteq> [])) \<and>
     (\<forall>p < 32. distinct (rt_thread_priority_table k ! p)) \<and>
     (\<forall>p < 32. \<forall>t. t \<in> set (rt_thread_priority_table k ! p) \<longleftrightarrow>
        stat (threads k t) = RT_THREAD_READY \<and> unat (current_priority (threads k t)) = p) \<and>
     (\<forall>t. live (stat (threads k t)) \<longrightarrow> wf_thread (threads k t))"

text \<open>Only the current thread runs, and it is never queued.\<close>

definition kinv :: "kernel \<Rightarrow> bool" where
  "kinv k \<longleftrightarrow> ready_inv k \<and>
     (\<forall>t. stat (threads k t) = RT_THREAD_RUNNING \<longrightarrow> rt_current_thread k = Some t) \<and>
     (\<forall>t. rt_current_thread k = Some t \<longrightarrow> stat (threads k t) \<noteq> RT_THREAD_READY)"

lemma threads_upd_thread [simp]:
  "threads (upd_thread t f k) u = (if u = t then f (threads k t) else threads k u)"
  "rt_current_thread (upd_thread t f k) = rt_current_thread k"
  "rt_thread_priority_table (upd_thread t f k) = rt_thread_priority_table k"
  "rt_thread_ready_priority_group (upd_thread t f k) = rt_thread_ready_priority_group k"
  "rt_scheduler_lock_nest (upd_thread t f k) = rt_scheduler_lock_nest k"
  "rt_interrupt_nest (upd_thread t f k) = rt_interrupt_nest k"
  by (simp_all add: upd_thread_def)

lemmas thread_updates = set_stat_def set_error_def timer_stop_def timer_start_def change_priority_def

lemma bit_mask_prio:
  "q < 32 \<Longrightarrow> bit (push_bit q (1 :: 32 word)) p \<longleftrightarrow> p = q"
  "q < 32 \<Longrightarrow> bit (2 ^ q :: 32 word) p \<longleftrightarrow> p = q"
  by (auto simp: bit_simps)

lemma ready_invD:
  assumes "ready_inv k"
  shows "length (rt_thread_priority_table k) = 32"
    "p < 32 \<Longrightarrow> bit (rt_thread_ready_priority_group k) p \<longleftrightarrow> rt_thread_priority_table k ! p \<noteq> []"
    "p < 32 \<Longrightarrow> distinct (rt_thread_priority_table k ! p)"
    "p < 32 \<Longrightarrow> t \<in> set (rt_thread_priority_table k ! p) \<longleftrightarrow>
      stat (threads k t) = RT_THREAD_READY \<and> unat (current_priority (threads k t)) = p"
    "live (stat (threads k t)) \<Longrightarrow> unat (current_priority (threads k t)) < 32"
    "live (stat (threads k t)) \<Longrightarrow>
      number_mask (threads k t) = push_bit (unat (current_priority (threads k t))) 1"
  using assms by (auto simp: ready_inv_def wf_thread_def)

lemma insert_thread_ready:
  assumes inv: "ready_inv k" and st: "stat (threads k t) \<noteq> RT_THREAD_READY"
    and wf: "wf_thread (threads k t)" and cur: "rt_current_thread k \<noteq> Some t"
  shows "\<exists>k'. rt_schedule_insert_thread t k = Some k' \<and> ready_inv k' \<and>
    threads k' = (threads k)(t := (threads k t)\<lparr>stat := RT_THREAD_READY\<rparr>) \<and>
    rt_current_thread k' = rt_current_thread k \<and> rt_interrupt_nest k' = rt_interrupt_nest k \<and>
    rt_scheduler_lock_nest k' = rt_scheduler_lock_nest k \<and>
    rt_thread_ready_priority_group k' \<noteq> 0"
proof -
  let ?p = "unat (current_priority (threads k t))"
  let ?tab = "rt_thread_priority_table k"
  have p: "?p < 32" and mask: "number_mask (threads k t) = push_bit ?p 1"
    using wf by (simp_all add: wf_thread_def)
  define k' where "k' = (set_stat t RT_THREAD_READY k)
    \<lparr>rt_thread_priority_table := ?tab[?p := ?tab ! ?p @ [t]],
     rt_thread_ready_priority_group := rt_thread_ready_priority_group k OR push_bit ?p 1\<rparr>"
  have run: "rt_schedule_insert_thread t k = Some k'"
    using cur p mask ready_invD(1) [OF inv]
    by (simp add: rt_schedule_insert_thread_def k'_def set_stat_def Let_def)
  have "t \<notin> set (?tab ! q)" if "q < 32" for q
    using ready_invD(4) [OF inv that, of t] st by simp
  then have "ready_inv k'"
    using inv p wf unfolding ready_inv_def k'_def
    by (auto simp: set_stat_def nth_list_update bit_or_iff bit_mask_prio wf_thread_def)
  moreover have "threads k' = (threads k)(t := (threads k t)\<lparr>stat := RT_THREAD_READY\<rparr>)"
    by (auto simp: k'_def set_stat_def upd_thread_def)
  moreover have "rt_thread_ready_priority_group k' \<noteq> 0"
    using bit_mask_prio(2) [OF p, of ?p] p by (auto simp: k'_def bit_eq_iff bit_or_iff intro: exI [of _ ?p])
  ultimately show ?thesis
    using run by (auto simp: k'_def set_stat_def upd_thread_def)
qed

lemma remove_thread_ready:
  assumes inv: "ready_inv k" and live: "live (stat (threads k t))" and st: "st \<noteq> RT_THREAD_READY"
  shows "\<exists>k'. rt_schedule_remove_thread t k = Some k' \<and> ready_inv (set_stat t st k') \<and>
    threads k' = threads k \<and> rt_current_thread k' = rt_current_thread k \<and>
    rt_interrupt_nest k' = rt_interrupt_nest k \<and> rt_scheduler_lock_nest k' = rt_scheduler_lock_nest k"
proof -
  let ?q = "unat (current_priority (threads k t))"
  let ?tab = "map (remove1 t) (rt_thread_priority_table k)"
  let ?grp = "rt_thread_ready_priority_group k"
  note D = ready_invD [OF inv]
  have q: "?q < 32" and mask: "number_mask (threads k t) = push_bit ?q 1"
    using D(5,6) [OF live] by simp_all
  define k' where "k' = k\<lparr>rt_thread_priority_table := ?tab,
     rt_thread_ready_priority_group := (if ?tab ! ?q = [] then ?grp AND NOT (push_bit ?q 1) else ?grp)\<rparr>"
  have run: "rt_schedule_remove_thread t k = Some k'"
    using q mask D(1) by (simp add: rt_schedule_remove_thread_def k'_def Let_def)
  have other: "remove1 t (rt_thread_priority_table k ! p) = rt_thread_priority_table k ! p"
    if "p < 32" "p \<noteq> ?q" for p
    using D(4) [OF that(1), of t] that(2) by (auto intro: remove1_idem)
  have nonempty: "remove1 t (rt_thread_priority_table k ! ?q) \<noteq> [] \<Longrightarrow>
      rt_thread_priority_table k ! ?q \<noteq> []"
    by auto
  have grp: "bit (rt_thread_ready_priority_group k') p \<longleftrightarrow> ?tab ! p \<noteq> []" if "p < 32" for p
    using D(1,2) that q other [OF that] nonempty
    by (cases "p = ?q") (auto simp: k'_def bit_and_iff bit_not_iff bit_mask_prio)
  have mem: "u \<in> set (?tab ! p) \<longleftrightarrow> u \<noteq> t \<and> stat (threads k u) = RT_THREAD_READY \<and>
      unat (current_priority (threads k u)) = p" if "p < 32" for p u
    using D(1,3,4) that by (simp add: set_remove1_eq) blast
  have dist: "distinct (?tab ! p)" if "p < 32" for p
    using D(1,3) that by simp
  have "ready_inv (set_stat t st k')"
    unfolding ready_inv_def
    using D(1) grp mem dist D(5,6) live st
    by (auto simp: k'_def set_stat_def wf_thread_def simp del: nth_map)
  then show ?thesis
    using run by (auto simp: k'_def)
qed

lemma get_highest_ready:
  assumes inv: "ready_inv k" and ne: "rt_thread_ready_priority_group k \<noteq> 0"
  shows "\<exists>t. get_highest_priority_thread k = Some (t, unat (current_priority (threads k t))) \<and>
    stat (threads k t) = RT_THREAD_READY \<and>
    (\<forall>u. stat (threads k u) = RT_THREAD_READY \<longrightarrow>
       current_priority (threads k t) \<le> current_priority (threads k u))"
proof -
  let ?g = "rt_thread_ready_priority_group k"
  let ?p = "rt_ffs ?g - 1"
  note D = ready_invD [OF inv]
  have bit: "bit ?g ?p" and low: "\<And>j. j < ?p \<Longrightarrow> \<not> bit ?g j"
    using rt_ffs_first [OF ne] by auto
  have p: "?p < 32"
    using bit_imp_le_length [OF bit] by simp
  then obtain t q where q: "rt_thread_priority_table k ! ?p = t # q"
    using D(2) bit by (meson neq_Nil_conv)
  then have t: "stat (threads k t) = RT_THREAD_READY" "unat (current_priority (threads k t)) = ?p"
    using D(4) [OF p, of t] by auto
  have "current_priority (threads k t) \<le> current_priority (threads k u)"
    if u: "stat (threads k u) = RT_THREAD_READY" for u
  proof -
    let ?pu = "unat (current_priority (threads k u))"
    have pu: "?pu < 32"
      using D(5) [of u] u by (simp add: live_def)
    have "bit ?g ?pu"
      using D(2) [OF pu] D(4) [OF pu, of u] u by auto
    then have "?p \<le> ?pu"
      using low by (meson linorder_not_le)
    then show ?thesis
      using t(2) by (simp add: word_le_nat_alt)
  qed
  moreover have "get_highest_priority_thread k = Some (t, unat (current_priority (threads k t)))"
    using q p D(1) t(2) by (simp add: get_highest_priority_thread_def Let_def)
  ultimately show ?thesis
    using t by blast
qed

lemma group_zero_iff:
  assumes "ready_inv k"
  shows "rt_thread_ready_priority_group k = 0 \<longleftrightarrow> (\<forall>t. stat (threads k t) \<noteq> RT_THREAD_READY)"
proof
  assume z: "rt_thread_ready_priority_group k = 0"
  show "\<forall>t. stat (threads k t) \<noteq> RT_THREAD_READY"
  proof
    fix t
    show "stat (threads k t) \<noteq> RT_THREAD_READY"
      using z ready_invD(2,4) [OF assms] ready_invD(5) [OF assms, of t] by (force simp: live_def)
  qed
next
  assume "\<forall>t. stat (threads k t) \<noteq> RT_THREAD_READY"
  then show "rt_thread_ready_priority_group k = 0"
    using get_highest_ready [OF assms] by blast
qed

text \<open>
  What a schedule achieves: the chosen thread runs, every other thread keeps its
  state except that a preempted one becomes ready, and no ready thread has a
  higher priority than the one that runs.
\<close>

definition scheduled :: "kernel \<Rightarrow> kernel \<Rightarrow> tid \<Rightarrow> bool" where
  "scheduled k k' t \<longleftrightarrow> kinv k' \<and> rt_current_thread k' = Some t \<and>
     stat (threads k' t) = RT_THREAD_RUNNING \<and>
     (\<forall>u. stat (threads k' u) = RT_THREAD_READY \<longrightarrow>
        current_priority (threads k' t) \<le> current_priority (threads k' u)) \<and>
     (\<forall>u. \<exists>st. threads k' u = (threads k u)\<lparr>stat := st\<rparr> \<and>
        (st = stat (threads k u) \<or>
         u = t \<and> stat (threads k u) = RT_THREAD_READY \<and> st = RT_THREAD_RUNNING \<or>
         rt_current_thread k = Some u \<and> stat (threads k u) = RT_THREAD_RUNNING \<and> st = RT_THREAD_READY))"

lemma schedule_keep:
  assumes inv: "kinv k" and cur: "rt_current_thread k = Some c"
    and run: "stat (threads k c) = RT_THREAD_RUNNING"
    and lt: "\<And>u. stat (threads k u) = RT_THREAD_READY \<Longrightarrow>
      current_priority (threads k c) \<le> current_priority (threads k u)"
  shows "\<exists>k'. (do { k1 \<leftarrow> rt_schedule_remove_thread c k;
      Some (set_stat c RT_THREAD_RUNNING k1) }) = Some k' \<and> scheduled k k' c"
proof -
  have "ready_inv k" using inv by (simp add: kinv_def)
  then obtain k1 where k1: "rt_schedule_remove_thread c k = Some k1"
    "ready_inv (set_stat c RT_THREAD_RUNNING k1)" "threads k1 = threads k"
    "rt_current_thread k1 = rt_current_thread k"
    using remove_thread_ready [of k c RT_THREAD_RUNNING] run by (auto simp: live_def)
  let ?k' = "set_stat c RT_THREAD_RUNNING k1"
  have th: "threads ?k' u = threads k u" for u
    using k1(3) run by (simp add: set_stat_def)
  moreover have cur': "rt_current_thread ?k' = Some c"
    using k1(4) cur by (simp add: set_stat_def)
  moreover have "kinv ?k'"
    using inv k1(2) cur cur' by (auto simp: kinv_def th)
  moreover have "\<exists>st. threads k u = (threads k u)\<lparr>stat := st\<rparr> \<and> st = stat (threads k u)" for u
    by simp
  ultimately have "scheduled k ?k' c"
    unfolding scheduled_def using lt run by metis
  then show ?thesis
    using k1(1) by simp
qed

lemma scheduled_ready:
  assumes "stat (threads k u) = RT_THREAD_READY" "scheduled k k' t"
  shows "stat (threads k' u) = RT_THREAD_READY \<or> rt_current_thread k' = Some u"
proof -
  have "\<exists>st. threads k' u = (threads k u)\<lparr>stat := st\<rparr> \<and> (st = stat (threads k u) \<or>
         u = t \<and> stat (threads k u) = RT_THREAD_READY \<and> st = RT_THREAD_RUNNING \<or>
         rt_current_thread k = Some u \<and> stat (threads k u) = RT_THREAD_RUNNING \<and> st = RT_THREAD_READY)"
    using assms(2) unfolding scheduled_def by blast
  then show ?thesis
    using assms by (auto simp: scheduled_def)
qed

lemma scheduled_fields:
  assumes "scheduled k k' t"
  shows "error (threads k' u) = error (threads k u)"
    "event_set (threads k' u) = event_set (threads k u)"
    "event_info (threads k' u) = event_info (threads k u)"
    "current_priority (threads k' u) = current_priority (threads k u)"
proof -
  obtain st where "threads k' u = (threads k u)\<lparr>stat := st\<rparr>"
    using assms unfolding scheduled_def by blast
  then show "error (threads k' u) = error (threads k u)"
    "event_set (threads k' u) = event_set (threads k u)"
    "event_info (threads k' u) = event_info (threads k u)"
    "current_priority (threads k' u) = current_priority (threads k u)"
    by simp_all
qed

lemma scheduled_suspended:
  assumes "stat (threads k u) = RT_THREAD_SUSPEND" "scheduled k k' t"
  shows "threads k' u = threads k u"
proof -
  have "\<exists>st. threads k' u = (threads k u)\<lparr>stat := st\<rparr> \<and> (st = stat (threads k u) \<or>
         u = t \<and> stat (threads k u) = RT_THREAD_READY \<and> st = RT_THREAD_RUNNING \<or>
         rt_current_thread k = Some u \<and> stat (threads k u) = RT_THREAD_RUNNING \<and> st = RT_THREAD_READY)"
    using assms(2) unfolding scheduled_def by blast
  with assms(1) show ?thesis by auto
qed

lemma schedule_switch:
  assumes inv: "kinv k" and cur: "rt_current_thread k = Some c"
    and t: "stat (threads k t) = RT_THREAD_READY"
    and high: "\<And>u. stat (threads k u) = RT_THREAD_READY \<Longrightarrow>
      current_priority (threads k t) \<le> current_priority (threads k u)"
    and le: "stat (threads k c) = RT_THREAD_RUNNING \<Longrightarrow>
      current_priority (threads k t) \<le> current_priority (threads k c)"
    and neq: "t \<noteq> c"
  shows "\<exists>k'. (do {
      let k = k\<lparr>rt_current_priority := p, rt_current_thread := Some t\<rparr>;
      k \<leftarrow> (if stat (threads k c) = RT_THREAD_RUNNING then rt_schedule_insert_thread c k else Some k);
      k \<leftarrow> rt_schedule_remove_thread t k;
      Some (set_stat t RT_THREAD_RUNNING k) }) = Some k' \<and> scheduled k k' t"
proof -
  let ?k = "k\<lparr>rt_current_priority := p, rt_current_thread := Some t\<rparr>"
  let ?run = "stat (threads k c) = RT_THREAD_RUNNING"
  have inv0: "ready_inv ?k" and only: "\<And>u. stat (threads k u) = RT_THREAD_RUNNING \<Longrightarrow> u = c"
    using inv cur by (auto simp: kinv_def ready_inv_def)
  have "\<exists>k1. (if ?run then rt_schedule_insert_thread c ?k else Some ?k) = Some k1 \<and> ready_inv k1 \<and>
      threads k1 = (if ?run then (threads k)(c := (threads k c)\<lparr>stat := RT_THREAD_READY\<rparr>) else threads k) \<and>
      rt_current_thread k1 = Some t"
  proof (cases ?run)
    case True
    have "wf_thread (threads k c)"
      using inv True by (auto simp: kinv_def ready_inv_def live_def)
    then show ?thesis
      using insert_thread_ready [OF inv0, of c] True neq by auto
  next
    case False
    then show ?thesis using inv0 by simp
  qed
  then obtain k1 where k1: "(if ?run then rt_schedule_insert_thread c ?k else Some ?k) = Some k1"
    "ready_inv k1" "rt_current_thread k1 = Some t"
    and th: "threads k1 = (if ?run then (threads k)(c := (threads k c)\<lparr>stat := RT_THREAD_READY\<rparr>) else threads k)"
    by blast
  have "live (stat (threads k1 t))"
    using th t neq by (simp add: live_def)
  then obtain k2 where k2: "rt_schedule_remove_thread t k1 = Some k2"
    "ready_inv (set_stat t RT_THREAD_RUNNING k2)" "threads k2 = threads k1"
    "rt_current_thread k2 = Some t"
    using remove_thread_ready [OF k1(2), of t RT_THREAD_RUNNING] k1(3) by auto
  let ?k' = "set_stat t RT_THREAD_RUNNING k2"
  have th': "threads ?k' u = (if u = t then (threads k t)\<lparr>stat := RT_THREAD_RUNNING\<rparr>
      else if u = c \<and> ?run then (threads k c)\<lparr>stat := RT_THREAD_READY\<rparr> else threads k u)" for u
    using k2(3) th neq by (simp add: set_stat_def)
  have cur': "rt_current_thread ?k' = Some t"
    using k2(4) by (simp add: set_stat_def)
  then have "kinv ?k'"
    using k2(2) only by (auto simp: kinv_def th' split: if_splits)
  moreover have "current_priority (threads ?k' t) \<le> current_priority (threads ?k' u)"
    if "stat (threads ?k' u) = RT_THREAD_READY" for u
    using that high [of u] le by (auto simp: th' split: if_splits)
  moreover have "\<exists>st. threads ?k' u = (threads k u)\<lparr>stat := st\<rparr> \<and>
      (st = stat (threads k u) \<or>
       u = t \<and> stat (threads k u) = RT_THREAD_READY \<and> st = RT_THREAD_RUNNING \<or>
       rt_current_thread k = Some u \<and> stat (threads k u) = RT_THREAD_RUNNING \<and> st = RT_THREAD_READY)" for u
    using cur t by (auto simp: th' intro: exI [of _ "stat (threads k u)"])
  ultimately have "scheduled k ?k' t"
    using cur' by (simp add: scheduled_def th')
  then show ?thesis
    using k1(1) k2(1) by (simp add: Let_def)
qed

lemma rt_schedule_correct:
  assumes inv: "kinv k" and cur: "rt_current_thread k = Some c" and lock: "rt_scheduler_lock_nest k = 0"
    and some: "\<exists>u. stat (threads k u) = RT_THREAD_READY \<or> stat (threads k u) = RT_THREAD_RUNNING"
  shows "\<exists>k' t. rt_schedule k = Some k' \<and> scheduled k k' t"
proof (cases "rt_thread_ready_priority_group k = 0")
  case True
  then have none: "\<And>t. stat (threads k t) \<noteq> RT_THREAD_READY"
    using group_zero_iff inv by (auto simp: kinv_def)
  then obtain u where "stat (threads k u) = RT_THREAD_RUNNING"
    using some by blast
  then have "stat (threads k c) = RT_THREAD_RUNNING"
    using inv cur by (auto simp: kinv_def)
  moreover have "threads k u = (threads k u)\<lparr>stat := stat (threads k u)\<rparr>" for u
    by simp
  ultimately have "scheduled k k c"
    unfolding scheduled_def using inv cur none by blast
  then show ?thesis
    using True by (auto simp: rt_schedule_def)
next
  case False
  have rinv: "ready_inv k" using inv by (simp add: kinv_def)
  obtain t where t: "get_highest_priority_thread k = Some (t, unat (current_priority (threads k t)))"
    "stat (threads k t) = RT_THREAD_READY"
    "\<And>u. stat (threads k u) = RT_THREAD_READY \<Longrightarrow>
       current_priority (threads k t) \<le> current_priority (threads k u)"
    using get_highest_ready [OF rinv False] by blast
  let ?keep = "stat (threads k c) = RT_THREAD_RUNNING \<and>
    unat (current_priority (threads k c)) < unat (current_priority (threads k t))"
  show ?thesis
  proof (cases ?keep)
    case True
    then have "\<And>u. stat (threads k u) = RT_THREAD_READY \<Longrightarrow>
        current_priority (threads k c) \<le> current_priority (threads k u)"
      using t(3) by (meson order.strict_implies_order order_trans word_less_nat_alt)
    then show ?thesis
      using schedule_keep [OF inv cur] True False lock t(1) cur
      by (auto simp: rt_schedule_def Let_def)
  next
    case nk: False
    have neq: "t \<noteq> c"
      using t(2) inv cur by (auto simp: kinv_def)
    have le: "stat (threads k c) = RT_THREAD_RUNNING \<Longrightarrow>
          current_priority (threads k t) \<le> current_priority (threads k c)"
      using nk by (simp add: word_le_nat_alt)
    show ?thesis
      using schedule_switch [OF inv cur t(2) t(3) le neq,
          of "of_nat (unat (current_priority (threads k t)))"] nk neq False lock t(1) cur
      by (auto simp: rt_schedule_def Let_def)
  qed
qed

text \<open>Changes that leave the scheduling fields of a thread alone keep the invariant.\<close>

lemma kinv_upd_thread:
  assumes "stat (f (threads k t)) = stat (threads k t)"
    "current_priority (f (threads k t)) = current_priority (threads k t)"
    "number_mask (f (threads k t)) = number_mask (threads k t)"
  shows "kinv (upd_thread t f k) \<longleftrightarrow> kinv k"
proof -
  have "stat (threads (upd_thread t f k) u) = stat (threads k u)"
    "current_priority (threads (upd_thread t f k) u) = current_priority (threads k u)"
    "number_mask (threads (upd_thread t f k) u) = number_mask (threads k u)" for u
    using assms by simp_all
  then show ?thesis
    unfolding kinv_def ready_inv_def wf_thread_def by (simp del: threads_upd_thread(1))
qed

lemma rt_thread_suspend_self:
  assumes inv: "kinv k" and cur: "rt_current_thread k = Some t"
    and run: "stat (threads k t) = RT_THREAD_RUNNING"
  shows "\<exists>k'. rt_thread_suspend t k = Some (RT_EOK, k') \<and> kinv k' \<and>
    threads k' = (threads k)(t := (threads k t)\<lparr>stat := RT_THREAD_SUSPEND, thread_timer := None\<rparr>) \<and>
    rt_current_thread k' = Some t \<and> rt_interrupt_nest k' = rt_interrupt_nest k \<and>
    rt_scheduler_lock_nest k' = rt_scheduler_lock_nest k"
proof -
  have "ready_inv k" "live (stat (threads k t))"
    using inv run by (simp_all add: kinv_def live_def)
  then obtain k1 where k1: "rt_schedule_remove_thread t k = Some k1"
    "ready_inv (set_stat t RT_THREAD_SUSPEND k1)" "threads k1 = threads k"
    "rt_current_thread k1 = Some t" "rt_interrupt_nest k1 = rt_interrupt_nest k"
    "rt_scheduler_lock_nest k1 = rt_scheduler_lock_nest k"
    using remove_thread_ready [of k t RT_THREAD_SUSPEND] cur by auto
  let ?k' = "timer_stop t (set_stat t RT_THREAD_SUSPEND k1)"
  have "kinv (set_stat t RT_THREAD_SUSPEND k1)"
    using k1 inv cur by (auto simp: kinv_def set_stat_def)
  then have "kinv ?k'"
    by (simp add: timer_stop_def kinv_upd_thread)
  moreover have "threads ?k' =
      (threads k)(t := (threads k t)\<lparr>stat := RT_THREAD_SUSPEND, thread_timer := None\<rparr>)"
    using k1(3) by (auto simp: thread_updates)
  ultimately show ?thesis
    using k1 run cur by (simp add: rt_thread_suspend_def thread_updates)
qed

lemma ready_inv_set_stat:
  assumes "ready_inv k" "stat (threads k t) \<noteq> RT_THREAD_READY" "st \<noteq> RT_THREAD_READY"
    "wf_thread (threads k t)"
  shows "ready_inv (set_stat t st k)"
proof -
  have "wf_thread ((threads k t)\<lparr>stat := st\<rparr>)"
    using assms(4) by (simp add: wf_thread_def)
  with assms show ?thesis
    unfolding ready_inv_def set_stat_def by auto
qed

lemma rt_thread_resume_ok:
  assumes inv: "kinv k" and st: "stat (threads k t) = RT_THREAD_SUSPEND"
  shows "\<exists>k'. rt_thread_resume t sus k = Some (RT_EOK, remove1 t sus, k') \<and> kinv k' \<and>
    threads k' = (threads k)(t := (threads k t)
      \<lparr>stat := (if rt_current_thread k = Some t then RT_THREAD_RUNNING else RT_THREAD_READY),
       thread_timer := None\<rparr>) \<and>
    rt_current_thread k' = rt_current_thread k \<and> rt_interrupt_nest k' = rt_interrupt_nest k \<and>
    rt_scheduler_lock_nest k' = rt_scheduler_lock_nest k"
proof -
  let ?k0 = "timer_stop t k"
  have inv0: "kinv ?k0" and st0: "stat (threads ?k0 t) = RT_THREAD_SUSPEND"
    using inv st by (simp_all add: timer_stop_def kinv_upd_thread)
  then have wf: "wf_thread (threads ?k0 t)"
    by (auto simp: kinv_def ready_inv_def live_def)
  show ?thesis
  proof (cases "rt_current_thread k = Some t")
    case True
    let ?k' = "set_stat t RT_THREAD_RUNNING ?k0"
    have "ready_inv ?k'"
      using inv0 st0 wf by (intro ready_inv_set_stat) (simp_all add: kinv_def)
    then have "kinv ?k'"
      using inv0 True by (auto simp: kinv_def thread_updates)
    moreover have "threads ?k' =
        (threads k)(t := (threads k t)\<lparr>stat := RT_THREAD_RUNNING, thread_timer := None\<rparr>)"
      by (auto simp: thread_updates)
    ultimately show ?thesis
      using True st by (simp add: rt_thread_resume_def rt_schedule_insert_thread_def thread_updates)
  next
    case False
    then obtain k' where k': "rt_schedule_insert_thread t ?k0 = Some k'" "ready_inv k'"
      "threads k' = (threads ?k0)(t := (threads ?k0 t)\<lparr>stat := RT_THREAD_READY\<rparr>)"
      "rt_current_thread k' = rt_current_thread ?k0" "rt_interrupt_nest k' = rt_interrupt_nest ?k0"
      "rt_scheduler_lock_nest k' = rt_scheduler_lock_nest ?k0"
      using insert_thread_ready [of ?k0 t] inv0 st0 wf by (auto simp: kinv_def timer_stop_def)
    have "kinv k'"
      using k' inv0 False by (auto simp: kinv_def timer_stop_def)
    moreover have "threads k' =
        (threads k)(t := (threads k t)\<lparr>stat := RT_THREAD_READY, thread_timer := None\<rparr>)"
      using k'(3) by (auto simp: thread_updates)
    ultimately show ?thesis
      using k' False st by (simp add: rt_thread_resume_def timer_stop_def)
  qed
qed

end
