(* ===== verification/Rt_Ipc.thy ===== *)
theory Rt_Ipc
  imports Rt_Kernel
begin

text \<open>
  The list of suspended threads that every IPC object of \<^verbatim>\<open>Kernel/ipc.c\<close> has, in
  arrival or in priority order, and the operations on it.
\<close>

section \<open>Suspend lists\<close>

datatype ipc_flag = RT_IPC_FLAG_FIFO | RT_IPC_FLAG_PRIO

record rt_ipc_object =
  flag :: ipc_flag
  suspend_thread :: "tid list"

fun insert_prio :: "kernel \<Rightarrow> tid \<Rightarrow> tid list \<Rightarrow> tid list" where
  "insert_prio k thread [] = [thread]"
| "insert_prio k thread (sthread # n) =
     (if current_priority (threads k thread) < current_priority (threads k sthread)
      then thread # sthread # n
      else sthread # insert_prio k thread n)"

definition rt_ipc_list_suspend ::
  "tid list \<Rightarrow> tid \<Rightarrow> ipc_flag \<Rightarrow> kernel \<Rightarrow> (tid list \<times> kernel) option" where
  "rt_ipc_list_suspend list thread fl k = do {
     (_, k) \<leftarrow> rt_thread_suspend thread k;
     Some (case fl of
         RT_IPC_FLAG_FIFO \<Rightarrow> (list @ [thread], k)
       | RT_IPC_FLAG_PRIO \<Rightarrow> (insert_prio k thread list, k))
   }"

definition rt_ipc_list_resume :: "tid list \<Rightarrow> kernel \<Rightarrow> (tid list \<times> kernel) option" where
  "rt_ipc_list_resume list k = do {
     thread \<leftarrow> rd list 0;
     (_, list, k) \<leftarrow> rt_thread_resume thread list k;
     Some (list, k)
   }"

text \<open>The loop runs until the list is empty, and for ever if a thread cannot be resumed.\<close>

partial_function (option) rt_ipc_list_resume_all ::
  "tid list \<Rightarrow> kernel \<Rightarrow> (tid list \<times> kernel) option" where
  "rt_ipc_list_resume_all list k =
    (if list = [] then Some (list, k)
     else do {
       thread \<leftarrow> rd list 0;
       (_, list, k) \<leftarrow> rt_thread_resume thread list (set_error thread (- RT_ERROR) k);
       rt_ipc_list_resume_all list k
     })"

definition RT_IPC_CMD_RESET :: int where "RT_IPC_CMD_RESET = 1"

section \<open>What the list operations do\<close>

text \<open>The threads of a suspend list are suspended and listed once.\<close>

definition sus_ok :: "kernel \<Rightarrow> tid list \<Rightarrow> bool" where
  "sus_ok k list \<longleftrightarrow> distinct list \<and> (\<forall>t \<in> set list. stat (threads k t) = RT_THREAD_SUSPEND)"

lemma sus_ok_Nil [simp]: "sus_ok k []"
  by (simp add: sus_ok_def)

lemma set_insert_prio [simp]: "set (insert_prio k t list) = insert t (set list)"
  by (induction list) auto

lemma distinct_insert_prio [simp]:
  "distinct (insert_prio k t list) \<longleftrightarrow> t \<notin> set list \<and> distinct list"
  by (induction list) auto

lemma insert_prio_sorted:
  assumes "sorted (map (\<lambda>t. current_priority (threads k t)) list)"
  shows "sorted (map (\<lambda>t. current_priority (threads k t)) (insert_prio k t list))"
  using assms by (induction list) (auto simp: not_less)

text \<open>Threads of equal priority are served in arrival order.\<close>

lemma insert_prio_split:
  assumes "sorted (map (\<lambda>t. current_priority (threads k t)) list)"
  shows "insert_prio k t list =
    takeWhile (\<lambda>s. current_priority (threads k s) \<le> current_priority (threads k t)) list @
    t # dropWhile (\<lambda>s. current_priority (threads k s) \<le> current_priority (threads k t)) list"
  using assms by (induction list) (auto simp: not_less)

lemma insert_prio_cong:
  assumes "\<And>u. u \<in> insert t (set list) \<Longrightarrow>
    current_priority (threads k u) = current_priority (threads k' u)"
  shows "insert_prio k t list = insert_prio k' t list"
  using assms by (induction list) auto

lemma rt_ipc_list_suspend_ok:
  assumes inv: "kinv k" and cur: "rt_current_thread k = Some t"
    and run: "stat (threads k t) = RT_THREAD_RUNNING" and sus: "sus_ok k list"
  shows "\<exists>list' k'. rt_ipc_list_suspend list t fl k = Some (list', k') \<and> kinv k' \<and> sus_ok k' list' \<and>
    list' = (case fl of RT_IPC_FLAG_FIFO \<Rightarrow> list @ [t] | RT_IPC_FLAG_PRIO \<Rightarrow> insert_prio k t list) \<and>
    threads k' = (threads k)(t := (threads k t)\<lparr>stat := RT_THREAD_SUSPEND, thread_timer := None\<rparr>) \<and>
    rt_current_thread k' = Some t \<and> rt_interrupt_nest k' = rt_interrupt_nest k \<and>
    rt_scheduler_lock_nest k' = rt_scheduler_lock_nest k"
proof -
  obtain k' where k': "rt_thread_suspend t k = Some (RT_EOK, k')" "kinv k'"
    "threads k' = (threads k)(t := (threads k t)\<lparr>stat := RT_THREAD_SUSPEND, thread_timer := None\<rparr>)"
    "rt_current_thread k' = Some t" "rt_interrupt_nest k' = rt_interrupt_nest k"
    "rt_scheduler_lock_nest k' = rt_scheduler_lock_nest k"
    using rt_thread_suspend_self [OF inv cur run] by blast
  have "insert_prio k' t list = insert_prio k t list"
    by (rule insert_prio_cong) (simp add: k'(3))
  moreover have "t \<notin> set list"
    using sus run by (auto simp: sus_ok_def)
  ultimately show ?thesis
    using k' sus by (cases fl) (auto simp: rt_ipc_list_suspend_def sus_ok_def)
qed

lemma rt_ipc_list_resume_ok:
  assumes inv: "kinv k" and sus: "sus_ok k (t # list)"
  shows "\<exists>k'. rt_ipc_list_resume (t # list) k = Some (list, k') \<and> kinv k' \<and> sus_ok k' list \<and>
    threads k' = (threads k)(t := (threads k t)
      \<lparr>stat := (if rt_current_thread k = Some t then RT_THREAD_RUNNING else RT_THREAD_READY),
       thread_timer := None\<rparr>) \<and>
    rt_current_thread k' = rt_current_thread k \<and> rt_interrupt_nest k' = rt_interrupt_nest k \<and>
    rt_scheduler_lock_nest k' = rt_scheduler_lock_nest k"
proof -
  have st: "stat (threads k t) = RT_THREAD_SUSPEND" and t: "t \<notin> set list"
    using sus by (simp_all add: sus_ok_def)
  from rt_thread_resume_ok [OF inv st, of "t # list"] obtain k' where
    k': "rt_thread_resume t (t # list) k = Some (RT_EOK, list, k')" "kinv k'"
    "threads k' = (threads k)(t := (threads k t)
      \<lparr>stat := (if rt_current_thread k = Some t then RT_THREAD_RUNNING else RT_THREAD_READY),
       thread_timer := None\<rparr>)"
    "rt_current_thread k' = rt_current_thread k" "rt_interrupt_nest k' = rt_interrupt_nest k"
    "rt_scheduler_lock_nest k' = rt_scheduler_lock_nest k"
    by auto
  then show ?thesis
    using sus t by (auto simp: rt_ipc_list_resume_def sus_ok_def)
qed

text \<open>
  The loop of \<^verbatim>\<open>rt_ipc_list_resume_all\<close> ends, and every thread of the list has
  the error code and can run.
\<close>

lemma rt_ipc_list_resume_all_ok:
  assumes "kinv k" "sus_ok k list"
  shows "\<exists>k'. rt_ipc_list_resume_all list k = Some ([], k') \<and> kinv k' \<and>
    (\<forall>t. threads k' t = (if t \<in> set list then (threads k t)
      \<lparr>error := - RT_ERROR, thread_timer := None,
       stat := (if rt_current_thread k = Some t then RT_THREAD_RUNNING else RT_THREAD_READY)\<rparr>
      else threads k t)) \<and>
    rt_current_thread k' = rt_current_thread k \<and>
    rt_scheduler_lock_nest k' = rt_scheduler_lock_nest k"
  using assms
proof (induction list arbitrary: k)
  case Nil
  then show ?case by (simp add: rt_ipc_list_resume_all.simps)
next
  case (Cons t list)
  let ?k0 = "set_error t (- RT_ERROR) k"
  have inv0: "kinv ?k0" and st0: "stat (threads ?k0 t) = RT_THREAD_SUSPEND"
    using Cons.prems by (simp_all add: set_error_def kinv_upd_thread sus_ok_def)
  from rt_thread_resume_ok [OF inv0 st0, of "t # list"] obtain k1 where
    k1: "rt_thread_resume t (t # list) ?k0 = Some (RT_EOK, list, k1)" "kinv k1"
    "rt_current_thread k1 = rt_current_thread k"
    "rt_scheduler_lock_nest k1 = rt_scheduler_lock_nest k"
    and th1: "threads k1 = (threads ?k0)(t := (threads ?k0 t)
      \<lparr>stat := (if rt_current_thread ?k0 = Some t then RT_THREAD_RUNNING else RT_THREAD_READY),
       thread_timer := None\<rparr>)"
    by (auto simp: set_error_def)
  have "sus_ok k1 list"
    using Cons.prems(2) by (auto simp: sus_ok_def th1 set_error_def)
  from Cons.IH [OF k1(2) this] obtain k2 where
    k2: "rt_ipc_list_resume_all list k1 = Some ([], k2)" "kinv k2"
    "rt_current_thread k2 = rt_current_thread k1"
    "rt_scheduler_lock_nest k2 = rt_scheduler_lock_nest k1"
    and th2: "\<And>u. threads k2 u = (if u \<in> set list then (threads k1 u)
      \<lparr>error := - RT_ERROR, thread_timer := None,
       stat := (if rt_current_thread k1 = Some u then RT_THREAD_RUNNING else RT_THREAD_READY)\<rparr>
      else threads k1 u)"
    by blast
  have "rt_ipc_list_resume_all (t # list) k = Some ([], k2)"
    using k1(1) k2(1) by (subst rt_ipc_list_resume_all.simps) simp
  moreover have "t \<notin> set list"
    using Cons.prems(2) by (simp add: sus_ok_def)
  ultimately show ?case
    using k2 k1(3,4) by (auto simp: th2 th1 set_error_def)
qed

section \<open>Blocking and waking\<close>

text \<open>
  How every operation blocks its caller, and how it wakes the first waiter. \<open>keeps A k k'\<close>: between
  \<open>k\<close> and \<open>k'\<close> threads have only changed their states and timers, and the suspended ones outside
  \<open>A\<close> not at all.
\<close>

definition ipc_block ::
  "tid list \<Rightarrow> tid \<Rightarrow> ipc_flag \<Rightarrow> int \<Rightarrow> kernel \<Rightarrow> (tid list \<times> kernel) option" where
  "ipc_block list thread fl time k = do {
     (list, k) \<leftarrow> rt_ipc_list_suspend list thread fl k;
     let k = (if 0 < time then timer_start thread time k else k);
     k \<leftarrow> rt_schedule k;
     Some (list, k)
   }"

definition ipc_wake :: "tid list \<Rightarrow> kernel \<Rightarrow> (tid list \<times> kernel) option" where
  "ipc_wake list k = do {
     (list, k) \<leftarrow> rt_ipc_list_resume list k;
     k \<leftarrow> rt_schedule k;
     Some (list, k)
   }"

definition keeps :: "tid set \<Rightarrow> kernel \<Rightarrow> kernel \<Rightarrow> bool" where
  "keeps A k k' \<longleftrightarrow>
     (\<forall>u. error (threads k' u) = error (threads k u) \<and>
          current_priority (threads k' u) = current_priority (threads k u) \<and>
          (u \<notin> A \<longrightarrow> stat (threads k u) = RT_THREAD_SUSPEND \<longrightarrow> threads k' u = threads k u)) \<and>
     rt_scheduler_lock_nest k' = rt_scheduler_lock_nest k \<and> rt_interrupt_nest k' = rt_interrupt_nest k"

text \<open>The suspend list with one more thread.\<close>

definition sus_insert :: "ipc_flag \<Rightarrow> kernel \<Rightarrow> tid \<Rightarrow> tid list \<Rightarrow> tid list" where
  "sus_insert fl k t list =
    (case fl of RT_IPC_FLAG_FIFO \<Rightarrow> list @ [t] | RT_IPC_FLAG_PRIO \<Rightarrow> insert_prio k t list)"

lemma length_insert_prio [simp]: "length (insert_prio k t list) = Suc (length list)"
  by (induction list) auto

lemma sus_insert_simps [simp]:
  "set (sus_insert fl k t list) = insert t (set list)"
  "length (sus_insert fl k t list) = Suc (length list)"
  "distinct (sus_insert fl k t list) \<longleftrightarrow> t \<notin> set list \<and> distinct list"
  "sus_insert fl k t list \<noteq> []"
  by (cases fl; auto simp: sus_insert_def simp flip: length_0_conv)+

lemma sus_insert_cong:
  assumes "\<And>u. current_priority (threads k u) = current_priority (threads k' u)"
  shows "sus_insert fl k t list = sus_insert fl k' t list"
  using insert_prio_cong [OF assms] by (cases fl) (auto simp: sus_insert_def)

lemma sus_insert_set_error [simp]: "sus_insert fl (set_error u e k) t list = sus_insert fl k t list"
  by (rule sus_insert_cong) (simp add: set_error_def)

text \<open>
  The outcome of a call that may block: an error code with the value it delivers, or the caller
  waits. What is left of a timeout when the caller runs again after \<open>tick_delta\<close> ticks:
  \<^verbatim>\<open>timeout -= tick_delta\<close> on 32 bits, and 0 if that is negative.
\<close>

datatype 'v ipc_result = Ipc_Done rt_err_t "'v option" | Ipc_Wait tid

definition wait_left :: "int \<Rightarrow> 32 word \<Rightarrow> int" where
  "wait_left timeout tick_delta =
    (if 0 < timeout
     then let t = sint (word_of_int (timeout - uint tick_delta) :: 32 word) in if t < 0 then 0 else t
     else timeout)"

abbreviation (input) RT_EFULL :: rt_err_t where "RT_EFULL \<equiv> 3"

text \<open>The kernel runs a thread and the scheduler is not locked.\<close>

definition runs :: "tid \<Rightarrow> kernel \<Rightarrow> bool" where
  "runs t k \<longleftrightarrow> kinv k \<and> rt_current_thread k = Some t \<and> stat (threads k t) = RT_THREAD_RUNNING \<and>
     rt_scheduler_lock_nest k = 0"

lemma rt_schedule_nests:
  "rt_schedule k = Some k' \<Longrightarrow> rt_scheduler_lock_nest k' = rt_scheduler_lock_nest k"
  "rt_schedule k = Some k' \<Longrightarrow> rt_interrupt_nest k' = rt_interrupt_nest k"
  by (auto simp: rt_schedule_def rt_schedule_remove_thread_def rt_schedule_insert_thread_def
      get_highest_priority_thread_def thread_updates Let_def split: if_splits bind_splits)

lemma sus_okI: "distinct list \<Longrightarrow> (\<And>t. t \<in> set list \<Longrightarrow> stat (threads k t) = RT_THREAD_SUSPEND) \<Longrightarrow> sus_ok k list"
  by (simp add: sus_ok_def)

lemma scheduled_runs:
  "scheduled k k' v \<Longrightarrow> rt_scheduler_lock_nest k' = 0 \<Longrightarrow> runs v k'"
  by (simp add: runs_def scheduled_def)

lemma ipc_block_ok:
  assumes run: "runs t k" and sus: "sus_ok k list" and ready: "stat (threads k u) = RT_THREAD_READY"
  shows "\<exists>k' v. ipc_block list t fl time k =
      Some (sus_insert fl k t list, k') \<and>
    runs v k' \<and> keeps {t} k k' \<and>
    sus_ok k' (sus_insert fl k t list)"
proof -
  let ?list = "sus_insert fl k t list"
  have k: "kinv k" "rt_current_thread k = Some t" "stat (threads k t) = RT_THREAD_RUNNING"
    "rt_scheduler_lock_nest k = 0"
    using run by (simp_all add: runs_def)
  obtain k1 where k1: "rt_ipc_list_suspend list t fl k = Some (?list, k1)" "kinv k1" "sus_ok k1 ?list"
    "rt_current_thread k1 = Some t" "rt_scheduler_lock_nest k1 = 0" "rt_interrupt_nest k1 = rt_interrupt_nest k"
    and th1: "threads k1 = (threads k)(t := (threads k t)\<lparr>stat := RT_THREAD_SUSPEND, thread_timer := None\<rparr>)"
    using rt_ipc_list_suspend_ok [OF k(1-3) sus, of fl] k(4) by (auto simp: sus_insert_def)
  let ?k2 = "if 0 < time then timer_start t time k1 else k1"
  have k2: "kinv ?k2" "rt_current_thread ?k2 = Some t" "rt_scheduler_lock_nest ?k2 = 0"
    "rt_interrupt_nest ?k2 = rt_interrupt_nest k"
    using k1 by (simp_all add: timer_start_def kinv_upd_thread)
  have th2: "v \<noteq> t \<Longrightarrow> threads ?k2 v = threads k v" "stat (threads ?k2 t) = RT_THREAD_SUSPEND"
    "error (threads ?k2 v) = error (threads k v)"
    "current_priority (threads ?k2 v) = current_priority (threads k v)" for v
    using th1 by (simp_all add: timer_start_def)
  have "u \<noteq> t" using ready k by auto
  then obtain k' v where k': "rt_schedule ?k2 = Some k'" "scheduled ?k2 k' v"
    using rt_schedule_correct [OF k2(1-3)] ready th2(1) by metis
  have "runs v k'"
    using scheduled_runs [OF k'(2)] rt_schedule_nests [OF k'(1)] k2 by simp
  moreover have "keeps {t} k k'"
    using rt_schedule_nests [OF k'(1)] k2 k(4) scheduled_fields [OF k'(2)] th2
      scheduled_suspended [OF _ k'(2)] by (simp add: keeps_def)
  moreover have "sus_ok k' ?list"
  proof (rule sus_okI)
    show "distinct ?list" using k1(3) by (simp add: sus_ok_def)
    fix w assume "w \<in> set ?list"
    then have "stat (threads k1 w) = RT_THREAD_SUSPEND" using k1(3) by (auto simp: sus_ok_def)
    then have "stat (threads ?k2 w) = RT_THREAD_SUSPEND" by (auto simp: timer_start_def)
    then show "stat (threads k' w) = RT_THREAD_SUSPEND"
      using scheduled_suspended [OF _ k'(2), of w] by simp
  qed
  moreover have "ipc_block list t fl time k = Some (?list, k')"
    using k1(1) k'(1) by (simp add: ipc_block_def)
  ultimately show ?thesis by blast
qed

lemma ipc_wake_ok:
  assumes run: "runs c k" and sus: "sus_ok k (t # list)"
  shows "\<exists>k' v. ipc_wake (t # list) k = Some (list, k') \<and> runs v k' \<and> keeps {t} k k' \<and> sus_ok k' list \<and>
    (stat (threads k' t) = RT_THREAD_READY \<or> v = t)"
proof -
  have k: "kinv k" "rt_current_thread k = Some c" "stat (threads k c) = RT_THREAD_RUNNING"
    "rt_scheduler_lock_nest k = 0"
    using run by (simp_all add: runs_def)
  obtain k1 where k1: "rt_ipc_list_resume (t # list) k = Some (list, k1)" "kinv k1" "sus_ok k1 list"
    "rt_current_thread k1 = Some c" "rt_scheduler_lock_nest k1 = 0" "rt_interrupt_nest k1 = rt_interrupt_nest k"
    and th: "threads k1 = (threads k)(t := (threads k t)
      \<lparr>stat := (if rt_current_thread k = Some t then RT_THREAD_RUNNING else RT_THREAD_READY),
       thread_timer := None\<rparr>)"
    using rt_ipc_list_resume_ok [OF k(1) sus] k by auto
  have "c \<noteq> t"
    using sus k by (auto simp: sus_ok_def)
  then have ready: "stat (threads k1 t) = RT_THREAD_READY"
    using th k by simp
  then obtain k' v where k': "rt_schedule k1 = Some k'" "scheduled k1 k' v"
    using rt_schedule_correct [OF k1(2,4,5)] by blast
  have "stat (threads k' w) = RT_THREAD_SUSPEND" if "w \<in> set list" for w
    using that k1(3) scheduled_suspended [OF _ k'(2), of w] by (simp add: sus_ok_def)
  then have "sus_ok k' list"
    using k1(3) by (auto simp: sus_ok_def)
  moreover have "runs v k'"
    using scheduled_runs [OF k'(2)] rt_schedule_nests [OF k'(1)] k1 by simp
  moreover have "keeps {t} k k'"
    using rt_schedule_nests [OF k'(1)] k1(5,6) k(4) scheduled_fields [OF k'(2)] th
      scheduled_suspended [OF _ k'(2)] by (simp add: keeps_def)
  moreover have "stat (threads k' t) = RT_THREAD_READY \<or> v = t"
    using scheduled_ready [OF ready k'(2)] k'(2) by (auto simp: scheduled_def)
  moreover have "ipc_wake (t # list) k = Some (list, k')"
    using k1(1) k'(1) by (simp add: ipc_wake_def)
  ultimately show ?thesis by blast
qed

end
