(* ===== verification/Rt_Event.thy ===== *)
theory Rt_Event
  imports Rt_Ipc
begin

text \<open>
  The event object of \<^verbatim>\<open>Kernel/ipc.c\<close>. A call that blocks is split at its \<^verbatim>\<open>rt_schedule\<close>: the first part
  ends with the caller on the suspend list, and \<open>rt_event_recv_return\<close> is what
  the caller runs when it is scheduled again.
\<close>

section \<open>Events\<close>

abbreviation (input) RT_EVENT_FLAG_AND :: "8 word" where "RT_EVENT_FLAG_AND \<equiv> 0x01"
abbreviation (input) RT_EVENT_FLAG_OR :: "8 word" where "RT_EVENT_FLAG_OR \<equiv> 0x02"
abbreviation (input) RT_EVENT_FLAG_CLEAR :: "8 word" where "RT_EVENT_FLAG_CLEAR \<equiv> 0x04"
abbreviation (input) RT_WAITING_FOREVER :: int where "RT_WAITING_FOREVER \<equiv> - 1"
abbreviation (input) RT_WAITING_NO :: int where "RT_WAITING_NO \<equiv> 0"

record rt_event = rt_ipc_object +
  ev_set :: "32 word"

definition rt_event_init :: "ipc_flag \<Rightarrow> rt_event" where
  "rt_event_init fl = \<lparr> flag = fl, suspend_thread = [], ev_set = 0 \<rparr>"

text \<open>
  The test that \<^verbatim>\<open>rt_event_send\<close> makes for a waiting thread and the set that the
  thread is left with: \<^verbatim>\<open>(status == RT_EOK, thread->event_set)\<close>.
\<close>

definition event_match :: "32 word \<Rightarrow> rt_thread \<Rightarrow> bool \<times> 32 word" where
  "event_match evs thread =
    (if event_info thread AND RT_EVENT_FLAG_AND \<noteq> 0
     then (event_set thread AND evs = event_set thread, event_set thread)
     else if event_info thread AND RT_EVENT_FLAG_OR \<noteq> 0
     then if event_set thread AND evs \<noteq> 0 then (True, event_set thread AND evs)
          else (False, event_set thread)
     else (False, event_set thread))"

fun event_send_loop ::
  "tid list \<Rightarrow> rt_event \<Rightarrow> kernel \<Rightarrow> bool \<Rightarrow> (bool \<times> rt_event \<times> kernel) option" where
  "event_send_loop [] event k need_schedule = Some (need_schedule, event, k)"
| "event_send_loop (thread # n) event k need_schedule =
    (let (status, es) = event_match (ev_set event) (threads k thread);
         k = upd_thread thread (\<lambda>th. th\<lparr>event_set := es\<rparr>) k
     in if status
        then do {
          let event = (if event_info (threads k thread) AND RT_EVENT_FLAG_CLEAR \<noteq> 0
                       then event\<lparr>ev_set := ev_set event AND NOT es\<rparr> else event);
          (_, list, k) \<leftarrow> rt_thread_resume thread (suspend_thread event) k;
          event_send_loop n (event\<lparr>suspend_thread := list\<rparr>) k True
        }
        else event_send_loop n event k need_schedule)"

definition rt_event_send ::
  "rt_event \<Rightarrow> 32 word \<Rightarrow> kernel \<Rightarrow> (rt_err_t \<times> rt_event \<times> kernel) option" where
  "rt_event_send event set' k =
    (if set' = 0 then Some (- RT_ERROR, event, k)
     else do {
       let event = event\<lparr>ev_set := ev_set event OR set'\<rparr>;
       (need_schedule, event, k) \<leftarrow> event_send_loop (suspend_thread event) event k False;
       k \<leftarrow> (if need_schedule then rt_schedule k else Some k);
       Some (RT_EOK, event, k)
     })"

datatype recv_result =
    Recv_Done rt_err_t "32 word option"
  | Recv_Wait tid

definition rt_event_recv ::
  "rt_event \<Rightarrow> 32 word \<Rightarrow> 8 word \<Rightarrow> int \<Rightarrow> kernel \<Rightarrow> (recv_result \<times> rt_event \<times> kernel) option" where
  "rt_event_recv event set' opt timeout k = do {
     thread \<leftarrow> rt_current_thread k;
     rt_assert (rt_interrupt_nest k = 0);
     if set' = 0 then Some (Recv_Done (- RT_ERROR) None, event, k)
     else do {
       let k = set_error thread RT_EOK k;
       rt_assert (opt AND RT_EVENT_FLAG_AND \<noteq> 0 \<or> opt AND RT_EVENT_FLAG_OR \<noteq> 0);
       let status = (if opt AND RT_EVENT_FLAG_AND \<noteq> 0 then ev_set event AND set' = set'
                     else ev_set event AND set' \<noteq> 0);
       if status
       then Some (Recv_Done RT_EOK (Some (ev_set event AND set')),
                  (if opt AND RT_EVENT_FLAG_CLEAR \<noteq> 0
                   then event\<lparr>ev_set := ev_set event AND NOT set'\<rparr> else event), k)
       else if timeout = 0
       then Some (Recv_Done (- RT_ETIMEOUT) None, event, set_error thread (- RT_ETIMEOUT) k)
       else do {
         let k = upd_thread thread (\<lambda>th. th\<lparr>event_set := set', event_info := opt\<rparr>) k;
         (list, k) \<leftarrow> rt_ipc_list_suspend (suspend_thread event) thread (flag event) k;
         let k = (if 0 < timeout then timer_start thread timeout k else k);
         k \<leftarrow> rt_schedule k;
         Some (Recv_Wait thread, event\<lparr>suspend_thread := list\<rparr>, k)
       }
     }
   }"

text \<open>The rest of \<^verbatim>\<open>rt_event_recv\<close>: the error code and, without an error, the received set.\<close>

definition rt_event_recv_return :: "tid \<Rightarrow> kernel \<Rightarrow> rt_err_t \<times> 32 word option" where
  "rt_event_recv_return thread k =
    (if error (threads k thread) \<noteq> RT_EOK then (error (threads k thread), None)
     else (error (threads k thread), Some (event_set (threads k thread))))"

definition rt_event_control ::
  "rt_event \<Rightarrow> int \<Rightarrow> kernel \<Rightarrow> (rt_err_t \<times> rt_event \<times> kernel) option" where
  "rt_event_control event cmd k =
    (if cmd = RT_IPC_CMD_RESET
     then do {
       (list, k) \<leftarrow> rt_ipc_list_resume_all (suspend_thread event) k;
       k \<leftarrow> rt_schedule k;
       Some (RT_EOK, event\<lparr>suspend_thread := list, ev_set := 0\<rparr>, k)
     }
     else Some (- RT_ERROR, event, k))"

definition rt_event_detach ::
  "rt_event \<Rightarrow> kernel \<Rightarrow> (rt_err_t \<times> rt_event \<times> kernel) option" where
  "rt_event_detach event k = do {
     (list, k) \<leftarrow> rt_ipc_list_resume_all (suspend_thread event) k;
     Some (RT_EOK, event\<lparr>suspend_thread := list\<rparr>, k)
   }"

section \<open>Invariant of an event\<close>

text \<open>No thread waits for what is already there.\<close>

definition ev_inv :: "rt_event \<Rightarrow> kernel \<Rightarrow> bool" where
  "ev_inv event k \<longleftrightarrow> sus_ok k (suspend_thread event) \<and>
     (\<forall>t \<in> set (suspend_thread event). \<not> fst (event_match (ev_set event) (threads k t)))"

lemma event_match_cong:
  "event_set th = event_set th' \<Longrightarrow> event_info th = event_info th' \<Longrightarrow>
   event_match evs th = event_match evs th'"
  by (simp add: event_match_def)

lemma event_match_fields [simp]:
  "event_match evs (th\<lparr>stat := st\<rparr>) = event_match evs th"
  "event_match evs (th\<lparr>thread_timer := tm\<rparr>) = event_match evs th"
  "event_match evs (th\<lparr>error := e\<rparr>) = event_match evs th"
  by (simp_all add: event_match_def)

lemma event_match_shrink:
  assumes "\<not> fst (event_match evs th)"
  shows "\<not> fst (event_match (evs AND m) th)"
proof -
  have "event_set th AND (evs AND m) = event_set th \<Longrightarrow> event_set th AND evs = event_set th"
    by (auto simp: bit_eq_iff bit_and_iff)
  moreover have "event_set th AND evs = 0 \<Longrightarrow> event_set th AND (evs AND m) = 0"
    by (auto simp: bit_eq_iff bit_and_iff)
  ultimately show ?thesis
    using assms by (auto simp: event_match_def split: if_splits)
qed

lemma event_match_unmatched: "\<not> fst (event_match evs th) \<Longrightarrow> snd (event_match evs th) = event_set th"
  by (auto simp: event_match_def split: if_splits)

lemma event_send_loop_ok:
  assumes "kinv k" "sus_ok k (suspend_thread event)" "distinct n" "set n \<subseteq> set (suspend_thread event)"
    "\<And>t. t \<in> set (suspend_thread event) - set n \<Longrightarrow> \<not> fst (event_match (ev_set event) (threads k t))"
  shows "\<exists>need' event' k' m. event_send_loop n event k need = Some (need', event', k') \<and> kinv k' \<and>
    ev_inv event' k' \<and> flag event' = flag event \<and> ev_set event' = ev_set event AND m \<and>
    set (suspend_thread event') \<subseteq> set (suspend_thread event) \<and>
    (\<forall>t \<in> set (suspend_thread event) - set (suspend_thread event'). t \<in> set n \<and>
       stat (threads k' t) = (if rt_current_thread k = Some t then RT_THREAD_RUNNING else RT_THREAD_READY)) \<and>
    (\<forall>t. t \<notin> set n \<or> t \<in> set (suspend_thread event') \<longrightarrow> threads k' t = threads k t) \<and>
    rt_current_thread k' = rt_current_thread k \<and>
    rt_scheduler_lock_nest k' = rt_scheduler_lock_nest k \<and>
    (need' \<longleftrightarrow> need \<or> suspend_thread event' \<noteq> suspend_thread event)"
  using assms
proof (induction n arbitrary: event k need)
  case Nil
  then show ?case
    by (auto simp: ev_inv_def intro: exI [of _ "- 1"])
next
  case (Cons t n)
  obtain status es where m: "event_match (ev_set event) (threads k t) = (status, es)"
    by force
  let ?k0 = "upd_thread t (\<lambda>th. th\<lparr>event_set := es\<rparr>) k"
  have inv0: "kinv ?k0" using Cons.prems(1) by (simp add: kinv_upd_thread)
  show ?case
  proof (cases status)
    case False
    then have "es = event_set (threads k t)" "\<not> fst (event_match (ev_set event) (threads k t))"
      using event_match_unmatched [of "ev_set event" "threads k t"] m by simp_all
    then have same: "?k0 = k"
      by (simp add: upd_thread_def)
    have "\<not> fst (event_match (ev_set event) (threads k u))"
      if "u \<in> set (suspend_thread event) - set n" for u
      using Cons.prems(5) [of u] that m False by (cases "u = t") auto
    from Cons.IH [OF Cons.prems(1,2) _ _ this, of need] Cons.prems(3,4) show ?thesis
      using m False same by fastforce
  next
    case True
    let ?m = "if event_info (threads k t) AND 4 \<noteq> 0 then NOT es else - 1"
    let ?ev = "if event_info (threads k t) AND 4 \<noteq> 0
               then event\<lparr>ev_set := ev_set event AND NOT es\<rparr> else event"
    have ev: "suspend_thread ?ev = suspend_thread event" "ev_set ?ev = ev_set event AND ?m"
      "flag ?ev = flag event"
      by simp_all
    have mem: "t \<in> set (suspend_thread event)" and dist: "distinct (suspend_thread event)"
      using Cons.prems(2,4) by (auto simp: sus_ok_def)
    then have st: "stat (threads ?k0 t) = RT_THREAD_SUSPEND"
      using Cons.prems(2) by (simp add: sus_ok_def)
    from rt_thread_resume_ok [OF inv0 st, of "suspend_thread event"] obtain k1 where
      k1: "rt_thread_resume t (suspend_thread event) ?k0 =
          Some (RT_EOK, remove1 t (suspend_thread event), k1)" "kinv k1"
        "rt_current_thread k1 = rt_current_thread k"
        "rt_scheduler_lock_nest k1 = rt_scheduler_lock_nest k"
      and th1: "threads k1 = (threads ?k0)(t := (threads ?k0 t)
        \<lparr>stat := (if rt_current_thread ?k0 = Some t then RT_THREAD_RUNNING else RT_THREAD_READY),
         thread_timer := None\<rparr>)"
      by auto
    let ?ev1 = "?ev\<lparr>suspend_thread := remove1 t (suspend_thread event)\<rparr>"
    have sus1: "set (suspend_thread ?ev1) = set (suspend_thread event) - {t}"
      "distinct (suspend_thread ?ev1)"
      using dist by (simp_all add: set_remove1_eq)
    have un1: "threads k1 u = threads k u" if "u \<noteq> t" for u
      using that th1 by simp
    have ok1: "sus_ok k1 (suspend_thread ?ev1)"
      using Cons.prems(2) sus1 un1 by (auto simp: sus_ok_def)
    have sub1: "set n \<subseteq> set (suspend_thread ?ev1)"
      using Cons.prems(3,4) sus1(1) by auto
    have un: "\<not> fst (event_match (ev_set ?ev1) (threads k1 u))"
      if "u \<in> set (suspend_thread ?ev1) - set n" for u
      using that sus1(1) un1 [of u] Cons.prems(5) [of u] event_match_shrink [of "ev_set event" "threads k u" ?m]
      by (auto split: if_splits)
    from Cons.IH [OF k1(2) ok1 _ sub1 un, of True] Cons.prems(3) obtain event' k' need' mm where
      R: "event_send_loop n ?ev1 k1 True = Some (need', event', k')" "kinv k'" "ev_inv event' k'"
         "flag event' = flag ?ev1" "ev_set event' = ev_set ?ev1 AND mm"
         "set (suspend_thread event') \<subseteq> set (suspend_thread ?ev1)"
         "\<And>u. u \<in> set (suspend_thread ?ev1) - set (suspend_thread event') \<Longrightarrow> u \<in> set n \<and>
            stat (threads k' u) = (if rt_current_thread k1 = Some u then RT_THREAD_RUNNING else RT_THREAD_READY)"
         "\<And>u. u \<notin> set n \<or> u \<in> set (suspend_thread event') \<Longrightarrow> threads k' u = threads k1 u"
         "rt_current_thread k' = rt_current_thread k1"
         "rt_scheduler_lock_nest k' = rt_scheduler_lock_nest k1" "need'"
      by auto
    have run: "event_send_loop (t # n) event k need = Some (need', event', k')"
      using m True k1(1) R(1) by (simp add: Let_def split: if_splits)
    have tn: "t \<notin> set n" "t \<notin> set (suspend_thread event')"
      using Cons.prems(3) R(6) sus1(1) by auto
    have st_t: "stat (threads k' t) =
        (if rt_current_thread k = Some t then RT_THREAD_RUNNING else RT_THREAD_READY)"
      using R(8) [of t] tn(1) th1 by simp
    have woken: "u \<in> set (t # n) \<and> stat (threads k' u) =
        (if rt_current_thread k = Some u then RT_THREAD_RUNNING else RT_THREAD_READY)"
      if "u \<in> set (suspend_thread event) - set (suspend_thread event')" for u
      using that st_t R(7) [of u] sus1(1) k1(3) by (cases "u = t") auto
    have kept: "threads k' u = threads k u"
      if "u \<notin> set (t # n) \<or> u \<in> set (suspend_thread event')" for u
      using that R(8) [of u] un1 [of u] tn(2) by (cases "u = t") auto
    have "suspend_thread event' \<noteq> suspend_thread event"
      using tn(2) mem by auto
    moreover have "ev_set event' = ev_set event AND (?m AND mm)"
      using R(5) by (simp add: and.assoc)
    moreover have "flag event' = flag event" "set (suspend_thread event') \<subseteq> set (suspend_thread event)"
      using R(4,6) sus1(1) by auto
    ultimately show ?thesis
      using run R(2,3,9,10,11) k1(3,4) woken kept
      by (intro exI [of _ need'] exI [of _ event'] exI [of _ k'] exI [of _ "?m AND mm"] conjI)
        (simp_all only: refl simp_thms Diff_iff ball_simps, blast+)
  qed
qed

lemma scheduled_waiters:
  assumes "scheduled k k' t" "ev_inv event k"
  shows "ev_inv event k'"
proof -
  have "threads k' u = threads k u" if "u \<in> set (suspend_thread event)" for u
  proof -
    have "stat (threads k u) = RT_THREAD_SUSPEND"
      using assms(2) that by (simp add: ev_inv_def sus_ok_def)
    then show ?thesis
      using assms(1) by (rule scheduled_suspended)
  qed
  then show ?thesis
    using assms(2) by (simp add: ev_inv_def sus_ok_def)
qed

lemma rt_event_send_ok:
  assumes inv: "kinv k" and ev: "ev_inv event k" and cur: "rt_current_thread k = Some c"
    and run: "stat (threads k c) = RT_THREAD_RUNNING" and lock: "rt_scheduler_lock_nest k = 0"
    and nz: "s \<noteq> 0"
  shows "\<exists>event' k'. rt_event_send event s k = Some (RT_EOK, event', k') \<and> kinv k' \<and> ev_inv event' k' \<and>
    set (suspend_thread event') \<subseteq> set (suspend_thread event) \<and>
    (\<forall>t \<in> set (suspend_thread event) - set (suspend_thread event').
       stat (threads k' t) = RT_THREAD_READY \<or> rt_current_thread k' = Some t)"
proof -
  let ?ev = "event\<lparr>ev_set := ev_set event OR s\<rparr>"
  from ev have sus: "sus_ok k (suspend_thread ?ev)" "distinct (suspend_thread ?ev)"
    by (simp_all add: ev_inv_def sus_ok_def)
  obtain need event' k1 where
    L: "event_send_loop (suspend_thread ?ev) ?ev k False = Some (need, event', k1)" "kinv k1"
      "ev_inv event' k1" "set (suspend_thread event') \<subseteq> set (suspend_thread event)"
      "\<And>t. t \<in> set (suspend_thread event) - set (suspend_thread event') \<Longrightarrow>
         stat (threads k1 t) = (if rt_current_thread k = Some t then RT_THREAD_RUNNING else RT_THREAD_READY)"
      "\<And>t. t \<notin> set (suspend_thread event) \<Longrightarrow> threads k1 t = threads k t"
      "rt_current_thread k1 = Some c" "rt_scheduler_lock_nest k1 = 0"
      "need \<longleftrightarrow> suspend_thread event' \<noteq> suspend_thread event"
    using event_send_loop_ok [OF inv sus order_refl, of False] cur lock by auto
  show ?thesis
  proof (cases need)
    case True
    have c: "c \<notin> set (suspend_thread event)"
      using sus(1) run by (auto simp: sus_ok_def)
    then have "stat (threads k1 c) = RT_THREAD_RUNNING"
      using L(6) run by simp
    then obtain k' t where k': "rt_schedule k1 = Some k'" "scheduled k1 k' t"
      using rt_schedule_correct [OF L(2,7,8)] by blast
    have "stat (threads k' u) = RT_THREAD_READY \<or> rt_current_thread k' = Some u"
      if "u \<in> set (suspend_thread event) - set (suspend_thread event')" for u
      using that L(5) [of u] c cur by (intro scheduled_ready [OF _ k'(2)]) auto
    then show ?thesis using k' L nz True scheduled_waiters [OF k'(2) L(3)]
      by (auto simp: rt_event_send_def scheduled_def)
  next
    case False
    then show ?thesis using L nz by (auto simp: rt_event_send_def)
  qed
qed
text \<open>Sending to an event that no thread waits for only sets the flags.\<close>

lemma rt_event_send_idle [simp]:
  "suspend_thread event = [] \<Longrightarrow> s \<noteq> 0 \<Longrightarrow>
   rt_event_send event s k = Some (RT_EOK, event\<lparr>ev_set := ev_set event OR s\<rparr>, k)"
  by (simp add: rt_event_send_def)

lemma rt_event_recv_ready:
  assumes "rt_current_thread k = Some t" "rt_interrupt_nest k = 0" "ev_set event AND s \<noteq> 0"
  shows "rt_event_recv event s (RT_EVENT_FLAG_OR OR RT_EVENT_FLAG_CLEAR) timeout k =
    Some (Recv_Done RT_EOK (Some (ev_set event AND s)),
          event\<lparr>ev_set := ev_set event AND NOT s\<rparr>, set_error t RT_EOK k)"
  using assms by (auto simp: rt_event_recv_def)

lemma rt_event_recv_empty:
  assumes "rt_current_thread k = Some t" "rt_interrupt_nest k = 0" "ev_set event AND s = 0" "s \<noteq> 0"
  shows "rt_event_recv event s (RT_EVENT_FLAG_OR OR RT_EVENT_FLAG_CLEAR) RT_WAITING_NO k =
    Some (Recv_Done (- RT_ETIMEOUT) None, event, set_error t (- RT_ETIMEOUT) k)"
  using assms by (auto simp: rt_event_recv_def set_error_def upd_thread_def)

text \<open>A receiver that has to wait is put on the list and the invariants are kept.\<close>

lemma rt_event_recv_wait:
  assumes inv: "kinv k" and ev: "ev_inv event k" and cur: "rt_current_thread k = Some t"
    and run: "stat (threads k t) = RT_THREAD_RUNNING" and nest: "rt_interrupt_nest k = 0"
    and lock: "rt_scheduler_lock_nest k = 0" and ready: "stat (threads k u) = RT_THREAD_READY"
    and s: "s \<noteq> 0" "ev_set event AND s = 0" and tm: "timeout \<noteq> 0"
  shows "\<exists>list k'. rt_event_recv event s (RT_EVENT_FLAG_OR OR RT_EVENT_FLAG_CLEAR) timeout k =
      Some (Recv_Wait t, event\<lparr>suspend_thread := list\<rparr>, k') \<and>
    set list = insert t (set (suspend_thread event)) \<and>
    kinv k' \<and> ev_inv (event\<lparr>suspend_thread := list\<rparr>) k' \<and>
    threads k' t = (threads k t)\<lparr>error := RT_EOK, event_set := s,
      event_info := RT_EVENT_FLAG_OR OR RT_EVENT_FLAG_CLEAR, stat := RT_THREAD_SUSPEND,
      thread_timer := (if 0 < timeout then Some timeout else None)\<rparr>"
proof -
  let ?opt = "RT_EVENT_FLAG_OR OR RT_EVENT_FLAG_CLEAR"
  let ?k0 = "upd_thread t (\<lambda>th. th\<lparr>event_set := s, event_info := ?opt\<rparr>) (set_error t RT_EOK k)"
  have k0: "kinv ?k0" "rt_current_thread ?k0 = Some t" "stat (threads ?k0 t) = RT_THREAD_RUNNING"
    "rt_interrupt_nest ?k0 = 0" "rt_scheduler_lock_nest ?k0 = 0"
    using inv cur run nest lock by (simp_all add: kinv_upd_thread set_error_def)
  have tn: "t \<notin> set (suspend_thread event)"
    using ev run by (auto simp: ev_inv_def sus_ok_def)
  then have sus0: "sus_ok ?k0 (suspend_thread event)"
    using ev by (auto simp: ev_inv_def sus_ok_def set_error_def)
  obtain list k1 where k1: "rt_ipc_list_suspend (suspend_thread event) t (flag event) ?k0 = Some (list, k1)"
    "kinv k1" "sus_ok k1 list" "set list = insert t (set (suspend_thread event))"
    "threads k1 = (threads ?k0)(t := (threads ?k0 t)\<lparr>stat := RT_THREAD_SUSPEND, thread_timer := None\<rparr>)"
    "rt_current_thread k1 = Some t" "rt_scheduler_lock_nest k1 = 0"
    using rt_ipc_list_suspend_ok [OF k0(1-3) sus0, of "flag event"] k0(5)
    by (cases "flag event") auto
  let ?k2 = "if 0 < timeout then timer_start t timeout k1 else k1"
  let ?ev = "event\<lparr>suspend_thread := list\<rparr>"
  have k2: "kinv ?k2" "rt_current_thread ?k2 = Some t" "rt_scheduler_lock_nest ?k2 = 0"
    using k1 by (simp_all add: timer_start_def kinv_upd_thread)
  have th2: "threads ?k2 v = (if v = t then (threads k t)\<lparr>error := RT_EOK, event_set := s,
      event_info := ?opt, stat := RT_THREAD_SUSPEND,
      thread_timer := (if 0 < timeout then Some timeout else None)\<rparr> else threads k v)" for v
    using k1(5) by (simp add: timer_start_def set_error_def)
  have "ev_inv ?ev ?k2"
    using ev k1(3,4) s by (auto simp: ev_inv_def sus_ok_def th2 event_match_def and.commute)
  moreover have "u \<noteq> t" using ready run by auto
  then have "stat (threads ?k2 u) = RT_THREAD_READY"
    using ready th2 by simp
  then obtain k' v where k': "rt_schedule ?k2 = Some k'" "scheduled ?k2 k' v"
    using rt_schedule_correct [OF k2] by blast
  ultimately have "ev_inv ?ev k'" "kinv k'"
    using scheduled_waiters by (auto simp: scheduled_def)
  moreover have "threads k' t = threads ?k2 t"
    by (rule scheduled_suspended [OF _ k'(2)]) (simp only: th2, simp)
  moreover have "rt_event_recv event s ?opt timeout k = Some (Recv_Wait t, ?ev, k')"
    using cur nest s tm k1(1) k'(1) by (auto simp: rt_event_recv_def Let_def)
  ultimately show ?thesis
    using k1(4) th2 [of t] by auto
qed

text \<open>
  A waiting receiver gets exactly what it would have got had the event been there
  when it asked: the flags of its set, which are then cleared.
\<close>

lemma rt_event_wait_then_send:
  assumes inv: "kinv k" and w: "suspend_thread event = [t]" "stat (threads k t) = RT_THREAD_SUSPEND"
      "event_set (threads k t) = s" "event_info (threads k t) = RT_EVENT_FLAG_OR OR RT_EVENT_FLAG_CLEAR"
      "error (threads k t) = RT_EOK"
    and none: "ev_set event AND s = 0" and e: "e AND s \<noteq> 0"
    and cur: "rt_current_thread k = Some c" "stat (threads k c) = RT_THREAD_RUNNING"
    and lock: "rt_scheduler_lock_nest k = 0"
  shows "\<exists>k'. rt_event_send event e k =
      Some (RT_EOK, event\<lparr>suspend_thread := [], ev_set := (ev_set event OR e) AND NOT s\<rparr>, k') \<and>
    rt_event_recv_return t k' = (RT_EOK, Some ((ev_set event OR e) AND s)) \<and> kinv k'"
proof -
  let ?evs = "ev_set event OR e"
  let ?k0 = "upd_thread t (\<lambda>th. th\<lparr>event_set := s AND ?evs\<rparr>) k"
  have m: "s AND ?evs = e AND s"
    using none by (auto simp: bit_eq_iff bit_and_iff bit_or_iff)
  have clear: "?evs AND NOT (s AND ?evs) = ?evs AND NOT s"
    by (auto simp: bit_eq_iff bit_and_iff bit_or_iff bit_not_iff)
  have match: "event_match ?evs (threads k t) = (True, s AND ?evs)"
    using w m e by (simp add: event_match_def)
  have e0: "e \<noteq> 0" using e by auto
  have inv0: "kinv ?k0" and st0: "stat (threads ?k0 t) = RT_THREAD_SUSPEND"
    using inv w by (simp_all add: kinv_upd_thread)
  from rt_thread_resume_ok [OF inv0 st0, of "[t]"] obtain k1 where
    k1: "rt_thread_resume t [t] ?k0 = Some (RT_EOK, [], k1)" "kinv k1"
      "rt_current_thread k1 = Some c" "rt_scheduler_lock_nest k1 = 0"
    and th1: "threads k1 = (threads ?k0)(t := (threads ?k0 t)
      \<lparr>stat := (if rt_current_thread ?k0 = Some t then RT_THREAD_RUNNING else RT_THREAD_READY),
       thread_timer := None\<rparr>)"
    using cur lock by auto
  have "c \<noteq> t" using cur w by auto
  then have "stat (threads k1 c) = RT_THREAD_RUNNING"
    using th1 cur by simp
  then obtain k' v where k': "rt_schedule k1 = Some k'" "scheduled k1 k' v"
    using rt_schedule_correct [OF k1(2-4)] by blast
  have "error (threads k' t) = RT_EOK" "event_set (threads k' t) = s AND ?evs"
    using th1 w(5) by (simp_all add: scheduled_fields [OF k'(2)])
  then have "rt_event_recv_return t k' = (RT_EOK, Some (?evs AND s))"
    by (simp add: rt_event_recv_return_def and.commute)
  moreover have "rt_event_send event e k =
      Some (RT_EOK, event\<lparr>suspend_thread := [], ev_set := ?evs AND NOT s\<rparr>, k')"
    using w e0 match k1(1) k'(1) clear by (simp add: rt_event_send_def Let_def)
  ultimately show ?thesis
    using k'(2) by (auto simp: scheduled_def)
qed

end
