(* ===== verification/Kernel_Examples.thy ===== *)
theory Kernel_Examples
  imports Rt_Event
begin

text \<open>
  Kernels with few threads, on which the properties are applied.
\<close>

definition ex_kernel :: kernel where
  "ex_kernel = \<lparr> threads = (\<lambda>t. \<lparr> error = 0, stat = (if t = 0 then RT_THREAD_RUNNING else RT_THREAD_INIT),
       current_priority = 10, init_priority = 10, number_mask = 2 ^ 10, event_set = 0, event_info = 0,
       thread_timer = None \<rparr>),
     rt_current_thread = Some 0, rt_current_priority = 10, rt_thread_priority_table = replicate 32 [],
     rt_thread_ready_priority_group = 0, rt_scheduler_lock_nest = 0, rt_interrupt_nest = 0 \<rparr>"

lemma ex_kinv: "kinv ex_kernel"
  by (auto simp: kinv_def ready_inv_def ex_kernel_def live_def wf_thread_def nth_append)

lemma ex_kernel_simps [simp]:
  "rt_current_thread ex_kernel = Some 0" "rt_interrupt_nest ex_kernel = 0"
  "rt_scheduler_lock_nest ex_kernel = 0" "stat (threads ex_kernel 0) = RT_THREAD_RUNNING"
  "t \<noteq> 0 \<Longrightarrow> stat (threads ex_kernel t) = RT_THREAD_INIT"
  by (simp_all add: ex_kernel_def)

text \<open>
  A kernel in which thread 1 waits on an event for the flags 1 and 2.
\<close>

definition ex_waiting :: kernel where
  "ex_waiting = upd_thread 1 (\<lambda>th. th\<lparr>stat := RT_THREAD_SUSPEND, event_set := 3, event_info := 6\<rparr>) ex_kernel"

definition ex_event :: rt_event where
  "ex_event = \<lparr> flag = RT_IPC_FLAG_PRIO, suspend_thread = [1], ev_set = 8 \<rparr>"

lemma ex_waiting_kinv: "kinv ex_waiting"
  by (auto simp: kinv_def ready_inv_def ex_waiting_def ex_kernel_def upd_thread_def live_def wf_thread_def nth_append)

lemma ex_waiting_simps:
  "rt_current_thread ex_waiting = Some 0" "rt_scheduler_lock_nest ex_waiting = 0"
  "stat (threads ex_waiting 0) = RT_THREAD_RUNNING" "stat (threads ex_waiting 1) = RT_THREAD_SUSPEND"
  "event_set (threads ex_waiting 1) = 3" "event_info (threads ex_waiting 1) = 6"
  "error (threads ex_waiting 1) = 0"
  by (simp_all add: ex_waiting_def ex_kernel_def upd_thread_def)

text \<open>A kernel in which thread 3, of priority 5, is ready while thread 0 of priority 10 runs.\<close>

definition ex_contended :: kernel where
  "ex_contended = (upd_thread 3 (\<lambda>th. th\<lparr>stat := RT_THREAD_READY, current_priority := 5,
      number_mask := 2 ^ 5\<rparr>) ex_kernel)
    \<lparr>rt_thread_priority_table := (replicate 32 [])[5 := [3]], rt_thread_ready_priority_group := 2 ^ 5\<rparr>"

lemma ex_contended_kinv: "kinv ex_contended"
proof -
  have "bit (2 ^ 5 :: 32 word) p \<longleftrightarrow> p = 5" for p
    by (rule bit_mask_prio(2)) simp
  then show ?thesis
    by (auto simp: kinv_def ready_inv_def ex_contended_def ex_kernel_def upd_thread_def live_def
        wf_thread_def nth_list_update simp del: power_numeral)
qed

end
