(* ===== verification/Mb_Types.thy ===== *)
theory Mb_Types
  imports Prelude
begin

text \<open>
  The enumerations and constants of the Modbus stack, from the headers under
  \<^verbatim>\<open>pck/freemodbus/modbus/include\<close> (\<^verbatim>\<open>mb.h\<close>, \<^verbatim>\<open>mb_m.h\<close>, \<^verbatim>\<open>mbport.h\<close>, \<^verbatim>\<open>mbproto.h\<close>,
  \<^verbatim>\<open>mbframe.h\<close>, \<^verbatim>\<open>mbconfig.h\<close>), and the error conversion of \<^verbatim>\<open>mbutils.c\<close>.
\<close>

section \<open>Enumerations\<close>

datatype eMBMode = MB_RTU | MB_ASCII | MB_TCP

datatype eMBRegisterMode = MB_REG_READ | MB_REG_WRITE

datatype eMBErrorCode =
    MB_ENOERR | MB_ENOREG | MB_EINVAL | MB_EPORTERR | MB_ENORES | MB_EIO | MB_EILLSTATE
  | MB_ETIMEDOUT

datatype eMBParity = MB_PAR_NONE | MB_PAR_ODD | MB_PAR_EVEN

datatype eMBMasterReqErrCode =
    MB_MRE_NO_ERR | MB_MRE_NO_REG | MB_MRE_ILL_ARG | MB_MRE_REV_DATA | MB_MRE_TIMEDOUT
  | MB_MRE_MASTER_BUSY | MB_MRE_EXE_FUN

datatype eMBMasterTimerMode = MB_TMODE_T35 | MB_TMODE_RESPOND_TIMEOUT | MB_TMODE_CONVERT_DELAY

datatype eMBMasterErrorEventType =
    EV_ERROR_RESPOND_TIMEOUT | EV_ERROR_RECEIVE_DATA | EV_ERROR_EXECUTE_FUNCTION

datatype eMBState = STATE_ENABLED | STATE_DISABLED | STATE_NOT_INITIALIZED

text \<open>
  \<^verbatim>\<open>eMBException\<close> is an enum with gaps that the master also fills with a byte taken
  from the wire (\<^verbatim>\<open>(eMBException) ucMBFrame[MB_PDU_DATA_OFF]\<close>), so it is kept as
  its 8-bit value.
\<close>

type_synonym eMBException = UCHAR

definition MB_EX_NONE :: eMBException where "MB_EX_NONE = 0x00"
definition MB_EX_ILLEGAL_FUNCTION :: eMBException where "MB_EX_ILLEGAL_FUNCTION = 0x01"
definition MB_EX_ILLEGAL_DATA_ADDRESS :: eMBException where "MB_EX_ILLEGAL_DATA_ADDRESS = 0x02"
definition MB_EX_ILLEGAL_DATA_VALUE :: eMBException where "MB_EX_ILLEGAL_DATA_VALUE = 0x03"
definition MB_EX_SLAVE_DEVICE_FAILURE :: eMBException where "MB_EX_SLAVE_DEVICE_FAILURE = 0x04"
definition MB_EX_SLAVE_BUSY :: eMBException where "MB_EX_SLAVE_BUSY = 0x06"

lemmas exception_defs = MB_EX_NONE_def MB_EX_ILLEGAL_FUNCTION_def MB_EX_ILLEGAL_DATA_ADDRESS_def
  MB_EX_ILLEGAL_DATA_VALUE_def MB_EX_SLAVE_DEVICE_FAILURE_def MB_EX_SLAVE_BUSY_def

section \<open>Function codes\<close>

definition MB_FUNC_READ_COILS :: UCHAR where "MB_FUNC_READ_COILS = 1"
definition MB_FUNC_READ_DISCRETE_INPUTS :: UCHAR where "MB_FUNC_READ_DISCRETE_INPUTS = 2"
definition MB_FUNC_READ_HOLDING_REGISTER :: UCHAR where "MB_FUNC_READ_HOLDING_REGISTER = 3"
definition MB_FUNC_READ_INPUT_REGISTER :: UCHAR where "MB_FUNC_READ_INPUT_REGISTER = 4"
definition MB_FUNC_WRITE_SINGLE_COIL :: UCHAR where "MB_FUNC_WRITE_SINGLE_COIL = 5"
definition MB_FUNC_WRITE_REGISTER :: UCHAR where "MB_FUNC_WRITE_REGISTER = 6"
definition MB_FUNC_WRITE_MULTIPLE_COILS :: UCHAR where "MB_FUNC_WRITE_MULTIPLE_COILS = 15"
definition MB_FUNC_WRITE_MULTIPLE_REGISTERS :: UCHAR where "MB_FUNC_WRITE_MULTIPLE_REGISTERS = 16"
definition MB_FUNC_OTHER_REPORT_SLAVEID :: UCHAR where "MB_FUNC_OTHER_REPORT_SLAVEID = 17"
definition MB_FUNC_READWRITE_MULTIPLE_REGISTERS :: UCHAR where
  "MB_FUNC_READWRITE_MULTIPLE_REGISTERS = 23"
definition MB_FUNC_ERROR :: UCHAR where "MB_FUNC_ERROR = 128"

lemmas func_defs = MB_FUNC_READ_COILS_def MB_FUNC_READ_DISCRETE_INPUTS_def
  MB_FUNC_READ_HOLDING_REGISTER_def MB_FUNC_READ_INPUT_REGISTER_def MB_FUNC_WRITE_SINGLE_COIL_def
  MB_FUNC_WRITE_REGISTER_def MB_FUNC_WRITE_MULTIPLE_COILS_def MB_FUNC_WRITE_MULTIPLE_REGISTERS_def
  MB_FUNC_OTHER_REPORT_SLAVEID_def MB_FUNC_READWRITE_MULTIPLE_REGISTERS_def MB_FUNC_ERROR_def

section \<open>Sizes and limits\<close>

abbreviation (input) MB_ADDRESS_BROADCAST :: UCHAR where "MB_ADDRESS_BROADCAST \<equiv> 0"
abbreviation (input) MB_ADDRESS_MIN :: UCHAR where "MB_ADDRESS_MIN \<equiv> 1"
abbreviation (input) MB_ADDRESS_MAX :: UCHAR where "MB_ADDRESS_MAX \<equiv> 247"
abbreviation (input) MB_PDU_SIZE_MAX :: nat where "MB_PDU_SIZE_MAX \<equiv> 253"
abbreviation (input) MB_SER_PDU_SIZE_MIN :: nat where "MB_SER_PDU_SIZE_MIN \<equiv> 4"
abbreviation (input) MB_SER_PDU_SIZE_MAX :: nat where "MB_SER_PDU_SIZE_MAX \<equiv> 256"
abbreviation (input) MB_MASTER_TOTAL_SLAVE_NUM :: nat where "MB_MASTER_TOTAL_SLAVE_NUM \<equiv> 16"
abbreviation (input) MB_FUNC_HANDLERS_MAX :: nat where "MB_FUNC_HANDLERS_MAX \<equiv> 16"

section \<open>From error codes to Modbus exceptions\<close>

definition prveMBError2Exception :: "eMBErrorCode \<Rightarrow> eMBException" where
  "prveMBError2Exception eErrorCode = (case eErrorCode of
     MB_ENOERR \<Rightarrow> MB_EX_NONE
   | MB_ENOREG \<Rightarrow> MB_EX_ILLEGAL_DATA_ADDRESS
   | MB_ETIMEDOUT \<Rightarrow> MB_EX_SLAVE_BUSY
   | _ \<Rightarrow> MB_EX_SLAVE_DEVICE_FAILURE)"

lemma prveMBError2Exception_none [simp]: "prveMBError2Exception e = MB_EX_NONE \<longleftrightarrow> e = MB_ENOERR"
  by (cases e) (simp_all add: prveMBError2Exception_def exception_defs)

text \<open>
  The pattern that every function handler uses to read a 16-bit field of a PDU:
  \<^verbatim>\<open>x = (USHORT)(f[o] << 8); x |= (USHORT) f[o + 1]\<close>.
\<close>

definition get_u16 :: "UCHAR list \<Rightarrow> nat \<Rightarrow> USHORT option" where
  "get_u16 f o' = do { h \<leftarrow> rd f o'; l \<leftarrow> rd f (o' + 1); Some (mk16 h l) }"

lemma get_u16_in: "o' + 1 < length f \<Longrightarrow> get_u16 f o' = Some (mk16 (f ! o') (f ! (o' + 1)))"
  by (simp add: get_u16_def)

text \<open>
  The number of bytes that hold \<open>n\<close> coils, computed by the handlers as
  \<^verbatim>\<open>(n & 7) != 0 ? (UCHAR)(n / 8 + 1) : (UCHAR)(n / 8)\<close>.
\<close>

definition coil_bytes :: "USHORT \<Rightarrow> UCHAR" where
  "coil_bytes n = (if n AND 7 \<noteq> 0 then ucast (n div 8 + 1) else ucast (n div 8))"

lemma and_7_word: "unat (n AND 7 :: USHORT) = unat n mod 8"
proof -
  have "n AND 7 = take_bit 3 n"
    by (simp add: take_bit_eq_mask mask_eq_exp_minus_1)
  then show ?thesis
    by (simp add: unsigned_take_bit_eq take_bit_nat_def)
qed

lemma coil_bytes_small:
  assumes "unat n \<le> 2000"
  shows "unat (coil_bytes n) = (unat n + 7) div 8"
proof -
  have z: "n AND 7 = 0 \<longleftrightarrow> unat n mod 8 = 0"
    by (metis and_7_word unat_eq_zero)
  have d: "unat (n div 8) = unat n div 8"
    by (simp add: unat_div)
  have "unat n div 8 \<le> 250"
    using assms by simp
  then have d1: "unat (n div 8 + 1) = unat n div 8 + 1"
    using d by (simp add: unat_word_ariths)
  have s: "unat (ucast (w :: USHORT) :: UCHAR) = unat w" if "unat w < 256" for w
    using that by (simp add: unsigned_ucast_eq take_bit_nat_def)
  show ?thesis
    using assms by (auto simp: coil_bytes_def z d d1 s) presburger+
qed

end
