(* ===== verification/Mb_Port.thy ===== *)
theory Mb_Port
  imports Rt_Event Mb_Types
begin

text \<open>
  The slave's port layer: \<^verbatim>\<open>portevent.c\<close>, \<^verbatim>\<open>porttimer.c\<close> and \<^verbatim>\<open>portserial.c\<close> under
  \<^verbatim>\<open>pck/freemodbus/port\<close>. Events go through the kernel's event object, the timer is a
  one-shot software timer, and the serial device is the queue of received bytes and
  the sequence of bytes put on the line. Whether the device driver opens is an
  argument of the initialisation.
\<close>

section \<open>State\<close>

datatype eMBEventType = EV_READY | EV_FRAME_RECEIVED | EV_EXECUTE | EV_FRAME_SENT

definition ev_code :: "eMBEventType \<Rightarrow> 32 word" where
  "ev_code e = (case e of EV_READY \<Rightarrow> 1 | EV_FRAME_RECEIVED \<Rightarrow> 2 | EV_EXECUTE \<Rightarrow> 4 | EV_FRAME_SENT \<Rightarrow> 8)"

datatype serial_data_bits = DATA_BITS_8 | DATA_BITS_9
datatype serial_parity = PARITY_NONE | PARITY_ODD | PARITY_EVEN

record mb_port =
  kern :: kernel
  os_event :: rt_event
  event_serial :: rt_event
  serial :: "nat option"
  baud_rate :: ULONG
  data_bits :: serial_data_bits
  parity :: serial_parity
  rx_int :: bool
  rx_fifo :: "UCHAR list"
  tx_line :: "UCHAR list"
  timer_ticks :: nat
  timer_on :: bool
  trans_irq :: tid

section \<open>Events\<close>

definition xMBPortEventInit :: "'a mb_port_scheme \<Rightarrow> bool \<times> 'a mb_port_scheme" where
  "xMBPortEventInit p = (True, p\<lparr>os_event := rt_event_init RT_IPC_FLAG_PRIO\<rparr>)"

definition xMBPortEventPost ::
  "eMBEventType \<Rightarrow> 'a mb_port_scheme \<Rightarrow> (bool \<times> 'a mb_port_scheme) option" where
  "xMBPortEventPost eEvent p = do {
     (_, ev, k) \<leftarrow> rt_event_send (os_event p) (ev_code eEvent) (kern p);
     Some (True, p\<lparr>os_event := ev, kern := k\<rparr>)
   }"

text \<open>
  The switch over the received flags: it has a case for each single flag, and
  leaves \<^verbatim>\<open>*eEvent\<close> as it was when several flags arrive together.
\<close>

definition ev_decode :: "32 word \<Rightarrow> eMBEventType option" where
  "ev_decode recvedEvent =
    (if recvedEvent = 1 then Some EV_READY
     else if recvedEvent = 2 then Some EV_FRAME_RECEIVED
     else if recvedEvent = 4 then Some EV_EXECUTE
     else if recvedEvent = 8 then Some EV_FRAME_SENT
     else None)"

datatype 'e event_get = Event_Got "'e option" | Event_Wait tid

definition xMBPortEventGet ::
  "'a mb_port_scheme \<Rightarrow> (eMBEventType event_get \<times> 'a mb_port_scheme) option" where
  "xMBPortEventGet p = do {
     (r, ev, k) \<leftarrow> rt_event_recv (os_event p) (1 OR 2 OR 4 OR 8)
        (RT_EVENT_FLAG_OR OR RT_EVENT_FLAG_CLEAR) RT_WAITING_FOREVER (kern p);
     let p = p\<lparr>os_event := ev, kern := k\<rparr>;
     Some (case r of
         Recv_Done _ None \<Rightarrow> (Event_Got None, p)
       | Recv_Done _ (Some recvedEvent) \<Rightarrow> (Event_Got (ev_decode recvedEvent), p)
       | Recv_Wait t \<Rightarrow> (Event_Wait t, p))
   }"

section \<open>Timer\<close>

abbreviation (input) RT_TICK_PER_SECOND :: nat where "RT_TICK_PER_SECOND \<equiv> 100"

definition xMBPortTimersInit :: "USHORT \<Rightarrow> 'a mb_port_scheme \<Rightarrow> bool \<times> 'a mb_port_scheme" where
  "xMBPortTimersInit usTim1Timerout50us p =
    (True, p\<lparr>timer_ticks := (50 * unat usTim1Timerout50us) div (1000 * 1000 div RT_TICK_PER_SECOND) + 1,
             timer_on := False\<rparr>)"

definition vMBPortTimersEnable :: "'a mb_port_scheme \<Rightarrow> 'a mb_port_scheme" where
  "vMBPortTimersEnable p = p\<lparr>timer_on := True\<rparr>"

definition vMBPortTimersDisable :: "'a mb_port_scheme \<Rightarrow> 'a mb_port_scheme" where
  "vMBPortTimersDisable p = p\<lparr>timer_on := False\<rparr>"

section \<open>Serial device\<close>

definition xMBPortSerialInit ::
  "bool \<Rightarrow> UCHAR \<Rightarrow> ULONG \<Rightarrow> UCHAR \<Rightarrow> eMBParity \<Rightarrow> 'a mb_port_scheme \<Rightarrow>
   (bool \<times> 'a mb_port_scheme) option" where
  "xMBPortSerialInit dev_open ucPORT ulBaudRate ucDataBits eParity p = do {
     let p = p\<lparr>serial := (if ucPORT = 1 then Some 1 else if ucPORT = 2 then Some 2 else serial p)\<rparr>;
     _ \<leftarrow> serial p;
     let p = p\<lparr>baud_rate := ulBaudRate\<rparr>;
     let p = (case eParity of
         MB_PAR_NONE \<Rightarrow> p\<lparr>data_bits := DATA_BITS_8, parity := PARITY_NONE\<rparr>
       | MB_PAR_ODD \<Rightarrow> p\<lparr>data_bits := DATA_BITS_9, parity := PARITY_ODD\<rparr>
       | MB_PAR_EVEN \<Rightarrow> p\<lparr>data_bits := DATA_BITS_9, parity := PARITY_EVEN\<rparr>);
     if dev_open
     then do {
       let p = p\<lparr>rx_fifo := [], rx_int := True, event_serial := rt_event_init RT_IPC_FLAG_PRIO\<rparr>;
       k \<leftarrow> rt_thread_init (trans_irq p) 10 (kern p);
       (_, k) \<leftarrow> rt_thread_startup (trans_irq p) k;
       Some (True, p\<lparr>kern := k\<rparr>)
     }
     else Some (False, p)
   }"

abbreviation (input) EVENT_SERIAL_TRANS_START :: "32 word" where "EVENT_SERIAL_TRANS_START \<equiv> 1"

definition vMBPortSerialEnable ::
  "bool \<Rightarrow> bool \<Rightarrow> 'a mb_port_scheme \<Rightarrow> 'a mb_port_scheme option" where
  "vMBPortSerialEnable xRxEnable xTxEnable p = do {
     _ \<leftarrow> serial p;
     let p = p\<lparr>rx_int := xRxEnable\<rparr>;
     if xTxEnable
     then do {
       (_, ev, k) \<leftarrow> rt_event_send (event_serial p) EVENT_SERIAL_TRANS_START (kern p);
       Some (p\<lparr>event_serial := ev, kern := k\<rparr>)
     }
     else do {
       (_, ev, k) \<leftarrow> rt_event_recv (event_serial p) EVENT_SERIAL_TRANS_START
          (RT_EVENT_FLAG_OR OR RT_EVENT_FLAG_CLEAR) 0 (kern p);
       Some (p\<lparr>event_serial := ev, kern := k\<rparr>)
     }
   }"

definition xMBPortSerialPutByte :: "UCHAR \<Rightarrow> 'a mb_port_scheme \<Rightarrow> (bool \<times> 'a mb_port_scheme) option" where
  "xMBPortSerialPutByte ucByte p = do {
     _ \<leftarrow> serial p;
     Some (True, p\<lparr>tx_line := tx_line p @ [ucByte]\<rparr>)
   }"

text \<open>
  A read of the device takes the oldest received byte. With nothing received the
  caller's variable stays unassigned, so there is no value to return.
\<close>

definition xMBPortSerialGetByte :: "'a mb_port_scheme \<Rightarrow> (UCHAR \<times> 'a mb_port_scheme) option" where
  "xMBPortSerialGetByte p = do {
     _ \<leftarrow> serial p;
     b \<leftarrow> rd (rx_fifo p) 0;
     Some (b, p\<lparr>rx_fifo := tl (rx_fifo p)\<rparr>)
   }"

end
