(* ===== verification/Mb_Crc.thy ===== *)
theory Mb_Crc
  imports Prelude
begin

text \<open>
  The CRC-16 of Modbus RTU, from \<^verbatim>\<open>pck/freemodbus/modbus/rtu/mbcrc.c\<close>: the two
  lookup tables and the loop of \<^verbatim>\<open>usMBCRC16\<close>. The table-driven routine is shown
  equal to the bit-serial definition of the CRC (polynomial \<^verbatim>\<open>0xA001\<close>, reflected),
  a frame followed by its own checksum has checksum 0, and every corruption that
  stays within two adjacent bytes changes the checksum.
\<close>

section \<open>Tables and loop\<close>

definition aucCRCHi :: "UCHAR list" where
  "aucCRCHi = [
    0x00, 0xC1, 0x81, 0x40, 0x01, 0xC0, 0x80, 0x41, 0x01, 0xC0, 0x80, 0x41,
    0x00, 0xC1, 0x81, 0x40, 0x01, 0xC0, 0x80, 0x41, 0x00, 0xC1, 0x81, 0x40,
    0x00, 0xC1, 0x81, 0x40, 0x01, 0xC0, 0x80, 0x41, 0x01, 0xC0, 0x80, 0x41,
    0x00, 0xC1, 0x81, 0x40, 0x00, 0xC1, 0x81, 0x40, 0x01, 0xC0, 0x80, 0x41,
    0x00, 0xC1, 0x81, 0x40, 0x01, 0xC0, 0x80, 0x41, 0x01, 0xC0, 0x80, 0x41,
    0x00, 0xC1, 0x81, 0x40, 0x01, 0xC0, 0x80, 0x41, 0x00, 0xC1, 0x81, 0x40,
    0x00, 0xC1, 0x81, 0x40, 0x01, 0xC0, 0x80, 0x41, 0x00, 0xC1, 0x81, 0x40,
    0x01, 0xC0, 0x80, 0x41, 0x01, 0xC0, 0x80, 0x41, 0x00, 0xC1, 0x81, 0x40,
    0x00, 0xC1, 0x81, 0x40, 0x01, 0xC0, 0x80, 0x41, 0x01, 0xC0, 0x80, 0x41,
    0x00, 0xC1, 0x81, 0x40, 0x01, 0xC0, 0x80, 0x41, 0x00, 0xC1, 0x81, 0x40,
    0x00, 0xC1, 0x81, 0x40, 0x01, 0xC0, 0x80, 0x41, 0x01, 0xC0, 0x80, 0x41,
    0x00, 0xC1, 0x81, 0x40, 0x00, 0xC1, 0x81, 0x40, 0x01, 0xC0, 0x80, 0x41,
    0x00, 0xC1, 0x81, 0x40, 0x01, 0xC0, 0x80, 0x41, 0x01, 0xC0, 0x80, 0x41,
    0x00, 0xC1, 0x81, 0x40, 0x00, 0xC1, 0x81, 0x40, 0x01, 0xC0, 0x80, 0x41,
    0x01, 0xC0, 0x80, 0x41, 0x00, 0xC1, 0x81, 0x40, 0x01, 0xC0, 0x80, 0x41,
    0x00, 0xC1, 0x81, 0x40, 0x00, 0xC1, 0x81, 0x40, 0x01, 0xC0, 0x80, 0x41,
    0x00, 0xC1, 0x81, 0x40, 0x01, 0xC0, 0x80, 0x41, 0x01, 0xC0, 0x80, 0x41,
    0x00, 0xC1, 0x81, 0x40, 0x01, 0xC0, 0x80, 0x41, 0x00, 0xC1, 0x81, 0x40,
    0x00, 0xC1, 0x81, 0x40, 0x01, 0xC0, 0x80, 0x41, 0x01, 0xC0, 0x80, 0x41,
    0x00, 0xC1, 0x81, 0x40, 0x00, 0xC1, 0x81, 0x40, 0x01, 0xC0, 0x80, 0x41,
    0x00, 0xC1, 0x81, 0x40, 0x01, 0xC0, 0x80, 0x41, 0x01, 0xC0, 0x80, 0x41,
    0x00, 0xC1, 0x81, 0x40]"

definition aucCRCLo :: "UCHAR list" where
  "aucCRCLo = [
    0x00, 0xC0, 0xC1, 0x01, 0xC3, 0x03, 0x02, 0xC2, 0xC6, 0x06, 0x07, 0xC7,
    0x05, 0xC5, 0xC4, 0x04, 0xCC, 0x0C, 0x0D, 0xCD, 0x0F, 0xCF, 0xCE, 0x0E,
    0x0A, 0xCA, 0xCB, 0x0B, 0xC9, 0x09, 0x08, 0xC8, 0xD8, 0x18, 0x19, 0xD9,
    0x1B, 0xDB, 0xDA, 0x1A, 0x1E, 0xDE, 0xDF, 0x1F, 0xDD, 0x1D, 0x1C, 0xDC,
    0x14, 0xD4, 0xD5, 0x15, 0xD7, 0x17, 0x16, 0xD6, 0xD2, 0x12, 0x13, 0xD3,
    0x11, 0xD1, 0xD0, 0x10, 0xF0, 0x30, 0x31, 0xF1, 0x33, 0xF3, 0xF2, 0x32,
    0x36, 0xF6, 0xF7, 0x37, 0xF5, 0x35, 0x34, 0xF4, 0x3C, 0xFC, 0xFD, 0x3D,
    0xFF, 0x3F, 0x3E, 0xFE, 0xFA, 0x3A, 0x3B, 0xFB, 0x39, 0xF9, 0xF8, 0x38,
    0x28, 0xE8, 0xE9, 0x29, 0xEB, 0x2B, 0x2A, 0xEA, 0xEE, 0x2E, 0x2F, 0xEF,
    0x2D, 0xED, 0xEC, 0x2C, 0xE4, 0x24, 0x25, 0xE5, 0x27, 0xE7, 0xE6, 0x26,
    0x22, 0xE2, 0xE3, 0x23, 0xE1, 0x21, 0x20, 0xE0, 0xA0, 0x60, 0x61, 0xA1,
    0x63, 0xA3, 0xA2, 0x62, 0x66, 0xA6, 0xA7, 0x67, 0xA5, 0x65, 0x64, 0xA4,
    0x6C, 0xAC, 0xAD, 0x6D, 0xAF, 0x6F, 0x6E, 0xAE, 0xAA, 0x6A, 0x6B, 0xAB,
    0x69, 0xA9, 0xA8, 0x68, 0x78, 0xB8, 0xB9, 0x79, 0xBB, 0x7B, 0x7A, 0xBA,
    0xBE, 0x7E, 0x7F, 0xBF, 0x7D, 0xBD, 0xBC, 0x7C, 0xB4, 0x74, 0x75, 0xB5,
    0x77, 0xB7, 0xB6, 0x76, 0x72, 0xB2, 0xB3, 0x73, 0xB1, 0x71, 0x70, 0xB0,
    0x50, 0x90, 0x91, 0x51, 0x93, 0x53, 0x52, 0x92, 0x96, 0x56, 0x57, 0x97,
    0x55, 0x95, 0x94, 0x54, 0x9C, 0x5C, 0x5D, 0x9D, 0x5F, 0x9F, 0x9E, 0x5E,
    0x5A, 0x9A, 0x9B, 0x5B, 0x99, 0x59, 0x58, 0x98, 0x88, 0x48, 0x49, 0x89,
    0x4B, 0x8B, 0x8A, 0x4A, 0x4E, 0x8E, 0x8F, 0x4F, 0x8D, 0x4D, 0x4C, 0x8C,
    0x44, 0x84, 0x85, 0x45, 0x87, 0x47, 0x46, 0x86, 0x82, 0x42, 0x43, 0x83,
    0x41, 0x81, 0x80, 0x40]"

text \<open>
  One turn of the \<^verbatim>\<open>while\<close> loop on the pair \<^verbatim>\<open>(ucCRCHi, ucCRCLo)\<close>. The index is an
  8-bit value, so it is always inside the two tables.
\<close>

definition crc_turn :: "UCHAR \<times> UCHAR \<Rightarrow> UCHAR \<Rightarrow> UCHAR \<times> UCHAR" where
  "crc_turn s b = (let (ucCRCHi, ucCRCLo) = s;
                       iIndex = unat (ucCRCLo XOR b)
                   in (aucCRCLo ! iIndex, ucCRCHi XOR aucCRCHi ! iIndex))"

fun crc_loop :: "UCHAR \<times> UCHAR \<Rightarrow> UCHAR list \<Rightarrow> UCHAR \<times> UCHAR" where
  "crc_loop s [] = s"
| "crc_loop s (b # bs) = crc_loop (crc_turn s b) bs"

text \<open>
  \<^verbatim>\<open>usMBCRC16 (pucFrame, usLen)\<close> reads \<^verbatim>\<open>usLen\<close> bytes from \<^verbatim>\<open>pucFrame\<close>; the argument
  here is the list of those bytes.
\<close>

definition usMBCRC16 :: "UCHAR list \<Rightarrow> USHORT" where
  "usMBCRC16 bs = (let (ucCRCHi, ucCRCLo) = crc_loop (0xFF, 0xFF) bs in mk16 ucCRCHi ucCRCLo)"

section \<open>The bit-serial reference\<close>

definition crc_bit :: "USHORT \<Rightarrow> USHORT" where
  "crc_bit r = (if bit r 0 then drop_bit 1 r XOR 0xA001 else drop_bit 1 r)"

definition crc_byte :: "USHORT \<Rightarrow> UCHAR \<Rightarrow> USHORT" where
  "crc_byte r b = (crc_bit ^^ 8) (r XOR ucast b)"

fun crc_ref :: "USHORT \<Rightarrow> UCHAR list \<Rightarrow> USHORT" where
  "crc_ref r [] = r"
| "crc_ref r (b # bs) = crc_ref (crc_byte r b) bs"

section \<open>The tables hold the reference values\<close>

definition crc_tab :: "nat \<Rightarrow> USHORT" where
  "crc_tab i = mk16 (aucCRCLo ! i) (aucCRCHi ! i)"

lemma length_tables [simp]: "length aucCRCHi = 256" "length aucCRCLo = 256"
  by (simp_all add: aucCRCHi_def aucCRCLo_def)


lemma crc_bit_xor: "crc_bit (a XOR b) = crc_bit a XOR crc_bit b"
  by (rule bit_word_eqI) (auto simp: crc_bit_def bit_simps)

lemma crc_bits_xor: "(crc_bit ^^ n) (a XOR b) = (crc_bit ^^ n) a XOR (crc_bit ^^ n) b"
  by (induction n) (simp_all add: crc_bit_xor)


lemma crc_byte_xor: "crc_byte (r XOR s) (b XOR c) = crc_byte r b XOR crc_byte s c"
proof -
  have "(r XOR s) XOR ucast (b XOR c) = (r XOR ucast b) XOR (s XOR ucast c)"
    by (rule bit_word_eqI) (auto simp: bit_simps)
  then show ?thesis
    by (simp only: crc_byte_def crc_bits_xor)
qed

lemma crc_byte_unfold: "crc_byte r b =
  crc_bit (crc_bit (crc_bit (crc_bit (crc_bit (crc_bit (crc_bit (crc_bit (r XOR ucast b))))))))"
  unfolding crc_byte_def by (simp add: numeral_eq_Suc)



text \<open>
  The CRC is linear, so its table is built by doubling: the entries from \<open>2 ^ k\<close> on
  are those below it with the entry of \<open>2 ^ k\<close> added.
\<close>

fun crc_double :: "USHORT list \<Rightarrow> USHORT list \<Rightarrow> USHORT list" where
  "crc_double tab [] = tab"
| "crc_double tab (t # ts) = crc_double (tab @ map (\<lambda>x. x XOR t) tab) ts"

lemma crc_double_step:
  assumes "k < 8"
  shows "map (\<lambda>i. crc_byte 0 (of_nat i)) [0..<2 ^ Suc k] =
    map (\<lambda>i. crc_byte 0 (of_nat i)) [0..<2 ^ k] @
    map (\<lambda>x. x XOR crc_byte 0 (2 ^ k)) (map (\<lambda>i. crc_byte 0 (of_nat i)) [0..<2 ^ k])"
proof -
  have split: "[0..<2 ^ Suc k] = [0..<2 ^ k] @ map (\<lambda>i. i + 2 ^ k) [0..<2 ^ k :: nat]"
    by (simp add: map_add_upt upt_add_eq_append [of 0, simplified] mult_2)
  have "crc_byte 0 (of_nat (i + 2 ^ k)) = crc_byte 0 (of_nat i) XOR crc_byte 0 (2 ^ k)"
    if "i < 2 ^ k" for i :: nat
  proof -
    have "(of_nat i :: 8 word) = take_bit k (of_nat i)"
      using that assms
      by (metis less_mask_eq min_def of_nat_take_bit order_less_imp_le take_bit_nat_eq_self take_bit_of_nat take_bit_word_eq_self take_bit_take_bit)
    then have "(of_nat i :: 8 word) AND 2 ^ k = 0"
      by (metis and_exp_eq_0_iff_not_bit bit_take_bit_iff less_irrefl)
    then have "(of_nat (i + 2 ^ k) :: 8 word) = of_nat i XOR 2 ^ k"
      by (simp add: disjunctive_add_eq_xor)
    then show ?thesis
      using crc_byte_xor [of 0 0 "of_nat i" "2 ^ k"] by simp
  qed
  then show ?thesis
    unfolding split by simp
qed

lemma crc_byte_basis:
  "crc_byte 0 1 = 0xC0C1" "crc_byte 0 2 = 0xC181" "crc_byte 0 4 = 0xC301" "crc_byte 0 8 = 0xC601"
  "crc_byte 0 16 = 0xCC01" "crc_byte 0 32 = 0xD801" "crc_byte 0 64 = 0xF001" "crc_byte 0 128 = 0xA001"
  by (simp_all add: crc_byte_unfold crc_bit_def)

lemma crc_double_eval:
  "crc_double [0] [0xC0C1, 0xC181, 0xC301, 0xC601, 0xCC01, 0xD801, 0xF001, 0xA001] =
   map2 mk16 aucCRCLo aucCRCHi"
  by (simp add: aucCRCHi_def aucCRCLo_def mk16_def)

lemma tables_eval: "map2 mk16 aucCRCLo aucCRCHi = map (\<lambda>i. crc_byte 0 (of_nat i)) [0..<256]"
proof -
  have "crc_byte 0 0 = 0"
    by (simp add: crc_byte_unfold crc_bit_def)
  then show ?thesis
  using crc_double_step [of 0] crc_double_step [of 1] crc_double_step [of 2] crc_double_step [of 3]
    crc_double_step [of 4] crc_double_step [of 5] crc_double_step [of 6] crc_double_step [of 7]
  by (simp del: upt_rec_numeral add: crc_double_eval [symmetric] crc_byte_basis)
qed

lemma crc_tab_eq: "mk16 (aucCRCLo ! unat b) (aucCRCHi ! unat b) = crc_byte 0 b"
proof -
  have lt: "unat b < 256"
    by (rule unat8_lt)
  then have "mk16 (aucCRCLo ! unat b) (aucCRCHi ! unat b) = map2 mk16 aucCRCLo aucCRCHi ! unat b"
    by simp
  also have "\<dots> = crc_byte 0 (of_nat (unat b))"
    using lt by (simp add: tables_eval)
  finally show ?thesis by simp
qed

section \<open>Table-driven and bit-serial CRC agree\<close>

lemma crc_bit_push:
  assumes "0 < m" "m \<le> 8"
  shows "crc_bit (push_bit m (ucast (h :: UCHAR))) = push_bit (m - 1) (ucast h)"
proof -
  have "\<not> bit (push_bit m (ucast h :: USHORT)) 0"
    using assms by (simp add: bit_simps)
  moreover have "drop_bit 1 (push_bit m (ucast h :: USHORT)) = push_bit (m - 1) (ucast h)"
    using assms by (intro bit_word_eqI) (auto simp: bit_push_bit_iff bit_drop_bit_eq bit_ucast_iff
        Suc_diff_le dest: bit_imp_le_length)
  ultimately show ?thesis
    by (simp add: crc_bit_def)
qed

lemma crc_byte_high: "crc_byte (mk16 h 0) 0 = ucast h"
  by (simp add: crc_byte_unfold mk16_def crc_bit_push crc_bit_push [of 1, simplified])

lemma crc_byte_split: "crc_byte (mk16 h l) b = crc_byte 0 (l XOR b) XOR ucast h"
proof -
  have "mk16 h l = mk16 h 0 XOR ucast l"
    by (rule bit_word_eqI) (auto simp: bit_mk16 bit_simps dest: bit_imp_le_length)
  then have "crc_byte (mk16 h l) b = crc_byte (mk16 h 0 XOR ucast l) (0 XOR b)"
    by simp
  also have "\<dots> = crc_byte (mk16 h 0) 0 XOR crc_byte (ucast l) b"
    by (rule crc_byte_xor)
  also have "crc_byte (ucast l) b = crc_byte 0 (l XOR b)"
    by (simp add: crc_byte_def unsigned_xor_eq)
  finally show ?thesis
    by (simp add: crc_byte_high xor.commute)
qed

lemma crc_turn_eq: "crc_turn (h, l) b = (h', l') \<Longrightarrow> mk16 h' l' = crc_byte (mk16 h l) b"
proof -
  assume "crc_turn (h, l) b = (h', l')"
  then have h': "h' = aucCRCLo ! unat (l XOR b)" and l': "l' = h XOR aucCRCHi ! unat (l XOR b)"
    by (simp_all add: crc_turn_def Let_def)
  have "mk16 h' l' = mk16 (aucCRCLo ! unat (l XOR b)) (aucCRCHi ! unat (l XOR b)) XOR ucast h"
    unfolding h' l' by (rule bit_word_eqI) (auto simp: bit_mk16 bit_simps dest: bit_imp_le_length)
  then show ?thesis
    by (simp add: crc_tab_eq crc_byte_split)
qed

lemma crc_loop_eq: "crc_loop (h, l) bs = (h', l') \<Longrightarrow> mk16 h' l' = crc_ref (mk16 h l) bs"
proof (induction bs arbitrary: h l)
  case Nil
  then show ?case by simp
next
  case (Cons b bs)
  obtain h1 l1 where t: "crc_turn (h, l) b = (h1, l1)"
    by fastforce
  then show ?case
    using Cons crc_turn_eq [OF t] by simp
qed

lemma usMBCRC16_ref: "usMBCRC16 bs = crc_ref 0xFFFF bs"
proof -
  obtain h l where "crc_loop (0xFF, 0xFF) bs = (h, l)"
    by fastforce
  moreover have "mk16 0xFF 0xFF = 0xFFFF"
    by (simp add: mk16_def)
  ultimately show ?thesis
    using crc_loop_eq [of "0xFF" "0xFF" bs h l] by (simp add: usMBCRC16_def)
qed

section \<open>Checksum of a frame with its checksum appended\<close>

lemma crc_ref_append: "crc_ref r (xs @ ys) = crc_ref (crc_ref r xs) ys"
  by (induction xs arbitrary: r) simp_all

lemma crc_byte_0_0 [simp]: "crc_byte 0 0 = 0"
  by (simp add: crc_byte_unfold crc_bit_def)

lemma crc_byte_lo8: "crc_byte r (lo8 r) = ucast (hi8 r)"
  using crc_byte_split [of "hi8 r" "lo8 r" "lo8 r"] by simp

lemma crc_residue: "crc_ref r [lo8 r, hi8 r] = 0"
proof -
  have "crc_byte (ucast (hi8 r)) (hi8 r) = crc_byte (mk16 0 (hi8 r)) (hi8 r)"
    by (simp add: mk16_def)
  also have "\<dots> = 0"
    by (simp add: crc_byte_split)
  finally show ?thesis
    by (simp add: crc_byte_lo8)
qed

section \<open>Detection of corrupted frames\<close>

lemma crc_bit_eq_0: "crc_bit r = 0 \<longleftrightarrow> r = 0"
proof
  assume z: "crc_bit r = 0"
  have "\<not> bit r 0"
  proof
    assume "bit r 0"
    then have "bit (crc_bit r) 15"
      using bit_imp_le_length [of r 16] by (auto simp: crc_bit_def bit_simps)
    with z show False by simp
  qed
  then have "drop_bit 1 r = 0"
    using z by (simp add: crc_bit_def)
  then have "\<not> bit r (Suc n)" for n
    using bit_drop_bit_eq [of 1 r] by (simp add: fun_eq_iff)
  with \<open>\<not> bit r 0\<close> show "r = 0"
    by (intro bit_word_eqI) (case_tac n, simp_all)
qed (simp add: crc_bit_def)

lemma crc_bits_inject: "(crc_bit ^^ n) r = (crc_bit ^^ n) s \<longleftrightarrow> r = s"
proof -
  have "(crc_bit ^^ n) x = 0 \<longleftrightarrow> x = 0" for x
    by (induction n) (simp_all add: crc_bit_eq_0)
  moreover have "(crc_bit ^^ n) r = (crc_bit ^^ n) s \<longleftrightarrow> (crc_bit ^^ n) (r XOR s) = 0"
    by (simp add: crc_bits_xor xor_eq_zero)
  ultimately show ?thesis
    by (simp add: xor_eq_zero)
qed

lemma crc_byte_inject: "crc_byte r b = crc_byte s b \<longleftrightarrow> r = s"
  by (simp add: crc_byte_def crc_bits_inject xor_right_cancel)

lemma crc_ref_inject: "crc_ref r bs = crc_ref s bs \<longleftrightarrow> r = s"
  by (induction bs arbitrary: r s) (simp_all add: crc_byte_inject)

lemma crc_ref_two: "crc_ref r [a, b] = (crc_bit ^^ 16) (r XOR mk16 b a)"
proof -
  have eq: "r XOR mk16 b a = (r XOR ucast a) XOR mk16 b 0"
    by (rule bit_word_eqI) (auto simp: bit_mk16 bit_simps dest: bit_imp_le_length)
  have "(crc_bit ^^ 8) (r XOR mk16 b a) = crc_byte r a XOR ucast b"
    using crc_byte_high [of b] unfolding eq by (simp add: crc_byte_def crc_bits_xor)
  then have "(crc_bit ^^ (8 + 8)) (r XOR mk16 b a) = crc_byte (crc_byte r a) b"
    unfolding funpow_add by (simp add: crc_byte_def)
  then show ?thesis by simp
qed

lemma crc_ref_two_inject: "crc_ref r [a, b] = crc_ref r [c, d] \<longleftrightarrow> a = c \<and> b = d"
  unfolding crc_ref_two by (auto simp: crc_bits_inject xor_left_cancel mk16_inject)

lemma usMBCRC16_burst:
  "usMBCRC16 (pre @ [a, b] @ post) = usMBCRC16 (pre @ [c, d] @ post) \<longleftrightarrow> a = c \<and> b = d"
  by (simp add: usMBCRC16_ref crc_ref_append crc_ref_inject crc_ref_two_inject
      del: crc_ref.simps append_Cons append_Nil)

end
