(* ===== verification/Mb_Line.thy ===== *)
theory Mb_Line
  imports Prelude
begin

text \<open>
  What the RTU transports of slave and master share: a receive interrupt that runs once for
  each byte of the line, and a transmit interrupt that runs while the transmitter is on. The two
  locales state what a state machine must do for a single interrupt so that a whole frame is
  collected, or sent; \<open>Mb_Rtu\<close> and \<open>Mb_Rtu_M\<close> interpret them on the machines of the code.
\<close>

section \<open>Repeated interrupts\<close>

fun feed :: "('b \<Rightarrow> 's \<Rightarrow> 's option) \<Rightarrow> 'b list \<Rightarrow> 's \<Rightarrow> 's option" where
  "feed f [] s = Some s"
| "feed f (b # bs) s = do { s \<leftarrow> f b s; feed f bs s }"

lemma feed_append: "feed f (xs @ ys) s = do { s \<leftarrow> feed f xs s; feed f ys s }"
  by (induction xs arbitrary: s) (simp_all split: bind_split)

lemma feed_fixed: "f b s = Some s \<Longrightarrow> set bs \<subseteq> {b} \<Longrightarrow> feed f bs s = Some s"
  by (induction bs) auto

fun drain :: "('s \<Rightarrow> bool) \<Rightarrow> ('s \<Rightarrow> 's option) \<Rightarrow> nat \<Rightarrow> 's \<Rightarrow> 's option" where
  "drain on step 0 s = Some s"
| "drain on step (Suc n) s = (if on s then do { s \<leftarrow> step s; drain on step n s } else Some s)"

lemma drain_off: "\<not> on s \<Longrightarrow> drain on step n s = Some s"
  by (cases n) simp_all

section \<open>Receiving\<close>

text \<open>
  \<open>got s bs\<close> is the state \<open>s\<close> after the bytes \<open>bs\<close> of a frame, \<open>full s bs\<close> the state in which the
  receiver waits for the end of a frame that is too long.
\<close>

locale frame_receiver =
  fixes rx :: "'b \<Rightarrow> 's \<Rightarrow> 's option" and idle :: "'s \<Rightarrow> bool"
    and got :: "'s \<Rightarrow> 'b list \<Rightarrow> 's" and full :: "'s \<Rightarrow> 'b list \<Rightarrow> 's" and limit :: nat
  assumes rx_first: "idle s \<Longrightarrow> rx b s = Some (got s [b])"
    and rx_next: "\<lbrakk> idle s; bs \<noteq> []; length bs < limit \<rbrakk> \<Longrightarrow> rx b (got s bs) = Some (got s (bs @ [b]))"
    and rx_full: "\<lbrakk> idle s; length bs = limit \<rbrakk> \<Longrightarrow> rx b (got s bs) = Some (full s bs)"
    and rx_wait: "\<lbrakk> idle s; length bs = limit \<rbrakk> \<Longrightarrow> rx b (full s bs) = Some (full s bs)"
    and limit_pos: "0 < limit"
begin

lemma feed_frame:
  assumes "idle s" "bs \<noteq> []" "length bs \<le> limit"
  shows "feed rx bs s = Some (got s bs)"
  using assms(2,3)
proof (induction bs rule: rev_induct)
  case (snoc b bs)
  then show ?case
    using rx_first [OF assms(1)] rx_next [OF assms(1)] by (cases "bs = []") (simp_all add: feed_append)
qed simp

lemma feed_wait: "idle s \<Longrightarrow> length bs = limit \<Longrightarrow> feed rx cs (full s bs) = Some (full s bs)"
  by (induction cs) (simp_all add: rx_wait)

lemma feed_overflow:
  assumes "idle s" "limit < length bs"
  shows "feed rx bs s = Some (full s (take limit bs))"
proof -
  obtain c cs where c: "drop limit bs = c # cs"
    using assms(2) by (cases "drop limit bs") auto
  have len: "length (take limit bs) = limit"
    using assms(2) by simp
  then have "take limit bs \<noteq> []"
    using limit_pos by auto
  then have "feed rx (take limit bs @ c # cs) s = Some (full s (take limit bs))"
    using feed_frame [OF assms(1), of "take limit bs"] rx_full [OF assms(1) len] feed_wait [OF assms(1) len] len
    unfolding feed_append by simp
  then show ?thesis
    using c by (metis append_take_drop_id)
qed

end

section \<open>Sending\<close>

text \<open>
  \<open>sent s i\<close> is the state after \<open>i\<close> of the \<open>count s\<close> bytes of the frame, \<open>fin s\<close> the contract of the
  interrupt after the last one.
\<close>

locale frame_sender =
  fixes on :: "'s \<Rightarrow> bool" and step :: "'s \<Rightarrow> 's option" and ready :: "'s \<Rightarrow> bool"
    and sent :: "'s \<Rightarrow> nat \<Rightarrow> 's" and count :: "'s \<Rightarrow> nat" and fin :: "'s \<Rightarrow> 's \<Rightarrow> bool"
  assumes sent_0: "ready s \<Longrightarrow> sent s 0 = s"
    and sent_on: "ready s \<Longrightarrow> on (sent s i)"
    and step_byte: "\<lbrakk> ready s; i < count s \<rbrakk> \<Longrightarrow> step (sent s i) = Some (sent s (Suc i))"
    and step_last: "ready s \<Longrightarrow> \<exists>s'. step (sent s (count s)) = Some s' \<and> fin s s' \<and> \<not> on s'"
begin

lemma drain_bytes:
  assumes "ready s" "i + n \<le> count s"
  shows "drain on step (n + m) (sent s i) = drain on step m (sent s (i + n))"
  using assms(2)
proof (induction n arbitrary: i)
  case (Suc n)
  then show ?case
    using sent_on [OF assms(1), of i] step_byte [OF assms(1), of i] Suc.IH [of "Suc i"] by simp
qed simp

lemma drain_frame:
  assumes "ready s" "count s < m"
  shows "\<exists>s'. drain on step m s = Some s' \<and> fin s s' \<and> \<not> on s'"
proof -
  obtain k where m: "m = count s + Suc k"
    using assms(2) less_iff_Suc_add by auto
  have "drain on step m s = drain on step (Suc k) (sent s (count s))"
    using drain_bytes [OF assms(1), of 0 "count s" "Suc k"] sent_0 [OF assms(1)] unfolding m by simp
  moreover obtain s' where "step (sent s (count s)) = Some s'" "fin s s'" "\<not> on s'"
    using step_last [OF assms(1)] by blast
  ultimately show ?thesis
    using sent_on [OF assms(1)] drain_off by fastforce
qed

end

end
