(* ===== verification/Mb_Rtu.thy ===== *)
theory Mb_Rtu
  imports Mb_Port Mb_Crc Mb_Line
begin

text \<open>
  The RTU transport of the slave, \<^verbatim>\<open>pck/freemodbus/modbus/rtu/mbrtu.c\<close>: one frame
  buffer, a receive state machine driven by received bytes and by the \<open>t3.5\<close> timer,
  and a transmit state machine driven by the transmitter. A pointer into
  \<^verbatim>\<open>ucRTUBuf\<close> is its index.
\<close>

section \<open>State\<close>

datatype eMBRcvState = STATE_RX_INIT | STATE_RX_IDLE | STATE_RX_RCV | STATE_RX_ERROR

datatype eMBSndState = STATE_TX_IDLE | STATE_TX_XMIT

record mb_rtu = mb_port +
  eSndState :: eMBSndState
  eRcvState :: eMBRcvState
  ucRTUBuf :: "UCHAR list"
  pucSndBufferCur :: nat
  usSndBufferCount :: USHORT
  usRcvBufferPos :: USHORT

section \<open>Operations\<close>

definition rtu_t35 :: "ULONG \<Rightarrow> ULONG option" where
  "rtu_t35 ulBaudRate =
    (if 19200 < ulBaudRate then Some 35
     else if 2 * ulBaudRate = 0 then None
     else Some ((7 * 220000) div (2 * ulBaudRate)))"

definition eMBRTUInit ::
  "bool \<Rightarrow> UCHAR \<Rightarrow> UCHAR \<Rightarrow> ULONG \<Rightarrow> eMBParity \<Rightarrow> 'a mb_rtu_scheme \<Rightarrow>
   (eMBErrorCode \<times> 'a mb_rtu_scheme) option" where
  "eMBRTUInit dev_open ucSlaveAddress ucPort ulBaudRate eParity s = do {
     (ok, s) \<leftarrow> xMBPortSerialInit dev_open ucPort ulBaudRate 8 eParity s;
     if \<not> ok then Some (MB_EPORTERR, s)
     else do {
       usTimerT35_50us \<leftarrow> rtu_t35 ulBaudRate;
       let (ok, s) = xMBPortTimersInit (ucast usTimerT35_50us) s;
       Some (if \<not> ok then MB_EPORTERR else MB_ENOERR, s)
     }
   }"

definition eMBRTUStart :: "'a mb_rtu_scheme \<Rightarrow> 'a mb_rtu_scheme option" where
  "eMBRTUStart s = do {
     let s = s\<lparr>eRcvState := STATE_RX_INIT\<rparr>;
     s \<leftarrow> vMBPortSerialEnable True False s;
     Some (vMBPortTimersEnable s)
   }"

definition eMBRTUStop :: "'a mb_rtu_scheme \<Rightarrow> 'a mb_rtu_scheme option" where
  "eMBRTUStop s = do {
     s \<leftarrow> vMBPortSerialEnable False False s;
     Some (vMBPortTimersDisable s)
   }"

text \<open>
  The checksum of \<open>n\<close> bytes of an array from index \<open>i\<close> on: the call
  \<^verbatim>\<open>usMBCRC16(&buf[i], n)\<close> reads exactly those.
\<close>

definition crc_of :: "UCHAR list \<Rightarrow> nat \<Rightarrow> nat \<Rightarrow> USHORT option" where
  "crc_of buf i n = (if i + n \<le> length buf then Some (usMBCRC16 (take n (drop i buf))) else None)"

text \<open>
  \<^verbatim>\<open>eMBRTUReceive\<close> hands out the address, the index of the PDU in \<^verbatim>\<open>ucRTUBuf\<close> and its
  length; on an error the output parameters are not assigned.
\<close>

definition eMBRTUReceive ::
  "'a mb_rtu_scheme \<Rightarrow> (eMBErrorCode \<times> (UCHAR \<times> nat \<times> USHORT) option) option" where
  "eMBRTUReceive s = do {
     rt_assert (unat (usRcvBufferPos s) \<le> MB_SER_PDU_SIZE_MAX);
     if MB_SER_PDU_SIZE_MIN \<le> unat (usRcvBufferPos s)
     then do {
       crc \<leftarrow> crc_of (ucRTUBuf s) 0 (unat (usRcvBufferPos s));
       if crc = 0
       then do {
         a \<leftarrow> rd (ucRTUBuf s) 0;
         Some (MB_ENOERR, Some (a, 1, usRcvBufferPos s - 1 - 2))
       }
       else Some (MB_EIO, None)
     }
     else Some (MB_EIO, None)
   }"

definition eMBRTUSend ::
  "UCHAR \<Rightarrow> nat \<Rightarrow> USHORT \<Rightarrow> 'a mb_rtu_scheme \<Rightarrow> (eMBErrorCode \<times> 'a mb_rtu_scheme) option" where
  "eMBRTUSend ucSlaveAddress pucFrame usLength s =
    (if eRcvState s = STATE_RX_IDLE
     then do {
       rt_assert (0 < pucFrame);
       let s = s\<lparr>pucSndBufferCur := pucFrame - 1, usSndBufferCount := 1\<rparr>;
       buf \<leftarrow> wr (ucRTUBuf s) (pucSndBufferCur s) ucSlaveAddress;
       let s = s\<lparr>ucRTUBuf := buf, usSndBufferCount := usSndBufferCount s + usLength\<rparr>;
       usCRC16 \<leftarrow> crc_of (ucRTUBuf s) (pucSndBufferCur s) (unat (usSndBufferCount s));
       buf \<leftarrow> wr (ucRTUBuf s) (unat (usSndBufferCount s)) (lo8 usCRC16);
       let s = s\<lparr>ucRTUBuf := buf, usSndBufferCount := usSndBufferCount s + 1\<rparr>;
       buf \<leftarrow> wr (ucRTUBuf s) (unat (usSndBufferCount s)) (hi8 usCRC16);
       let s = s\<lparr>ucRTUBuf := buf, usSndBufferCount := usSndBufferCount s + 1\<rparr>;
       let s = s\<lparr>eSndState := STATE_TX_XMIT\<rparr>;
       s \<leftarrow> vMBPortSerialEnable False True s;
       Some (MB_ENOERR, s)
     }
     else Some (MB_EIO, s))"

definition xMBRTUReceiveFSM :: "'a mb_rtu_scheme \<Rightarrow> (bool \<times> 'a mb_rtu_scheme) option" where
  "xMBRTUReceiveFSM s = do {
     rt_assert (eSndState s = STATE_TX_IDLE);
     (ucByte, s) \<leftarrow> xMBPortSerialGetByte s;
     s \<leftarrow> (case eRcvState s of
         STATE_RX_INIT \<Rightarrow> Some (vMBPortTimersEnable s)
       | STATE_RX_ERROR \<Rightarrow> Some (vMBPortTimersEnable s)
       | STATE_RX_IDLE \<Rightarrow> do {
           buf \<leftarrow> wr (ucRTUBuf s) 0 ucByte;
           Some (vMBPortTimersEnable
             (s\<lparr>ucRTUBuf := buf, usRcvBufferPos := 1, eRcvState := STATE_RX_RCV\<rparr>))
         }
       | STATE_RX_RCV \<Rightarrow>
           if unat (usRcvBufferPos s) < MB_SER_PDU_SIZE_MAX
           then do {
             buf \<leftarrow> wr (ucRTUBuf s) (unat (usRcvBufferPos s)) ucByte;
             Some (vMBPortTimersEnable (s\<lparr>ucRTUBuf := buf, usRcvBufferPos := usRcvBufferPos s + 1\<rparr>))
           }
           else Some (vMBPortTimersEnable (s\<lparr>eRcvState := STATE_RX_ERROR\<rparr>)));
     Some (False, s)
   }"

definition xMBRTUTransmitFSM :: "'a mb_rtu_scheme \<Rightarrow> (bool \<times> 'a mb_rtu_scheme) option" where
  "xMBRTUTransmitFSM s = do {
     rt_assert (eRcvState s = STATE_RX_IDLE);
     case eSndState s of
       STATE_TX_IDLE \<Rightarrow> do {
         s \<leftarrow> vMBPortSerialEnable True False s;
         Some (False, s)
       }
     | STATE_TX_XMIT \<Rightarrow>
         if usSndBufferCount s \<noteq> 0
         then do {
           b \<leftarrow> rd (ucRTUBuf s) (pucSndBufferCur s);
           (_, s) \<leftarrow> xMBPortSerialPutByte b s;
           Some (False, s\<lparr>pucSndBufferCur := pucSndBufferCur s + 1,
                          usSndBufferCount := usSndBufferCount s - 1\<rparr>)
         }
         else do {
           (xNeedPoll, s) \<leftarrow> xMBPortEventPost EV_FRAME_SENT s;
           s \<leftarrow> vMBPortSerialEnable True False s;
           Some (xNeedPoll, s\<lparr>eSndState := STATE_TX_IDLE\<rparr>)
         }
   }"

definition xMBRTUTimerT35Expired :: "'a mb_rtu_scheme \<Rightarrow> (bool \<times> 'a mb_rtu_scheme) option" where
  "xMBRTUTimerT35Expired s = do {
     (xNeedPoll, s) \<leftarrow> (case eRcvState s of
         STATE_RX_INIT \<Rightarrow> xMBPortEventPost EV_READY s
       | STATE_RX_RCV \<Rightarrow> xMBPortEventPost EV_FRAME_RECEIVED s
       | STATE_RX_ERROR \<Rightarrow> Some (False, s)
       | STATE_RX_IDLE \<Rightarrow> None);
     Some (xNeedPoll, (vMBPortTimersDisable s)\<lparr>eRcvState := STATE_RX_IDLE\<rparr>)
   }"

section \<open>Reception of a frame\<close>

text \<open>
  The receive interrupt for one byte of the line, \<^verbatim>\<open>serial_rx_ind\<close> of \<^verbatim>\<open>portserial.c\<close>,
  and the bytes of a burst one after the other.
\<close>

definition serial_rx_ind :: "UCHAR \<Rightarrow> 'a mb_rtu_scheme \<Rightarrow> 'a mb_rtu_scheme option" where
  "serial_rx_ind b s = do {
     (_, s) \<leftarrow> xMBRTUReceiveFSM (s\<lparr>rx_fifo := rx_fifo s @ [b]\<rparr>);
     Some s
   }"

definition rtu_line :: "UCHAR list \<Rightarrow> 'a mb_rtu_scheme \<Rightarrow> 'a mb_rtu_scheme option" where
  "rtu_line bs s = feed serial_rx_ind bs s"

text \<open>The receiver listens: the port is open, nothing is being sent, no byte is unread.\<close>

definition rtu_listens :: "'a mb_rtu_scheme \<Rightarrow> bool" where
  "rtu_listens s \<longleftrightarrow> serial s \<noteq> None \<and> eSndState s = STATE_TX_IDLE \<and> rx_fifo s = [] \<and>
     length (ucRTUBuf s) = 256"

lemma serial_rx_ind_idle:
  assumes "rtu_listens s" "eRcvState s = STATE_RX_IDLE"
  shows "serial_rx_ind b s = Some (s\<lparr>ucRTUBuf := (ucRTUBuf s)[0 := b], usRcvBufferPos := 1,
    eRcvState := STATE_RX_RCV, timer_on := True\<rparr>)"
  using assms
  by (auto simp: serial_rx_ind_def xMBRTUReceiveFSM_def xMBPortSerialGetByte_def rtu_listens_def
      vMBPortTimersEnable_def)

lemma serial_rx_ind_rcv:
  assumes "rtu_listens s" "eRcvState s = STATE_RX_RCV" "unat (usRcvBufferPos s) < 256"
  shows "serial_rx_ind b s = Some (s\<lparr>ucRTUBuf := (ucRTUBuf s)[unat (usRcvBufferPos s) := b],
    usRcvBufferPos := usRcvBufferPos s + 1, timer_on := True\<rparr>)"
  using assms
  by (auto simp: serial_rx_ind_def xMBRTUReceiveFSM_def xMBPortSerialGetByte_def rtu_listens_def
      vMBPortTimersEnable_def)

lemma serial_rx_ind_full:
  assumes "rtu_listens s" "eRcvState s = STATE_RX_RCV" "256 \<le> unat (usRcvBufferPos s)"
  shows "serial_rx_ind b s = Some (s\<lparr>eRcvState := STATE_RX_ERROR, timer_on := True\<rparr>)"
  using assms
  by (auto simp: serial_rx_ind_def xMBRTUReceiveFSM_def xMBPortSerialGetByte_def rtu_listens_def
      vMBPortTimersEnable_def)

lemma serial_rx_ind_wait:
  assumes "rtu_listens s" "eRcvState s = STATE_RX_ERROR \<or> eRcvState s = STATE_RX_INIT"
  shows "serial_rx_ind b s = Some (s\<lparr>timer_on := True\<rparr>)"
  using assms
  by (auto simp: serial_rx_ind_def xMBRTUReceiveFSM_def xMBPortSerialGetByte_def rtu_listens_def
      vMBPortTimersEnable_def)

lemma rtu_line_Nil [simp]: "rtu_line [] s = Some s"
  by (simp add: rtu_line_def)

lemma rtu_line_wait:
  assumes "rtu_listens s" "eRcvState s = STATE_RX_ERROR \<or> eRcvState s = STATE_RX_INIT" "bs \<noteq> []"
  shows "rtu_line bs s = Some (s\<lparr>timer_on := True\<rparr>)"
  using assms
proof (induction bs arbitrary: s)
  case (Cons b bs)
  then show ?case
    by (cases "bs = []") (simp_all add: rtu_line_def serial_rx_ind_wait rtu_listens_def)
qed simp

definition rtu_got :: "'a mb_rtu_scheme \<Rightarrow> UCHAR list \<Rightarrow> 'a mb_rtu_scheme" where
  "rtu_got s bs = s\<lparr>ucRTUBuf := blit (ucRTUBuf s) 0 bs, usRcvBufferPos := of_nat (length bs),
     eRcvState := STATE_RX_RCV, timer_on := True\<rparr>"

definition rtu_full :: "'a mb_rtu_scheme \<Rightarrow> UCHAR list \<Rightarrow> 'a mb_rtu_scheme" where
  "rtu_full s bs = s\<lparr>ucRTUBuf := blit (ucRTUBuf s) 0 bs, usRcvBufferPos := of_nat (length bs),
     eRcvState := STATE_RX_ERROR, timer_on := True\<rparr>"

lemma rtu_pos: "n \<le> 256 \<Longrightarrow> unat (of_nat n :: USHORT) = n"
  by (simp add: unat_of_nat take_bit_nat_def)

interpretation slave_rx: frame_receiver serial_rx_ind
    "\<lambda>s. rtu_listens s \<and> eRcvState s = STATE_RX_IDLE" rtu_got rtu_full 256
proof
  fix s :: "'a mb_rtu_scheme" and bs :: "UCHAR list" and b
  assume s: "rtu_listens s \<and> eRcvState s = STATE_RX_IDLE"
  have "(ucRTUBuf s)[0 := b] = blit (ucRTUBuf s) 0 [b]"
    using s blit_snoc [of 0 "[]" "ucRTUBuf s" b] by (simp add: rtu_listens_def)
  then show "serial_rx_ind b s = Some (rtu_got s [b])"
    using s by (simp add: serial_rx_ind_idle rtu_got_def)
  { assume "bs \<noteq> []" "length bs < 256"
    then show "serial_rx_ind b (rtu_got s bs) = Some (rtu_got s (bs @ [b]))"
      using s blit_snoc [of 0 bs "ucRTUBuf s" b]
      by (subst serial_rx_ind_rcv) (simp_all add: rtu_got_def rtu_listens_def rtu_pos add.commute) }
  assume "length bs = 256"
  then show "serial_rx_ind b (rtu_got s bs) = Some (rtu_full s bs)"
      "serial_rx_ind b (rtu_full s bs) = Some (rtu_full s bs)"
    using s by (simp_all add: serial_rx_ind_full serial_rx_ind_wait rtu_got_def rtu_full_def rtu_listens_def)
qed simp

lemma rtu_line_frame:
  assumes "rtu_listens s" "eRcvState s = STATE_RX_IDLE" "bs \<noteq> []" "length bs \<le> 256"
  shows "rtu_line bs s = Some (s\<lparr>ucRTUBuf := blit (ucRTUBuf s) 0 bs,
    usRcvBufferPos := of_nat (length bs), eRcvState := STATE_RX_RCV, timer_on := True\<rparr>)"
  using slave_rx.feed_frame [of s bs] assms by (simp add: rtu_line_def rtu_got_def)

lemma rtu_line_overflow:
  assumes "rtu_listens s" "eRcvState s = STATE_RX_IDLE" "256 < length bs"
  shows "\<exists>buf. rtu_line bs s = Some (s\<lparr>ucRTUBuf := buf, usRcvBufferPos := 256,
    eRcvState := STATE_RX_ERROR, timer_on := True\<rparr>) \<and> length buf = 256"
  using slave_rx.feed_overflow [of s bs] assms
  by (intro exI [of _ "blit (ucRTUBuf s) 0 (take 256 bs)"])
    (simp add: rtu_line_def rtu_full_def rtu_listens_def)

text \<open>A burst of bytes followed by the silence that lets the timer expire.\<close>

definition rtu_burst :: "UCHAR list \<Rightarrow> 'a mb_rtu_scheme \<Rightarrow> 'a mb_rtu_scheme option" where
  "rtu_burst bs s = do {
     s \<leftarrow> rtu_line bs s;
     (_, s) \<leftarrow> xMBRTUTimerT35Expired s;
     Some s
   }"

definition rtu_frame :: "UCHAR \<Rightarrow> UCHAR list \<Rightarrow> UCHAR list" where
  "rtu_frame a pdu = (let crc = usMBCRC16 (a # pdu) in a # pdu @ [lo8 crc, hi8 crc])"

lemma length_rtu_frame [simp]: "length (rtu_frame a pdu) = length pdu + 3"
  by (simp add: rtu_frame_def Let_def)

lemma crc_rtu_frame: "usMBCRC16 (rtu_frame a pdu) = 0"
proof -
  let ?crc = "usMBCRC16 (a # pdu)"
  have "rtu_frame a pdu = (a # pdu) @ [lo8 ?crc, hi8 ?crc]"
    by (simp add: rtu_frame_def Let_def)
  then have "usMBCRC16 (rtu_frame a pdu) = crc_ref (crc_ref 0xFFFF (a # pdu)) [lo8 ?crc, hi8 ?crc]"
    by (simp only: usMBCRC16_ref crc_ref_append)
  also have "\<dots> = 0"
    by (simp only: usMBCRC16_ref crc_residue)
  finally show ?thesis .
qed

lemma ev_code_nz [simp]: "ev_code e \<noteq> 0"
  by (cases e) (simp_all add: ev_code_def)

lemma xMBPortEventPost_idle [simp]:
  "suspend_thread (os_event s) = [] \<Longrightarrow> xMBPortEventPost e s =
   Some (True, s\<lparr>os_event := (os_event s)\<lparr>ev_set := ev_set (os_event s) OR ev_code e\<rparr>\<rparr>)"
  by (simp add: xMBPortEventPost_def)

lemma rtu_burst_frame:
  assumes "rtu_listens s" "eRcvState s = STATE_RX_IDLE" "suspend_thread (os_event s) = []"
    and "bs \<noteq> []" "length bs \<le> 256"
  shows "rtu_burst bs s = Some (s\<lparr>ucRTUBuf := blit (ucRTUBuf s) 0 bs,
    usRcvBufferPos := of_nat (length bs), timer_on := False,
    os_event := (os_event s)\<lparr>ev_set := ev_set (os_event s) OR ev_code EV_FRAME_RECEIVED\<rparr>\<rparr>)"
  using assms by (simp add: rtu_burst_def rtu_line_frame xMBRTUTimerT35Expired_def vMBPortTimersDisable_def)

lemma rtu_burst_overflow:
  assumes "rtu_listens s" "eRcvState s = STATE_RX_IDLE" "256 < length bs"
  shows "\<exists>buf. rtu_burst bs s = Some (s\<lparr>ucRTUBuf := buf, usRcvBufferPos := 256, timer_on := False,
      eRcvState := STATE_RX_IDLE\<rparr>) \<and>
    length buf = 256"
  using rtu_line_overflow [OF assms] assms(2)
  by (auto simp: rtu_burst_def xMBRTUTimerT35Expired_def vMBPortTimersDisable_def)

lemma rtu_burst_init:
  assumes "rtu_listens s" "eRcvState s = STATE_RX_INIT" "suspend_thread (os_event s) = []"
  shows "rtu_burst bs s = Some (s\<lparr>eRcvState := STATE_RX_IDLE, timer_on := False,
    os_event := (os_event s)\<lparr>ev_set := ev_set (os_event s) OR ev_code EV_READY\<rparr>\<rparr>)"
  using assms
  by (cases "bs = []")
    (simp_all add: rtu_burst_def rtu_line_wait xMBRTUTimerT35Expired_def vMBPortTimersDisable_def)

lemma eMBRTUReceive_frame:
  assumes "take (length bs) (ucRTUBuf s) = bs" "usRcvBufferPos s = of_nat (length bs)" "length bs \<le> 256"
  shows "eMBRTUReceive s = Some (if 4 \<le> length bs \<and> usMBCRC16 bs = 0
     then (MB_ENOERR, Some (bs ! 0, 1, of_nat (length bs) - 3)) else (MB_EIO, None))"
proof -
  have len: "length bs \<le> length (ucRTUBuf s)"
    using assms(1) by (metis length_take min.cobounded1 min.commute)
  have n: "unat (of_nat (length bs) :: USHORT) = length bs"
    using assms(3) by (simp add: unat_of_nat take_bit_nat_def)
  have "4 \<le> length bs \<Longrightarrow> bs ! 0 = ucRTUBuf s ! 0"
    using assms(1) by (metis nth_take not_numeral_le_zero not_gr_zero)
  moreover have "4 \<le> length bs \<Longrightarrow> rd (ucRTUBuf s) 0 = Some (ucRTUBuf s ! 0)"
    using len by (intro rd_in) linarith
  ultimately show ?thesis
    using len n assms by (auto simp: eMBRTUReceive_def crc_of_def)
qed

section \<open>Transmission of a frame\<close>

text \<open>
  The transmitter thread of \<^verbatim>\<open>portserial.c\<close> calls the transmit state machine while the
  start flag of \<^verbatim>\<open>event_serial\<close> is set; \<open>n\<close> such calls.
\<close>

definition tx_started :: "'a mb_port_scheme \<Rightarrow> bool" where
  "tx_started s \<longleftrightarrow> ev_set (event_serial s) AND EVENT_SERIAL_TRANS_START \<noteq> 0"

definition rtu_drain :: "nat \<Rightarrow> 'a mb_rtu_scheme \<Rightarrow> 'a mb_rtu_scheme option" where
  "rtu_drain n s = drain tx_started (\<lambda>s. map_option snd (xMBRTUTransmitFSM s)) n s"

text \<open>The port can be used from a thread and nobody waits on its events.\<close>

definition port_calm :: "'a mb_port_scheme \<Rightarrow> bool" where
  "port_calm s \<longleftrightarrow> serial s \<noteq> None \<and> rt_current_thread (kern s) \<noteq> None \<and>
     rt_interrupt_nest (kern s) = 0 \<and>
     suspend_thread (os_event s) = [] \<and> suspend_thread (event_serial s) = []"

lemma vMBPortSerialEnable_tx:
  assumes "port_calm s"
  shows "vMBPortSerialEnable rx True s = Some (s\<lparr>rx_int := rx,
    event_serial := (event_serial s)\<lparr>ev_set := ev_set (event_serial s) OR 1\<rparr>\<rparr>)"
  using assms by (auto simp: vMBPortSerialEnable_def port_calm_def)

lemma vMBPortSerialEnable_rx:
  assumes "port_calm s"
  shows "\<exists>k. vMBPortSerialEnable rx False s = Some (s\<lparr>rx_int := rx,
      event_serial := (event_serial s)\<lparr>ev_set := ev_set (event_serial s) AND NOT 1\<rparr>, kern := k\<rparr>) \<and>
    rt_current_thread k = rt_current_thread (kern s) \<and> rt_interrupt_nest k = rt_interrupt_nest (kern s)"
proof -
  obtain t where t: "rt_current_thread (kern s) = Some t" "rt_interrupt_nest (kern s) = 0"
    using assms by (auto simp: port_calm_def)
  show ?thesis
  proof (cases "ev_set (event_serial s) AND 1 = 0")
    case True
    then have "ev_set (event_serial s) AND NOT 1 = ev_set (event_serial s)"
      by (auto simp: bit_eq_iff bit_simps)
    then show ?thesis
      using rt_event_recv_empty [OF t True] t assms
      by (auto simp: vMBPortSerialEnable_def port_calm_def set_error_def)
  next
    case False
    then show ?thesis
      using rt_event_recv_ready [OF t False, of 0] t assms
      by (auto simp: vMBPortSerialEnable_def port_calm_def set_error_def)
  qed
qed

lemma xMBRTUTransmitFSM_done:
  assumes "port_calm s" "eRcvState s = STATE_RX_IDLE" "eSndState s = STATE_TX_XMIT"
    and "usSndBufferCount s = 0"
  shows "\<exists>k. xMBRTUTransmitFSM s = Some (True, s\<lparr>rx_int := True, eSndState := STATE_TX_IDLE,
      event_serial := (event_serial s)\<lparr>ev_set := ev_set (event_serial s) AND NOT 1\<rparr>,
      os_event := (os_event s)\<lparr>ev_set := ev_set (os_event s) OR ev_code EV_FRAME_SENT\<rparr>, kern := k\<rparr>) \<and>
    rt_current_thread k = rt_current_thread (kern s) \<and> rt_interrupt_nest k = rt_interrupt_nest (kern s)"
proof -
  let ?s = "s\<lparr>os_event := (os_event s)\<lparr>ev_set := ev_set (os_event s) OR ev_code EV_FRAME_SENT\<rparr>\<rparr>"
  have "port_calm ?s"
    using assms(1) by (simp add: port_calm_def)
  from vMBPortSerialEnable_rx [OF this, of True] obtain k where
    k: "vMBPortSerialEnable True False ?s = Some (?s\<lparr>rx_int := True,
      event_serial := (event_serial s)\<lparr>ev_set := ev_set (event_serial s) AND NOT 1\<rparr>, kern := k\<rparr>)"
    "rt_current_thread k = rt_current_thread (kern s)" "rt_interrupt_nest k = rt_interrupt_nest (kern s)"
    by auto
  then show ?thesis
    using assms by (intro exI [of _ k]) (simp add: xMBRTUTransmitFSM_def port_calm_def)
qed

lemma flag_cleared: "(x AND NOT 1) AND 1 = (0 :: 32 word)"
  by (auto simp: bit_eq_iff bit_simps)

lemma flag_set: "(x OR 1) AND 1 \<noteq> (0 :: 32 word)"
proof
  assume "(x OR 1) AND 1 = 0"
  then have "\<not> bit ((x OR 1) AND 1) 0" by simp
  then show False by (simp add: bit_simps)
qed

text \<open>A frame of \<open>unat (usSndBufferCount s)\<close> bytes is in the buffer and none of it on the line.\<close>

definition rtu_sends :: "'a mb_rtu_scheme \<Rightarrow> bool" where
  "rtu_sends s \<longleftrightarrow> port_calm s \<and> eRcvState s = STATE_RX_IDLE \<and> eSndState s = STATE_TX_XMIT \<and>
     tx_started s \<and> pucSndBufferCur s + unat (usSndBufferCount s) \<le> length (ucRTUBuf s)"

definition rtu_sent :: "'a mb_rtu_scheme \<Rightarrow> nat \<Rightarrow> 'a mb_rtu_scheme" where
  "rtu_sent s i = s\<lparr>tx_line := tx_line s @ take i (drop (pucSndBufferCur s) (ucRTUBuf s)),
     pucSndBufferCur := pucSndBufferCur s + i, usSndBufferCount := usSndBufferCount s - of_nat i\<rparr>"

definition rtu_sent_all :: "'a mb_rtu_scheme \<Rightarrow> 'a mb_rtu_scheme \<Rightarrow> bool" where
  "rtu_sent_all s s' \<longleftrightarrow> (\<exists>k. s' = (rtu_sent s (unat (usSndBufferCount s)))\<lparr>rx_int := True,
      eSndState := STATE_TX_IDLE,
      event_serial := (event_serial s)\<lparr>ev_set := ev_set (event_serial s) AND NOT 1\<rparr>,
      os_event := (os_event s)\<lparr>ev_set := ev_set (os_event s) OR ev_code EV_FRAME_SENT\<rparr>, kern := k\<rparr> \<and>
    rt_current_thread k = rt_current_thread (kern s) \<and> rt_interrupt_nest k = rt_interrupt_nest (kern s))"

interpretation slave_tx: frame_sender tx_started "\<lambda>s. map_option snd (xMBRTUTransmitFSM s)"
    rtu_sends rtu_sent "\<lambda>s. unat (usSndBufferCount s)" rtu_sent_all
proof
  fix s :: "'a mb_rtu_scheme" and i
  assume s: "rtu_sends s"
  show "rtu_sent s 0 = s"
    by (simp add: rtu_sent_def)
  show "tx_started (rtu_sent s i)"
    using s by (simp add: rtu_sends_def rtu_sent_def tx_started_def)
  { assume i: "i < unat (usSndBufferCount s)"
    have "unat (of_nat i :: USHORT) \<le> i"
      by (simp add: unat_of_nat take_bit_nat_less_eq_self)
    then have nz: "usSndBufferCount s - of_nat i \<noteq> 0"
      using i by auto
    have lt: "pucSndBufferCur s + i < length (ucRTUBuf s)"
      using s i by (simp add: rtu_sends_def)
    show "map_option snd (xMBRTUTransmitFSM (rtu_sent s i)) = Some (rtu_sent s (Suc i))"
      using s nz lt
      by (auto simp: xMBRTUTransmitFSM_def xMBPortSerialPutByte_def rtu_sends_def port_calm_def
          rtu_sent_def take_Suc_conv_app_nth algebra_simps) }
  let ?s = "rtu_sent s (unat (usSndBufferCount s))"
  have "port_calm ?s" "eRcvState ?s = STATE_RX_IDLE" "eSndState ?s = STATE_TX_XMIT" "usSndBufferCount ?s = 0"
    using s by (simp_all add: rtu_sends_def rtu_sent_def port_calm_def)
  from xMBRTUTransmitFSM_done [OF this]
  show "\<exists>s'. map_option snd (xMBRTUTransmitFSM ?s) = Some s' \<and> rtu_sent_all s s' \<and> \<not> tx_started s'"
    using flag_cleared by (auto simp: rtu_sent_all_def tx_started_def rtu_sent_def)
qed

text \<open>The frame as the send functions build it in place, around a PDU at index 1.\<close>

lemma put_address: "0 < length buf \<Longrightarrow> take (Suc n) (buf[0 := a]) = a # take n (drop 1 buf)"
  by (cases buf) simp_all

lemma put_frame:
  fixes a :: UCHAR and buf :: "UCHAR list"
  assumes "n + 3 \<le> length buf"
  defines "crc \<equiv> usMBCRC16 (a # take n (drop 1 buf))"
  shows "buf[0 := a, Suc n := lo8 crc, Suc (Suc n) := hi8 crc] = blit buf 0 (rtu_frame a (take n (drop 1 buf)))"
proof (rule nth_equalityI)
  fix i assume "i < length (buf[0 := a, Suc n := lo8 crc, Suc (Suc n) := hi8 crc])"
  then have i: "i < length buf" by simp
  have "rtu_frame a (take n (drop 1 buf)) ! i = (if i = 0 then a else if i \<le> n then buf ! i
      else if i = n + 1 then lo8 crc else hi8 crc)" if "i < n + 3"
    using that assms(1) by (auto simp: rtu_frame_def Let_def nth_Cons' nth_append crc_def)
  then show "buf[0 := a, Suc n := lo8 crc, Suc (Suc n) := hi8 crc] ! i =
      blit buf 0 (rtu_frame a (take n (drop 1 buf))) ! i"
    using i assms(1) by (auto simp: nth_blit nth_list_update)
qed (use assms(1) in simp)

lemma eMBRTUSend_frame:
  assumes calm: "port_calm s" and idle: "eRcvState s = STATE_RX_IDLE"
    and buf: "length (ucRTUBuf s) = 256" and n: "unat n + 3 \<le> 256"
  shows "eMBRTUSend a 1 n s = Some (MB_ENOERR,
    s\<lparr>ucRTUBuf := blit (ucRTUBuf s) 0 (rtu_frame a (take (unat n) (drop 1 (ucRTUBuf s)))),
      pucSndBufferCur := 0, usSndBufferCount := n + 3, eSndState := STATE_TX_XMIT, rx_int := False,
      event_serial := (event_serial s)\<lparr>ev_set := ev_set (event_serial s) OR 1\<rparr>\<rparr>)"
proof -
  have n1: "unat (1 + n) = unat n + 1" "unat (1 + n + 1) = unat n + 2"
    using n by (simp_all add: unat_word_ariths)
  show ?thesis
    using idle buf n n1 put_address [of "ucRTUBuf s" "unat n" a] put_frame [of "unat n" "ucRTUBuf s" a]
      vMBPortSerialEnable_tx [of "s\<lparr>pucSndBufferCur := 0\<rparr>"] calm
    by (simp add: eMBRTUSend_def crc_of_def vMBPortSerialEnable_tx port_calm_def)
qed

lemma rtu_send_drain:
  assumes calm: "port_calm s" and idle: "eRcvState s = STATE_RX_IDLE"
    and buf: "length (ucRTUBuf s) = 256" and n: "unat n + 3 \<le> 256" and steps: "unat n + 4 \<le> m"
  shows "\<exists>s1 s2. eMBRTUSend a 1 n s = Some (MB_ENOERR, s1) \<and> rtu_drain m s1 = Some s2 \<and>
    tx_line s2 = tx_line s @ rtu_frame a (take (unat n) (drop 1 (ucRTUBuf s))) \<and>
    eSndState s2 = STATE_TX_IDLE \<and> eRcvState s2 = STATE_RX_IDLE \<and> rx_int s2 \<and>
    ucRTUBuf s2 = blit (ucRTUBuf s) 0 (rtu_frame a (take (unat n) (drop 1 (ucRTUBuf s)))) \<and>
    ev_set (os_event s2) = ev_set (os_event s) OR ev_code EV_FRAME_SENT \<and>
    ev_set (event_serial s2) AND 1 = 0 \<and> port_calm s2 \<and> mb_rtu.more s2 = mb_rtu.more s"
proof -
  let ?pdu = "take (unat n) (drop 1 (ucRTUBuf s))"
  let ?fr = "rtu_frame a ?pdu"
  let ?s1 = "s\<lparr>ucRTUBuf := blit (ucRTUBuf s) 0 ?fr,
      pucSndBufferCur := 0, usSndBufferCount := n + 3, eSndState := STATE_TX_XMIT, rx_int := False,
      event_serial := (event_serial s)\<lparr>ev_set := ev_set (event_serial s) OR 1\<rparr>\<rparr>"
  have len: "length ?pdu = unat n" using buf n by simp
  have send: "eMBRTUSend a 1 n s = Some (MB_ENOERR, ?s1)"
    by (rule eMBRTUSend_frame [OF calm idle buf n])
  have calm1: "port_calm ?s1" using calm by (simp add: port_calm_def)
  note flag = flag_set [of "ev_set (event_serial s)"]
  have n3: "unat (n + 3) = unat n + 3" using n by (simp add: unat_word_ariths)
  have fr: "take (unat n + 3) (blit (ucRTUBuf s) 0 ?fr) = ?fr"
    using segment_blit [of 0 ?fr "ucRTUBuf s"] len buf n by simp
  have "rtu_sends ?s1" "unat (usSndBufferCount ?s1) < m"
    using calm1 idle flag n3 buf n len steps by (simp_all add: rtu_sends_def tx_started_def)
  from slave_tx.drain_frame [OF this] obtain s2 where
    s2: "rtu_drain m ?s1 = Some s2" "rtu_sent_all ?s1 s2" "\<not> tx_started s2"
    by (auto simp: rtu_drain_def)
  have "port_calm s2"
    using s2(2) calm1 by (auto simp: rtu_sent_all_def rtu_sent_def port_calm_def)
  then show ?thesis
    using send s2 idle fr n3 by (intro exI [of _ ?s1] exI [of _ s2])
      (auto simp: rtu_sent_all_def rtu_sent_def tx_started_def)
qed

section \<open>The state machines never fail an assertion\<close>

text \<open>
  The receiver, the timer and the transmitter are driven by interrupts that the code
  enables and disables; the half-duplex discipline is the invariant that ties these
  switches to the two states.
\<close>

definition rtu_inv :: "'a mb_rtu_scheme \<Rightarrow> bool" where
  "rtu_inv s \<longleftrightarrow> port_calm s \<and> rx_fifo s = [] \<and> length (ucRTUBuf s) = 256 \<and>
     unat (usRcvBufferPos s) \<le> 256 \<and>
     (timer_on s \<longrightarrow> eRcvState s \<noteq> STATE_RX_IDLE) \<and>
     (tx_started s \<longleftrightarrow> eSndState s = STATE_TX_XMIT) \<and>
     (eSndState s = STATE_TX_XMIT \<longrightarrow> eRcvState s = STATE_RX_IDLE \<and> \<not> rx_int s \<and>
        pucSndBufferCur s + unat (usSndBufferCount s) \<le> 256)"

inductive rtu_step :: "mb_rtu \<Rightarrow> mb_rtu \<Rightarrow> bool" where
  rx: "rx_int s \<Longrightarrow> serial_rx_ind b s = Some s' \<Longrightarrow> rtu_step s s'"
| t35: "timer_on s \<Longrightarrow> xMBRTUTimerT35Expired s = Some (r, s') \<Longrightarrow> rtu_step s s'"
| tx: "tx_started s \<Longrightarrow> xMBRTUTransmitFSM s = Some (r, s') \<Longrightarrow> rtu_step s s'"
| send: "unat n \<le> MB_PDU_SIZE_MAX \<Longrightarrow> eMBRTUSend a 1 n s = Some (e, s') \<Longrightarrow> rtu_step s s'"

inductive_cases rtu_stepE: "rtu_step s s'"

lemma rtu_inv_rx:
  assumes "rtu_inv s" "eSndState s = STATE_TX_IDLE" "length buf = 256" "unat n \<le> 256" "r \<noteq> STATE_RX_IDLE"
  shows "rtu_inv (s\<lparr>ucRTUBuf := buf, usRcvBufferPos := n, eRcvState := r, timer_on := True\<rparr>)"
  using assms by (simp add: rtu_inv_def tx_started_def port_calm_def)

lemma rtu_inv_rcv:
  assumes "rtu_inv s" "eSndState s = STATE_TX_IDLE" "length buf = 256" "unat n \<le> 256"
    "eRcvState s \<noteq> STATE_RX_IDLE"
  shows "rtu_inv (s\<lparr>ucRTUBuf := buf, usRcvBufferPos := n, timer_on := True\<rparr>)"
  using assms by (simp add: rtu_inv_def tx_started_def port_calm_def)

lemma rx_inv:
  assumes "rtu_inv s" "rx_int s"
  shows "\<exists>s'. serial_rx_ind b s = Some s' \<and> rtu_inv s'"
proof -
  have l: "rtu_listens s" and tx: "eSndState s = STATE_TX_IDLE" and len: "length (ucRTUBuf s) = 256"
    and pos: "unat (usRcvBufferPos s) \<le> 256"
    using assms by (cases "eSndState s"; auto simp: rtu_inv_def rtu_listens_def port_calm_def)+
  note keep = rtu_inv_rx [OF assms(1) tx]
  have suc: "unat (usRcvBufferPos s + 1) \<le> 256" if "unat (usRcvBufferPos s) < 256"
    using that by (simp add: unat_word_ariths)
  consider (idle) "eRcvState s = STATE_RX_IDLE"
    | (wait) "eRcvState s = STATE_RX_ERROR \<or> eRcvState s = STATE_RX_INIT"
    | (rcv) "eRcvState s = STATE_RX_RCV" "unat (usRcvBufferPos s) < 256"
    | (full) "eRcvState s = STATE_RX_RCV" "256 \<le> unat (usRcvBufferPos s)"
    by (cases "eRcvState s"; cases "unat (usRcvBufferPos s) < 256") auto
  then show ?thesis
  proof cases
    case idle
    then show ?thesis
      using serial_rx_ind_idle [OF l idle, of b] keep [of "(ucRTUBuf s)[0 := b]" 1 STATE_RX_RCV] len by simp
  next
    case wait
    then show ?thesis
      using serial_rx_ind_wait [OF l wait, of b] keep [of "ucRTUBuf s" "usRcvBufferPos s" "eRcvState s"] len pos
      by auto
  next
    case rcv
    then show ?thesis
      using serial_rx_ind_rcv [OF l rcv, of b] suc len
        rtu_inv_rcv [OF assms(1) tx, of "(ucRTUBuf s)[unat (usRcvBufferPos s) := b]"] by simp
  next
    case full
    then show ?thesis
      using serial_rx_ind_full [OF l full, of b] len pos
        keep [of "ucRTUBuf s" "usRcvBufferPos s" STATE_RX_ERROR] by simp
  qed
qed

lemma t35_inv:
  assumes "rtu_inv s" "timer_on s"
  shows "\<exists>r s'. xMBRTUTimerT35Expired s = Some (r, s') \<and> rtu_inv s'"
  using assms
  by (cases "eRcvState s") (auto simp: rtu_inv_def tx_started_def port_calm_def
      xMBRTUTimerT35Expired_def vMBPortTimersDisable_def)

lemma tx_inv:
  assumes inv: "rtu_inv s" and st: "tx_started s"
  shows "\<exists>r s'. xMBRTUTransmitFSM s = Some (r, s') \<and> rtu_inv s'"
proof -
  have X: "eSndState s = STATE_TX_XMIT" "eRcvState s = STATE_RX_IDLE" "\<not> rx_int s"
    "pucSndBufferCur s + unat (usSndBufferCount s) \<le> 256" "\<not> timer_on s" "port_calm s"
    "length (ucRTUBuf s) = 256"
    using inv st by (auto simp: rtu_inv_def)
  show ?thesis
  proof (cases "usSndBufferCount s = 0")
    case True
    obtain k where k: "xMBRTUTransmitFSM s = Some (True, s\<lparr>rx_int := True, eSndState := STATE_TX_IDLE,
        event_serial := (event_serial s)\<lparr>ev_set := ev_set (event_serial s) AND NOT 1\<rparr>,
        os_event := (os_event s)\<lparr>ev_set := ev_set (os_event s) OR ev_code EV_FRAME_SENT\<rparr>, kern := k\<rparr>)"
      "rt_current_thread k = rt_current_thread (kern s)" "rt_interrupt_nest k = rt_interrupt_nest (kern s)"
      using xMBRTUTransmitFSM_done [OF X(6,2,1) True] by blast
    then show ?thesis
      using inv X(2,5) flag_cleared by (auto simp: rtu_inv_def tx_started_def port_calm_def)
  next
    case False
    then have "unat (usSndBufferCount s - 1) = unat (usSndBufferCount s) - 1" "0 < unat (usSndBufferCount s)"
      by (simp_all add: unat_minus_one unat_gt_0)
    then show ?thesis
      using False X inv
      by (auto simp: xMBRTUTransmitFSM_def xMBPortSerialPutByte_def rtu_inv_def tx_started_def port_calm_def)
  qed
qed

lemma send_inv:
  assumes inv: "rtu_inv s" and n: "unat n \<le> 253"
  shows "\<exists>e s'. eMBRTUSend a 1 n s = Some (e, s') \<and> rtu_inv s'"
proof (cases "eRcvState s = STATE_RX_IDLE")
  case True
  have X: "port_calm s" "length (ucRTUBuf s) = 256" "\<not> timer_on s" "rx_fifo s = []"
    "unat (usRcvBufferPos s) \<le> 256"
    using inv True by (auto simp: rtu_inv_def)
  have n3: "unat (n + 3) = unat n + 3" using n by (simp add: unat_word_ariths)
  note flag = flag_set [of "ev_set (event_serial s)"]
  have "eMBRTUSend a 1 n s = Some (MB_ENOERR,
    s\<lparr>ucRTUBuf := blit (ucRTUBuf s) 0 (rtu_frame a (take (unat n) (drop 1 (ucRTUBuf s)))),
      pucSndBufferCur := 0, usSndBufferCount := n + 3, eSndState := STATE_TX_XMIT, rx_int := False,
      event_serial := (event_serial s)\<lparr>ev_set := ev_set (event_serial s) OR 1\<rparr>\<rparr>)" (is "_ = Some (_, ?s')")
    using n by (intro eMBRTUSend_frame X True) simp
  moreover have "rtu_inv ?s'"
    using X n n3 True flag by (simp add: rtu_inv_def port_calm_def tx_started_def)
  ultimately show ?thesis by blast
next
  case False
  then show ?thesis
    using inv by (auto simp: eMBRTUSend_def)
qed

lemma rtu_step_inv: "rtu_step s s' \<Longrightarrow> rtu_inv s \<Longrightarrow> rtu_inv s'"
proof (induction rule: rtu_step.induct)
  case (rx s b s')
  then show ?case using rx_inv [of s b] by auto
next
  case (t35 s r s')
  then show ?case using t35_inv [of s] by auto
next
  case (tx s r s')
  then show ?case using tx_inv [of s] by auto
next
  case (send n a s e s')
  then show ?case using send_inv [of s n a] by auto
qed

lemma rtu_reach_inv: "rtu_step\<^sup>*\<^sup>* s s' \<Longrightarrow> rtu_inv s \<Longrightarrow> rtu_inv s'"
  by (induction rule: rtranclp_induct) (auto intro: rtu_step_inv)

lemma eMBRTUStart_inv:
  assumes "port_calm s" "eSndState s = STATE_TX_IDLE" "rx_fifo s = []" "length (ucRTUBuf s) = 256"
    "unat (usRcvBufferPos s) \<le> 256"
  shows "\<exists>s'. eMBRTUStart s = Some s' \<and> rtu_inv s' \<and> rx_int s' \<and> timer_on s' \<and>
    eRcvState s' = STATE_RX_INIT"
proof -
  let ?s = "s\<lparr>eRcvState := STATE_RX_INIT\<rparr>"
  have "port_calm ?s" using assms(1) by (simp add: port_calm_def)
  then show ?thesis
    using vMBPortSerialEnable_rx [of ?s True] assms flag_cleared
    by (auto simp: eMBRTUStart_def rtu_inv_def port_calm_def tx_started_def vMBPortTimersEnable_def)
qed

text \<open>
  \<^verbatim>\<open>eMBRTUStart\<close> does not reset the transmitter: after a stop in the middle of a
  transmission and a new start, the first byte received fails the receiver's assertion.
\<close>

lemma restart_while_sending:
  assumes "port_calm s" "eSndState s = STATE_TX_XMIT"
  shows "\<exists>s1 s2. eMBRTUStop s = Some s1 \<and> eMBRTUStart s1 = Some s2 \<and> rx_int s2 \<and>
    serial_rx_ind b s2 = None"
proof -
  obtain k where k: "vMBPortSerialEnable False False s = Some (s\<lparr>rx_int := False,
      event_serial := (event_serial s)\<lparr>ev_set := ev_set (event_serial s) AND NOT 1\<rparr>, kern := k\<rparr>)"
    "rt_current_thread k = rt_current_thread (kern s)" "rt_interrupt_nest k = rt_interrupt_nest (kern s)"
    using vMBPortSerialEnable_rx [OF assms(1), of False] by blast
  define s1 where "s1 = vMBPortTimersDisable (s\<lparr>rx_int := False,
      event_serial := (event_serial s)\<lparr>ev_set := ev_set (event_serial s) AND NOT 1\<rparr>, kern := k\<rparr>)"
  have s1: "eMBRTUStop s = Some s1" "port_calm (s1\<lparr>eRcvState := STATE_RX_INIT\<rparr>)" "eSndState s1 = STATE_TX_XMIT"
    using k assms by (simp_all add: eMBRTUStop_def s1_def port_calm_def vMBPortTimersDisable_def)
  show ?thesis
    using vMBPortSerialEnable_rx [OF s1(2), of True] s1(1,3)
    by (auto simp: eMBRTUStart_def vMBPortTimersEnable_def serial_rx_ind_def xMBRTUReceiveFSM_def)
qed

end
