(* ===== verification/Mb_Utils.thy ===== *)
theory Mb_Utils
  imports Mb_Types
begin

text \<open>
  Bit fields in byte buffers, from \<^verbatim>\<open>pck/freemodbus/modbus/functions/mbutils.c\<close>. The
  buffer pointer of the C code (\<^verbatim>\<open>&pucCoilBuf[i]\<close>) is the buffer with the offset \<open>i\<close>.
  Both routines are characterised bit by bit; the law for \<^verbatim>\<open>xMBUtilSetBits\<close> is exact,
  also where the value has bits above the field.
\<close>

section \<open>Operations\<close>

definition xMBUtilSetBits ::
  "UCHAR list \<Rightarrow> nat \<Rightarrow> USHORT \<Rightarrow> UCHAR \<Rightarrow> UCHAR \<Rightarrow> UCHAR list option" where
  "xMBUtilSetBits ucByteBuf ofs usBitOffset ucNBits ucValue = do {
     rt_assert (ucNBits \<le> 8);
     let usByteOffset = usBitOffset div 8;
     let usNPreBits = usBitOffset - usByteOffset * 8;
     let usValue = push_bit (unat usNPreBits) (ucast ucValue :: USHORT);
     let usMask = push_bit (unat usNPreBits) (push_bit (unat ucNBits) 1 - 1 :: USHORT);
     b0 \<leftarrow> rd ucByteBuf (ofs + unat usByteOffset);
     b1 \<leftarrow> rd ucByteBuf (ofs + unat usByteOffset + 1);
     let usWordBuf = ucast b0 OR push_bit 8 (ucast b1 :: USHORT);
     let usWordBuf = (usWordBuf AND NOT usMask) OR usValue;
     buf \<leftarrow> wr ucByteBuf (ofs + unat usByteOffset) (ucast (usWordBuf AND 0xFF));
     wr buf (ofs + unat usByteOffset + 1) (ucast (drop_bit 8 usWordBuf))
   }"

definition xMBUtilGetBits :: "UCHAR list \<Rightarrow> nat \<Rightarrow> USHORT \<Rightarrow> UCHAR \<Rightarrow> UCHAR option" where
  "xMBUtilGetBits ucByteBuf ofs usBitOffset ucNBits = do {
     let usByteOffset = usBitOffset div 8;
     let usNPreBits = usBitOffset - usByteOffset * 8;
     let usMask = (push_bit (unat ucNBits) 1 - 1 :: USHORT);
     b0 \<leftarrow> rd ucByteBuf (ofs + unat usByteOffset);
     b1 \<leftarrow> rd ucByteBuf (ofs + unat usByteOffset + 1);
     let usWordBuf = ucast b0 OR push_bit 8 (ucast b1 :: USHORT);
     let usWordBuf = drop_bit (unat usNPreBits) usWordBuf;
     let usWordBuf = usWordBuf AND usMask;
     Some (ucast usWordBuf)
   }"

section \<open>Bit view of a byte buffer\<close>

definition bit_at :: "UCHAR list \<Rightarrow> nat \<Rightarrow> bool" where
  "bit_at buf k = bit (buf ! (k div 8)) (k mod 8)"

lemma bit_at_pair:
  assumes "8 * i \<le> k" "k < 8 * i + 16"
  shows "bit_at buf k = bit (mk16 (buf ! (i + 1)) (buf ! i)) (k - 8 * i)"
proof -
  from assms(1) obtain j where k: "k = 8 * i + j"
    using le_Suc_ex by blast
  with assms(2) have "j < 16" by simp
  then consider "j < 8" | j' where "j = 8 + j'" "j' < 8"
    by (metis add_less_cancel_left le_Suc_ex linorder_not_le numeral_Bit0)
  then show ?thesis
  proof cases
    case 1
    then show ?thesis by (simp add: bit_at_def bit_mk16 k)
  next
    case 2
    then have "k = 8 * (i + 1) + j'" by (simp add: k)
    then have "k div 8 = i + 1" "k mod 8 = j'"
      using 2 by (simp_all only: div_mult_self4 mod_mult_self4) simp_all
    then show ?thesis by (simp add: bit_at_def bit_mk16 k 2)
  qed
qed

lemma bit_at_update:
  assumes "i + 1 < length buf" "k < 8 * length buf"
  shows "bit_at (buf[i := lo8 w, i + 1 := hi8 w]) k =
    (if 8 * i \<le> k \<and> k < 8 * i + 16 then bit w (k - 8 * i) else bit_at buf k)"
proof (cases "8 * i \<le> k \<and> k < 8 * i + 16")
  case True
  with assms show ?thesis
    by (simp add: bit_at_pair [of i])
next
  case False
  then have "k div 8 \<noteq> i" "k div 8 \<noteq> i + 1"
    by auto
  with False show ?thesis
    by (auto simp: bit_at_def)
qed

lemma pre_bits: "unat (off - off div 8 * 8 :: USHORT) = unat off mod 8"
proof -
  have "off - off div 8 * 8 = off mod 8"
    by (simp add: minus_div_mult_eq_mod)
  then show ?thesis
    by (simp add: unat_mod)
qed

lemma field_mask: "2 ^ n - 1 = (mask n :: USHORT)"
  by (simp add: mask_eq_exp_minus_1)

lemma word_pair: "ucast b0 OR push_bit 8 (ucast b1 :: USHORT) = mk16 b1 b0"
  by (simp add: mk16_def or.commute)

section \<open>Characterisation\<close>

lemma xMBUtilSetBits_eq:
  fixes v :: UCHAR
  assumes "ucNBits \<le> 8" "ofs + unat off div 8 + 1 < length buf"
  defines "i \<equiv> ofs + unat off div 8" and "p \<equiv> unat off mod 8"
  defines "w \<equiv> (mk16 (buf ! (i + 1)) (buf ! i) AND NOT (push_bit p (mask (unat ucNBits)))) OR
      push_bit p (ucast v)"
  shows "xMBUtilSetBits buf ofs off ucNBits v = Some (buf[i := lo8 w, i + 1 := hi8 w])"
  using assms(1,2) unfolding xMBUtilSetBits_def
  by (simp add: pre_bits field_mask word_pair unat_div i_def p_def w_def lo8_def hi8_def Let_def)

lemma xMBUtilSetBits_out:
  assumes "length buf \<le> ofs + unat off div 8 + 1"
  shows "xMBUtilSetBits buf ofs off n v = None"
  using assms by (auto simp: xMBUtilSetBits_def unat_div rd_def rt_assert_def Let_def)

text \<open>
  What \<^verbatim>\<open>xMBUtilSetBits\<close> does to every bit: the field takes the value's low bits, and
  the bits above the field are joined with the rest of the value.
\<close>

lemma xMBUtilSetBits_bits:
  assumes "ucNBits \<le> 8" "ofs + unat off div 8 + 1 < length buf"
    and "xMBUtilSetBits buf ofs off ucNBits v = Some buf'" "k < 8 * length buf"
  defines "o' \<equiv> 8 * ofs + unat off"
  shows "length buf' = length buf"
    and "bit_at buf' k =
      (if o' \<le> k \<and> k < o' + unat ucNBits then bit v (k - o')
       else if o' + unat ucNBits \<le> k then bit_at buf k \<or> bit v (k - o')
       else bit_at buf k)"
proof -
  define i where "i = ofs + unat off div 8"
  define p where "p = unat off mod 8"
  define w where "w = (mk16 (buf ! (i + 1)) (buf ! i) AND NOT (push_bit p (mask (unat ucNBits)))) OR
      push_bit p (ucast v :: USHORT)"
  have buf': "buf' = buf[i := lo8 w, i + 1 := hi8 w]"
    using xMBUtilSetBits_eq [OF assms(1,2), of v] assms(3) by (simp add: i_def p_def w_def)
  show "length buf' = length buf"
    by (simp add: buf')
  have p: "p < 8" and o': "o' = 8 * i + p" and i: "i + 1 < length buf"
    using assms(2) by (simp_all add: p_def i_def o'_def)
  have n: "unat ucNBits \<le> 8"
    using assms(1) by (simp add: word_le_nat_alt)
  have w_bit: "bit w j = (if p \<le> j \<and> j < p + unat ucNBits then bit v (j - p)
      else if p + unat ucNBits \<le> j then bit (mk16 (buf ! (i + 1)) (buf ! i)) j \<or> bit v (j - p)
      else bit (mk16 (buf ! (i + 1)) (buf ! i)) j)" if "j < 16" for j
    using that p n by (auto simp: w_def bit_simps dest: bit_imp_le_length)
  show "bit_at buf' k = (if o' \<le> k \<and> k < o' + unat ucNBits then bit v (k - o')
       else if o' + unat ucNBits \<le> k then bit_at buf k \<or> bit v (k - o')
       else bit_at buf k)"
  proof (cases "8 * i \<le> k \<and> k < 8 * i + 16")
    case True
    then have new: "bit_at buf' k = bit w (k - 8 * i)"
      by (simp add: buf' bit_at_update [OF i assms(4), simplified])
    have old: "bit_at buf k = bit (mk16 (buf ! (i + 1)) (buf ! i)) (k - 8 * i)"
      using True by (intro bit_at_pair) simp_all
    show ?thesis
      unfolding new old using True p n by (subst w_bit) (auto simp: o')
  next
    case False
    then show ?thesis
      using p n by (auto simp: buf' bit_at_update [OF i assms(4), simplified] o' dest: bit_imp_le_length)
  qed
qed

lemma xMBUtilGetBits_bits:
  assumes "ucNBits \<le> 8" "ofs + unat off div 8 + 1 < length buf"
  obtains r where "xMBUtilGetBits buf ofs off ucNBits = Some r"
    and "\<And>j. bit r j \<longleftrightarrow> j < unat ucNBits \<and> bit_at buf (8 * ofs + unat off + j)"
proof
  define i where "i = ofs + unat off div 8"
  define p where "p = unat off mod 8"
  define r :: UCHAR where
    "r = ucast (drop_bit p (mk16 (buf ! (i + 1)) (buf ! i)) AND mask (unat ucNBits))"
  show "xMBUtilGetBits buf ofs off ucNBits = Some r"
    using assms(2) unfolding xMBUtilGetBits_def
    by (simp add: pre_bits field_mask word_pair unat_div r_def i_def p_def Let_def)
  have n: "unat ucNBits \<le> 8"
    using assms(1) by (simp add: word_le_nat_alt)
  have p: "p < 8" and k: "8 * ofs + unat off = 8 * i + p"
    by (simp_all add: p_def i_def)
  show "bit r j \<longleftrightarrow> j < unat ucNBits \<and> bit_at buf (8 * ofs + unat off + j)" for j
    using n p by (auto simp: k bit_at_pair [of i] r_def bit_simps dest: bit_imp_le_length)
qed

end
