(* ===== verification/Mb_Regs.thy ===== *)
theory Mb_Regs
  imports Mb_Utils
begin

text \<open>
  The copy loops that the register callbacks of \<^verbatim>\<open>user_mb_app.c\<close> and
  \<^verbatim>\<open>user_mb_app_m.c\<close> share, and what they compute: a run of 16-bit registers is
  sent high byte first, a run of coils as packed bits.
\<close>

section \<open>Registers as bytes\<close>

definition regs_bytes :: "USHORT list \<Rightarrow> UCHAR list" where
  "regs_bytes vs = concat (map (\<lambda>v. [hi8 v, lo8 v]) vs)"

fun bytes_regs :: "UCHAR list \<Rightarrow> USHORT list" where
  "bytes_regs (h # l # bs) = mk16 h l # bytes_regs bs"
| "bytes_regs _ = []"

lemma regs_bytes_simps [simp]:
  "regs_bytes [] = []" "regs_bytes (v # vs) = hi8 v # lo8 v # regs_bytes vs"
  by (simp_all add: regs_bytes_def)

lemma length_regs_bytes [simp]: "length (regs_bytes vs) = 2 * length vs"
  by (induction vs) simp_all

lemma bytes_regs_bytes [simp]: "bytes_regs (regs_bytes vs) = vs"
  by (induction vs) simp_all

lemma length_bytes_regs [simp]: "length (bytes_regs bs) = length bs div 2"
  by (induction bs rule: bytes_regs.induct) simp_all

section \<open>Register loops\<close>

text \<open>
  \<^verbatim>\<open>while (usNRegs > 0) { *pucRegBuffer++ = buf[i] >> 8; *pucRegBuffer++ = buf[i] & 0xFF; i++; usNRegs--; }\<close>
\<close>

fun regs_to_frame :: "UCHAR list \<Rightarrow> nat \<Rightarrow> USHORT list \<Rightarrow> nat \<Rightarrow> nat \<Rightarrow> UCHAR list option" where
  "regs_to_frame fr p regs i 0 = Some fr"
| "regs_to_frame fr p regs i (Suc n) = do {
     v \<leftarrow> rd regs i;
     fr \<leftarrow> wr fr p (hi8 v);
     fr \<leftarrow> wr fr (p + 1) (lo8 v);
     regs_to_frame fr (p + 2) regs (i + 1) n
   }"

text \<open>
  \<^verbatim>\<open>while (usNRegs > 0) { buf[i] = *pucRegBuffer++ << 8; buf[i] |= *pucRegBuffer++; i++; usNRegs--; }\<close>
\<close>

fun frame_to_regs :: "USHORT list \<Rightarrow> nat \<Rightarrow> UCHAR list \<Rightarrow> nat \<Rightarrow> nat \<Rightarrow> USHORT list option" where
  "frame_to_regs regs i fr p 0 = Some regs"
| "frame_to_regs regs i fr p (Suc n) = do {
     h \<leftarrow> rd fr p;
     l \<leftarrow> rd fr (p + 1);
     regs \<leftarrow> wr regs i (mk16 h l);
     frame_to_regs regs (i + 1) fr (p + 2) n
   }"

lemma regs_to_frame_eq:
  assumes "i + n \<le> length regs" "p + 2 * n \<le> length fr"
  shows "regs_to_frame fr p regs i n = Some (blit fr p (regs_bytes (take n (drop i regs))))"
  using assms
proof (induction n arbitrary: fr p i)
  case 0
  then show ?case by simp
next
  case (Suc n)
  let ?fr = "fr[p := hi8 (regs ! i), Suc p := lo8 (regs ! i)]"
  let ?ys = "regs_bytes (take n (drop (Suc i) regs))"
  have "regs_to_frame fr p regs i (Suc n) = regs_to_frame ?fr (Suc (Suc p)) regs (Suc i) n"
    using Suc.prems by simp
  also have "\<dots> = Some (blit ?fr (Suc (Suc p)) ?ys)"
    using Suc.prems by (intro Suc.IH) simp_all
  also have "blit ?fr (Suc (Suc p)) ?ys = blit fr p (hi8 (regs ! i) # lo8 (regs ! i) # ?ys)"
    using Suc.prems by (subst blit_Cons, simp, subst blit_Cons) simp_all
  finally show ?case
    using Suc.prems by (simp add: take_Suc_conv_app_nth Cons_nth_drop_Suc [symmetric])
qed

lemma frame_to_regs_eq:
  assumes "i + n \<le> length regs" "p + 2 * n \<le> length fr"
  shows "frame_to_regs regs i fr p n = Some (blit regs i (bytes_regs (take (2 * n) (drop p fr))))"
  using assms
proof (induction n arbitrary: regs p i)
  case 0
  then show ?case by simp
next
  case (Suc n)
  let ?ys = "bytes_regs (take (2 * n) (drop (Suc (Suc p)) fr))"
  have "frame_to_regs regs i fr p (Suc n) =
      frame_to_regs (regs[i := mk16 (fr ! p) (fr ! Suc p)]) (Suc i) fr (Suc (Suc p)) n"
    using Suc.prems by simp
  also have "\<dots> = Some (blit (regs[i := mk16 (fr ! p) (fr ! Suc p)]) (Suc i) ?ys)"
    using Suc.prems by (intro Suc.IH) simp_all
  also have "\<dots> = Some (blit regs i (mk16 (fr ! p) (fr ! Suc p) # ?ys))"
    using Suc.prems by (subst blit_Cons) simp_all
  also have "drop p fr = fr ! p # fr ! Suc p # drop (Suc (Suc p)) fr"
    using Suc.prems by (simp add: Cons_nth_drop_Suc)
  then have "mk16 (fr ! p) (fr ! Suc p) # ?ys = bytes_regs (take (2 * Suc n) (drop p fr))"
    by simp
  finally show ?case .
qed

section \<open>Coil loops\<close>

text \<open>
  \<^verbatim>\<open>while (iNReg > 0) { *pucRegBuffer++ = xMBUtilGetBits(&buf[iRegIndex++], iRegBitIndex, 8); iNReg--; }\<close>
\<close>

fun coils_to_frame ::
  "UCHAR list \<Rightarrow> nat \<Rightarrow> UCHAR list \<Rightarrow> nat \<Rightarrow> USHORT \<Rightarrow> nat \<Rightarrow> UCHAR list option" where
  "coils_to_frame fr p buf i iRegBitIndex 0 = Some fr"
| "coils_to_frame fr p buf i iRegBitIndex (Suc n) = do {
     b \<leftarrow> xMBUtilGetBits buf i iRegBitIndex 8;
     fr \<leftarrow> wr fr p b;
     coils_to_frame fr (p + 1) buf (i + 1) iRegBitIndex n
   }"

text \<open>
  \<^verbatim>\<open>while (iNReg > 1) { xMBUtilSetBits(&buf[iRegIndex++], iRegBitIndex, 8, *pucRegBuffer++); iNReg--; }\<close>
\<close>

fun frame_to_coils ::
  "UCHAR list \<Rightarrow> nat \<Rightarrow> USHORT \<Rightarrow> UCHAR list \<Rightarrow> nat \<Rightarrow> nat \<Rightarrow> UCHAR list option" where
  "frame_to_coils buf i iRegBitIndex fr p 0 = Some buf"
| "frame_to_coils buf i iRegBitIndex fr p (Suc n) = do {
     v \<leftarrow> rd fr p;
     buf \<leftarrow> xMBUtilSetBits buf i iRegBitIndex 8 v;
     frame_to_coils buf (i + 1) iRegBitIndex fr (p + 1) n
   }"

text \<open>
  The tail of the read path clears the bits above the last coil:
  \<^verbatim>\<open>*p = *p << (8 - n % 8); *p = *p >> (8 - n % 8)\<close> on the last byte written.
\<close>

definition clear_high_bits :: "UCHAR list \<Rightarrow> nat \<Rightarrow> nat \<Rightarrow> UCHAR list option" where
  "clear_high_bits fr q usNCoils = do {
     b \<leftarrow> rd fr q;
     fr \<leftarrow> wr fr q (push_bit (8 - usNCoils) b);
     b \<leftarrow> rd fr q;
     wr fr q (drop_bit (8 - usNCoils) b)
   }"

text \<open>
  The write path of a coil callback: the loop over whole bytes, then the last
  \<^verbatim>\<open>usNCoils % 8\<close> coils, if any.
\<close>

definition store_coils ::
  "UCHAR list \<Rightarrow> nat \<Rightarrow> USHORT \<Rightarrow> UCHAR list \<Rightarrow> nat \<Rightarrow> nat \<Rightarrow> USHORT \<Rightarrow> UCHAR list option" where
  "store_coils buf iRegIndex iRegBitIndex fr p iNReg usNCoils = do {
     buf \<leftarrow> frame_to_coils buf iRegIndex iRegBitIndex fr p (iNReg - 1);
     let usNCoils = usNCoils mod 8;
     if usNCoils \<noteq> 0
     then do {
       v \<leftarrow> rd fr (p + (iNReg - 1));
       xMBUtilSetBits buf (iRegIndex + (iNReg - 1)) iRegBitIndex (ucast usNCoils) v
     }
     else Some buf
   }"

lemma bit_at_byte: "j < 8 \<Longrightarrow> bit_at buf (8 * i + j) = bit (buf ! i) j"
  by (simp add: bit_at_def)

lemma bit_at_byte_cases:
  assumes "k < 8 * Suc n"
  obtains (first) "k < 8" | (rest) k' where "k = 8 + k'" "k' < 8 * n"
  using assms by (metis add_less_cancel_left le_Suc_ex linorder_not_le mult_Suc_right)

lemma bit_at_agree: "xs ! (k div 8) = ys ! (k div 8) \<Longrightarrow> bit_at xs k = bit_at ys k"
  by (simp add: bit_at_def)

lemma coils_to_frame_bits:
  assumes "unat bi < 8" "n = 0 \<or> i + n < length buf" "p + n \<le> length fr"
  shows "\<exists>fr'. coils_to_frame fr p buf i bi n = Some fr' \<and> length fr' = length fr \<and>
    (\<forall>k < 8 * n. bit_at fr' (8 * p + k) = bit_at buf (8 * i + unat bi + k)) \<and>
    (\<forall>q. q < p \<or> p + n \<le> q \<longrightarrow> fr' ! q = fr ! q)"
  using assms(2,3)
proof (induction n arbitrary: fr p i)
  case 0
  then show ?case by simp
next
  case (Suc n)
  from Suc.prems assms(1) have "i + unat bi div 8 + 1 < length buf" by simp
  then obtain b where b: "xMBUtilGetBits buf i bi 8 = Some b"
    and b_bits: "\<And>j. bit b j \<longleftrightarrow> j < 8 \<and> bit_at buf (8 * i + unat bi + j)"
    using xMBUtilGetBits_bits [of 8 i bi buf] by auto
  from Suc.prems have "n = 0 \<or> i + 1 + n < length buf" "p + 1 + n \<le> length (fr[p := b])"
    by simp_all
  from Suc.IH [OF this] obtain fr' where fr': "coils_to_frame (fr[p := b]) (p + 1) buf (i + 1) bi n = Some fr'"
    "length fr' = length (fr[p := b])"
    "\<And>k. k < 8 * n \<Longrightarrow> bit_at fr' (8 * (p + 1) + k) = bit_at buf (8 * (i + 1) + unat bi + k)"
    "\<And>q. q < p + 1 \<or> p + 1 + n \<le> q \<Longrightarrow> fr' ! q = fr[p := b] ! q"
    by blast
  have run: "coils_to_frame fr p buf i bi (Suc n) = Some fr'"
    using b fr'(1) Suc.prems by simp
  have bits: "bit_at fr' (8 * p + k) = bit_at buf (8 * i + unat bi + k)" if "k < 8 * Suc n" for k
    using that
  proof (cases rule: bit_at_byte_cases)
    case first
    then show ?thesis
      using fr'(4) [of p] Suc.prems by (simp add: bit_at_byte b_bits)
  next
    case (rest k')
    then show ?thesis
      using fr'(3) [of k'] by (simp add: algebra_simps)
  qed
  have frame: "fr' ! q = fr ! q" if "q < p \<or> p + Suc n \<le> q" for q
    using that fr'(4) [of q] by auto
  from run fr'(2) bits frame show ?case by auto
qed

lemma coils_to_frame_out:
  assumes "unat bi < 8" "0 < n" "length buf \<le> i + n"
  shows "coils_to_frame fr p buf i bi n = None"
  using assms(2,3)
proof (induction n arbitrary: fr p i)
  case 0
  then show ?case by simp
next
  case (Suc n)
  show ?case
  proof (cases "n = 0")
    case True
    with Suc.prems assms(1) show ?thesis
      by (auto simp: xMBUtilGetBits_def rd_def unat_div Let_def)
  next
    case False
    with Suc.prems Suc.IH show ?thesis
      by (simp split: bind_split)
  qed
qed

lemma frame_to_coils_bits:
  assumes "unat bi < 8" "n = 0 \<or> i + n < length buf" "p + n \<le> length fr"
  shows "\<exists>buf'. frame_to_coils buf i bi fr p n = Some buf' \<and> length buf' = length buf \<and>
    (\<forall>k < 8 * length buf. bit_at buf' k =
      (if 8 * i + unat bi \<le> k \<and> k < 8 * i + unat bi + 8 * n
       then bit_at fr (8 * p + (k - (8 * i + unat bi))) else bit_at buf k))"
  using assms(2,3)
proof (induction n arbitrary: buf p i)
  case 0
  then show ?case by auto
next
  case (Suc n)
  let ?s = "8 * i + unat bi"
  from Suc.prems assms(1) have ok: "i + unat bi div 8 + 1 < length buf" by simp
  obtain b1 where b1: "xMBUtilSetBits buf i bi 8 (fr ! p) = Some b1"
    using xMBUtilSetBits_eq [of 8 i bi buf "fr ! p"] ok by auto
  have len1: "length b1 = length buf"
    using xMBUtilSetBits_bits(1) [OF _ ok b1, of 0] ok by (cases buf) auto
  have bits1: "bit_at b1 k = (if ?s \<le> k \<and> k < ?s + 8 then bit_at fr (8 * p + (k - ?s))
      else bit_at buf k)" if "k < 8 * length buf" for k
    using xMBUtilSetBits_bits(2) [OF _ ok b1 that] that
    by (auto simp: bit_at_byte simp del: Nat.add_diff_assoc dest: bit_imp_le_length)
  from Suc.prems len1 have "n = 0 \<or> i + 1 + n < length b1" "p + 1 + n \<le> length fr"
    by simp_all
  from Suc.IH [OF this] obtain b2 where b2:
    "frame_to_coils b1 (i + 1) bi fr (p + 1) n = Some b2" "length b2 = length b1"
    and bits2: "\<And>k. k < 8 * length b1 \<Longrightarrow> bit_at b2 k =
      (if 8 * (i + 1) + unat bi \<le> k \<and> k < 8 * (i + 1) + unat bi + 8 * n
       then bit_at fr (8 * (p + 1) + (k - (8 * (i + 1) + unat bi))) else bit_at b1 k)"
    by blast
  have "frame_to_coils buf i bi fr p (Suc n) = Some b2"
    using b1 b2(1) Suc.prems by simp
  moreover have "bit_at b2 k = (if ?s \<le> k \<and> k < ?s + 8 * Suc n
      then bit_at fr (8 * p + (k - ?s)) else bit_at buf k)" if "k < 8 * length buf" for k
  proof (cases "?s + 8 \<le> k")
    case True
    then have "8 * (p + 1) + (k - (8 * (i + 1) + unat bi)) = 8 * p + (k - ?s)" by simp
    with True that bits1 [of k] bits2 [of k] len1 show ?thesis by simp
  next
    case False
    with that bits1 [of k] bits2 [of k] len1 show ?thesis by simp
  qed
  ultimately show ?case
    using b2(2) len1 by auto
qed

lemma frame_to_coils_out:
  assumes "unat bi < 8" "0 < n" "length buf \<le> i + n"
  shows "frame_to_coils buf i bi fr p n = None"
  using assms(2,3)
proof (induction n arbitrary: buf p i)
  case 0
  then show ?case by simp
next
  case (Suc n)
  show ?case
  proof (cases "n = 0")
    case True
    with Suc.prems assms(1) show ?thesis
      by (simp add: xMBUtilSetBits_out split: bind_split)
  next
    case False
    have "length buf' = length buf" if "xMBUtilSetBits buf i bi 8 v = Some buf'" for buf' v
      using that by (auto simp: xMBUtilSetBits_def Let_def rd_eq_Some wr_eq_Some bind_eq_Some_conv)
    with False Suc.prems Suc.IH show ?thesis
      by (simp split: bind_split)
  qed
qed

lemma clear_high_bits_eq:
  assumes "q < length fr" "m < 8"
  shows "clear_high_bits fr q m = Some (fr[q := take_bit m (fr ! q)])"
proof -
  have "drop_bit (8 - m) (push_bit (8 - m) b) = take_bit m b" for b :: UCHAR
    using assms(2) by (intro bit_word_eqI) (auto simp: bit_simps)
  with assms(1) show ?thesis
    by (simp add: clear_high_bits_def)
qed

lemma clear_high_bits_out: "length fr \<le> q \<Longrightarrow> clear_high_bits fr q m = None"
  by (simp add: clear_high_bits_def rd_out)

text \<open>The read path of a coil callback, on the bit view.\<close>

lemma read_bits:
  assumes "start div 8 + n div 8 + 1 < length buf" "p + n div 8 + 1 \<le> length fr"
    and "unat bi = start mod 8"
  shows "\<exists>fr'. do { fr \<leftarrow> coils_to_frame fr p buf (start div 8) bi (n div 8 + 1);
                 clear_high_bits fr (p + n div 8) (n mod 8) } = Some fr' \<and>
     length fr' = length fr \<and>
     (\<forall>q. q < p \<or> p + n div 8 + 1 \<le> q \<longrightarrow> fr' ! q = fr ! q) \<and>
     (\<forall>k < 8 * (n div 8 + 1). bit_at fr' (8 * p + k) = (k < n \<and> bit_at buf (start + k)))"
proof -
  have "unat bi < 8" and start: "8 * (start div 8) + unat bi = start"
    by (simp_all add: assms(3))
  then obtain f1 where f1: "coils_to_frame fr p buf (start div 8) bi (n div 8 + 1) = Some f1"
    and len: "length f1 = length fr"
    and bits: "\<And>k. k < 8 * (n div 8 + 1) \<Longrightarrow> bit_at f1 (8 * p + k) = bit_at buf (start + k)"
    and same: "\<And>q. q < p \<or> p + (n div 8 + 1) \<le> q \<Longrightarrow> f1 ! q = fr ! q"
    using coils_to_frame_bits [of bi "n div 8 + 1" "start div 8" buf p fr] assms(1,2) by auto
  define f2 where "f2 = f1[p + n div 8 := take_bit (n mod 8) (f1 ! (p + n div 8))]"
  have run: "clear_high_bits f1 (p + n div 8) (n mod 8) = Some f2"
    using len assms(2) by (simp add: clear_high_bits_eq f2_def)
  have "bit_at f2 (8 * p + k) = (k < n \<and> bit_at buf (start + k))" if k: "k < 8 * (n div 8 + 1)" for k
  proof (cases "k < 8 * (n div 8)")
    case True
    then have "(8 * p + k) div 8 \<noteq> p + n div 8" by simp
    then have "bit_at f2 (8 * p + k) = bit_at f1 (8 * p + k)"
      by (simp add: bit_at_def f2_def)
    moreover have "k < n" using True by simp
    ultimately show ?thesis using bits [OF k] by simp
  next
    case False
    then obtain j where j: "k = 8 * (n div 8) + j" "j < 8"
      using k by (metis add_less_cancel_left le_Suc_ex linorder_not_le distrib_left mult.right_neutral)
    have lt: "k < n \<longleftrightarrow> j < n mod 8"
      unfolding j(1) by presburger
    have pos: "8 * p + k = 8 * (p + n div 8) + j" by (simp add: j)
    have "bit_at f2 (8 * p + k) = (j < n mod 8 \<and> bit_at f1 (8 * p + k))"
      unfolding pos bit_at_byte [OF j(2)] using len assms(2) by (simp add: f2_def bit_take_bit_iff)
    then show ?thesis using bits [OF k] lt by simp
  qed
  moreover have "f2 ! q = fr ! q" if "q < p \<or> p + n div 8 + 1 \<le> q" for q
    using that same [of q] by (auto simp: f2_def)
  moreover have "length f2 = length fr"
    by (simp add: f2_def len)
  moreover have "do { fr \<leftarrow> coils_to_frame fr p buf (start div 8) bi (n div 8 + 1);
      clear_high_bits fr (p + n div 8) (n mod 8) } = Some f2"
    by (simp only: f1 Option.bind.simps run)
  ultimately show ?thesis by blast
qed

lemma div8_word: "unat (w div 8 + 1 :: USHORT) = unat w div 8 + 1"
  using unat16_lt [of w] by (simp add: unat_word_ariths unat_div)

lemma mod8_word: "unat (w mod 8 :: USHORT) = unat w mod 8"
  by (simp add: unat_mod)

text \<open>
  The write path on the bit view. When the count is not a multiple of 8, the unused
  high bits of the last data byte are joined into the coils above the run.
\<close>

definition store_safe :: "nat \<Rightarrow> nat \<Rightarrow> nat \<Rightarrow> bool" where
  "store_safe len first n \<longleftrightarrow>
     (n div 8 = 0 \<or> first div 8 + n div 8 < len) \<and> (n mod 8 = 0 \<or> first div 8 + n div 8 + 1 < len)"

lemma store_coils_bits:
  assumes safe: "store_safe (length buf) start (unat n)"
    and fr: "p + (unat n + 7) div 8 \<le> length fr" and bi: "unat bi = start mod 8"
  shows "\<exists>buf'. store_coils buf (start div 8) bi fr p (unat n div 8 + 1) n = Some buf' \<and>
     length buf' = length buf \<and>
     (\<forall>k < 8 * length buf. bit_at buf' k =
        (if start \<le> k \<and> k < start + unat n then bit_at fr (8 * p + (k - start))
         else if start + unat n \<le> k \<and> k < start + 8 * ((unat n + 7) div 8)
              then bit_at buf k \<or> bit_at fr (8 * p + (k - start))
         else bit_at buf k))"
proof -
  let ?N = "unat n div 8" and ?r = "unat n mod 8"
  have bi8: "unat bi < 8" and start: "8 * (start div 8) + unat bi = start"
    by (simp_all add: bi)
  have le: "?N \<le> (unat n + 7) div 8"
    by (simp add: div_le_mono)
  obtain b1 where b1: "frame_to_coils buf (start div 8) bi fr p ?N = Some b1"
    and len1: "length b1 = length buf"
    and bits1: "\<And>k. k < 8 * length buf \<Longrightarrow> bit_at b1 k =
      (if start \<le> k \<and> k < start + 8 * ?N then bit_at fr (8 * p + (k - start)) else bit_at buf k)"
    using frame_to_coils_bits [of bi ?N "start div 8" buf p fr] bi8 safe fr le
    unfolding store_safe_def start by fastforce
  show ?thesis
  proof (cases "?r = 0")
    case True
    then have "n mod 8 = 0"
      by (metis mod8_word unat_eq_zero)
    moreover have "8 * ?N = unat n" "8 * ((unat n + 7) div 8) = unat n"
      using True by presburger+
    ultimately show ?thesis
      using b1 len1 bits1 by (auto simp: store_coils_def)
  next
    case False
    then have nz: "n mod 8 \<noteq> 0"
      by (metis mod8_word unsigned_0)
    have up: "(unat n + 7) div 8 = ?N + 1"
      using False by presburger
    have r: "unat (ucast (n mod 8) :: UCHAR) = ?r"
      by (simp add: unsigned_ucast_eq take_bit_nat_def mod8_word)
    then have r8: "ucast (n mod 8) \<le> (8 :: UCHAR)"
      by (simp add: word_le_nat_alt)
    have ok: "start div 8 + ?N + unat bi div 8 + 1 < length b1"
      using safe False bi8 by (simp add: store_safe_def len1)
    obtain b2 where b2: "xMBUtilSetBits b1 (start div 8 + ?N) bi (ucast (n mod 8)) (fr ! (p + ?N)) = Some b2"
      using xMBUtilSetBits_eq [OF r8 ok] by blast
    have run: "store_coils buf (start div 8) bi fr p (?N + 1) n = Some b2"
      using b1 b2 nz fr up by (simp add: store_coils_def)
    have s: "8 * (start div 8 + ?N) + unat bi = start + 8 * ?N"
      using start by simp
    have "bit_at b2 k = (if start \<le> k \<and> k < start + unat n then bit_at fr (8 * p + (k - start))
         else if start + unat n \<le> k \<and> k < start + 8 * ((unat n + 7) div 8)
              then bit_at buf k \<or> bit_at fr (8 * p + (k - start))
         else bit_at buf k)" if k: "k < 8 * length buf" for k
    proof -
      let ?e = "start + 8 * ?N"
      have n: "unat n = 8 * ?N + ?r" by simp
      have byte: "bit (fr ! (p + ?N)) (k - ?e) = bit_at fr (8 * p + (k - start))"
        if "?e \<le> k" "k < ?e + 8"
        using that bit_at_byte [of "k - ?e" fr "p + ?N"] by (simp add: algebra_simps)
      have "bit_at b2 k = (if ?e \<le> k \<and> k < ?e + ?r then bit (fr ! (p + ?N)) (k - ?e)
          else if ?e + ?r \<le> k then bit_at b1 k \<or> bit (fr ! (p + ?N)) (k - ?e) else bit_at b1 k)"
        by (rule xMBUtilSetBits_bits(2) [OF r8 ok b2, unfolded s r]) (simp add: k len1)
      moreover have "\<not> bit (fr ! (p + ?N)) (k - ?e)" if "?e + 8 \<le> k"
        using that by (auto dest: bit_imp_le_length)
      ultimately show ?thesis
        using byte bits1 [OF k] n up by (auto simp del: Nat.add_diff_assoc)
    qed
    moreover have "length b2 = length buf"
      using xMBUtilSetBits_bits(1) [OF r8 ok b2, of 0] ok len1 by (cases b1) auto
    ultimately show ?thesis
      using run by blast
  qed
qed

section \<open>Callback types and contracts\<close>

text \<open>
  The function handlers of the stack reach the application's registers only through
  callbacks (\<^verbatim>\<open>eMBRegInputCB\<close>, \<^verbatim>\<open>eMBRegHoldingCB\<close>, \<^verbatim>\<open>eMBRegCoilsCB\<close>,
  \<^verbatim>\<open>eMBRegDiscreteCB\<close> of \<^verbatim>\<open>mb.h\<close>). A callback takes the register state, the PDU buffer
  with the offset of its data, the 1-based address and the count.
\<close>

type_synonym 's reg_cb =
  "'s \<Rightarrow> UCHAR list \<Rightarrow> nat \<Rightarrow> USHORT \<Rightarrow> USHORT \<Rightarrow> eMBRegisterMode \<Rightarrow>
   (eMBErrorCode \<times> UCHAR list \<times> 's) option"

type_synonym 's input_cb =
  "'s \<Rightarrow> UCHAR list \<Rightarrow> nat \<Rightarrow> USHORT \<Rightarrow> USHORT \<Rightarrow> (eMBErrorCode \<times> UCHAR list \<times> 's) option"

text \<open>A bank of 16-bit registers that a handler can read.\<close>

locale reg_source =
  fixes rcb :: "'s input_cb" and regs :: "'s \<Rightarrow> USHORT list" and wf :: "'s \<Rightarrow> bool"
  assumes read_in: "\<lbrakk> wf s; unat (a - 1) + unat n \<le> length (regs s); p + 2 * unat n \<le> length fr \<rbrakk> \<Longrightarrow>
      rcb s fr p a n =
        Some (MB_ENOERR, blit fr p (regs_bytes (take (unat n) (drop (unat (a - 1)) (regs s)))), s)"
    and read_out: "\<lbrakk> wf s; length (regs s) < unat (a - 1) + unat n \<rbrakk> \<Longrightarrow>
      rcb s fr p a n = Some (MB_ENOREG, fr, s)"

text \<open>A bank that a handler can write; \<open>upd\<close> replaces the register contents.\<close>

locale reg_sink =
  fixes wcb :: "'s input_cb" and regs :: "'s \<Rightarrow> USHORT list"
    and upd :: "USHORT list \<Rightarrow> 's \<Rightarrow> 's" and wf :: "'s \<Rightarrow> bool"
  assumes write_in: "\<lbrakk> wf s; unat (a - 1) + unat n \<le> length (regs s); p + 2 * unat n \<le> length fr \<rbrakk> \<Longrightarrow>
      wcb s fr p a n =
        Some (MB_ENOERR, fr,
              upd (blit (regs s) (unat (a - 1)) (bytes_regs (take (2 * unat n) (drop p fr)))) s)"
    and write_out: "\<lbrakk> wf s; length (regs s) < unat (a - 1) + unat n \<rbrakk> \<Longrightarrow>
      wcb s fr p a n = Some (MB_ENOREG, fr, s)"
    and regs_upd: "wf s \<Longrightarrow> regs (upd rs s) = rs"
    and wf_upd: "wf s \<Longrightarrow> length rs = length (regs s) \<Longrightarrow> wf (upd rs s)"

text \<open>
  A holding register callback serves both modes: it is a source in mode
  \<^verbatim>\<open>MB_REG_READ\<close> and a sink in mode \<^verbatim>\<open>MB_REG_WRITE\<close>.
\<close>

locale reg_bank =
  source: reg_source "\<lambda>s fr p a n. cb s fr p a n MB_REG_READ" regs wf +
  sink: reg_sink "\<lambda>s fr p a n. cb s fr p a n MB_REG_WRITE" regs upd wf
  for cb :: "'s reg_cb" and regs and upd and wf

text \<open>
  A bank of coils that a handler can read. \<open>safe\<close> says for which first coil and
  count the callback stays inside its array.
\<close>

locale bit_source =
  fixes rcb :: "'s input_cb" and coils :: "'s \<Rightarrow> UCHAR list" and ncoils :: nat
    and safe :: "nat \<Rightarrow> nat \<Rightarrow> bool" and wf :: "'s \<Rightarrow> bool"
  assumes bits_in: "\<lbrakk> wf s; unat (a - 1) + unat n \<le> ncoils; safe (unat (a - 1)) (unat n);
        p + unat n div 8 + 1 \<le> length fr \<rbrakk> \<Longrightarrow>
      \<exists>fr'. rcb s fr p a n = Some (MB_ENOERR, fr', s) \<and> length fr' = length fr \<and>
        (\<forall>q. q < p \<or> p + unat n div 8 + 1 \<le> q \<longrightarrow> fr' ! q = fr ! q) \<and>
        (\<forall>k < 8 * (unat n div 8 + 1). bit_at fr' (8 * p + k) =
           (k < unat n \<and> bit_at (coils s) (unat (a - 1) + k)))"
    and bits_out: "\<lbrakk> wf s; ncoils < unat (a - 1) + unat n \<rbrakk> \<Longrightarrow>
      rcb s fr p a n = Some (MB_ENOREG, fr, s)"

text \<open>
  The bits that a coil write leaves behind, as a function of the old coils, the data
  bytes and the run: the run is replaced, and the padding bits of the last data byte
  are joined into the coils above it.
\<close>

definition coil_write_spec ::
  "UCHAR list \<Rightarrow> nat \<Rightarrow> nat \<Rightarrow> UCHAR list \<Rightarrow> nat \<Rightarrow> nat \<Rightarrow> bool" where
  "coil_write_spec old start n fr p k \<longleftrightarrow>
     (if start \<le> k \<and> k < start + n then bit_at fr (8 * p + (k - start))
      else if start + n \<le> k \<and> k < start + 8 * ((n + 7) div 8)
           then bit_at old k \<or> bit_at fr (8 * p + (k - start))
      else bit_at old k)"

text \<open>A bank of coils that a handler can write; \<open>safe\<close> is as for reading.\<close>

locale bit_sink =
  fixes wcb :: "'s input_cb" and coils :: "'s \<Rightarrow> UCHAR list" and ncoils :: nat
    and safe :: "nat \<Rightarrow> nat \<Rightarrow> bool"
    and upd :: "UCHAR list \<Rightarrow> 's \<Rightarrow> 's" and wf :: "'s \<Rightarrow> bool"
  assumes store_in: "\<lbrakk> wf s; unat (a - 1) + unat n \<le> ncoils; safe (unat (a - 1)) (unat n);
        p + (unat n + 7) div 8 \<le> length fr \<rbrakk> \<Longrightarrow>
      \<exists>cs. wcb s fr p a n = Some (MB_ENOERR, fr, upd cs s) \<and> length cs = length (coils s) \<and>
        (\<forall>k < 8 * length (coils s). bit_at cs k =
          coil_write_spec (coils s) (unat (a - 1)) (unat n) fr p k)"
    and store_out: "\<lbrakk> wf s; ncoils < unat (a - 1) + unat n \<rbrakk> \<Longrightarrow>
      wcb s fr p a n = Some (MB_ENOREG, fr, s)"
    and coils_upd: "wf s \<Longrightarrow> coils (upd cs s) = cs"
    and coils_wf_upd: "wf s \<Longrightarrow> length cs = length (coils s) \<Longrightarrow> wf (upd cs s)"

end
