(* ===== verification/Mb_Slave_Regs.thy ===== *)
theory Mb_Slave_Regs
  imports Mb_Regs
begin

text \<open>
  The slave's registers and the callbacks that serve them, from
  \<^verbatim>\<open>pck/freemodbus/port/user_mb_app.c\<close> with the sizes of \<^verbatim>\<open>user_mb_app.h\<close>. The
  callbacks meet the contracts of \<^verbatim>\<open>Mb_Regs\<close>; the coil callbacks do so only where
  they stay inside their arrays, which is characterised exactly.
\<close>

section \<open>State\<close>

definition S_DISCRETE_INPUT_NDISCRETES :: nat where "S_DISCRETE_INPUT_NDISCRETES = 16"
definition S_COIL_NCOILS :: nat where "S_COIL_NCOILS = 64"
definition S_REG_INPUT_NREGS :: nat where "S_REG_INPUT_NREGS = 100"
definition S_REG_HOLDING_NREGS :: nat where "S_REG_HOLDING_NREGS = 100"

lemmas slave_sizes = S_DISCRETE_INPUT_NDISCRETES_def S_COIL_NCOILS_def S_REG_INPUT_NREGS_def
  S_REG_HOLDING_NREGS_def

record slave_regs =
  ucSDiscInBuf :: "UCHAR list"
  ucSCoilBuf :: "UCHAR list"
  usSRegInBuf :: "USHORT list"
  usSRegHoldBuf :: "USHORT list"

text \<open>Static storage starts as zeros; the start addresses are the constant 0.\<close>

definition slave_regs_init :: slave_regs where
  "slave_regs_init = \<lparr> ucSDiscInBuf = replicate 2 0, ucSCoilBuf = replicate 8 0,
     usSRegInBuf = replicate 100 0, usSRegHoldBuf = replicate 100 0 \<rparr>"

definition usSStart :: USHORT where "usSStart = 0"

definition wf_slave :: "slave_regs \<Rightarrow> bool" where
  "wf_slave s \<longleftrightarrow> length (ucSDiscInBuf s) = 2 \<and> length (ucSCoilBuf s) = 8 \<and>
     length (usSRegInBuf s) = 100 \<and> length (usSRegHoldBuf s) = 100"

section \<open>Callbacks\<close>

definition eMBRegInputCB :: "slave_regs input_cb" where
  "eMBRegInputCB s pucRegBuffer p usAddress usNRegs =
    (let usAddress = usAddress - 1 in
     if unat usSStart \<le> unat usAddress \<and>
        unat usAddress + unat usNRegs \<le> unat usSStart + S_REG_INPUT_NREGS
     then do {
       let iRegIndex = unat (usAddress - usSStart);
       fr \<leftarrow> regs_to_frame pucRegBuffer p (usSRegInBuf s) iRegIndex (unat usNRegs);
       Some (MB_ENOERR, fr, s)
     }
     else Some (MB_ENOREG, pucRegBuffer, s))"

definition eMBRegHoldingCB :: "slave_regs reg_cb" where
  "eMBRegHoldingCB s pucRegBuffer p usAddress usNRegs eMode =
    (let usAddress = usAddress - 1 in
     if unat usSStart \<le> unat usAddress \<and>
        unat usAddress + unat usNRegs \<le> unat usSStart + S_REG_HOLDING_NREGS
     then (let iRegIndex = unat (usAddress - usSStart) in
       case eMode of
         MB_REG_READ \<Rightarrow> do {
           fr \<leftarrow> regs_to_frame pucRegBuffer p (usSRegHoldBuf s) iRegIndex (unat usNRegs);
           Some (MB_ENOERR, fr, s)
         }
       | MB_REG_WRITE \<Rightarrow> do {
           regs \<leftarrow> frame_to_regs (usSRegHoldBuf s) iRegIndex pucRegBuffer p (unat usNRegs);
           Some (MB_ENOERR, pucRegBuffer, s\<lparr>usSRegHoldBuf := regs\<rparr>)
         })
     else Some (MB_ENOREG, pucRegBuffer, s))"

definition eMBRegCoilsCB :: "slave_regs reg_cb" where
  "eMBRegCoilsCB s pucRegBuffer p usAddress usNCoils eMode =
    (let iNReg = unat (usNCoils div 8 + 1); usAddress = usAddress - 1 in
     if unat usSStart \<le> unat usAddress \<and>
        unat usAddress + unat usNCoils \<le> unat usSStart + S_COIL_NCOILS
     then (let iRegIndex = unat ((usAddress - usSStart) div 8);
               iRegBitIndex = (usAddress - usSStart) mod 8 in
       case eMode of
         MB_REG_READ \<Rightarrow> do {
           fr \<leftarrow> coils_to_frame pucRegBuffer p (ucSCoilBuf s) iRegIndex iRegBitIndex iNReg;
           fr \<leftarrow> clear_high_bits fr (p + iNReg - 1) (unat (usNCoils mod 8));
           Some (MB_ENOERR, fr, s)
         }
       | MB_REG_WRITE \<Rightarrow> do {
           buf \<leftarrow> store_coils (ucSCoilBuf s) iRegIndex iRegBitIndex pucRegBuffer p iNReg usNCoils;
           Some (MB_ENOERR, pucRegBuffer, s\<lparr>ucSCoilBuf := buf\<rparr>)
         })
     else Some (MB_ENOREG, pucRegBuffer, s))"

definition eMBRegDiscreteCB :: "slave_regs input_cb" where
  "eMBRegDiscreteCB s pucRegBuffer p usAddress usNDiscrete =
    (let iNReg = unat (usNDiscrete div 8 + 1); usAddress = usAddress - 1 in
     if unat usSStart \<le> unat usAddress \<and>
        unat usAddress + unat usNDiscrete \<le> unat usSStart + S_DISCRETE_INPUT_NDISCRETES
     then do {
       let iRegIndex = unat ((usAddress - usSStart) div 8);
       let iRegBitIndex = (usAddress - usSStart) mod 8;
       fr \<leftarrow> coils_to_frame pucRegBuffer p (ucSDiscInBuf s) iRegIndex iRegBitIndex iNReg;
       fr \<leftarrow> clear_high_bits fr (p + iNReg - 1) (unat (usNDiscrete mod 8));
       Some (MB_ENOERR, fr, s)
     }
     else Some (MB_ENOREG, pucRegBuffer, s))"

section \<open>Registers meet their contracts\<close>

interpretation slave_input: reg_source eMBRegInputCB usSRegInBuf wf_slave
  by unfold_locales
    (simp_all add: eMBRegInputCB_def usSStart_def slave_sizes wf_slave_def regs_to_frame_eq)

interpretation slave_holding: reg_bank eMBRegHoldingCB usSRegHoldBuf
    "\<lambda>rs s. s\<lparr>usSRegHoldBuf := rs\<rparr>" wf_slave
  by unfold_locales
    (simp_all add: eMBRegHoldingCB_def usSStart_def slave_sizes wf_slave_def regs_to_frame_eq
      frame_to_regs_eq)

section \<open>Coils\<close>

interpretation slave_coils: bit_source "\<lambda>s fr p a n. eMBRegCoilsCB s fr p a n MB_REG_READ" ucSCoilBuf
    64 "\<lambda>first n. first div 8 + n div 8 + 1 < 8" wf_slave
proof
  fix s p and a n :: USHORT and fr :: "UCHAR list"
  assume wf: "wf_slave s" and range: "unat (a - 1) + unat n \<le> 64"
    and safe: "unat (a - 1) div 8 + unat n div 8 + 1 < 8" and fr: "p + unat n div 8 + 1 \<le> length fr"
  show "\<exists>fr'. eMBRegCoilsCB s fr p a n MB_REG_READ = Some (MB_ENOERR, fr', s) \<and>
        length fr' = length fr \<and>
        (\<forall>q. q < p \<or> p + unat n div 8 + 1 \<le> q \<longrightarrow> fr' ! q = fr ! q) \<and>
        (\<forall>k < 8 * (unat n div 8 + 1). bit_at fr' (8 * p + k) =
           (k < unat n \<and> bit_at (ucSCoilBuf s) (unat (a - 1) + k)))"
    using read_bits [of "unat (a - 1)" "unat n" "ucSCoilBuf s" p fr "(a - 1) mod 8"] wf safe fr range
    by (auto simp: eMBRegCoilsCB_def usSStart_def slave_sizes wf_slave_def div8_word mod8_word
        unat_div bind_eq_Some_conv)
qed (simp add: eMBRegCoilsCB_def usSStart_def slave_sizes)

interpretation slave_discrete: bit_source eMBRegDiscreteCB ucSDiscInBuf
    16 "\<lambda>first n. first div 8 + n div 8 + 1 < 2" wf_slave
proof
  fix s p and a n :: USHORT and fr :: "UCHAR list"
  assume wf: "wf_slave s" and range: "unat (a - 1) + unat n \<le> 16"
    and safe: "unat (a - 1) div 8 + unat n div 8 + 1 < 2" and fr: "p + unat n div 8 + 1 \<le> length fr"
  show "\<exists>fr'. eMBRegDiscreteCB s fr p a n = Some (MB_ENOERR, fr', s) \<and>
        length fr' = length fr \<and>
        (\<forall>q. q < p \<or> p + unat n div 8 + 1 \<le> q \<longrightarrow> fr' ! q = fr ! q) \<and>
        (\<forall>k < 8 * (unat n div 8 + 1). bit_at fr' (8 * p + k) =
           (k < unat n \<and> bit_at (ucSDiscInBuf s) (unat (a - 1) + k)))"
    using read_bits [of "unat (a - 1)" "unat n" "ucSDiscInBuf s" p fr "(a - 1) mod 8"] wf safe fr range
    by (auto simp: eMBRegDiscreteCB_def usSStart_def slave_sizes wf_slave_def div8_word mod8_word
        unat_div bind_eq_Some_conv)
qed (simp add: eMBRegDiscreteCB_def usSStart_def slave_sizes)

interpretation slave_coil_sink: bit_sink "\<lambda>s fr p a n. eMBRegCoilsCB s fr p a n MB_REG_WRITE"
    ucSCoilBuf 64 "store_safe 8" "\<lambda>cs s. s\<lparr>ucSCoilBuf := cs\<rparr>" wf_slave
proof
  fix s p and a n :: USHORT and fr :: "UCHAR list"
  assume wf: "wf_slave s" and range: "unat (a - 1) + unat n \<le> 64"
    and safe: "store_safe 8 (unat (a - 1)) (unat n)" and fr: "p + (unat n + 7) div 8 \<le> length fr"
  show "\<exists>cs. eMBRegCoilsCB s fr p a n MB_REG_WRITE = Some (MB_ENOERR, fr, s\<lparr>ucSCoilBuf := cs\<rparr>) \<and>
      length cs = length (ucSCoilBuf s) \<and>
      (\<forall>k < 8 * length (ucSCoilBuf s). bit_at cs k =
         coil_write_spec (ucSCoilBuf s) (unat (a - 1)) (unat n) fr p k)"
    using store_coils_bits [of "ucSCoilBuf s" "unat (a - 1)" n p fr "(a - 1) mod 8"] wf safe fr range
    by (auto simp: eMBRegCoilsCB_def usSStart_def slave_sizes wf_slave_def div8_word mod8_word
        unat_div coil_write_spec_def)
qed (simp_all add: eMBRegCoilsCB_def usSStart_def slave_sizes wf_slave_def)

text \<open>
  Outside the safe region the callbacks run past the end of their arrays although the
  address check accepts the request.
\<close>

lemma eMBRegCoilsCB_read_overrun:
  assumes "wf_slave s" "unat (a - 1) + unat n \<le> 64" "8 \<le> unat (a - 1) div 8 + unat n div 8 + 1"
  shows "eMBRegCoilsCB s fr p a n MB_REG_READ = None"
  using assms coils_to_frame_out [of "(a - 1) mod 8" "unat n div 8 + 1" "ucSCoilBuf s"
      "unat (a - 1) div 8" fr p]
  by (simp add: eMBRegCoilsCB_def usSStart_def slave_sizes wf_slave_def div8_word mod8_word unat_div Let_def
      del: coils_to_frame.simps)

lemma eMBRegDiscreteCB_overrun:
  assumes "wf_slave s" "unat (a - 1) + unat n \<le> 16" "2 \<le> unat (a - 1) div 8 + unat n div 8 + 1"
  shows "eMBRegDiscreteCB s fr p a n = None"
  using assms coils_to_frame_out [of "(a - 1) mod 8" "unat n div 8 + 1" "ucSDiscInBuf s"
      "unat (a - 1) div 8" fr p]
  by (simp add: eMBRegDiscreteCB_def usSStart_def slave_sizes wf_slave_def div8_word mod8_word unat_div Let_def
      del: coils_to_frame.simps)

end
