(* ===== verification/Mb_Slave_Func.thy ===== *)
theory Mb_Slave_Func
  imports Mb_Slave_Regs
begin

text \<open>
  The slave's function handlers, from \<^verbatim>\<open>mbfuncholding.c\<close>, \<^verbatim>\<open>mbfuncinput.c\<close>,
  \<^verbatim>\<open>mbfunccoils.c\<close>, \<^verbatim>\<open>mbfuncdisc.c\<close> and \<^verbatim>\<open>mbfuncother.c\<close> under
  \<^verbatim>\<open>pck/freemodbus/modbus/functions\<close>. A handler gets the PDU in place (\<^verbatim>\<open>pucFrame\<close>, the
  bytes of the receive buffer from the function code on) with its length, rewrites
  the PDU into the response and returns a Modbus exception code. The register
  callback it uses is its first argument.
\<close>

type_synonym 's fn_result = "(eMBException \<times> UCHAR list \<times> USHORT \<times> 's) option"

section \<open>Holding registers\<close>

definition eMBFuncWriteHoldingRegister ::
  "'s reg_cb \<Rightarrow> 's \<Rightarrow> UCHAR list \<Rightarrow> USHORT \<Rightarrow> 's fn_result" where
  "eMBFuncWriteHoldingRegister holdingCB s pucFrame usLen =
    (if usLen = 4 + 1
     then do {
       a \<leftarrow> get_u16 pucFrame 1;
       let usRegAddress = a + 1;
       (eRegStatus, pucFrame, s) \<leftarrow> holdingCB s pucFrame 3 usRegAddress 1 MB_REG_WRITE;
       Some (if eRegStatus \<noteq> MB_ENOERR then prveMBError2Exception eRegStatus else MB_EX_NONE,
             pucFrame, usLen, s)
     }
     else Some (MB_EX_ILLEGAL_DATA_VALUE, pucFrame, usLen, s))"

definition eMBFuncWriteMultipleHoldingRegister ::
  "'s reg_cb \<Rightarrow> 's \<Rightarrow> UCHAR list \<Rightarrow> USHORT \<Rightarrow> 's fn_result" where
  "eMBFuncWriteMultipleHoldingRegister holdingCB s pucFrame usLen =
    (if 5 + 1 \<le> usLen
     then do {
       a \<leftarrow> get_u16 pucFrame 1;
       let usRegAddress = a + 1;
       usRegCount \<leftarrow> get_u16 pucFrame 3;
       ucRegByteCount \<leftarrow> rd pucFrame 5;
       if 1 \<le> usRegCount \<and> usRegCount \<le> 0x78 \<and> ucRegByteCount = ucast (2 * usRegCount)
       then do {
         (eRegStatus, pucFrame, s) \<leftarrow> holdingCB s pucFrame 6 usRegAddress usRegCount MB_REG_WRITE;
         if eRegStatus \<noteq> MB_ENOERR
         then Some (prveMBError2Exception eRegStatus, pucFrame, usLen, s)
         else Some (MB_EX_NONE, pucFrame, 5, s)
       }
       else Some (MB_EX_ILLEGAL_DATA_VALUE, pucFrame, usLen, s)
     }
     else Some (MB_EX_ILLEGAL_DATA_VALUE, pucFrame, usLen, s))"

definition eMBFuncReadHoldingRegister ::
  "'s reg_cb \<Rightarrow> 's \<Rightarrow> UCHAR list \<Rightarrow> USHORT \<Rightarrow> 's fn_result" where
  "eMBFuncReadHoldingRegister holdingCB s pucFrame usLen =
    (if usLen = 4 + 1
     then do {
       a \<leftarrow> get_u16 pucFrame 1;
       let usRegAddress = a + 1;
       usRegCount \<leftarrow> get_u16 pucFrame 3;
       if 1 \<le> usRegCount \<and> usRegCount \<le> 0x7D
       then do {
         pucFrame \<leftarrow> wr pucFrame 0 MB_FUNC_READ_HOLDING_REGISTER;
         pucFrame \<leftarrow> wr pucFrame 1 (ucast (usRegCount * 2));
         let usLen = 0 + 1 + 1;
         (eRegStatus, pucFrame, s) \<leftarrow> holdingCB s pucFrame 2 usRegAddress usRegCount MB_REG_READ;
         if eRegStatus \<noteq> MB_ENOERR
         then Some (prveMBError2Exception eRegStatus, pucFrame, usLen, s)
         else Some (MB_EX_NONE, pucFrame, usLen + usRegCount * 2, s)
       }
       else Some (MB_EX_ILLEGAL_DATA_VALUE, pucFrame, usLen, s)
     }
     else Some (MB_EX_ILLEGAL_DATA_VALUE, pucFrame, usLen, s))"

text \<open>
  The read/write handler has no \<^verbatim>\<open>else\<close> for a frame that is too short: it then
  answers with \<^verbatim>\<open>MB_EX_NONE\<close> and the request unchanged.
\<close>

definition eMBFuncReadWriteMultipleHoldingRegister ::
  "'s reg_cb \<Rightarrow> 's \<Rightarrow> UCHAR list \<Rightarrow> USHORT \<Rightarrow> 's fn_result" where
  "eMBFuncReadWriteMultipleHoldingRegister holdingCB s pucFrame usLen =
    (if 9 + 1 \<le> usLen
     then do {
       ra \<leftarrow> get_u16 pucFrame 1;
       let usRegReadAddress = ra + 1;
       usRegReadCount \<leftarrow> get_u16 pucFrame 3;
       wa \<leftarrow> get_u16 pucFrame 5;
       let usRegWriteAddress = wa + 1;
       usRegWriteCount \<leftarrow> get_u16 pucFrame 7;
       ucRegWriteByteCount \<leftarrow> rd pucFrame 9;
       if 1 \<le> usRegReadCount \<and> usRegReadCount \<le> 0x7D \<and>
          1 \<le> usRegWriteCount \<and> usRegWriteCount \<le> 0x79 \<and>
          2 * unat usRegWriteCount = unat ucRegWriteByteCount
       then do {
         (eRegStatus, pucFrame, s) \<leftarrow>
           holdingCB s pucFrame 10 usRegWriteAddress usRegWriteCount MB_REG_WRITE;
         if eRegStatus = MB_ENOERR
         then do {
           pucFrame \<leftarrow> wr pucFrame 0 MB_FUNC_READWRITE_MULTIPLE_REGISTERS;
           pucFrame \<leftarrow> wr pucFrame 1 (ucast (usRegReadCount * 2));
           let usLen = 0 + 1 + 1;
           (eRegStatus, pucFrame, s) \<leftarrow>
             holdingCB s pucFrame 2 usRegReadAddress usRegReadCount MB_REG_READ;
           if eRegStatus = MB_ENOERR
           then Some (MB_EX_NONE, pucFrame, usLen + 2 * usRegReadCount, s)
           else Some (prveMBError2Exception eRegStatus, pucFrame, usLen, s)
         }
         else Some (prveMBError2Exception eRegStatus, pucFrame, usLen, s)
       }
       else Some (MB_EX_ILLEGAL_DATA_VALUE, pucFrame, usLen, s)
     }
     else Some (MB_EX_NONE, pucFrame, usLen, s))"

section \<open>Input registers\<close>

definition eMBFuncReadInputRegister ::
  "'s input_cb \<Rightarrow> 's \<Rightarrow> UCHAR list \<Rightarrow> USHORT \<Rightarrow> 's fn_result" where
  "eMBFuncReadInputRegister inputCB s pucFrame usLen =
    (if usLen = 4 + 1
     then do {
       a \<leftarrow> get_u16 pucFrame 1;
       let usRegAddress = a + 1;
       usRegCount \<leftarrow> get_u16 pucFrame 3;
       if 1 \<le> usRegCount \<and> usRegCount < 0x7D
       then do {
         pucFrame \<leftarrow> wr pucFrame 0 MB_FUNC_READ_INPUT_REGISTER;
         pucFrame \<leftarrow> wr pucFrame 1 (ucast (usRegCount * 2));
         let usLen = 0 + 1 + 1;
         (eRegStatus, pucFrame, s) \<leftarrow> inputCB s pucFrame 2 usRegAddress usRegCount;
         if eRegStatus \<noteq> MB_ENOERR
         then Some (prveMBError2Exception eRegStatus, pucFrame, usLen, s)
         else Some (MB_EX_NONE, pucFrame, usLen + usRegCount * 2, s)
       }
       else Some (MB_EX_ILLEGAL_DATA_VALUE, pucFrame, usLen, s)
     }
     else Some (MB_EX_ILLEGAL_DATA_VALUE, pucFrame, usLen, s))"

section \<open>Coils and discrete inputs\<close>

definition eMBFuncReadCoils ::
  "'s reg_cb \<Rightarrow> 's \<Rightarrow> UCHAR list \<Rightarrow> USHORT \<Rightarrow> 's fn_result" where
  "eMBFuncReadCoils coilsCB s pucFrame usLen =
    (if usLen = 4 + 1
     then do {
       a \<leftarrow> get_u16 pucFrame 1;
       let usRegAddress = a + 1;
       usCoilCount \<leftarrow> get_u16 pucFrame 3;
       if 1 \<le> usCoilCount \<and> usCoilCount < 0x07D0
       then do {
         pucFrame \<leftarrow> wr pucFrame 0 MB_FUNC_READ_COILS;
         let ucNBytes = coil_bytes usCoilCount;
         pucFrame \<leftarrow> wr pucFrame 1 ucNBytes;
         let usLen = 0 + 1 + 1;
         (eRegStatus, pucFrame, s) \<leftarrow> coilsCB s pucFrame 2 usRegAddress usCoilCount MB_REG_READ;
         if eRegStatus \<noteq> MB_ENOERR
         then Some (prveMBError2Exception eRegStatus, pucFrame, usLen, s)
         else Some (MB_EX_NONE, pucFrame, usLen + ucast ucNBytes, s)
       }
       else Some (MB_EX_ILLEGAL_DATA_VALUE, pucFrame, usLen, s)
     }
     else Some (MB_EX_ILLEGAL_DATA_VALUE, pucFrame, usLen, s))"

definition eMBFuncWriteCoil ::
  "'s reg_cb \<Rightarrow> 's \<Rightarrow> UCHAR list \<Rightarrow> USHORT \<Rightarrow> 's fn_result" where
  "eMBFuncWriteCoil coilsCB s pucFrame usLen =
    (if usLen = 4 + 1
     then do {
       a \<leftarrow> get_u16 pucFrame 1;
       let usRegAddress = a + 1;
       v1 \<leftarrow> rd pucFrame 4;
       v0 \<leftarrow> rd pucFrame 3;
       if v1 = 0x00 \<and> (v0 = 0xFF \<or> v0 = 0x00)
       then do {
         let ucBuf = [if v0 = 0xFF then 1 else 0, 0];
         (eRegStatus, ucBuf, s) \<leftarrow> coilsCB s ucBuf 0 usRegAddress 1 MB_REG_WRITE;
         Some (if eRegStatus \<noteq> MB_ENOERR then prveMBError2Exception eRegStatus else MB_EX_NONE,
               pucFrame, usLen, s)
       }
       else Some (MB_EX_ILLEGAL_DATA_VALUE, pucFrame, usLen, s)
     }
     else Some (MB_EX_ILLEGAL_DATA_VALUE, pucFrame, usLen, s))"

definition eMBFuncWriteMultipleCoils ::
  "'s reg_cb \<Rightarrow> 's \<Rightarrow> UCHAR list \<Rightarrow> USHORT \<Rightarrow> 's fn_result" where
  "eMBFuncWriteMultipleCoils coilsCB s pucFrame usLen =
    (if 4 + 1 < usLen
     then do {
       a \<leftarrow> get_u16 pucFrame 1;
       let usRegAddress = a + 1;
       usCoilCnt \<leftarrow> get_u16 pucFrame 3;
       ucByteCount \<leftarrow> rd pucFrame 5;
       let ucByteCountVerify = coil_bytes usCoilCnt;
       if 1 \<le> usCoilCnt \<and> usCoilCnt \<le> 0x07B0 \<and> ucByteCountVerify = ucByteCount
       then do {
         (eRegStatus, pucFrame, s) \<leftarrow> coilsCB s pucFrame 6 usRegAddress usCoilCnt MB_REG_WRITE;
         if eRegStatus \<noteq> MB_ENOERR
         then Some (prveMBError2Exception eRegStatus, pucFrame, usLen, s)
         else Some (MB_EX_NONE, pucFrame, 5, s)
       }
       else Some (MB_EX_ILLEGAL_DATA_VALUE, pucFrame, usLen, s)
     }
     else Some (MB_EX_ILLEGAL_DATA_VALUE, pucFrame, usLen, s))"

definition eMBFuncReadDiscreteInputs ::
  "'s input_cb \<Rightarrow> 's \<Rightarrow> UCHAR list \<Rightarrow> USHORT \<Rightarrow> 's fn_result" where
  "eMBFuncReadDiscreteInputs discreteCB s pucFrame usLen =
    (if usLen = 4 + 1
     then do {
       a \<leftarrow> get_u16 pucFrame 1;
       let usRegAddress = a + 1;
       usDiscreteCnt \<leftarrow> get_u16 pucFrame 3;
       if 1 \<le> usDiscreteCnt \<and> usDiscreteCnt < 0x07D0
       then do {
         pucFrame \<leftarrow> wr pucFrame 0 MB_FUNC_READ_DISCRETE_INPUTS;
         let ucNBytes = coil_bytes usDiscreteCnt;
         pucFrame \<leftarrow> wr pucFrame 1 ucNBytes;
         let usLen = 0 + 1 + 1;
         (eRegStatus, pucFrame, s) \<leftarrow> discreteCB s pucFrame 2 usRegAddress usDiscreteCnt;
         if eRegStatus \<noteq> MB_ENOERR
         then Some (prveMBError2Exception eRegStatus, pucFrame, usLen, s)
         else Some (MB_EX_NONE, pucFrame, usLen + ucast ucNBytes, s)
       }
       else Some (MB_EX_ILLEGAL_DATA_VALUE, pucFrame, usLen, s)
     }
     else Some (MB_EX_ILLEGAL_DATA_VALUE, pucFrame, usLen, s))"

section \<open>Slave identification\<close>

record slave_id =
  ucMBSlaveID :: "UCHAR list"
  usMBSlaveIDLen :: USHORT

definition slave_id_init :: slave_id where
  "slave_id_init = \<lparr> ucMBSlaveID = replicate 32 0, usMBSlaveIDLen = 0 \<rparr>"

definition wf_slave_id :: "slave_id \<Rightarrow> bool" where
  "wf_slave_id i \<longleftrightarrow> length (ucMBSlaveID i) = 32 \<and> unat (usMBSlaveIDLen i) \<le> 32"

definition eMBSetSlaveID ::
  "slave_id \<Rightarrow> UCHAR \<Rightarrow> bool \<Rightarrow> UCHAR list \<Rightarrow> USHORT \<Rightarrow> (eMBErrorCode \<times> slave_id) option" where
  "eMBSetSlaveID i ucSlaveID xIsRunning pucAdditional usAdditionalLen =
    (if unat usAdditionalLen + 2 < 32
     then do {
       buf \<leftarrow> wr (ucMBSlaveID i) 0 ucSlaveID;
       buf \<leftarrow> wr buf 1 (if xIsRunning then 0xFF else 0x00);
       if 0 < usAdditionalLen
       then if unat usAdditionalLen \<le> length pucAdditional \<and> 2 + unat usAdditionalLen \<le> length buf
         then Some (MB_ENOERR, i\<lparr>ucMBSlaveID := blit buf 2 (take (unat usAdditionalLen) pucAdditional),
                                 usMBSlaveIDLen := 2 + usAdditionalLen\<rparr>)
         else None
       else Some (MB_ENOERR, i\<lparr>ucMBSlaveID := buf, usMBSlaveIDLen := 2\<rparr>)
     }
     else Some (MB_ENORES, i))"

definition eMBFuncReportSlaveID ::
  "slave_id \<Rightarrow> UCHAR list \<Rightarrow> (eMBException \<times> UCHAR list \<times> USHORT) option" where
  "eMBFuncReportSlaveID i pucFrame =
    (let n = unat (usMBSlaveIDLen i) in
     if n \<le> length (ucMBSlaveID i) \<and> 1 + n \<le> length pucFrame
     then Some (MB_EX_NONE, blit pucFrame 1 (take n (ucMBSlaveID i)), 1 + usMBSlaveIDLen i)
     else None)"

lemma eMBSetSlaveID_report:
  assumes wf: "wf_slave_id i" and n: "unat n + 2 < 32" and extra: "unat n \<le> length extra"
    and fr: "unat n + 3 \<le> length fr"
  shows "\<exists>i' fr'. eMBSetSlaveID i uid running extra n = Some (MB_ENOERR, i') \<and> wf_slave_id i' \<and>
     eMBFuncReportSlaveID i' fr = Some (MB_EX_NONE, fr', n + 3) \<and>
     take (unat n + 2) (drop 1 fr') = uid # (if running then 0xFF else 0) # take (unat n) extra"
proof -
  let ?flag = "if running then 0xFF else 0 :: UCHAR"
  let ?data = "uid # ?flag # take (unat n) extra"
  have len: "length (ucMBSlaveID i) = 32"
    using wf by (simp add: wf_slave_id_def)
  then have two: "(ucMBSlaveID i)[0 := uid, Suc 0 := ?flag] = blit (ucMBSlaveID i) 0 [uid, ?flag]"
    using blit_Cons [of 0 "[?flag]" "ucMBSlaveID i" uid] blit_Cons [of "Suc 0" "[]" _ ?flag]
    by simp
  define i' where "i' = i\<lparr>ucMBSlaveID := blit (ucMBSlaveID i) 0 ?data, usMBSlaveIDLen := 2 + n\<rparr>"
  have set: "eMBSetSlaveID i uid running extra n = Some (MB_ENOERR, i')"
  proof (cases "n = 0")
    case True
    then show ?thesis
      using len two by (simp add: eMBSetSlaveID_def i'_def)
  next
    case False
    then have "0 < n" by (simp add: word_gt_0)
    moreover have "blit (blit (ucMBSlaveID i) 0 [uid, ?flag]) 2 (take (unat n) extra) =
        blit (ucMBSlaveID i) 0 ?data"
      using blit_append [of 0 "[uid, ?flag]" "take (unat n) extra" "ucMBSlaveID i"] n len
      by (simp add: numeral_2_eq_2)
    ultimately show ?thesis
      using len two n extra by (simp add: eMBSetSlaveID_def i'_def)
  qed
  have un: "unat (2 + n) = 2 + unat n"
    using n by (simp add: unat_word_ariths)
  have wf': "wf_slave_id i'"
    using len n extra un by (simp add: wf_slave_id_def i'_def)
  have "take (2 + unat n) (blit (ucMBSlaveID i) 0 ?data) = ?data"
    using extra by (simp add: blit_def)
  then have "eMBFuncReportSlaveID i' fr = Some (MB_EX_NONE, blit fr 1 ?data, n + 3)"
    using n len fr extra un by (simp add: eMBFuncReportSlaveID_def i'_def Let_def)
  moreover have "take (unat n + 2) (drop 1 (blit fr 1 ?data)) = ?data"
    using segment_blit [of 1 ?data fr] fr extra by simp
  ultimately show ?thesis
    using set wf' by blast
qed

section \<open>Handlers over the callback contracts\<close>

text \<open>The header of a response, written in place before the callback fills in the data.\<close>

lemma wr_first [simp]: "5 \<le> length fr \<Longrightarrow> wr fr 0 v = Some (fr[0 := v])"
  by (rule wr_in) linarith

lemma blit_two:
  assumes "2 + length ys \<le> length fr"
  shows "blit (fr[0 := x, Suc 0 := y]) 2 ys = blit fr 0 (x # y # ys)"
  using assms by (simp add: numeral_2_eq_2 blit_Cons)

lemma count_bytes:
  assumes "unat (n :: USHORT) \<le> 125"
  shows "unat (ucast (n * 2) :: UCHAR) = 2 * unat n"
    and "unat (2 + n * 2) = 2 + 2 * unat n"
  using assms by (simp_all add: unsigned_ucast_eq take_bit_nat_def unat_word_ariths)

definition req_addr :: "UCHAR list \<Rightarrow> USHORT" where
  "req_addr fr = mk16 (fr ! 1) (fr ! 2)"

definition req_count :: "UCHAR list \<Rightarrow> USHORT" where
  "req_count fr = mk16 (fr ! 3) (fr ! 4)"

lemma req_get [simp]:
  "5 \<le> length fr \<Longrightarrow> get_u16 fr (Suc 0) = Some (req_addr fr)"
  "5 \<le> length fr \<Longrightarrow> get_u16 fr 3 = Some (req_count fr)"
  by (simp_all add: req_addr_def req_count_def get_u16_in numeral_2_eq_2)

lemma word_le_125: "(n :: USHORT) \<le> 0x7D \<longleftrightarrow> unat n \<le> 125"
  and word_less_125: "n < 0x7D \<longleftrightarrow> unat n < 125"
  and word_le_120: "n \<le> 0x78 \<longleftrightarrow> unat n \<le> 120"
  and word_le_121: "n \<le> 0x79 \<longleftrightarrow> unat n \<le> 121"
  and word_ge_1: "1 \<le> n \<longleftrightarrow> 1 \<le> unat n"
  by (simp_all add: word_le_nat_alt word_less_nat_alt)

lemmas count_conv = word_le_125 word_less_125 word_le_120 word_le_121 word_ge_1

context reg_source
begin

lemma read_input_ok:
  assumes "wf s" "5 \<le> length fr" "2 + 2 * unat (req_count fr) \<le> length fr"
    and "1 \<le> unat (req_count fr)" "unat (req_count fr) < 125"
    and "unat (req_addr fr) + unat (req_count fr) \<le> length (regs s)"
  shows "eMBFuncReadInputRegister rcb s fr 5 =
    Some (MB_EX_NONE,
      blit fr 0 (MB_FUNC_READ_INPUT_REGISTER # ucast (req_count fr * 2) #
        regs_bytes (take (unat (req_count fr)) (drop (unat (req_addr fr)) (regs s)))),
      2 + req_count fr * 2, s)"
  using assms read_in [of s "req_addr fr + 1" "req_count fr" 2]
  by (simp add: eMBFuncReadInputRegister_def count_conv blit_two)

lemma read_input_range:
  assumes "wf s" "5 \<le> length fr" "1 \<le> unat (req_count fr)" "unat (req_count fr) < 125"
    and "length (regs s) < unat (req_addr fr) + unat (req_count fr)"
  shows "\<exists>fr'. eMBFuncReadInputRegister rcb s fr 5 = Some (MB_EX_ILLEGAL_DATA_ADDRESS, fr', 2, s) \<and>
    length fr' = length fr"
  using assms read_out [of s "req_addr fr + 1" "req_count fr"]
  by (simp add: eMBFuncReadInputRegister_def count_conv prveMBError2Exception_def)

end

context reg_bank
begin

lemma read_holding_ok:
  assumes "wf s" "5 \<le> length fr" "2 + 2 * unat (req_count fr) \<le> length fr"
    and "1 \<le> unat (req_count fr)" "unat (req_count fr) \<le> 125"
    and "unat (req_addr fr) + unat (req_count fr) \<le> length (regs s)"
  shows "eMBFuncReadHoldingRegister cb s fr 5 =
    Some (MB_EX_NONE,
      blit fr 0 (MB_FUNC_READ_HOLDING_REGISTER # ucast (req_count fr * 2) #
        regs_bytes (take (unat (req_count fr)) (drop (unat (req_addr fr)) (regs s)))),
      2 + req_count fr * 2, s)"
  using assms source.read_in [of s "req_addr fr + 1" "req_count fr" 2]
  by (simp add: eMBFuncReadHoldingRegister_def count_conv blit_two)

lemma read_holding_range:
  assumes "wf s" "5 \<le> length fr" "1 \<le> unat (req_count fr)" "unat (req_count fr) \<le> 125"
    and "length (regs s) < unat (req_addr fr) + unat (req_count fr)"
  shows "\<exists>fr'. eMBFuncReadHoldingRegister cb s fr 5 = Some (MB_EX_ILLEGAL_DATA_ADDRESS, fr', 2, s) \<and>
    length fr' = length fr"
  using assms source.read_out [of s "req_addr fr + 1" "req_count fr"]
  by (simp add: eMBFuncReadHoldingRegister_def count_conv prveMBError2Exception_def)

lemma write_holding_ok:
  assumes "wf s" "5 \<le> length fr" "unat (req_addr fr) < length (regs s)"
  shows "eMBFuncWriteHoldingRegister cb s fr 5 =
    Some (MB_EX_NONE, fr, 5, upd ((regs s)[unat (req_addr fr) := req_count fr]) s)"
proof -
  have d: "take 2 (drop 3 fr) = [fr ! 3, fr ! 4]"
    using assms(2) by (auto simp: numeral_2_eq_2 take_Suc_conv_app_nth Cons_nth_drop_Suc [symmetric]
        numeral_3_eq_3 eval_nat_numeral)
  have "blit (regs s) (unat (req_addr fr)) [req_count fr] = (regs s)[unat (req_addr fr) := req_count fr]"
    using assms(3) by (simp add: blit_def upd_conv_take_nth_drop)
  then show ?thesis
    using assms sink.write_in [of s "req_addr fr + 1" 1 3 fr]
    by (simp add: eMBFuncWriteHoldingRegister_def d req_count_def)
qed

lemma write_multiple_ok:
  assumes "wf s" "6 \<le> length fr" "6 \<le> usLen"
    and "1 \<le> unat (req_count fr)" "unat (req_count fr) \<le> 120"
    and "fr ! 5 = ucast (2 * req_count fr)" "6 + 2 * unat (req_count fr) \<le> length fr"
    and "unat (req_addr fr) + unat (req_count fr) \<le> length (regs s)"
  shows "eMBFuncWriteMultipleHoldingRegister cb s fr usLen =
    Some (MB_EX_NONE, fr, 5,
      upd (blit (regs s) (unat (req_addr fr))
             (bytes_regs (take (2 * unat (req_count fr)) (drop 6 fr)))) s)"
  using assms sink.write_in [of s "req_addr fr + 1" "req_count fr" 6 fr]
  by (simp add: eMBFuncWriteMultipleHoldingRegister_def count_conv)

lemma write_multiple_range:
  assumes "wf s" "6 \<le> length fr" "6 \<le> usLen"
    and "1 \<le> unat (req_count fr)" "unat (req_count fr) \<le> 120"
    and "fr ! 5 = ucast (2 * req_count fr)"
    and "length (regs s) < unat (req_addr fr) + unat (req_count fr)"
  shows "eMBFuncWriteMultipleHoldingRegister cb s fr usLen =
    Some (MB_EX_ILLEGAL_DATA_ADDRESS, fr, usLen, s)"
  using assms sink.write_out [of s "req_addr fr + 1" "req_count fr" fr]
  by (simp add: eMBFuncWriteMultipleHoldingRegister_def count_conv prveMBError2Exception_def)

end

end
