(* ===== verification/Mb_Slave.thy ===== *)
theory Mb_Slave
  imports Mb_Rtu Mb_Slave_Func
begin

text \<open>
  The slave's protocol stack, \<^verbatim>\<open>pck/freemodbus/modbus/mb.c\<close>: initialisation, the table of
  function handlers, and \<^verbatim>\<open>eMBPoll\<close>, which takes one event and acts on it. RTU is
  the only transport that \<^verbatim>\<open>mbconfig.h\<close> enables for the slave, and the port has no
  close operation.
\<close>

section \<open>State\<close>

text \<open>The function handlers by name; a user handler registered at run time is a number.\<close>

datatype handler =
    H_ReportSlaveID | H_ReadInputRegister | H_ReadHoldingRegister | H_WriteMultipleHoldingRegister
  | H_WriteHoldingRegister | H_ReadWriteMultipleHoldingRegister | H_ReadCoils | H_WriteCoil
  | H_WriteMultipleCoils | H_ReadDiscreteInputs | H_User nat

text \<open>
  The statics of \<^verbatim>\<open>mb.c\<close>. \<open>transport\<close> tells where the frame function pointers point;
  \<^verbatim>\<open>ucMBFrame\<close> is a pointer into \<^verbatim>\<open>ucRTUBuf\<close>, so an index, or NULL.
\<close>

record mb_slave = mb_rtu +
  ucMBAddress :: UCHAR
  eMBCurrentMode :: eMBMode
  eMBState :: eMBState
  transport :: "eMBMode option"
  xFuncHandlers :: "(UCHAR \<times> handler option) list"
  ucMBFrame :: "nat option"
  ucRcvAddress :: UCHAR
  ucFunctionCode :: UCHAR
  usLength :: USHORT
  eException :: eMBException
  sregs :: slave_regs
  sid :: slave_id

definition func_handlers_init :: "(UCHAR \<times> handler option) list" where
  "func_handlers_init =
    [(MB_FUNC_OTHER_REPORT_SLAVEID, Some H_ReportSlaveID),
     (MB_FUNC_READ_INPUT_REGISTER, Some H_ReadInputRegister),
     (MB_FUNC_READ_HOLDING_REGISTER, Some H_ReadHoldingRegister),
     (MB_FUNC_WRITE_MULTIPLE_REGISTERS, Some H_WriteMultipleHoldingRegister),
     (MB_FUNC_WRITE_REGISTER, Some H_WriteHoldingRegister),
     (MB_FUNC_READWRITE_MULTIPLE_REGISTERS, Some H_ReadWriteMultipleHoldingRegister),
     (MB_FUNC_READ_COILS, Some H_ReadCoils),
     (MB_FUNC_WRITE_SINGLE_COIL, Some H_WriteCoil),
     (MB_FUNC_WRITE_MULTIPLE_COILS, Some H_WriteMultipleCoils),
     (MB_FUNC_READ_DISCRETE_INPUTS, Some H_ReadDiscreteInputs)] @ replicate 6 (0, None)"

section \<open>Starting and stopping\<close>

definition eMBInit ::
  "bool \<Rightarrow> eMBMode \<Rightarrow> UCHAR \<Rightarrow> UCHAR \<Rightarrow> ULONG \<Rightarrow> eMBParity \<Rightarrow> mb_slave \<Rightarrow>
   (eMBErrorCode \<times> mb_slave) option" where
  "eMBInit dev_open eMode ucSlaveAddress ucPort ulBaudRate eParity s =
    (if ucSlaveAddress = MB_ADDRESS_BROADCAST \<or> ucSlaveAddress < MB_ADDRESS_MIN \<or>
        MB_ADDRESS_MAX < ucSlaveAddress
     then Some (MB_EINVAL, s)
     else do {
       let s = s\<lparr>ucMBAddress := ucSlaveAddress\<rparr>;
       (eStatus, s) \<leftarrow> (case eMode of
           MB_RTU \<Rightarrow> eMBRTUInit dev_open ucSlaveAddress ucPort ulBaudRate eParity
             (s\<lparr>transport := Some MB_RTU\<rparr>)
         | _ \<Rightarrow> Some (MB_EINVAL, s));
       if eStatus = MB_ENOERR
       then let (ok, s) = xMBPortEventInit s in
         if \<not> ok then Some (MB_EPORTERR, s)
         else Some (MB_ENOERR, s\<lparr>eMBCurrentMode := eMode, eMBState := STATE_DISABLED\<rparr>)
       else Some (eStatus, s)
     })"

fun register_handler ::
  "UCHAR \<Rightarrow> handler \<Rightarrow> (UCHAR \<times> handler option) list \<Rightarrow> (UCHAR \<times> handler option) list option" where
  "register_handler fc h [] = None"
| "register_handler fc h ((c, g) # hs) =
     (if g = None \<or> g = Some h then Some ((fc, Some h) # hs)
      else map_option (\<lambda>hs. (c, g) # hs) (register_handler fc h hs))"

fun remove_handler ::
  "UCHAR \<Rightarrow> (UCHAR \<times> handler option) list \<Rightarrow> (UCHAR \<times> handler option) list" where
  "remove_handler fc [] = []"
| "remove_handler fc ((c, g) # hs) =
     (if c = fc then (0, None) # hs else (c, g) # remove_handler fc hs)"

definition eMBRegisterCB :: "UCHAR \<Rightarrow> handler option \<Rightarrow> mb_slave \<Rightarrow> eMBErrorCode \<times> mb_slave" where
  "eMBRegisterCB fc pxHandler s =
    (if 0 < fc \<and> fc \<le> 127
     then case pxHandler of
         Some h \<Rightarrow> (case register_handler fc h (xFuncHandlers s) of
             Some hs \<Rightarrow> (MB_ENOERR, s\<lparr>xFuncHandlers := hs\<rparr>)
           | None \<Rightarrow> (MB_ENORES, s))
       | None \<Rightarrow> (MB_ENOERR, s\<lparr>xFuncHandlers := remove_handler fc (xFuncHandlers s)\<rparr>)
     else (MB_EINVAL, s))"

definition eMBClose :: "mb_slave \<Rightarrow> eMBErrorCode" where
  "eMBClose s = (if eMBState s = STATE_DISABLED then MB_ENOERR else MB_EILLSTATE)"

definition eMBEnable :: "mb_slave \<Rightarrow> (eMBErrorCode \<times> mb_slave) option" where
  "eMBEnable s =
    (if eMBState s = STATE_DISABLED
     then do {
       _ \<leftarrow> transport s;
       s \<leftarrow> eMBRTUStart s;
       Some (MB_ENOERR, s\<lparr>eMBState := STATE_ENABLED\<rparr>)
     }
     else Some (MB_EILLSTATE, s))"

definition eMBDisable :: "mb_slave \<Rightarrow> (eMBErrorCode \<times> mb_slave) option" where
  "eMBDisable s =
    (if eMBState s = STATE_ENABLED
     then do {
       _ \<leftarrow> transport s;
       s \<leftarrow> eMBRTUStop s;
       Some (MB_ENOERR, s\<lparr>eMBState := STATE_DISABLED\<rparr>)
     }
     else if eMBState s = STATE_DISABLED then Some (MB_ENOERR, s)
     else Some (MB_EILLSTATE, s))"

section \<open>Dispatch\<close>

type_synonym user_handlers =
  "nat \<Rightarrow> slave_regs \<Rightarrow> slave_id \<Rightarrow> UCHAR list \<Rightarrow> USHORT \<Rightarrow>
   (eMBException \<times> UCHAR list \<times> USHORT \<times> slave_regs \<times> slave_id) option"

definition with_id ::
  "slave_id \<Rightarrow> slave_regs fn_result \<Rightarrow>
   (eMBException \<times> UCHAR list \<times> USHORT \<times> slave_regs \<times> slave_id) option" where
  "with_id i r = map_option (\<lambda>(e, fr, n, s). (e, fr, n, s, i)) r"

definition call_handler ::
  "user_handlers \<Rightarrow> handler \<Rightarrow> slave_regs \<Rightarrow> slave_id \<Rightarrow> UCHAR list \<Rightarrow> USHORT \<Rightarrow>
   (eMBException \<times> UCHAR list \<times> USHORT \<times> slave_regs \<times> slave_id) option" where
  "call_handler user h r i fr n = (case h of
     H_ReportSlaveID \<Rightarrow> map_option (\<lambda>(e, fr, n). (e, fr, n, r, i)) (eMBFuncReportSlaveID i fr)
   | H_ReadInputRegister \<Rightarrow> with_id i (eMBFuncReadInputRegister eMBRegInputCB r fr n)
   | H_ReadHoldingRegister \<Rightarrow> with_id i (eMBFuncReadHoldingRegister eMBRegHoldingCB r fr n)
   | H_WriteMultipleHoldingRegister \<Rightarrow>
       with_id i (eMBFuncWriteMultipleHoldingRegister eMBRegHoldingCB r fr n)
   | H_WriteHoldingRegister \<Rightarrow> with_id i (eMBFuncWriteHoldingRegister eMBRegHoldingCB r fr n)
   | H_ReadWriteMultipleHoldingRegister \<Rightarrow>
       with_id i (eMBFuncReadWriteMultipleHoldingRegister eMBRegHoldingCB r fr n)
   | H_ReadCoils \<Rightarrow> with_id i (eMBFuncReadCoils eMBRegCoilsCB r fr n)
   | H_WriteCoil \<Rightarrow> with_id i (eMBFuncWriteCoil eMBRegCoilsCB r fr n)
   | H_WriteMultipleCoils \<Rightarrow> with_id i (eMBFuncWriteMultipleCoils eMBRegCoilsCB r fr n)
   | H_ReadDiscreteInputs \<Rightarrow> with_id i (eMBFuncReadDiscreteInputs eMBRegDiscreteCB r fr n)
   | H_User k \<Rightarrow> user k r i fr n)"

text \<open>
  The search of \<^verbatim>\<open>eMBPoll\<close>: it stops at the first entry with function code 0. The
  result is the pointer of the matching entry, if there is one.
\<close>

fun find_handler :: "UCHAR \<Rightarrow> (UCHAR \<times> handler option) list \<Rightarrow> handler option option" where
  "find_handler fc [] = None"
| "find_handler fc ((c, g) # hs) =
     (if c = 0 then None else if c = fc then Some g else find_handler fc hs)"

datatype poll_result = Poll_Done eMBErrorCode | Poll_Wait tid

definition poll_received :: "mb_slave \<Rightarrow> mb_slave option" where
  "poll_received s = do {
     (eStatus, out) \<leftarrow> eMBRTUReceive s;
     case out of
       None \<Rightarrow> Some s
     | Some (a, f, n) \<Rightarrow> do {
         let s = s\<lparr>ucRcvAddress := a, ucMBFrame := Some f, usLength := n\<rparr>;
         if ucRcvAddress s = ucMBAddress s \<or> ucRcvAddress s = MB_ADDRESS_BROADCAST
         then do { (_, s) \<leftarrow> xMBPortEventPost EV_EXECUTE s; Some s }
         else Some s
       }
   }"

text \<open>
  The handler loop on a PDU \<open>fr\<close> of \<open>n\<close> bytes, with \<^verbatim>\<open>eException\<close> preset to
  \<^verbatim>\<open>MB_EX_ILLEGAL_FUNCTION\<close>: exception, PDU and length afterwards, and the registers.
\<close>

definition handled ::
  "user_handlers \<Rightarrow> mb_slave \<Rightarrow> UCHAR list \<Rightarrow> USHORT \<Rightarrow>
   (eMBException \<times> UCHAR list \<times> USHORT \<times> slave_regs \<times> slave_id) option" where
  "handled user s fr n = do {
     fc \<leftarrow> rd fr 0;
     case find_handler fc (xFuncHandlers s) of
       None \<Rightarrow> Some (MB_EX_ILLEGAL_FUNCTION, fr, n, sregs s, sid s)
     | Some None \<Rightarrow> None
     | Some (Some h) \<Rightarrow> call_handler user h (sregs s) (sid s) fr n
   }"

definition poll_execute :: "user_handlers \<Rightarrow> mb_slave \<Rightarrow> mb_slave option" where
  "poll_execute user s = do {
     f \<leftarrow> ucMBFrame s;
     fc \<leftarrow> rd (ucRTUBuf s) f;
     (e, fr, n, r, i) \<leftarrow> handled user s (drop f (ucRTUBuf s)) (usLength s);
     let s = s\<lparr>ucFunctionCode := fc, eException := e, ucRTUBuf := take f (ucRTUBuf s) @ fr,
               usLength := n, sregs := r, sid := i\<rparr>;
     if ucRcvAddress s \<noteq> MB_ADDRESS_BROADCAST
     then do {
       s \<leftarrow> (if eException s \<noteq> MB_EX_NONE
            then do {
              buf \<leftarrow> wr (ucRTUBuf s) f (ucFunctionCode s OR MB_FUNC_ERROR);
              buf \<leftarrow> wr buf (f + 1) (eException s);
              Some (s\<lparr>ucRTUBuf := buf, usLength := 2\<rparr>)
            }
            else Some s);
       (_, s) \<leftarrow> eMBRTUSend (ucMBAddress s) f (usLength s) s;
       Some s
     }
     else Some s
   }"

definition eMBPoll :: "user_handlers \<Rightarrow> mb_slave \<Rightarrow> (poll_result \<times> mb_slave) option" where
  "eMBPoll user s =
    (if eMBState s \<noteq> STATE_ENABLED then Some (Poll_Done MB_EILLSTATE, s)
     else do {
       (ev, s) \<leftarrow> xMBPortEventGet s;
       case ev of
         Event_Wait t \<Rightarrow> Some (Poll_Wait t, s)
       | Event_Got None \<Rightarrow> None
       | Event_Got (Some eEvent) \<Rightarrow> do {
           s \<leftarrow> (case eEvent of
               EV_READY \<Rightarrow> Some s
             | EV_FRAME_RECEIVED \<Rightarrow> poll_received s
             | EV_EXECUTE \<Rightarrow> poll_execute user s
             | EV_FRAME_SENT \<Rightarrow> Some s);
           Some (Poll_Done MB_ENOERR, s)
         }
     })"

section \<open>One request on the line\<close>

text \<open>The stack is enabled, the bus is silent and no event is pending.\<close>

definition slave_ready :: "mb_slave \<Rightarrow> bool" where
  "slave_ready s \<longleftrightarrow> eMBState s = STATE_ENABLED \<and> port_calm s \<and> rtu_listens s \<and>
     eRcvState s = STATE_RX_IDLE \<and> ev_set (os_event s) = 0"

lemma find_handler_empty [simp]: "find_handler fc (replicate n (0, g)) = None"
  by (cases n) simp_all

lemma xMBPortEventGet_one:
  assumes "port_calm s" "ev_set (os_event s) = ev_code e"
  shows "\<exists>k. xMBPortEventGet s = Some (Event_Got (Some e),
      s\<lparr>os_event := (os_event s)\<lparr>ev_set := 0\<rparr>, kern := k\<rparr>) \<and>
    rt_current_thread k = rt_current_thread (kern s) \<and> rt_interrupt_nest k = rt_interrupt_nest (kern s)"
proof -
  obtain t where t: "rt_current_thread (kern s) = Some t" "rt_interrupt_nest (kern s) = 0"
    using assms(1) by (auto simp: port_calm_def)
  have "ev_code e AND (1 OR 2 OR 4 OR 8) = ev_code e" "ev_code e AND NOT (1 OR 2 OR 4 OR 8) = 0"
    "ev_decode (ev_code e) = Some e"
    by (cases e; simp add: ev_code_def ev_decode_def)+
  then show ?thesis
    using rt_event_recv_ready [OF t, of "os_event s" "1 OR 2 OR 4 OR 8" RT_WAITING_FOREVER] assms(2) t
    by (auto simp: xMBPortEventGet_def set_error_def)
qed

text \<open>Several flags at once match no case of the switch, and they are gone from the event.\<close>

lemma xMBPortEventGet_several:
  assumes "port_calm s" "ev_set (os_event s) = ev_code e OR ev_code e'" "e \<noteq> e'"
  shows "\<exists>s'. xMBPortEventGet s = Some (Event_Got None, s') \<and> ev_set (os_event s') = 0"
proof -
  obtain t where t: "rt_current_thread (kern s) = Some t" "rt_interrupt_nest (kern s) = 0"
    using assms(1) by (auto simp: port_calm_def)
  let ?f = "ev_code e OR ev_code e'"
  have f: "?f AND (1 OR 2 OR 4 OR 8) = ?f" "?f AND NOT (1 OR 2 OR 4 OR 8) = 0" "?f \<noteq> 0"
    "ev_decode ?f = None"
    using assms(3) by (cases e; cases e'; simp add: ev_code_def ev_decode_def)+
  then show ?thesis
    using rt_event_recv_ready [OF t, of "os_event s" "1 OR 2 OR 4 OR 8" RT_WAITING_FOREVER] assms(2) t
    by (simp add: xMBPortEventGet_def)
qed

text \<open>
  The state after a frame for this slave has been received and polled: the event that
  makes the stack execute it is pending.
\<close>

definition slave_got :: "mb_slave \<Rightarrow> UCHAR \<Rightarrow> UCHAR list \<Rightarrow> mb_slave \<Rightarrow> bool" where
  "slave_got s a pdu s' \<longleftrightarrow> eMBState s' = STATE_ENABLED \<and> port_calm s' \<and> rtu_listens s' \<and>
     eRcvState s' = STATE_RX_IDLE \<and> ev_set (os_event s') = ev_code EV_EXECUTE \<and>
     ucMBFrame s' = Some 1 \<and> ucRcvAddress s' = a \<and> usLength s' = of_nat (length pdu) \<and>
     ucRTUBuf s' = blit (ucRTUBuf s) 0 (rtu_frame a pdu) \<and> tx_line s' = tx_line s \<and>
     sregs s' = sregs s \<and> sid s' = sid s \<and> xFuncHandlers s' = xFuncHandlers s \<and>
     ucMBAddress s' = ucMBAddress s"

lemma slave_burst_ready:
  assumes ready: "slave_ready s" and bs: "bs \<noteq> []" "length bs \<le> 256"
  shows "\<exists>s1. rtu_burst bs s = Some s1 \<and> s1 = s\<lparr>ucRTUBuf := blit (ucRTUBuf s) 0 bs,
      usRcvBufferPos := of_nat (length bs), timer_on := False,
      os_event := (os_event s)\<lparr>ev_set := ev_code EV_FRAME_RECEIVED\<rparr>\<rparr> \<and>
    port_calm s1 \<and> rtu_listens s1 \<and>
    eMBRTUReceive s1 = Some (if 4 \<le> length bs \<and> usMBCRC16 bs = 0
      then (MB_ENOERR, Some (bs ! 0, 1, of_nat (length bs) - 3)) else (MB_EIO, None))"
proof -
  have R: "rtu_listens s" "eRcvState s = STATE_RX_IDLE" "suspend_thread (os_event s) = []"
    "ev_set (os_event s) = 0" "port_calm s" "length (ucRTUBuf s) = 256"
    using ready by (auto simp: slave_ready_def port_calm_def rtu_listens_def)
  let ?s1 = "s\<lparr>ucRTUBuf := blit (ucRTUBuf s) 0 bs,
      usRcvBufferPos := of_nat (length bs), timer_on := False,
      os_event := (os_event s)\<lparr>ev_set := ev_code EV_FRAME_RECEIVED\<rparr>\<rparr>"
  have "rtu_burst bs s = Some ?s1"
    using rtu_burst_frame [OF R(1-3) bs] R(4) by simp
  moreover have "take (length bs) (blit (ucRTUBuf s) 0 bs) = bs"
    using segment_blit [of 0 bs "ucRTUBuf s"] R(6) bs by simp
  then have "eMBRTUReceive ?s1 = Some (if 4 \<le> length bs \<and> usMBCRC16 bs = 0
      then (MB_ENOERR, Some (bs ! 0, 1, of_nat (length bs) - 3)) else (MB_EIO, None))"
    using bs by (intro eMBRTUReceive_frame) simp_all
  moreover have "port_calm ?s1" "rtu_listens ?s1"
    using R bs by (auto simp: port_calm_def rtu_listens_def)
  ultimately show ?thesis by blast
qed

definition slave_hears :: "user_handlers \<Rightarrow> UCHAR list \<Rightarrow> mb_slave \<Rightarrow> (poll_result \<times> mb_slave) option" where
  "slave_hears user bs s = do { s \<leftarrow> rtu_burst bs s; eMBPoll user s }"

lemma slave_hears_frame:
  assumes ready: "slave_ready s" and pdu: "1 \<le> length pdu" "length pdu \<le> 253"
    and a: "a = ucMBAddress s \<or> a = MB_ADDRESS_BROADCAST"
  shows "\<exists>s'. slave_hears user (rtu_frame a pdu) s = Some (Poll_Done MB_ENOERR, s') \<and> slave_got s a pdu s'"
proof -
  have fr: "rtu_frame a pdu \<noteq> []" "length (rtu_frame a pdu) \<le> 256" "rtu_frame a pdu ! 0 = a"
    using pdu by (auto simp: rtu_frame_def Let_def)
  obtain s1 where s1: "rtu_burst (rtu_frame a pdu) s = Some s1" "port_calm s1" "rtu_listens s1"
    "eMBRTUReceive s1 = Some (MB_ENOERR, Some (a, 1, of_nat (length pdu)))"
    and s1_eq: "s1 = s\<lparr>ucRTUBuf := blit (ucRTUBuf s) 0 (rtu_frame a pdu),
      usRcvBufferPos := of_nat (length (rtu_frame a pdu)), timer_on := False,
      os_event := (os_event s)\<lparr>ev_set := ev_code EV_FRAME_RECEIVED\<rparr>\<rparr>"
    using slave_burst_ready [OF ready fr(1,2)] fr(3) pdu by (auto simp: crc_rtu_frame)
  have ev: "ev_set (os_event s1) = ev_code EV_FRAME_RECEIVED"
    by (simp add: s1_eq)
  obtain k where k: "xMBPortEventGet s1 = Some (Event_Got (Some EV_FRAME_RECEIVED),
      s1\<lparr>os_event := (os_event s1)\<lparr>ev_set := 0\<rparr>, kern := k\<rparr>)"
    "rt_current_thread k = rt_current_thread (kern s1)" "rt_interrupt_nest k = rt_interrupt_nest (kern s1)"
    using xMBPortEventGet_one [OF s1(2) ev] by blast
  let ?s2 = "s1\<lparr>os_event := (os_event s1)\<lparr>ev_set := 0\<rparr>, kern := k\<rparr>"
  have rcv: "eMBRTUReceive ?s2 = eMBRTUReceive s1"
    by (simp add: eMBRTUReceive_def cong: if_cong)
  let ?s3 = "?s2\<lparr>ucRcvAddress := a, ucMBFrame := Some 1, usLength := of_nat (length pdu),
     os_event := (os_event s1)\<lparr>ev_set := ev_code EV_EXECUTE\<rparr>\<rparr>"
  have calm: "suspend_thread (os_event s1) = []"
    using s1(2) by (simp add: port_calm_def)
  have "poll_received ?s2 = Some ?s3"
    using s1(4) rcv a calm by (auto simp: poll_received_def s1_eq)
  moreover have en: "eMBState s1 = STATE_ENABLED"
    using ready by (simp add: slave_ready_def s1_eq)
  ultimately have "slave_hears user (rtu_frame a pdu) s = Some (Poll_Done MB_ENOERR, ?s3)"
    using s1(1) k(1) by (simp add: slave_hears_def eMBPoll_def)
  moreover have "slave_got s a pdu ?s3"
    using ready s1(2,3) k(2,3) en
    by (simp add: slave_got_def s1_eq slave_ready_def port_calm_def rtu_listens_def)
  ultimately show ?thesis by blast
qed

definition reply_pdu :: "UCHAR \<Rightarrow> eMBException \<Rightarrow> UCHAR list \<Rightarrow> USHORT \<Rightarrow> UCHAR list" where
  "reply_pdu fc e fr n = (if e = MB_EX_NONE then take (unat n) fr else [fc OR MB_FUNC_ERROR, e])"

definition slave_serves :: "user_handlers \<Rightarrow> UCHAR list \<Rightarrow> mb_slave \<Rightarrow> mb_slave option" where
  "slave_serves user bs s = do {
     (_, s) \<leftarrow> slave_hears user bs s;
     (_, s) \<leftarrow> eMBPoll user s;
     rtu_drain 300 s
   }"

lemma request_buffer:
  assumes "length pdu \<le> 253" "1 \<le> length pdu" "length buf = 256"
  shows "drop 1 (blit buf 0 (rtu_frame a pdu)) ! 0 = pdu ! 0"
    "rd (blit buf 0 (rtu_frame a pdu)) 1 = Some (pdu ! 0)"
    "take 1 (blit buf 0 (rtu_frame a pdu)) = [a]"
    "length (drop 1 (blit buf 0 (rtu_frame a pdu))) = 255"
    "take (length pdu) (drop 1 (blit buf 0 (rtu_frame a pdu))) = pdu"
  using assms by (auto simp: blit_def rtu_frame_def Let_def nth_append rd_def)

lemma slave_fields_more:
  assumes "mb_rtu.more s = mb_rtu.more (s' :: mb_slave)"
  shows "sregs s = sregs s'" "sid s = sid s'" "eMBState s = eMBState s'"
  using assms by (cases s; cases s'; simp)+

lemma slave_executes:
  assumes got: "slave_got s a pdu s1" and a: "a \<noteq> MB_ADDRESS_BROADCAST"
    and pdu: "1 \<le> length pdu" "length pdu \<le> 253" and buf: "length (ucRTUBuf s) = 256"
    and h: "handled user s (drop 1 (blit (ucRTUBuf s) 0 (rtu_frame a pdu))) (of_nat (length pdu)) =
      Some (e, fr, n, r, i)"
    and fr: "length fr = 255" and n: "unat n \<le> 253"
  shows "\<exists>s2 s3. eMBPoll user s1 = Some (Poll_Done MB_ENOERR, s2) \<and> rtu_drain 300 s2 = Some s3 \<and>
    tx_line s3 = tx_line s @ rtu_frame (ucMBAddress s) (reply_pdu (pdu ! 0) e fr n) \<and>
    sregs s3 = r \<and> sid s3 = i \<and> eSndState s3 = STATE_TX_IDLE \<and> eRcvState s3 = STATE_RX_IDLE \<and> rx_int s3"
proof -
  let ?buf = "blit (ucRTUBuf s) 0 (rtu_frame a pdu)"
  note G = got [unfolded slave_got_def]
  note B = request_buffer [OF pdu(2,1) buf, of a]
  obtain k where k: "xMBPortEventGet s1 = Some (Event_Got (Some EV_EXECUTE),
      s1\<lparr>os_event := (os_event s1)\<lparr>ev_set := 0\<rparr>, kern := k\<rparr>)"
    "rt_current_thread k = rt_current_thread (kern s1)" "rt_interrupt_nest k = rt_interrupt_nest (kern s1)"
    using xMBPortEventGet_one [of s1 EV_EXECUTE] G by blast
  define t where "t = s1\<lparr>os_event := (os_event s1)\<lparr>ev_set := 0\<rparr>, kern := k\<rparr>"
  define u where "u = t\<lparr>ucFunctionCode := pdu ! 0, eException := e, ucRTUBuf := [a] @ fr,
     usLength := n, sregs := r, sid := i\<rparr>"
  define v where "v = (if e \<noteq> MB_EX_NONE
     then u\<lparr>ucRTUBuf := a # fr[0 := pdu ! 0 OR MB_FUNC_ERROR, Suc 0 := e], usLength := 2\<rparr> else u)"
  have calm: "port_calm v" and idle: "eRcvState v = STATE_RX_IDLE" and len: "length (ucRTUBuf v) = 256"
    and vn: "unat (usLength v) + 3 \<le> 256"
    using G k(2,3) fr n by (auto simp: v_def u_def t_def port_calm_def)
  have tx: "tx_line v = tx_line s" "sregs v = r" "sid v = i" "ucMBAddress v = ucMBAddress s"
    using G by (auto simp: v_def u_def t_def)
  have pdu': "take (unat (usLength v)) (drop 1 (ucRTUBuf v)) = reply_pdu (pdu ! 0) e fr n"
  proof (cases "e = MB_EX_NONE")
    case False
    obtain x y z where "fr = x # y # z"
      using fr by (cases fr; cases "tl fr") auto
    then show ?thesis using False by (simp add: v_def reply_pdu_def)
  qed (simp add: v_def u_def reply_pdu_def)
  obtain s2 s3 where S: "eMBRTUSend (ucMBAddress s) 1 (usLength v) v = Some (MB_ENOERR, s2)"
    "rtu_drain 300 s2 = Some s3"
    "tx_line s3 = tx_line v @ rtu_frame (ucMBAddress s) (take (unat (usLength v)) (drop 1 (ucRTUBuf v)))"
    "eSndState s3 = STATE_TX_IDLE" "eRcvState s3 = STATE_RX_IDLE" "rx_int s3"
    "mb_rtu.more s3 = mb_rtu.more v"
    using rtu_send_drain [OF calm idle len vn, of 300 "ucMBAddress s"] vn by auto
  have t: "ucMBFrame t = Some 1" "ucRTUBuf t = ?buf" "usLength t = of_nat (length pdu)"
    "ucRcvAddress t = a" "ucMBAddress t = ucMBAddress s"
    using G by (simp_all add: t_def)
  have "handled user t = handled user s"
    using G by (intro ext) (simp add: handled_def t_def cong: option.case_cong)
  then have run: "poll_execute user t = do { (_, s) \<leftarrow> eMBRTUSend (ucMBAddress s) 1 (usLength v) v; Some s }"
    using t B a fr h by (simp add: poll_execute_def v_def u_def split_def)
  have "eMBPoll user s1 = Some (Poll_Done MB_ENOERR, s2)"
    using run S(1) k(1) G by (simp add: eMBPoll_def t_def [symmetric])
  then show ?thesis
    using S slave_fields_more [OF S(7)] tx pdu' by auto
qed

text \<open>A request for this slave is executed and answered on the line.\<close>

lemma slave_serves_reply:
  assumes ready: "slave_ready s" and a: "a = ucMBAddress s" "a \<noteq> MB_ADDRESS_BROADCAST"
    and pdu: "1 \<le> length pdu" "length pdu \<le> 253"
    and h: "handled user s (drop 1 (blit (ucRTUBuf s) 0 (rtu_frame a pdu))) (of_nat (length pdu)) =
      Some (e, fr, n, r, i)"
    and fr: "length fr = 255" and n: "unat n \<le> 253"
  shows "\<exists>s'. slave_serves user (rtu_frame a pdu) s = Some s' \<and>
    tx_line s' = tx_line s @ rtu_frame a (reply_pdu (pdu ! 0) e fr n) \<and> sregs s' = r \<and> sid s' = i \<and>
    eSndState s' = STATE_TX_IDLE \<and> eRcvState s' = STATE_RX_IDLE \<and> rx_int s'"
proof -
  have buf: "length (ucRTUBuf s) = 256"
    using ready by (simp add: slave_ready_def rtu_listens_def)
  obtain s1 where s1: "slave_hears user (rtu_frame a pdu) s = Some (Poll_Done MB_ENOERR, s1)"
    "slave_got s a pdu s1"
    using slave_hears_frame [OF ready pdu] a by blast
  show ?thesis
    using slave_executes [OF s1(2) a(2) pdu buf h fr n] s1(1) a(1)
    by (auto simp: slave_serves_def)
qed

text \<open>A broadcast is executed without an answer.\<close>

lemma slave_broadcast_executes:
  assumes ready: "slave_ready s" and pdu: "1 \<le> length pdu" "length pdu \<le> 253"
    and h: "handled user s (drop 1 (blit (ucRTUBuf s) 0 (rtu_frame 0 pdu))) (of_nat (length pdu)) =
      Some (e, fr, n, r, i)"
  shows "\<exists>s1 s2. slave_hears user (rtu_frame 0 pdu) s = Some (Poll_Done MB_ENOERR, s1) \<and>
    eMBPoll user s1 = Some (Poll_Done MB_ENOERR, s2) \<and> tx_line s2 = tx_line s \<and>
    sregs s2 = r \<and> sid s2 = i \<and> eSndState s2 = STATE_TX_IDLE"
proof -
  have buf: "length (ucRTUBuf s) = 256"
    using ready by (simp add: slave_ready_def rtu_listens_def)
  obtain s1 where s1: "slave_hears user (rtu_frame 0 pdu) s = Some (Poll_Done MB_ENOERR, s1)"
    "slave_got s 0 pdu s1"
    using slave_hears_frame [OF ready pdu] by blast
  note G = s1(2) [unfolded slave_got_def]
  note B = request_buffer [OF pdu(2,1) buf, of 0]
  obtain k where k: "xMBPortEventGet s1 = Some (Event_Got (Some EV_EXECUTE),
      s1\<lparr>os_event := (os_event s1)\<lparr>ev_set := 0\<rparr>, kern := k\<rparr>)"
    using xMBPortEventGet_one [of s1 EV_EXECUTE] G by blast
  define t where "t = s1\<lparr>os_event := (os_event s1)\<lparr>ev_set := 0\<rparr>, kern := k\<rparr>"
  have t: "ucMBFrame t = Some 1" "ucRTUBuf t = blit (ucRTUBuf s) 0 (rtu_frame 0 pdu)"
    "usLength t = of_nat (length pdu)" "ucRcvAddress t = 0"
    using G by (simp_all add: t_def)
  have "handled user t = handled user s"
    using G by (intro ext) (simp add: handled_def t_def cong: option.case_cong)
  then have "poll_execute user t = Some (t\<lparr>ucFunctionCode := pdu ! 0, eException := e,
      ucRTUBuf := [0] @ fr, usLength := n, sregs := r, sid := i\<rparr>)"
    using t B h by (simp add: poll_execute_def)
  then have "\<exists>s2. eMBPoll user s1 = Some (Poll_Done MB_ENOERR, s2) \<and> tx_line s2 = tx_line s \<and>
      sregs s2 = r \<and> sid s2 = i \<and> eSndState s2 = STATE_TX_IDLE"
    using k G by (simp add: eMBPoll_def t_def [symmetric]) (simp add: t_def rtu_listens_def)
  then show ?thesis
    using s1(1) by blast
qed

text \<open>Anything else on the line is dropped, and the slave stays ready.\<close>

definition slave_untouched :: "mb_slave \<Rightarrow> mb_slave \<Rightarrow> bool" where
  "slave_untouched s s' \<longleftrightarrow> slave_ready s' \<and> tx_line s' = tx_line s \<and> sregs s' = sregs s \<and>
     sid s' = sid s \<and> xFuncHandlers s' = xFuncHandlers s \<and> ucMBAddress s' = ucMBAddress s"

lemma slave_hears_drop:
  assumes ready: "slave_ready s" and bs: "bs \<noteq> []" "length bs \<le> 256"
    and bad: "length bs < 4 \<or> usMBCRC16 bs \<noteq> 0 \<or> (bs ! 0 \<noteq> ucMBAddress s \<and> bs ! 0 \<noteq> MB_ADDRESS_BROADCAST)"
  shows "\<exists>s'. slave_hears user bs s = Some (Poll_Done MB_ENOERR, s') \<and> slave_untouched s s'"
proof -
  obtain s1 where s1: "rtu_burst bs s = Some s1" "port_calm s1" "rtu_listens s1"
    "eMBRTUReceive s1 = Some (if 4 \<le> length bs \<and> usMBCRC16 bs = 0
      then (MB_ENOERR, Some (bs ! 0, 1, of_nat (length bs) - 3)) else (MB_EIO, None))"
    and s1_eq: "s1 = s\<lparr>ucRTUBuf := blit (ucRTUBuf s) 0 bs,
      usRcvBufferPos := of_nat (length bs), timer_on := False,
      os_event := (os_event s)\<lparr>ev_set := ev_code EV_FRAME_RECEIVED\<rparr>\<rparr>"
    using slave_burst_ready [OF ready bs] by auto
  have ev: "ev_set (os_event s1) = ev_code EV_FRAME_RECEIVED"
    by (simp add: s1_eq)
  obtain k where k: "xMBPortEventGet s1 = Some (Event_Got (Some EV_FRAME_RECEIVED),
      s1\<lparr>os_event := (os_event s1)\<lparr>ev_set := 0\<rparr>, kern := k\<rparr>)"
    "rt_current_thread k = rt_current_thread (kern s1)" "rt_interrupt_nest k = rt_interrupt_nest (kern s1)"
    using xMBPortEventGet_one [OF s1(2) ev] by blast
  define s2 where "s2 = s1\<lparr>os_event := (os_event s1)\<lparr>ev_set := 0\<rparr>, kern := k\<rparr>"
  have rcv: "eMBRTUReceive s2 = eMBRTUReceive s1"
    by (simp add: eMBRTUReceive_def s2_def cong: if_cong)
  have un: "slave_untouched s s2"
    using ready s1(2,3) k(2,3)
    by (simp add: slave_untouched_def s2_def s1_eq slave_ready_def port_calm_def rtu_listens_def)
  have addr: "ucMBAddress s2 = ucMBAddress s"
    by (simp add: s2_def s1_eq)
  have en: "eMBState s1 = STATE_ENABLED"
    using ready by (simp add: slave_ready_def s1_eq)
  have "\<exists>s3. poll_received s2 = Some s3 \<and> slave_untouched s s3"
  proof (cases "4 \<le> length bs \<and> usMBCRC16 bs = 0")
    case True
    then have "poll_received s2 = Some (s2\<lparr>ucRcvAddress := bs ! 0, ucMBFrame := Some 1,
        usLength := of_nat (length bs) - 3\<rparr>)"
      using s1(4) rcv bad addr by (simp add: poll_received_def)
    then show ?thesis
      using un by (simp add: slave_untouched_def slave_ready_def port_calm_def rtu_listens_def)
  next
    case False
    then show ?thesis
      using s1(4) rcv un by (auto simp: poll_received_def)
  qed
  then show ?thesis
    using s1(1) k(1) en by (auto simp: slave_hears_def eMBPoll_def s2_def)
qed

lemma slave_hears_overlong:
  assumes ready: "slave_ready s" and long: "256 < length bs"
  shows "\<exists>s'. rtu_burst bs s = Some s' \<and> slave_untouched s s'"
proof -
  obtain buf where "rtu_burst bs s = Some (s\<lparr>ucRTUBuf := buf, usRcvBufferPos := 256, timer_on := False,
      eRcvState := STATE_RX_IDLE\<rparr>)" "length buf = 256"
    using rtu_burst_overflow [of s bs] ready long by (auto simp: slave_ready_def)
  then show ?thesis
    using ready by (auto simp: slave_untouched_def slave_ready_def port_calm_def rtu_listens_def)
qed

section \<open>Coming up\<close>

lemma slave_boot:
  assumes st: "eMBState s = STATE_DISABLED" "transport s = Some MB_RTU"
    and port: "port_calm s" "eSndState s = STATE_TX_IDLE" "rx_fifo s = []" "length (ucRTUBuf s) = 256"
    and ev: "ev_set (os_event s) = 0"
  shows "\<exists>s1 s2. eMBEnable s = Some (MB_ENOERR, s1) \<and>
    slave_hears user noise s1 = Some (Poll_Done MB_ENOERR, s2) \<and> slave_ready s2 \<and>
    tx_line s2 = tx_line s \<and> sregs s2 = sregs s"
proof -
  let ?s0 = "s\<lparr>eRcvState := STATE_RX_INIT\<rparr>"
  have "port_calm ?s0"
    using port by (simp add: port_calm_def)
  from vMBPortSerialEnable_rx [OF this, of True] obtain k where
    k: "vMBPortSerialEnable True False ?s0 = Some (?s0\<lparr>rx_int := True,
      event_serial := (event_serial s)\<lparr>ev_set := ev_set (event_serial s) AND NOT 1\<rparr>, kern := k\<rparr>)"
    "rt_current_thread k = rt_current_thread (kern s)" "rt_interrupt_nest k = rt_interrupt_nest (kern s)"
    by auto
  define s1 where "s1 = ?s0\<lparr>rx_int := True,
      event_serial := (event_serial s)\<lparr>ev_set := ev_set (event_serial s) AND NOT 1\<rparr>, kern := k,
      timer_on := True, eMBState := STATE_ENABLED\<rparr>"
  have en: "eMBEnable s = Some (MB_ENOERR, s1)"
    using st k(1) by (simp add: eMBEnable_def eMBRTUStart_def vMBPortTimersEnable_def s1_def)
  have s1: "rtu_listens s1" "eRcvState s1 = STATE_RX_INIT" "suspend_thread (os_event s1) = []"
    "port_calm s1" "ev_set (os_event s1) = 0"
    using port k ev by (auto simp: s1_def rtu_listens_def port_calm_def)
  define s2 where "s2 = s1\<lparr>eRcvState := STATE_RX_IDLE, timer_on := False,
    os_event := (os_event s1)\<lparr>ev_set := ev_code EV_READY\<rparr>\<rparr>"
  have burst: "rtu_burst noise s1 = Some s2"
    using rtu_burst_init [OF s1(1-3), of noise] s1(5) by (simp add: s2_def)
  have s2: "port_calm s2" "ev_set (os_event s2) = ev_code EV_READY"
    using s1(4) by (simp_all add: s2_def port_calm_def)
  obtain k2 where k2: "xMBPortEventGet s2 = Some (Event_Got (Some EV_READY),
      s2\<lparr>os_event := (os_event s2)\<lparr>ev_set := 0\<rparr>, kern := k2\<rparr>)"
    "rt_current_thread k2 = rt_current_thread (kern s2)" "rt_interrupt_nest k2 = rt_interrupt_nest (kern s2)"
    using xMBPortEventGet_one [OF s2] by blast
  define s3 where "s3 = s2\<lparr>os_event := (os_event s2)\<lparr>ev_set := 0\<rparr>, kern := k2\<rparr>"
  have ena: "eMBState s2 = STATE_ENABLED"
    by (simp add: s2_def s1_def)
  have "slave_hears user noise s1 = Some (Poll_Done MB_ENOERR, s3)"
    using burst k2(1) ena by (simp add: slave_hears_def eMBPoll_def s3_def)
  moreover have "slave_ready s3"
    using s1 s2(1) k2(2,3) ena
    by (simp add: slave_ready_def s3_def s2_def port_calm_def rtu_listens_def)
  moreover have "tx_line s3 = tx_line s" "sregs s3 = sregs s"
    by (simp_all add: s3_def s2_def s1_def)
  ultimately show ?thesis
    using en by blast
qed

section \<open>Requests for the holding registers\<close>

definition read_holding_req :: "USHORT \<Rightarrow> USHORT \<Rightarrow> UCHAR list" where
  "read_holding_req a n = [MB_FUNC_READ_HOLDING_REGISTER, hi8 a, lo8 a, hi8 n, lo8 n]"

definition write_multiple_req :: "USHORT \<Rightarrow> USHORT list \<Rightarrow> UCHAR list" where
  "write_multiple_req a vs = (let n = of_nat (length vs) in
     [MB_FUNC_WRITE_MULTIPLE_REGISTERS, hi8 a, lo8 a, hi8 n, lo8 n, ucast (2 * n)] @ regs_bytes vs)"

definition write_single_req :: "USHORT \<Rightarrow> USHORT \<Rightarrow> UCHAR list" where
  "write_single_req a v = [MB_FUNC_WRITE_REGISTER, hi8 a, lo8 a, hi8 v, lo8 v]"

lemma request_segment:
  assumes "length pdu \<le> 253" "length buf = 256"
  shows "\<exists>rest. drop 1 (blit buf 0 (rtu_frame a pdu)) = pdu @ rest \<and> length (pdu @ rest) = 255"
  using assms by (auto simp: blit_def rtu_frame_def Let_def)

text \<open>
  Serving a request reduces to what the handler makes of the PDU in the buffer,
  whatever bytes follow it there.
\<close>

lemma slave_serves_pdu:
  assumes ready: "slave_ready s" and addr: "ucMBAddress s \<noteq> 0"
    and pdu: "1 \<le> length pdu" "length pdu \<le> 253"
    and h: "\<And>rest. length (pdu @ rest) = 255 \<Longrightarrow>
      \<exists>fr n. handled user s (pdu @ rest) (of_nat (length pdu)) = Some (e, fr, n, r, sid s) \<and>
        length fr = 255 \<and> unat n \<le> 253 \<and> reply_pdu (pdu ! 0) e fr n = resp"
  shows "\<exists>s'. slave_serves user (rtu_frame (ucMBAddress s) pdu) s = Some s' \<and>
    tx_line s' = tx_line s @ rtu_frame (ucMBAddress s) resp \<and> sregs s' = r \<and>
    eSndState s' = STATE_TX_IDLE \<and> eRcvState s' = STATE_RX_IDLE \<and> rx_int s'"
proof -
  have buf: "length (ucRTUBuf s) = 256"
    using ready by (simp add: slave_ready_def rtu_listens_def)
  obtain rest where rest: "drop 1 (blit (ucRTUBuf s) 0 (rtu_frame (ucMBAddress s) pdu)) = pdu @ rest"
    "length (pdu @ rest) = 255"
    using request_segment [OF pdu(2) buf] by blast
  obtain fr n where H: "handled user s (pdu @ rest) (of_nat (length pdu)) = Some (e, fr, n, r, sid s)"
    "length fr = 255" "unat n \<le> 253" "reply_pdu (pdu ! 0) e fr n = resp"
    using h [OF rest(2)] by blast
  show ?thesis
    using slave_serves_reply [OF ready refl addr pdu H(1) [folded rest(1)] H(2,3)] H(4) by auto
qed

text \<open>The response written over the request in the buffer is what goes out.\<close>

lemma reply_blit:
  assumes "length resp \<le> length fr" "unat n = length resp"
  shows "reply_pdu fc MB_EX_NONE (blit fr 0 resp) n = resp" "length (blit fr 0 resp) = length fr"
  using assms segment_blit [of 0 resp fr] by (simp_all add: reply_pdu_def)

lemmas table_eval = func_handlers_init_def func_defs rd_def call_handler_def with_id_def handled_def

lemma slave_serves_read_holding:
  assumes ready: "slave_ready s" and addr: "ucMBAddress s \<noteq> 0"
    and tab: "xFuncHandlers s = func_handlers_init" and wf: "wf_slave (sregs s)"
    and n: "1 \<le> unat n" "unat a + unat n \<le> 100"
  shows "\<exists>s'. slave_serves user (rtu_frame (ucMBAddress s) (read_holding_req a n)) s = Some s' \<and>
    tx_line s' = tx_line s @ rtu_frame (ucMBAddress s) (MB_FUNC_READ_HOLDING_REGISTER #
      ucast (n * 2) # regs_bytes (take (unat n) (drop (unat a) (usSRegHoldBuf (sregs s))))) \<and>
    sregs s' = sregs s \<and>
    eSndState s' = STATE_TX_IDLE \<and> eRcvState s' = STATE_RX_IDLE \<and> rx_int s'"
proof (rule slave_serves_pdu [OF ready addr])
  let ?pdu = "read_holding_req a n"
  let ?resp = "MB_FUNC_READ_HOLDING_REGISTER # ucast (n * 2) #
    regs_bytes (take (unat n) (drop (unat a) (usSRegHoldBuf (sregs s))))"
  have len: "length ?pdu = 5" by (simp add: read_holding_req_def)
  then show "1 \<le> length ?pdu" "length ?pdu \<le> 253" by simp_all
  fix rest
  assume fr: "length (?pdu @ rest) = 255"
  have req: "req_addr (?pdu @ rest) = a" "req_count (?pdu @ rest) = n"
    by (simp_all add: req_addr_def req_count_def read_holding_req_def)
  have len_resp: "length ?resp = 2 + 2 * unat n"
    using n wf by (simp add: wf_slave_def)
  have "eMBFuncReadHoldingRegister eMBRegHoldingCB (sregs s) (?pdu @ rest) 5 =
      Some (MB_EX_NONE, blit (?pdu @ rest) 0 ?resp, 2 + n * 2, sregs s)"
    using slave_holding.read_holding_ok [OF wf, of "?pdu @ rest"] req n fr wf by (simp add: wf_slave_def)
  then have "handled user s (?pdu @ rest) (of_nat (length ?pdu)) =
      Some (MB_EX_NONE, blit (?pdu @ rest) 0 ?resp, 2 + n * 2, sregs s, sid s)"
    unfolding len by (simp add: table_eval read_holding_req_def tab)
  moreover have "unat (2 + n * 2) = length ?resp"
    using count_bytes(2) [of n] n len_resp by simp
  ultimately show "\<exists>fr k. handled user s (?pdu @ rest) (of_nat (length ?pdu)) =
        Some (MB_EX_NONE, fr, k, sregs s, sid s) \<and>
      length fr = 255 \<and> unat k \<le> 253 \<and> reply_pdu (?pdu ! 0) MB_EX_NONE fr k = ?resp"
    using reply_blit [of ?resp "?pdu @ rest" "2 + n * 2"] len_resp fr n
    by (intro exI [of _ "blit (?pdu @ rest) 0 ?resp"] exI [of _ "2 + n * 2"]) simp
qed

lemma take_drop_Suc3: "take k (drop 6 (a # b # c # d # e # f # xs @ ys)) = take k (xs @ ys)"
  by simp

lemma slave_serves_write_multiple:
  assumes ready: "slave_ready s" and addr: "ucMBAddress s \<noteq> 0"
    and tab: "xFuncHandlers s = func_handlers_init" and wf: "wf_slave (sregs s)"
    and n: "1 \<le> length vs" "unat a + length vs \<le> 100"
  shows "\<exists>s'. slave_serves user (rtu_frame (ucMBAddress s) (write_multiple_req a vs)) s = Some s' \<and>
    tx_line s' = tx_line s @ rtu_frame (ucMBAddress s) (take 5 (write_multiple_req a vs)) \<and>
    sregs s' = (sregs s)\<lparr>usSRegHoldBuf := blit (usSRegHoldBuf (sregs s)) (unat a) vs\<rparr> \<and>
    eSndState s' = STATE_TX_IDLE \<and> eRcvState s' = STATE_RX_IDLE \<and> rx_int s'"
proof (rule slave_serves_pdu [OF ready addr])
  let ?pdu = "write_multiple_req a vs"
  let ?n = "of_nat (length vs) :: USHORT"
  let ?r = "(sregs s)\<lparr>usSRegHoldBuf := blit (usSRegHoldBuf (sregs s)) (unat a) vs\<rparr>"
  have len: "length ?pdu = 6 + 2 * length vs" by (simp add: write_multiple_req_def Let_def)
  show "1 \<le> length ?pdu" "length ?pdu \<le> 253" using len n by simp_all
  have un: "unat ?n = length vs"
    using n by (simp add: unat_of_nat take_bit_nat_def)
  fix rest
  assume fr: "length (?pdu @ rest) = 255"
  have req: "req_addr (?pdu @ rest) = a" "req_count (?pdu @ rest) = ?n"
    "(?pdu @ rest) ! 5 = ucast (2 * ?n)" "(?pdu @ rest) ! 0 = MB_FUNC_WRITE_MULTIPLE_REGISTERS"
    by (simp_all add: req_addr_def req_count_def write_multiple_req_def Let_def)
  have data: "take (2 * length vs) (drop 6 (?pdu @ rest)) = regs_bytes vs"
    by (simp add: write_multiple_req_def Let_def)
  have big: "6 \<le> (of_nat (length ?pdu) :: USHORT)"
  proof -
    have "length ?pdu < 65536" using len n by simp
    then have "unat (of_nat (length ?pdu) :: USHORT) = length ?pdu"
      by (simp add: unat_of_nat take_bit_nat_def)
    then show ?thesis using len by (simp add: word_le_nat_alt)
  qed
  have "eMBFuncWriteMultipleHoldingRegister eMBRegHoldingCB (sregs s) (?pdu @ rest) (of_nat (length ?pdu)) =
      Some (MB_EX_NONE, ?pdu @ rest, 5, ?r)"
    using slave_holding.write_multiple_ok [OF wf, of "?pdu @ rest" "of_nat (length ?pdu)"]
      req un n fr wf big data len by (simp add: wf_slave_def)
  then have "handled user s (?pdu @ rest) (of_nat (length ?pdu)) =
      Some (MB_EX_NONE, ?pdu @ rest, 5, ?r, sid s)"
    using req(4) fr by (simp add: table_eval tab)
  then show "\<exists>fr k. handled user s (?pdu @ rest) (of_nat (length ?pdu)) =
        Some (MB_EX_NONE, fr, k, ?r, sid s) \<and>
      length fr = 255 \<and> unat k \<le> 253 \<and> reply_pdu (?pdu ! 0) MB_EX_NONE fr k = take 5 ?pdu"
    using fr len by (intro exI [of _ "?pdu @ rest"] exI [of _ 5]) (simp add: reply_pdu_def)
qed

text \<open>A request outside the register bank is refused with an exception frame.\<close>

lemma slave_serves_read_holding_range:
  assumes ready: "slave_ready s" and addr: "ucMBAddress s \<noteq> 0"
    and tab: "xFuncHandlers s = func_handlers_init" and wf: "wf_slave (sregs s)"
    and n: "1 \<le> unat n" "unat n \<le> 125" "100 < unat a + unat n"
  shows "\<exists>s'. slave_serves user (rtu_frame (ucMBAddress s) (read_holding_req a n)) s = Some s' \<and>
    tx_line s' = tx_line s @ rtu_frame (ucMBAddress s) [0x83, MB_EX_ILLEGAL_DATA_ADDRESS] \<and>
    sregs s' = sregs s \<and>
    eSndState s' = STATE_TX_IDLE \<and> eRcvState s' = STATE_RX_IDLE \<and> rx_int s'"
proof (rule slave_serves_pdu [OF ready addr])
  let ?pdu = "read_holding_req a n"
  have len: "length ?pdu = 5" by (simp add: read_holding_req_def)
  then show "1 \<le> length ?pdu" "length ?pdu \<le> 253" by simp_all
  fix rest
  assume fr: "length (?pdu @ rest) = 255"
  have req: "req_addr (?pdu @ rest) = a" "req_count (?pdu @ rest) = n"
    by (simp_all add: req_addr_def req_count_def read_holding_req_def)
  obtain fr' where f: "eMBFuncReadHoldingRegister eMBRegHoldingCB (sregs s) (?pdu @ rest) 5 =
      Some (MB_EX_ILLEGAL_DATA_ADDRESS, fr', 2, sregs s)" "length fr' = 255"
    using slave_holding.read_holding_range [OF wf, of "?pdu @ rest"] req n fr wf
    by (auto simp: wf_slave_def)
  then have "handled user s (?pdu @ rest) (of_nat (length ?pdu)) =
      Some (MB_EX_ILLEGAL_DATA_ADDRESS, fr', 2, sregs s, sid s)"
    unfolding len by (simp add: table_eval read_holding_req_def tab)
  then show "\<exists>fr k. handled user s (?pdu @ rest) (of_nat (length ?pdu)) =
        Some (MB_EX_ILLEGAL_DATA_ADDRESS, fr, k, sregs s, sid s) \<and>
      length fr = 255 \<and> unat k \<le> 253 \<and>
      reply_pdu (?pdu ! 0) MB_EX_ILLEGAL_DATA_ADDRESS fr k = [0x83, MB_EX_ILLEGAL_DATA_ADDRESS]"
    using f(2) by (intro exI [of _ fr'] exI [of _ 2])
      (simp add: reply_pdu_def exception_defs read_holding_req_def func_defs)
qed

section \<open>The handler table\<close>

text \<open>
  Removing a handler leaves an entry with function code 0 in the middle of the table,
  where the search of \<^verbatim>\<open>eMBPoll\<close> stops: the handlers behind it are lost as well.
\<close>

lemma remove_handler_hides:
  assumes "find_handler fc (pre @ (c, g) # post) = Some h" "c \<noteq> fc"
    and "\<And>x. x \<in> fst ` set pre \<Longrightarrow> x \<noteq> fc \<and> x \<noteq> c" "c \<noteq> 0"
  shows "find_handler fc (remove_handler c (pre @ (c, g) # post)) = None"
  using assms by (induction pre) (auto split: if_splits)

text \<open>Registration into a table without holes makes the function code reachable.\<close>

lemma register_handler_finds:
  assumes "register_handler fc h hs = Some hs'" "fc \<noteq> 0"
    and "\<And>c g. (c, g) \<in> set hs \<Longrightarrow> g \<noteq> None \<Longrightarrow> c \<noteq> 0 \<and> c \<noteq> fc"
  shows "find_handler fc hs' = Some (Some h)"
  using assms
proof (induction hs arbitrary: hs')
  case (Cons x hs)
  obtain c g where x: "x = (c, g)" by force
  show ?case
  proof (cases "g = None \<or> g = Some h")
    case False
    then obtain r where r: "register_handler fc h hs = Some r" "hs' = (c, g) # r"
      using Cons.prems(1) x by auto
    moreover have "c \<noteq> 0" "c \<noteq> fc"
      using Cons.prems(3) [of c g] x False by auto
    ultimately show ?thesis
      using Cons.IH [OF r(1) Cons.prems(2)] Cons.prems(3) by auto
  qed (use Cons.prems x in auto)
qed simp

end
