(* ===== verification/Rt_Sem.thy ===== *)
theory Rt_Sem
  imports Rt_Ipc
begin

text \<open>
  The counting semaphore of \<^verbatim>\<open>Kernel/ipc.c\<close>. As for events, a call that blocks is split at
  its \<^verbatim>\<open>rt_schedule\<close>; what the caller does when it runs again is
  \<open>rt_sem_take_return\<close>.
\<close>

section \<open>Operations\<close>

record rt_semaphore = rt_ipc_object +
  sem_value :: "16 word"

definition rt_sem_init :: "32 word \<Rightarrow> ipc_flag \<Rightarrow> rt_semaphore" where
  "rt_sem_init value fl = \<lparr> flag = fl, suspend_thread = [], sem_value = ucast value \<rparr>"

definition rt_sem_detach :: "rt_semaphore \<Rightarrow> kernel \<Rightarrow> (rt_err_t \<times> rt_semaphore \<times> kernel) option" where
  "rt_sem_detach sem k = do {
     (list, k) \<leftarrow> rt_ipc_list_resume_all (suspend_thread sem) k;
     Some (RT_EOK, sem\<lparr>suspend_thread := list\<rparr>, k)
   }"

datatype take_result = Take_Done rt_err_t | Take_Wait tid

definition rt_sem_take ::
  "rt_semaphore \<Rightarrow> int \<Rightarrow> kernel \<Rightarrow> (take_result \<times> rt_semaphore \<times> kernel) option" where
  "rt_sem_take sem time k =
    (if 0 < sem_value sem
     then Some (Take_Done RT_EOK, sem\<lparr>sem_value := sem_value sem - 1\<rparr>, k)
     else if time = 0 then Some (Take_Done (- RT_ETIMEOUT), sem, k)
     else do {
       thread \<leftarrow> rt_current_thread k;
       rt_assert (rt_interrupt_nest k = 0);
       let k = set_error thread RT_EOK k;
       (list, k) \<leftarrow> ipc_block (suspend_thread sem) thread (flag sem) time k;
       Some (Take_Wait thread, sem\<lparr>suspend_thread := list\<rparr>, k)
     })"

definition rt_sem_take_return :: "tid \<Rightarrow> kernel \<Rightarrow> rt_err_t" where
  "rt_sem_take_return thread k =
    (if error (threads k thread) \<noteq> RT_EOK then error (threads k thread) else RT_EOK)"

definition rt_sem_trytake ::
  "rt_semaphore \<Rightarrow> kernel \<Rightarrow> (take_result \<times> rt_semaphore \<times> kernel) option" where
  "rt_sem_trytake sem k = rt_sem_take sem 0 k"

definition rt_sem_release ::
  "rt_semaphore \<Rightarrow> kernel \<Rightarrow> (rt_err_t \<times> rt_semaphore \<times> kernel) option" where
  "rt_sem_release sem k =
    (if suspend_thread sem \<noteq> []
     then do {
       (list, k) \<leftarrow> ipc_wake (suspend_thread sem) k;
       Some (RT_EOK, sem\<lparr>suspend_thread := list\<rparr>, k)
     }
     else Some (RT_EOK, sem\<lparr>sem_value := sem_value sem + 1\<rparr>, k))"

definition rt_sem_control ::
  "rt_semaphore \<Rightarrow> int \<Rightarrow> 32 word \<Rightarrow> kernel \<Rightarrow> (rt_err_t \<times> rt_semaphore \<times> kernel) option" where
  "rt_sem_control sem cmd value k =
    (if cmd = RT_IPC_CMD_RESET
     then do {
       (list, k) \<leftarrow> rt_ipc_list_resume_all (suspend_thread sem) k;
       k \<leftarrow> rt_schedule k;
       Some (RT_EOK, sem\<lparr>suspend_thread := list, sem_value := ucast value\<rparr>, k)
     }
     else Some (- RT_ERROR, sem, k))"

section \<open>Invariant\<close>

text \<open>Threads wait only while the semaphore is used up.\<close>

definition sem_inv :: "rt_semaphore \<Rightarrow> kernel \<Rightarrow> bool" where
  "sem_inv sem k \<longleftrightarrow> sus_ok k (suspend_thread sem) \<and> (suspend_thread sem \<noteq> [] \<longrightarrow> sem_value sem = 0)"

lemma rt_sem_take_free:
  assumes "sem_inv sem k" "0 < sem_value sem"
  shows "rt_sem_take sem time k = Some (Take_Done RT_EOK, sem\<lparr>sem_value := sem_value sem - 1\<rparr>, k)"
    and "sem_inv (sem\<lparr>sem_value := sem_value sem - 1\<rparr>) k"
  using assms by (auto simp: rt_sem_take_def sem_inv_def)

lemma rt_sem_take_wait:
  assumes run: "runs t k" and sem: "sem_inv sem k" "sem_value sem = 0"
    and nest: "rt_interrupt_nest k = 0" and ready: "stat (threads k u) = RT_THREAD_READY" and time: "time \<noteq> 0"
  shows "\<exists>list k' v. rt_sem_take sem time k = Some (Take_Wait t, sem\<lparr>suspend_thread := list\<rparr>, k') \<and>
    list = sus_insert (flag sem) k t (suspend_thread sem) \<and>
    runs v k' \<and> sem_inv (sem\<lparr>suspend_thread := list\<rparr>) k' \<and> error (threads k' t) = RT_EOK \<and>
    rt_interrupt_nest k' = 0"
proof -
  let ?k0 = "set_error t RT_EOK k"
  have k0: "runs t ?k0" "stat (threads ?k0 u) = RT_THREAD_READY"
    using run ready by (auto simp: runs_def kinv_upd_thread set_error_def)
  have sus0: "sus_ok ?k0 (suspend_thread sem)"
    using sem by (auto simp: sem_inv_def sus_ok_def set_error_def)
  have "error (threads ?k0 t) = RT_EOK" "rt_interrupt_nest ?k0 = 0"
    using nest by (simp_all add: set_error_def)
  with ipc_block_ok [OF k0(1) sus0 k0(2), of "flag sem" time] show ?thesis
    using run nest sem(2) time by (auto simp: rt_sem_take_def Let_def runs_def sem_inv_def keeps_def)
qed

lemma rt_sem_release_free:
  assumes "sem_inv sem k" "suspend_thread sem = []"
  shows "rt_sem_release sem k = Some (RT_EOK, sem\<lparr>sem_value := sem_value sem + 1\<rparr>, k)"
    and "sem_inv (sem\<lparr>sem_value := sem_value sem + 1\<rparr>) k"
  using assms by (simp_all add: rt_sem_release_def sem_inv_def)

text \<open>A release with waiters hands the unit to the first of them and leaves the count at 0.\<close>

lemma rt_sem_release_hand_over:
  assumes run: "runs c k" and sem: "sem_inv sem k" "suspend_thread sem = t # list"
  shows "\<exists>k' v. rt_sem_release sem k = Some (RT_EOK, sem\<lparr>suspend_thread := list\<rparr>, k') \<and>
    runs v k' \<and> sem_inv (sem\<lparr>suspend_thread := list\<rparr>) k' \<and>
    rt_sem_take_return t k' = error (threads k t) \<and>
    (stat (threads k' t) = RT_THREAD_READY \<or> v = t)"
proof -
  have "sus_ok k (t # list)"
    using sem by (simp add: sem_inv_def)
  then obtain k' v where "ipc_wake (t # list) k = Some (list, k')" "runs v k'" "keeps {t} k k'" "sus_ok k' list"
    "stat (threads k' t) = RT_THREAD_READY \<or> v = t"
    using ipc_wake_ok [OF run] by blast
  then show ?thesis
    using sem by (intro exI [of _ k'] exI [of _ v])
      (simp add: rt_sem_release_def sem_inv_def rt_sem_take_return_def keeps_def)
qed

end
