(* ===== verification/Mb_Port_M.thy ===== *)
theory Mb_Port_M
  imports Mb_Port Rt_Sem
begin

text \<open>
  The master's port layer: \<^verbatim>\<open>portevent_m.c\<close>, \<^verbatim>\<open>porttimer_m.c\<close> and \<^verbatim>\<open>portserial_m.c\<close> under
  \<^verbatim>\<open>pck/freemodbus/port\<close>. It has an event object, a timer and a serial device of its own, of
  the same types as the slave's, and a semaphore \<^verbatim>\<open>xMasterRunRes\<close> that one request at a time
  holds. The serial functions are those of the slave with other names; the model proves
  that, so that their lemmas carry over.
\<close>

section \<open>State\<close>

datatype eMBMasterEventType =
    EV_MASTER_READY | EV_MASTER_FRAME_RECEIVED | EV_MASTER_EXECUTE | EV_MASTER_FRAME_SENT
  | EV_MASTER_ERROR_PROCESS | EV_MASTER_PROCESS_SUCESS | EV_MASTER_ERROR_RESPOND_TIMEOUT
  | EV_MASTER_ERROR_RECEIVE_DATA | EV_MASTER_ERROR_EXECUTE_FUNCTION

definition m_ev_code :: "eMBMasterEventType \<Rightarrow> 32 word" where
  "m_ev_code e = (case e of
     EV_MASTER_READY \<Rightarrow> 1 | EV_MASTER_FRAME_RECEIVED \<Rightarrow> 2 | EV_MASTER_EXECUTE \<Rightarrow> 4
   | EV_MASTER_FRAME_SENT \<Rightarrow> 8 | EV_MASTER_ERROR_PROCESS \<Rightarrow> 16
   | EV_MASTER_PROCESS_SUCESS \<Rightarrow> 32 | EV_MASTER_ERROR_RESPOND_TIMEOUT \<Rightarrow> 64
   | EV_MASTER_ERROR_RECEIVE_DATA \<Rightarrow> 128 | EV_MASTER_ERROR_EXECUTE_FUNCTION \<Rightarrow> 256)"

text \<open>
  \<^verbatim>\<open>eMasterCurTimerMode\<close> is a static of \<^verbatim>\<open>mbrtu_m.c\<close> that the timer functions set.
\<close>

record mb_port_m = mb_port +
  xMasterRunRes :: rt_semaphore
  usT35TimeOut50us :: USHORT
  eMasterCurTimerMode :: eMBMasterTimerMode

section \<open>Events\<close>

definition xMBMasterPortEventInit :: "'a mb_port_m_scheme \<Rightarrow> bool \<times> 'a mb_port_m_scheme" where
  "xMBMasterPortEventInit p = (True, p\<lparr>os_event := rt_event_init RT_IPC_FLAG_PRIO\<rparr>)"

definition xMBMasterPortEventPost ::
  "eMBMasterEventType \<Rightarrow> 'a mb_port_m_scheme \<Rightarrow> (bool \<times> 'a mb_port_m_scheme) option" where
  "xMBMasterPortEventPost eEvent p = do {
     (_, ev, k) \<leftarrow> rt_event_send (os_event p) (m_ev_code eEvent) (kern p);
     Some (True, p\<lparr>os_event := ev, kern := k\<rparr>)
   }"

definition m_ev_decode :: "32 word \<Rightarrow> eMBMasterEventType option" where
  "m_ev_decode recvedEvent =
    (if recvedEvent = 1 then Some EV_MASTER_READY
     else if recvedEvent = 2 then Some EV_MASTER_FRAME_RECEIVED
     else if recvedEvent = 4 then Some EV_MASTER_EXECUTE
     else if recvedEvent = 8 then Some EV_MASTER_FRAME_SENT
     else if recvedEvent = 16 then Some EV_MASTER_ERROR_PROCESS
     else None)"

definition xMBMasterPortEventGet ::
  "'a mb_port_m_scheme \<Rightarrow> (eMBMasterEventType event_get \<times> 'a mb_port_m_scheme) option" where
  "xMBMasterPortEventGet p = do {
     (r, ev, k) \<leftarrow> rt_event_recv (os_event p) (1 OR 2 OR 4 OR 8 OR 16)
        (RT_EVENT_FLAG_OR OR RT_EVENT_FLAG_CLEAR) RT_WAITING_FOREVER (kern p);
     let p = p\<lparr>os_event := ev, kern := k\<rparr>;
     Some (case r of
         Recv_Done _ None \<Rightarrow> (Event_Got None, p)
       | Recv_Done _ (Some recvedEvent) \<Rightarrow> (Event_Got (m_ev_decode recvedEvent), p)
       | Recv_Wait t \<Rightarrow> (Event_Wait t, p))
   }"

section \<open>The running resource\<close>

definition vMBMasterOsResInit :: "'a mb_port_m_scheme \<Rightarrow> 'a mb_port_m_scheme" where
  "vMBMasterOsResInit p = p\<lparr>xMasterRunRes := rt_sem_init 0x01 RT_IPC_FLAG_PRIO\<rparr>"

datatype run_take = Run_Taken bool | Run_Wait tid

definition xMBMasterRunResTake ::
  "int \<Rightarrow> 'a mb_port_m_scheme \<Rightarrow> (run_take \<times> 'a mb_port_m_scheme) option" where
  "xMBMasterRunResTake lTimeOut p = do {
     (r, sem, k) \<leftarrow> rt_sem_take (xMasterRunRes p) lTimeOut (kern p);
     let p = p\<lparr>xMasterRunRes := sem, kern := k\<rparr>;
     Some (case r of
         Take_Done e \<Rightarrow> (Run_Taken (e = 0), p)
       | Take_Wait t \<Rightarrow> (Run_Wait t, p))
   }"

definition vMBMasterRunResRelease :: "'a mb_port_m_scheme \<Rightarrow> 'a mb_port_m_scheme option" where
  "vMBMasterRunResRelease p = do {
     (_, sem, k) \<leftarrow> rt_sem_release (xMasterRunRes p) (kern p);
     Some (p\<lparr>xMasterRunRes := sem, kern := k\<rparr>)
   }"

section \<open>The outcome of a request\<close>

definition m_post_outcome :: "eMBMasterEventType \<Rightarrow> 'a mb_port_m_scheme \<Rightarrow> 'a mb_port_m_scheme option" where
  "m_post_outcome e p = do {
     (_, ev, k) \<leftarrow> rt_event_send (os_event p) (m_ev_code e) (kern p);
     Some (p\<lparr>os_event := ev, kern := k\<rparr>)
   }"

definition vMBMasterErrorCBRespondTimeout :: "'a mb_port_m_scheme \<Rightarrow> 'a mb_port_m_scheme option" where
  "vMBMasterErrorCBRespondTimeout p = m_post_outcome EV_MASTER_ERROR_RESPOND_TIMEOUT p"

definition vMBMasterErrorCBReceiveData :: "'a mb_port_m_scheme \<Rightarrow> 'a mb_port_m_scheme option" where
  "vMBMasterErrorCBReceiveData p = m_post_outcome EV_MASTER_ERROR_RECEIVE_DATA p"

definition vMBMasterErrorCBExecuteFunction :: "'a mb_port_m_scheme \<Rightarrow> 'a mb_port_m_scheme option" where
  "vMBMasterErrorCBExecuteFunction p = m_post_outcome EV_MASTER_ERROR_EXECUTE_FUNCTION p"

definition vMBMasterCBRequestScuuess :: "'a mb_port_m_scheme \<Rightarrow> 'a mb_port_m_scheme option" where
  "vMBMasterCBRequestScuuess p = m_post_outcome EV_MASTER_PROCESS_SUCESS p"

text \<open>
  What \<^verbatim>\<open>eMBMasterWaitRequestFinish\<close> makes of the flags it received. The switch has no default,
  so that several flags at once, like none, count as success.
\<close>

definition m_outcome :: "32 word \<Rightarrow> eMBMasterReqErrCode" where
  "m_outcome recvedEvent =
    (if recvedEvent = 32 then MB_MRE_NO_ERR
     else if recvedEvent = 64 then MB_MRE_TIMEDOUT
     else if recvedEvent = 128 then MB_MRE_REV_DATA
     else if recvedEvent = 256 then MB_MRE_EXE_FUN
     else MB_MRE_NO_ERR)"

datatype req_result = Req_Done eMBMasterReqErrCode | Req_Wait_Res tid | Req_Wait_Finish tid

definition eMBMasterWaitRequestFinish ::
  "'a mb_port_m_scheme \<Rightarrow> (req_result \<times> 'a mb_port_m_scheme) option" where
  "eMBMasterWaitRequestFinish p = do {
     (r, ev, k) \<leftarrow> rt_event_recv (os_event p) (32 OR 64 OR 128 OR 256)
        (RT_EVENT_FLAG_OR OR RT_EVENT_FLAG_CLEAR) RT_WAITING_FOREVER (kern p);
     let p = p\<lparr>os_event := ev, kern := k\<rparr>;
     case r of
       Recv_Done _ None \<Rightarrow> None
     | Recv_Done _ (Some recvedEvent) \<Rightarrow> Some (Req_Done (m_outcome recvedEvent), p)
     | Recv_Wait t \<Rightarrow> Some (Req_Wait_Finish t, p)
   }"

text \<open>The same after the wait: the flags come from the thread's \<^verbatim>\<open>event_set\<close>.\<close>

definition eMBMasterWaitRequestFinish_return ::
  "tid \<Rightarrow> 'a mb_port_m_scheme \<Rightarrow> eMBMasterReqErrCode option" where
  "eMBMasterWaitRequestFinish_return t p = map_option m_outcome (snd (rt_event_recv_return t (kern p)))"

section \<open>Timer\<close>

definition xMBMasterPortTimersInit :: "USHORT \<Rightarrow> 'a mb_port_m_scheme \<Rightarrow> bool \<times> 'a mb_port_m_scheme" where
  "xMBMasterPortTimersInit usTimeOut50us p =
    (let p = p\<lparr>usT35TimeOut50us := usTimeOut50us\<rparr> in
     (True, p\<lparr>timer_ticks := (50 * unat (usT35TimeOut50us p)) div (1000 * 1000 div RT_TICK_PER_SECOND) + 1,
              timer_on := False\<rparr>))"

definition vMBMasterSetCurTimerMode ::
  "eMBMasterTimerMode \<Rightarrow> 'a mb_port_m_scheme \<Rightarrow> 'a mb_port_m_scheme" where
  "vMBMasterSetCurTimerMode eMBTimerMode p = p\<lparr>eMasterCurTimerMode := eMBTimerMode\<rparr>"

definition vMBMasterPortTimersT35Enable :: "'a mb_port_m_scheme \<Rightarrow> 'a mb_port_m_scheme" where
  "vMBMasterPortTimersT35Enable p =
    (let timer_tick = (50 * unat (usT35TimeOut50us p)) div (1000 * 1000 div RT_TICK_PER_SECOND);
         p = vMBMasterSetCurTimerMode MB_TMODE_T35 p
     in p\<lparr>timer_ticks := timer_tick, timer_on := True\<rparr>)"

abbreviation (input) MB_MASTER_DELAY_MS_CONVERT :: nat where "MB_MASTER_DELAY_MS_CONVERT \<equiv> 200"
abbreviation (input) MB_MASTER_TIMEOUT_MS_RESPOND :: nat where "MB_MASTER_TIMEOUT_MS_RESPOND \<equiv> 100"

definition vMBMasterPortTimersConvertDelayEnable :: "'a mb_port_m_scheme \<Rightarrow> 'a mb_port_m_scheme" where
  "vMBMasterPortTimersConvertDelayEnable p =
    (let timer_tick = MB_MASTER_DELAY_MS_CONVERT * RT_TICK_PER_SECOND div 1000;
         p = vMBMasterSetCurTimerMode MB_TMODE_CONVERT_DELAY p
     in p\<lparr>timer_ticks := timer_tick, timer_on := True\<rparr>)"

definition vMBMasterPortTimersRespondTimeoutEnable :: "'a mb_port_m_scheme \<Rightarrow> 'a mb_port_m_scheme" where
  "vMBMasterPortTimersRespondTimeoutEnable p =
    (let timer_tick = MB_MASTER_TIMEOUT_MS_RESPOND * RT_TICK_PER_SECOND div 1000;
         p = vMBMasterSetCurTimerMode MB_TMODE_RESPOND_TIMEOUT p
     in p\<lparr>timer_ticks := timer_tick, timer_on := True\<rparr>)"

definition vMBMasterPortTimersDisable :: "'a mb_port_m_scheme \<Rightarrow> 'a mb_port_m_scheme" where
  "vMBMasterPortTimersDisable p = p\<lparr>timer_on := False\<rparr>"

section \<open>Serial device\<close>

definition xMBMasterPortSerialInit ::
  "bool \<Rightarrow> UCHAR \<Rightarrow> ULONG \<Rightarrow> UCHAR \<Rightarrow> eMBParity \<Rightarrow> 'a mb_port_scheme \<Rightarrow>
   (bool \<times> 'a mb_port_scheme) option" where
  "xMBMasterPortSerialInit dev_open ucPORT ulBaudRate ucDataBits eParity p = do {
     let p = p\<lparr>serial := (if ucPORT = 1 then Some 1 else if ucPORT = 2 then Some 2 else serial p)\<rparr>;
     _ \<leftarrow> serial p;
     let p = p\<lparr>baud_rate := ulBaudRate\<rparr>;
     let p = (case eParity of
         MB_PAR_NONE \<Rightarrow> p\<lparr>data_bits := DATA_BITS_8, parity := PARITY_NONE\<rparr>
       | MB_PAR_ODD \<Rightarrow> p\<lparr>data_bits := DATA_BITS_9, parity := PARITY_ODD\<rparr>
       | MB_PAR_EVEN \<Rightarrow> p\<lparr>data_bits := DATA_BITS_9, parity := PARITY_EVEN\<rparr>);
     if dev_open
     then do {
       let p = p\<lparr>rx_fifo := [], rx_int := True, event_serial := rt_event_init RT_IPC_FLAG_PRIO\<rparr>;
       k \<leftarrow> rt_thread_init (trans_irq p) 10 (kern p);
       (_, k) \<leftarrow> rt_thread_startup (trans_irq p) k;
       Some (True, p\<lparr>kern := k\<rparr>)
     }
     else Some (False, p)
   }"

definition vMBMasterPortSerialEnable ::
  "bool \<Rightarrow> bool \<Rightarrow> 'a mb_port_scheme \<Rightarrow> 'a mb_port_scheme option" where
  "vMBMasterPortSerialEnable xRxEnable xTxEnable p = do {
     _ \<leftarrow> serial p;
     let p = p\<lparr>rx_int := xRxEnable\<rparr>;
     if xTxEnable
     then do {
       (_, ev, k) \<leftarrow> rt_event_send (event_serial p) EVENT_SERIAL_TRANS_START (kern p);
       Some (p\<lparr>event_serial := ev, kern := k\<rparr>)
     }
     else do {
       (_, ev, k) \<leftarrow> rt_event_recv (event_serial p) EVENT_SERIAL_TRANS_START
          (RT_EVENT_FLAG_OR OR RT_EVENT_FLAG_CLEAR) 0 (kern p);
       Some (p\<lparr>event_serial := ev, kern := k\<rparr>)
     }
   }"

definition xMBMasterPortSerialPutByte ::
  "UCHAR \<Rightarrow> 'a mb_port_scheme \<Rightarrow> (bool \<times> 'a mb_port_scheme) option" where
  "xMBMasterPortSerialPutByte ucByte p = do {
     _ \<leftarrow> serial p;
     Some (True, p\<lparr>tx_line := tx_line p @ [ucByte]\<rparr>)
   }"

definition xMBMasterPortSerialGetByte :: "'a mb_port_scheme \<Rightarrow> (UCHAR \<times> 'a mb_port_scheme) option" where
  "xMBMasterPortSerialGetByte p = do {
     _ \<leftarrow> serial p;
     b \<leftarrow> rd (rx_fifo p) 0;
     Some (b, p\<lparr>rx_fifo := tl (rx_fifo p)\<rparr>)
   }"

lemma master_serial_as_slave:
  "xMBMasterPortSerialInit = xMBPortSerialInit" "vMBMasterPortSerialEnable = vMBPortSerialEnable"
  "xMBMasterPortSerialPutByte = xMBPortSerialPutByte" "xMBMasterPortSerialGetByte = xMBPortSerialGetByte"
  by (simp_all only: fun_eq_iff xMBMasterPortSerialInit_def xMBPortSerialInit_def
      vMBMasterPortSerialEnable_def vMBPortSerialEnable_def xMBMasterPortSerialPutByte_def
      xMBPortSerialPutByte_def xMBMasterPortSerialGetByte_def xMBPortSerialGetByte_def simp_thms)

lemma m_ev_code_nz [simp]: "m_ev_code e \<noteq> 0"
  by (cases e) (simp_all add: m_ev_code_def)

end
