(* ===== verification/Mb_Rtu_M.thy ===== *)
theory Mb_Rtu_M
  imports Mb_Port_M Mb_Rtu
begin

text \<open>
  The RTU transport of the master, \<^verbatim>\<open>pck/freemodbus/modbus/rtu/mbrtu_m.c\<close>: separate buffers for
  the frame sent and the frame received, the state machines of the slave with one more
  transmitter state, in which the master waits for the reply, and one timer for the end
  of a frame, the reply timeout and the delay after a broadcast.
\<close>

section \<open>State\<close>

datatype eMBMasterRcvState = STATE_M_RX_INIT | STATE_M_RX_IDLE | STATE_M_RX_RCV | STATE_M_RX_ERROR

datatype eMBMasterSndState = STATE_M_TX_IDLE | STATE_M_TX_XMIT | STATE_M_TX_XFWR

text \<open>
  A pointer into \<^verbatim>\<open>ucMasterRTUSndBuf\<close> is its index. \<^verbatim>\<open>eMBMasterCurErrorType\<close> is a static of \<^verbatim>\<open>mb_m.c\<close>
  that the timer handler sets.
\<close>

record mb_rtu_m = mb_port_m +
  eMSndState :: eMBMasterSndState
  eMRcvState :: eMBMasterRcvState
  ucMasterRTUSndBuf :: "UCHAR list"
  ucMasterRTURcvBuf :: "UCHAR list"
  usMasterSendPDULength :: USHORT
  pucMasterSndBufferCur :: nat
  usMasterSndBufferCount :: USHORT
  usMasterRcvBufferPos :: USHORT
  xFrameIsBroadcast :: bool
  eMBMasterCurErrorType :: eMBMasterErrorEventType

definition vMBMasterSetErrorType ::
  "eMBMasterErrorEventType \<Rightarrow> 'a mb_rtu_m_scheme \<Rightarrow> 'a mb_rtu_m_scheme" where
  "vMBMasterSetErrorType errorType s = s\<lparr>eMBMasterCurErrorType := errorType\<rparr>"

definition vMBMasterSetPDUSndLength :: "USHORT \<Rightarrow> 'a mb_rtu_m_scheme \<Rightarrow> 'a mb_rtu_m_scheme" where
  "vMBMasterSetPDUSndLength SendPDULength s = s\<lparr>usMasterSendPDULength := SendPDULength\<rparr>"

section \<open>Operations\<close>

definition rtu_m_t35 :: "ULONG \<Rightarrow> ULONG option" where
  "rtu_m_t35 ulBaudRate =
    (if 19200 < ulBaudRate then Some 35
     else if 2 * ulBaudRate = 0 then None
     else Some ((7 * 220000) div (2 * ulBaudRate)))"

definition eMBMasterRTUInit ::
  "bool \<Rightarrow> UCHAR \<Rightarrow> ULONG \<Rightarrow> eMBParity \<Rightarrow> 'a mb_rtu_m_scheme \<Rightarrow>
   (eMBErrorCode \<times> 'a mb_rtu_m_scheme) option" where
  "eMBMasterRTUInit dev_open ucPort ulBaudRate eParity s = do {
     (ok, s) \<leftarrow> xMBMasterPortSerialInit dev_open ucPort ulBaudRate 8 eParity s;
     if \<not> ok then Some (MB_EPORTERR, s)
     else do {
       usTimerT35_50us \<leftarrow> rtu_m_t35 ulBaudRate;
       let (ok, s) = xMBMasterPortTimersInit (ucast usTimerT35_50us) s;
       Some (if \<not> ok then MB_EPORTERR else MB_ENOERR, s)
     }
   }"

definition eMBMasterRTUStart :: "'a mb_rtu_m_scheme \<Rightarrow> 'a mb_rtu_m_scheme option" where
  "eMBMasterRTUStart s = do {
     let s = s\<lparr>eMRcvState := STATE_M_RX_INIT\<rparr>;
     s \<leftarrow> vMBMasterPortSerialEnable True False s;
     Some (vMBMasterPortTimersT35Enable s)
   }"

definition eMBMasterRTUStop :: "'a mb_rtu_m_scheme \<Rightarrow> 'a mb_rtu_m_scheme option" where
  "eMBMasterRTUStop s = do {
     s \<leftarrow> vMBMasterPortSerialEnable False False s;
     Some (vMBMasterPortTimersDisable s)
   }"

text \<open>As in the slave, but the assertion admits no frame that fills the buffer.\<close>

definition eMBMasterRTUReceive ::
  "'a mb_rtu_m_scheme \<Rightarrow> (eMBErrorCode \<times> (UCHAR \<times> USHORT) option) option" where
  "eMBMasterRTUReceive s = do {
     rt_assert (unat (usMasterRcvBufferPos s) < MB_SER_PDU_SIZE_MAX);
     if MB_SER_PDU_SIZE_MIN \<le> unat (usMasterRcvBufferPos s)
     then do {
       crc \<leftarrow> crc_of (ucMasterRTURcvBuf s) 0 (unat (usMasterRcvBufferPos s));
       if crc = 0
       then do {
         a \<leftarrow> rd (ucMasterRTURcvBuf s) 0;
         Some (MB_ENOERR, Some (a, usMasterRcvBufferPos s - 1 - 2))
       }
       else Some (MB_EIO, None)
     }
     else Some (MB_EIO, None)
   }"

text \<open>
  \<open>pucFrame\<close> is an index of \<^verbatim>\<open>ucMasterRTUSndBuf\<close>: the only caller passes the PDU in that buffer.
\<close>

definition eMBMasterRTUSend ::
  "UCHAR \<Rightarrow> nat \<Rightarrow> USHORT \<Rightarrow> 'a mb_rtu_m_scheme \<Rightarrow> (eMBErrorCode \<times> 'a mb_rtu_m_scheme) option" where
  "eMBMasterRTUSend ucSlaveAddress pucFrame usLength s =
    (if MB_MASTER_TOTAL_SLAVE_NUM < unat ucSlaveAddress then Some (MB_EINVAL, s)
     else if eMRcvState s = STATE_M_RX_IDLE
     then do {
       rt_assert (0 < pucFrame);
       let s = s\<lparr>pucMasterSndBufferCur := pucFrame - 1, usMasterSndBufferCount := 1\<rparr>;
       buf \<leftarrow> wr (ucMasterRTUSndBuf s) (pucMasterSndBufferCur s) ucSlaveAddress;
       let s = s\<lparr>ucMasterRTUSndBuf := buf, usMasterSndBufferCount := usMasterSndBufferCount s + usLength\<rparr>;
       usCRC16 \<leftarrow> crc_of (ucMasterRTUSndBuf s) (pucMasterSndBufferCur s) (unat (usMasterSndBufferCount s));
       buf \<leftarrow> wr (ucMasterRTUSndBuf s) (unat (usMasterSndBufferCount s)) (lo8 usCRC16);
       let s = s\<lparr>ucMasterRTUSndBuf := buf, usMasterSndBufferCount := usMasterSndBufferCount s + 1\<rparr>;
       buf \<leftarrow> wr (ucMasterRTUSndBuf s) (unat (usMasterSndBufferCount s)) (hi8 usCRC16);
       let s = s\<lparr>ucMasterRTUSndBuf := buf, usMasterSndBufferCount := usMasterSndBufferCount s + 1\<rparr>;
       let s = s\<lparr>eMSndState := STATE_M_TX_XMIT\<rparr>;
       s \<leftarrow> vMBMasterPortSerialEnable False True s;
       Some (MB_ENOERR, s)
     }
     else Some (MB_EIO, s))"

definition xMBMasterRTUReceiveFSM :: "'a mb_rtu_m_scheme \<Rightarrow> (bool \<times> 'a mb_rtu_m_scheme) option" where
  "xMBMasterRTUReceiveFSM s = do {
     rt_assert (eMSndState s = STATE_M_TX_IDLE \<or> eMSndState s = STATE_M_TX_XFWR);
     (ucByte, s) \<leftarrow> xMBMasterPortSerialGetByte s;
     s \<leftarrow> (case eMRcvState s of
         STATE_M_RX_INIT \<Rightarrow> Some (vMBMasterPortTimersT35Enable s)
       | STATE_M_RX_ERROR \<Rightarrow> Some (vMBMasterPortTimersT35Enable s)
       | STATE_M_RX_IDLE \<Rightarrow> do {
           let s = (vMBMasterPortTimersDisable s)\<lparr>eMSndState := STATE_M_TX_IDLE\<rparr>;
           buf \<leftarrow> wr (ucMasterRTURcvBuf s) 0 ucByte;
           Some (vMBMasterPortTimersT35Enable
             (s\<lparr>ucMasterRTURcvBuf := buf, usMasterRcvBufferPos := 1, eMRcvState := STATE_M_RX_RCV\<rparr>))
         }
       | STATE_M_RX_RCV \<Rightarrow>
           if unat (usMasterRcvBufferPos s) < MB_SER_PDU_SIZE_MAX
           then do {
             buf \<leftarrow> wr (ucMasterRTURcvBuf s) (unat (usMasterRcvBufferPos s)) ucByte;
             Some (vMBMasterPortTimersT35Enable
               (s\<lparr>ucMasterRTURcvBuf := buf, usMasterRcvBufferPos := usMasterRcvBufferPos s + 1\<rparr>))
           }
           else Some (vMBMasterPortTimersT35Enable (s\<lparr>eMRcvState := STATE_M_RX_ERROR\<rparr>)));
     Some (False, s)
   }"

definition xMBMasterRTUTransmitFSM :: "'a mb_rtu_m_scheme \<Rightarrow> (bool \<times> 'a mb_rtu_m_scheme) option" where
  "xMBMasterRTUTransmitFSM s = do {
     rt_assert (eMRcvState s = STATE_M_RX_IDLE);
     s \<leftarrow> (case eMSndState s of
         STATE_M_TX_IDLE \<Rightarrow> vMBMasterPortSerialEnable True False s
       | STATE_M_TX_XMIT \<Rightarrow>
           if usMasterSndBufferCount s \<noteq> 0
           then do {
             b \<leftarrow> rd (ucMasterRTUSndBuf s) (pucMasterSndBufferCur s);
             (_, s) \<leftarrow> xMBMasterPortSerialPutByte b s;
             Some (s\<lparr>pucMasterSndBufferCur := pucMasterSndBufferCur s + 1,
                     usMasterSndBufferCount := usMasterSndBufferCount s - 1\<rparr>)
           }
           else do {
             a \<leftarrow> rd (ucMasterRTUSndBuf s) 0;
             let s = s\<lparr>xFrameIsBroadcast := (a = MB_ADDRESS_BROADCAST)\<rparr>;
             s \<leftarrow> vMBMasterPortSerialEnable True False s;
             let s = s\<lparr>eMSndState := STATE_M_TX_XFWR\<rparr>;
             Some (if xFrameIsBroadcast s then vMBMasterPortTimersConvertDelayEnable s
                   else vMBMasterPortTimersRespondTimeoutEnable s)
           }
       | STATE_M_TX_XFWR \<Rightarrow> Some s);
     Some (False, s)
   }"

definition xMBMasterRTUTimerExpired :: "'a mb_rtu_m_scheme \<Rightarrow> (bool \<times> 'a mb_rtu_m_scheme) option" where
  "xMBMasterRTUTimerExpired s = do {
     (xNeedPoll, s) \<leftarrow> (case eMRcvState s of
         STATE_M_RX_INIT \<Rightarrow> xMBMasterPortEventPost EV_MASTER_READY s
       | STATE_M_RX_RCV \<Rightarrow> xMBMasterPortEventPost EV_MASTER_FRAME_RECEIVED s
       | STATE_M_RX_ERROR \<Rightarrow>
           xMBMasterPortEventPost EV_MASTER_ERROR_PROCESS (vMBMasterSetErrorType EV_ERROR_RECEIVE_DATA s)
       | STATE_M_RX_IDLE \<Rightarrow> Some (False, s));
     let s = s\<lparr>eMRcvState := STATE_M_RX_IDLE\<rparr>;
     (xNeedPoll, s) \<leftarrow> (case eMSndState s of
         STATE_M_TX_XFWR \<Rightarrow>
           if \<not> xFrameIsBroadcast s
           then xMBMasterPortEventPost EV_MASTER_ERROR_PROCESS
             (vMBMasterSetErrorType EV_ERROR_RESPOND_TIMEOUT s)
           else Some (xNeedPoll, s)
       | STATE_M_TX_IDLE \<Rightarrow> Some (xNeedPoll, s)
       | STATE_M_TX_XMIT \<Rightarrow> None);
     let s = vMBMasterPortTimersDisable (s\<lparr>eMSndState := STATE_M_TX_IDLE\<rparr>);
     if eMasterCurTimerMode s = MB_TMODE_CONVERT_DELAY
     then xMBMasterPortEventPost EV_MASTER_EXECUTE s
     else Some (xNeedPoll, s)
   }"

section \<open>Reception of a frame\<close>

definition serial_m_rx_ind :: "UCHAR \<Rightarrow> 'a mb_rtu_m_scheme \<Rightarrow> 'a mb_rtu_m_scheme option" where
  "serial_m_rx_ind b s = do {
     (_, s) \<leftarrow> xMBMasterRTUReceiveFSM (s\<lparr>rx_fifo := rx_fifo s @ [b]\<rparr>);
     Some s
   }"

definition rtu_m_line :: "UCHAR list \<Rightarrow> 'a mb_rtu_m_scheme \<Rightarrow> 'a mb_rtu_m_scheme option" where
  "rtu_m_line bs s = feed serial_m_rx_ind bs s"

definition rtu_m_burst :: "UCHAR list \<Rightarrow> 'a mb_rtu_m_scheme \<Rightarrow> 'a mb_rtu_m_scheme option" where
  "rtu_m_burst bs s = do {
     s \<leftarrow> rtu_m_line bs s;
     (_, s) \<leftarrow> xMBMasterRTUTimerExpired s;
     Some s
   }"

text \<open>The receiver listens: nothing is being sent; a reply may or may not be awaited.\<close>

definition rtu_m_listens :: "'a mb_rtu_m_scheme \<Rightarrow> bool" where
  "rtu_m_listens s \<longleftrightarrow> serial s \<noteq> None \<and> eMSndState s \<noteq> STATE_M_TX_XMIT \<and> rx_fifo s = [] \<and>
     length (ucMasterRTURcvBuf s) = 256"

definition m_t35 :: "'a mb_port_m_scheme \<Rightarrow> 'a mb_port_m_scheme" where
  "m_t35 p = p\<lparr>timer_ticks := (50 * unat (usT35TimeOut50us p)) div 10000, timer_on := True,
     eMasterCurTimerMode := MB_TMODE_T35\<rparr>"

lemma m_t35_enable: "vMBMasterPortTimersT35Enable p = m_t35 p"
  by (simp add: vMBMasterPortTimersT35Enable_def vMBMasterSetCurTimerMode_def m_t35_def Let_def)

lemma m_tx_not_xmit: "eMSndState s \<noteq> STATE_M_TX_XMIT \<longleftrightarrow> eMSndState s = STATE_M_TX_IDLE \<or> eMSndState s = STATE_M_TX_XFWR"
  by (cases "eMSndState s") simp_all

lemmas m_rx_defs = serial_m_rx_ind_def xMBMasterRTUReceiveFSM_def master_serial_as_slave
  xMBPortSerialGetByte_def rtu_m_listens_def m_t35_enable vMBMasterPortTimersDisable_def m_tx_not_xmit

lemma serial_m_rx_ind_idle:
  assumes "rtu_m_listens s" "eMRcvState s = STATE_M_RX_IDLE"
  shows "serial_m_rx_ind b s = Some (m_t35 (s\<lparr>ucMasterRTURcvBuf := (ucMasterRTURcvBuf s)[0 := b],
    usMasterRcvBufferPos := 1, eMRcvState := STATE_M_RX_RCV, eMSndState := STATE_M_TX_IDLE\<rparr>))"
  using assms by (auto simp: m_rx_defs m_t35_def)

lemma serial_m_rx_ind_rcv:
  assumes "rtu_m_listens s" "eMRcvState s = STATE_M_RX_RCV" "unat (usMasterRcvBufferPos s) < 256"
  shows "serial_m_rx_ind b s = Some (m_t35 (s\<lparr>
    ucMasterRTURcvBuf := (ucMasterRTURcvBuf s)[unat (usMasterRcvBufferPos s) := b],
    usMasterRcvBufferPos := usMasterRcvBufferPos s + 1\<rparr>))"
  using assms by (auto simp: m_rx_defs m_t35_def)

lemma serial_m_rx_ind_full:
  assumes "rtu_m_listens s" "eMRcvState s = STATE_M_RX_RCV" "256 \<le> unat (usMasterRcvBufferPos s)"
  shows "serial_m_rx_ind b s = Some (m_t35 (s\<lparr>eMRcvState := STATE_M_RX_ERROR\<rparr>))"
  using assms by (auto simp: m_rx_defs m_t35_def)

lemma serial_m_rx_ind_wait:
  assumes "rtu_m_listens s" "eMRcvState s = STATE_M_RX_ERROR \<or> eMRcvState s = STATE_M_RX_INIT"
  shows "serial_m_rx_ind b s = Some (m_t35 s)"
  using assms by (auto simp: m_rx_defs m_t35_def)

definition rtu_m_got :: "'a mb_rtu_m_scheme \<Rightarrow> UCHAR list \<Rightarrow> 'a mb_rtu_m_scheme" where
  "rtu_m_got s bs = m_t35 (s\<lparr>ucMasterRTURcvBuf := blit (ucMasterRTURcvBuf s) 0 bs,
     usMasterRcvBufferPos := of_nat (length bs), eMRcvState := STATE_M_RX_RCV, eMSndState := STATE_M_TX_IDLE\<rparr>)"

definition rtu_m_full :: "'a mb_rtu_m_scheme \<Rightarrow> UCHAR list \<Rightarrow> 'a mb_rtu_m_scheme" where
  "rtu_m_full s bs = m_t35 (s\<lparr>ucMasterRTURcvBuf := blit (ucMasterRTURcvBuf s) 0 bs,
     usMasterRcvBufferPos := of_nat (length bs), eMRcvState := STATE_M_RX_ERROR, eMSndState := STATE_M_TX_IDLE\<rparr>)"

interpretation master_rx: frame_receiver serial_m_rx_ind
    "\<lambda>s. rtu_m_listens s \<and> eMRcvState s = STATE_M_RX_IDLE" rtu_m_got rtu_m_full 256
proof
  fix s :: "'a mb_rtu_m_scheme" and bs :: "UCHAR list" and b
  assume s: "rtu_m_listens s \<and> eMRcvState s = STATE_M_RX_IDLE"
  have "(ucMasterRTURcvBuf s)[0 := b] = blit (ucMasterRTURcvBuf s) 0 [b]"
    using s blit_snoc [of 0 "[]" "ucMasterRTURcvBuf s" b] by (simp add: rtu_m_listens_def)
  then show "serial_m_rx_ind b s = Some (rtu_m_got s [b])"
    using s by (simp add: serial_m_rx_ind_idle rtu_m_got_def)
  { assume "bs \<noteq> []" "length bs < 256"
    then show "serial_m_rx_ind b (rtu_m_got s bs) = Some (rtu_m_got s (bs @ [b]))"
      using s blit_snoc [of 0 bs "ucMasterRTURcvBuf s" b]
      by (subst serial_m_rx_ind_rcv) (simp_all add: rtu_m_got_def rtu_m_listens_def rtu_pos add.commute m_t35_def) }
  assume "length bs = 256"
  then show "serial_m_rx_ind b (rtu_m_got s bs) = Some (rtu_m_full s bs)"
      "serial_m_rx_ind b (rtu_m_full s bs) = Some (rtu_m_full s bs)"
    using s by (simp_all add: serial_m_rx_ind_full serial_m_rx_ind_wait rtu_m_got_def rtu_m_full_def
        rtu_m_listens_def m_t35_def)
qed simp

lemma xMBMasterPortEventPost_idle [simp]:
  "suspend_thread (os_event s) = [] \<Longrightarrow> xMBMasterPortEventPost e s =
   Some (True, s\<lparr>os_event := (os_event s)\<lparr>ev_set := ev_set (os_event s) OR m_ev_code e\<rparr>\<rparr>)"
  by (simp add: xMBMasterPortEventPost_def)

lemma rtu_m_burst_frame:
  assumes "rtu_m_listens s" "eMRcvState s = STATE_M_RX_IDLE" "suspend_thread (os_event s) = []"
    and "bs \<noteq> []" "length bs \<le> 256"
  shows "rtu_m_burst bs s = Some ((m_t35 s)\<lparr>ucMasterRTURcvBuf := blit (ucMasterRTURcvBuf s) 0 bs,
    usMasterRcvBufferPos := of_nat (length bs), eMSndState := STATE_M_TX_IDLE, timer_on := False,
    os_event := (os_event s)\<lparr>ev_set := ev_set (os_event s) OR m_ev_code EV_MASTER_FRAME_RECEIVED\<rparr>\<rparr>)"
  using master_rx.feed_frame [of s bs] assms
  by (simp add: rtu_m_burst_def rtu_m_line_def rtu_m_got_def xMBMasterRTUTimerExpired_def
      vMBMasterPortTimersDisable_def m_t35_def)

text \<open>A burst that does not fit the buffer ends in the error process.\<close>

lemma rtu_m_burst_overflow:
  assumes "rtu_m_listens s" "eMRcvState s = STATE_M_RX_IDLE" "suspend_thread (os_event s) = []"
    and "256 < length bs"
  shows "\<exists>buf. rtu_m_burst bs s = Some ((m_t35 s)\<lparr>ucMasterRTURcvBuf := buf,
    usMasterRcvBufferPos := 256, eMSndState := STATE_M_TX_IDLE, timer_on := False,
    eMBMasterCurErrorType := EV_ERROR_RECEIVE_DATA,
    os_event := (os_event s)\<lparr>ev_set := ev_set (os_event s) OR m_ev_code EV_MASTER_ERROR_PROCESS\<rparr>\<rparr>) \<and>
    length buf = 256"
  using master_rx.feed_overflow [of s bs] assms
  by (intro exI [of _ "blit (ucMasterRTURcvBuf s) 0 (take 256 bs)"])
    (simp add: rtu_m_burst_def rtu_m_line_def rtu_m_full_def xMBMasterRTUTimerExpired_def
      vMBMasterPortTimersDisable_def m_t35_def vMBMasterSetErrorType_def rtu_m_listens_def)

text \<open>
  A frame that fills the buffer passes the receiver, but not the assertion of
  \<^verbatim>\<open>eMBMasterRTUReceive\<close>.
\<close>

lemma rtu_m_full_frame_asserts:
  assumes "rtu_m_listens s" "eMRcvState s = STATE_M_RX_IDLE" "suspend_thread (os_event s) = []"
    and "length bs = 256"
  shows "\<exists>s'. rtu_m_burst bs s = Some s' \<and> eMBMasterRTUReceive s' = None"
  using rtu_m_burst_frame [OF assms(1-3), of bs] assms(4)
  by (cases "bs = []") (simp_all add: eMBMasterRTUReceive_def)

lemma eMBMasterRTUReceive_frame:
  assumes "take (length bs) (ucMasterRTURcvBuf s) = bs" "usMasterRcvBufferPos s = of_nat (length bs)"
    and "length bs < 256"
  shows "eMBMasterRTUReceive s = Some (if 4 \<le> length bs \<and> usMBCRC16 bs = 0
     then (MB_ENOERR, Some (bs ! 0, of_nat (length bs) - 3)) else (MB_EIO, None))"
proof -
  have len: "length bs \<le> length (ucMasterRTURcvBuf s)"
    using assms(1) by (metis length_take min.cobounded1 min.commute)
  have "4 \<le> length bs \<Longrightarrow> bs ! 0 = ucMasterRTURcvBuf s ! 0"
    using assms(1) by (metis nth_take not_numeral_le_zero not_gr_zero)
  moreover have "4 \<le> length bs \<Longrightarrow> rd (ucMasterRTURcvBuf s) 0 = Some (ucMasterRTURcvBuf s ! 0)"
    using len by (intro rd_in) linarith
  ultimately show ?thesis
    using len rtu_pos [of "length bs"] assms by (auto simp: eMBMasterRTUReceive_def crc_of_def)
qed

section \<open>Transmission of a frame\<close>

definition rtu_m_drain :: "nat \<Rightarrow> 'a mb_rtu_m_scheme \<Rightarrow> 'a mb_rtu_m_scheme option" where
  "rtu_m_drain n s = drain tx_started (\<lambda>s. map_option snd (xMBMasterRTUTransmitFSM s)) n s"

text \<open>After the last byte the master awaits the reply, or, for a broadcast, the end of the delay.\<close>

definition rtu_m_sends :: "'a mb_rtu_m_scheme \<Rightarrow> bool" where
  "rtu_m_sends s \<longleftrightarrow> port_calm s \<and> eMRcvState s = STATE_M_RX_IDLE \<and> eMSndState s = STATE_M_TX_XMIT \<and>
     tx_started s \<and> pucMasterSndBufferCur s + unat (usMasterSndBufferCount s) \<le> length (ucMasterRTUSndBuf s) \<and>
     ucMasterRTUSndBuf s \<noteq> []"

definition rtu_m_sent :: "'a mb_rtu_m_scheme \<Rightarrow> nat \<Rightarrow> 'a mb_rtu_m_scheme" where
  "rtu_m_sent s i = s\<lparr>tx_line := tx_line s @ take i (drop (pucMasterSndBufferCur s) (ucMasterRTUSndBuf s)),
     pucMasterSndBufferCur := pucMasterSndBufferCur s + i,
     usMasterSndBufferCount := usMasterSndBufferCount s - of_nat i\<rparr>"

definition m_await :: "bool \<Rightarrow> 'a mb_port_m_scheme \<Rightarrow> 'a mb_port_m_scheme" where
  "m_await broadcast p = p\<lparr>timer_ticks := (if broadcast then 20 else 10), timer_on := True,
     eMasterCurTimerMode := (if broadcast then MB_TMODE_CONVERT_DELAY else MB_TMODE_RESPOND_TIMEOUT)\<rparr>"

lemma m_await_enable:
  "vMBMasterPortTimersConvertDelayEnable p = m_await True p"
  "vMBMasterPortTimersRespondTimeoutEnable p = m_await False p"
  by (simp_all add: vMBMasterPortTimersConvertDelayEnable_def vMBMasterPortTimersRespondTimeoutEnable_def
      vMBMasterSetCurTimerMode_def m_await_def Let_def)

definition rtu_m_sent_all :: "'a mb_rtu_m_scheme \<Rightarrow> 'a mb_rtu_m_scheme \<Rightarrow> bool" where
  "rtu_m_sent_all s s' \<longleftrightarrow> (\<exists>b k. b = (ucMasterRTUSndBuf s ! 0 = MB_ADDRESS_BROADCAST) \<and>
     s' = (m_await b (rtu_m_sent s (unat (usMasterSndBufferCount s))))\<lparr>rx_int := True,
      eMSndState := STATE_M_TX_XFWR, xFrameIsBroadcast := b,
      event_serial := (event_serial s)\<lparr>ev_set := ev_set (event_serial s) AND NOT 1\<rparr>, kern := k\<rparr> \<and>
    rt_current_thread k = rt_current_thread (kern s) \<and> rt_interrupt_nest k = rt_interrupt_nest (kern s))"

lemma xMBMasterRTUTransmitFSM_done:
  assumes "port_calm s" "eMRcvState s = STATE_M_RX_IDLE" "eMSndState s = STATE_M_TX_XMIT"
    and "usMasterSndBufferCount s = 0" "ucMasterRTUSndBuf s \<noteq> []"
    and b: "b \<longleftrightarrow> ucMasterRTUSndBuf s ! 0 = MB_ADDRESS_BROADCAST"
  shows "\<exists>k. xMBMasterRTUTransmitFSM s = Some (False, (m_await b s)\<lparr>rx_int := True,
      eMSndState := STATE_M_TX_XFWR, xFrameIsBroadcast := b,
      event_serial := (event_serial s)\<lparr>ev_set := ev_set (event_serial s) AND NOT 1\<rparr>, kern := k\<rparr>) \<and>
    rt_current_thread k = rt_current_thread (kern s) \<and> rt_interrupt_nest k = rt_interrupt_nest (kern s)"
proof -
  let ?s = "s\<lparr>xFrameIsBroadcast := b\<rparr>"
  have "port_calm ?s"
    using assms(1) by (simp add: port_calm_def)
  from vMBPortSerialEnable_rx [OF this, of True] obtain k where
    k: "vMBPortSerialEnable True False ?s = Some (?s\<lparr>rx_int := True,
      event_serial := (event_serial s)\<lparr>ev_set := ev_set (event_serial s) AND NOT 1\<rparr>, kern := k\<rparr>)"
    "rt_current_thread k = rt_current_thread (kern s)" "rt_interrupt_nest k = rt_interrupt_nest (kern s)"
    by auto
  have "rd (ucMasterRTUSndBuf s) 0 = Some (ucMasterRTUSndBuf s ! 0)"
    using assms(5) by simp
  then have "xMBMasterRTUTransmitFSM s = Some (False, (m_await b s)\<lparr>rx_int := True,
      eMSndState := STATE_M_TX_XFWR, xFrameIsBroadcast := b,
      event_serial := (event_serial s)\<lparr>ev_set := ev_set (event_serial s) AND NOT 1\<rparr>, kern := k\<rparr>)"
    using k(1) assms(2-4)
    unfolding xMBMasterRTUTransmitFSM_def master_serial_as_slave m_await_enable b [symmetric]
    by (simp add: b [symmetric] m_await_def)
  with k(2,3) show ?thesis by blast
qed

interpretation master_tx: frame_sender tx_started "\<lambda>s. map_option snd (xMBMasterRTUTransmitFSM s)"
    rtu_m_sends rtu_m_sent "\<lambda>s. unat (usMasterSndBufferCount s)" rtu_m_sent_all
proof
  fix s :: "'a mb_rtu_m_scheme" and i
  assume s: "rtu_m_sends s"
  show "rtu_m_sent s 0 = s"
    by (simp add: rtu_m_sent_def)
  show "tx_started (rtu_m_sent s i)"
    using s by (simp add: rtu_m_sends_def rtu_m_sent_def tx_started_def)
  { assume i: "i < unat (usMasterSndBufferCount s)"
    have "unat (of_nat i :: USHORT) \<le> i"
      by (simp add: unat_of_nat take_bit_nat_less_eq_self)
    then have nz: "usMasterSndBufferCount s - of_nat i \<noteq> 0"
      using i by auto
    have lt: "pucMasterSndBufferCur s + i < length (ucMasterRTUSndBuf s)"
      using s i by (simp add: rtu_m_sends_def)
    show "map_option snd (xMBMasterRTUTransmitFSM (rtu_m_sent s i)) = Some (rtu_m_sent s (Suc i))"
      using s nz lt
      by (auto simp: xMBMasterRTUTransmitFSM_def master_serial_as_slave xMBPortSerialPutByte_def
          rtu_m_sends_def port_calm_def rtu_m_sent_def take_Suc_conv_app_nth algebra_simps) }
  let ?s = "rtu_m_sent s (unat (usMasterSndBufferCount s))"
  have "port_calm ?s" "eMRcvState ?s = STATE_M_RX_IDLE" "eMSndState ?s = STATE_M_TX_XMIT"
    "usMasterSndBufferCount ?s = 0" "ucMasterRTUSndBuf ?s \<noteq> []"
    using s by (simp_all add: rtu_m_sends_def rtu_m_sent_def port_calm_def)
  from xMBMasterRTUTransmitFSM_done [OF this refl]
  show "\<exists>s'. map_option snd (xMBMasterRTUTransmitFSM ?s) = Some s' \<and> rtu_m_sent_all s s' \<and> \<not> tx_started s'"
    using flag_cleared by (auto simp: rtu_m_sent_all_def tx_started_def rtu_m_sent_def m_await_def)
qed

lemma eMBMasterRTUSend_frame:
  assumes calm: "port_calm s" and idle: "eMRcvState s = STATE_M_RX_IDLE"
    and buf: "length (ucMasterRTUSndBuf s) = 253" and n: "unat n + 3 \<le> 253" and a: "unat a \<le> 16"
  shows "eMBMasterRTUSend a 1 n s = Some (MB_ENOERR,
    s\<lparr>ucMasterRTUSndBuf := blit (ucMasterRTUSndBuf s) 0 (rtu_frame a (take (unat n) (drop 1 (ucMasterRTUSndBuf s)))),
      pucMasterSndBufferCur := 0, usMasterSndBufferCount := n + 3, eMSndState := STATE_M_TX_XMIT, rx_int := False,
      event_serial := (event_serial s)\<lparr>ev_set := ev_set (event_serial s) OR 1\<rparr>\<rparr>)"
proof -
  have n1: "unat (1 + n) = unat n + 1" "unat (1 + n + 1) = unat n + 2"
    using n by (simp_all add: unat_word_ariths)
  show ?thesis
    using idle buf n n1 a put_address [of "ucMasterRTUSndBuf s" "unat n" a]
      put_frame [of "unat n" "ucMasterRTUSndBuf s" a]
      vMBPortSerialEnable_tx [of "s\<lparr>pucMasterSndBufferCur := 0\<rparr>"] calm
    by (simp add: eMBMasterRTUSend_def master_serial_as_slave crc_of_def vMBPortSerialEnable_tx port_calm_def)
qed

text \<open>
  A request of the greatest size that the protocol allows, 253 bytes, does not fit: the
  checksum is written behind the buffer.
\<close>

lemma eMBMasterRTUSend_overflow:
  assumes "eMRcvState s = STATE_M_RX_IDLE" "length (ucMasterRTUSndBuf s) = 253"
    and "253 < unat n + 3" "unat n \<le> 253" "unat a \<le> 16"
  shows "eMBMasterRTUSend a 1 n s = None"
proof -
  have n1: "unat (1 + n) = unat n + 1" "unat (1 + n + 1) = unat n + 2"
    using assms by (simp_all add: unat_word_ariths)
  then show ?thesis
    using assms by (cases "unat n \<le> 251") (simp_all add: eMBMasterRTUSend_def crc_of_def wr_def Let_def)
qed

lemma rtu_m_send_drain:
  assumes calm: "port_calm s" and idle: "eMRcvState s = STATE_M_RX_IDLE"
    and buf: "length (ucMasterRTUSndBuf s) = 253" and n: "unat n + 3 \<le> 253" and a: "unat a \<le> 16"
    and steps: "unat n + 4 \<le> m"
  shows "\<exists>s1 s2 k. eMBMasterRTUSend a 1 n s = Some (MB_ENOERR, s1) \<and> rtu_m_drain m s1 = Some s2 \<and>
    s2 = (m_await (a = 0) s)\<lparr>
      tx_line := tx_line s @ rtu_frame a (take (unat n) (drop 1 (ucMasterRTUSndBuf s))),
      ucMasterRTUSndBuf := blit (ucMasterRTUSndBuf s) 0 (rtu_frame a (take (unat n) (drop 1 (ucMasterRTUSndBuf s)))),
      pucMasterSndBufferCur := unat n + 3, usMasterSndBufferCount := 0,
      rx_int := True, eMSndState := STATE_M_TX_XFWR, xFrameIsBroadcast := (a = 0),
      event_serial := (event_serial s)\<lparr>ev_set := ev_set (event_serial s) AND NOT 1\<rparr>, kern := k\<rparr> \<and>
    port_calm s2"
proof -
  let ?fr = "rtu_frame a (take (unat n) (drop 1 (ucMasterRTUSndBuf s)))"
  let ?s1 = "s\<lparr>ucMasterRTUSndBuf := blit (ucMasterRTUSndBuf s) 0 ?fr,
      pucMasterSndBufferCur := 0, usMasterSndBufferCount := n + 3, eMSndState := STATE_M_TX_XMIT, rx_int := False,
      event_serial := (event_serial s)\<lparr>ev_set := ev_set (event_serial s) OR 1\<rparr>\<rparr>"
  have len: "length ?fr = unat n + 3" using buf n by simp
  have send: "eMBMasterRTUSend a 1 n s = Some (MB_ENOERR, ?s1)"
    by (rule eMBMasterRTUSend_frame [OF calm idle buf n a])
  have n3: "unat (n + 3) = unat n + 3" using n by (simp add: unat_word_ariths)
  have lenb: "length (blit (ucMasterRTUSndBuf s) 0 ?fr) = 253"
    using len buf n by simp
  have fr: "take (unat n + 3) (blit (ucMasterRTUSndBuf s) 0 ?fr) = ?fr" "blit (ucMasterRTUSndBuf s) 0 ?fr ! 0 = a"
    using segment_blit [of 0 ?fr "ucMasterRTUSndBuf s"] len buf n
    by (simp_all add: nth_blit) (simp add: rtu_frame_def Let_def)
  have "rtu_m_sends ?s1" "unat (usMasterSndBufferCount ?s1) < m"
    using calm idle flag_set [of "ev_set (event_serial s)"] n3 lenb n steps
    by (auto simp: rtu_m_sends_def tx_started_def port_calm_def simp flip: length_greater_0_conv)
  from master_tx.drain_frame [OF this] obtain s2 where
    s2: "rtu_m_drain m ?s1 = Some s2" "rtu_m_sent_all ?s1 s2"
    by (auto simp: rtu_m_drain_def)
  have *: "(ev_set (event_serial s) OR 1) AND NOT 1 = ev_set (event_serial s) AND NOT 1"
    by (auto simp: bit_eq_iff bit_simps)
  obtain b k where b: "b = (ucMasterRTUSndBuf ?s1 ! 0 = 0)"
    and raw: "s2 = (m_await b (rtu_m_sent ?s1 (unat (usMasterSndBufferCount ?s1))))\<lparr>rx_int := True,
      eMSndState := STATE_M_TX_XFWR, xFrameIsBroadcast := b,
      event_serial := (event_serial ?s1)\<lparr>ev_set := ev_set (event_serial ?s1) AND NOT 1\<rparr>, kern := k\<rparr>"
    and kk: "rt_current_thread k = rt_current_thread (kern ?s1)"
      "rt_interrupt_nest k = rt_interrupt_nest (kern ?s1)"
    using s2(2) unfolding rtu_m_sent_all_def by blast
  have b: "b = (a = 0)"
    using b fr(2) by simp
  have k: "s2 = (m_await (a = 0) s)\<lparr>
      tx_line := tx_line s @ ?fr, ucMasterRTUSndBuf := blit (ucMasterRTUSndBuf s) 0 ?fr,
      pucMasterSndBufferCur := unat n + 3, usMasterSndBufferCount := 0,
      rx_int := True, eMSndState := STATE_M_TX_XFWR, xFrameIsBroadcast := (a = 0),
      event_serial := (event_serial s)\<lparr>ev_set := ev_set (event_serial s) AND NOT 1\<rparr>, kern := k\<rparr>"
    unfolding raw b using fr(1) n3 * by (simp add: rtu_m_sent_def m_await_def)
  then have "port_calm s2"
    using calm kk by (simp add: port_calm_def m_await_def)
  with send s2(1) k show ?thesis by blast
qed

end
