(* ===== verification/Mb_Master_Regs.thy ===== *)
theory Mb_Master_Regs
  imports Mb_Regs
begin

text \<open>
  The master's copies of the registers of its slaves and the callbacks that fill them, from
  \<^verbatim>\<open>pck/freemodbus/port/user_mb_app_m.c\<close> with the sizes of \<^verbatim>\<open>user_mb_app.h\<close>. Each bank has
  one row per slave; a callback works on the row of the destination address, its first
  argument (\<^verbatim>\<open>ucMBMasterGetDestAddress()\<close>).
\<close>

section \<open>State\<close>

definition M_DISCRETE_INPUT_NDISCRETES :: nat where "M_DISCRETE_INPUT_NDISCRETES = 16"
definition M_COIL_NCOILS :: nat where "M_COIL_NCOILS = 64"
definition M_REG_INPUT_NREGS :: nat where "M_REG_INPUT_NREGS = 100"
definition M_REG_HOLDING_NREGS :: nat where "M_REG_HOLDING_NREGS = 100"

lemmas master_sizes = M_DISCRETE_INPUT_NDISCRETES_def M_COIL_NCOILS_def M_REG_INPUT_NREGS_def
  M_REG_HOLDING_NREGS_def

record master_regs =
  ucMDiscInBuf :: "UCHAR list list"
  ucMCoilBuf :: "UCHAR list list"
  usMRegInBuf :: "USHORT list list"
  usMRegHoldBuf :: "USHORT list list"

definition master_regs_init :: master_regs where
  "master_regs_init = \<lparr> ucMDiscInBuf = replicate 16 (replicate 2 0), ucMCoilBuf = replicate 16 (replicate 8 0),
     usMRegInBuf = replicate 16 (replicate 100 0), usMRegHoldBuf = replicate 16 (replicate 100 0) \<rparr>"

definition usMStart :: USHORT where "usMStart = 0"

definition rows_ok :: "nat \<Rightarrow> 'a list list \<Rightarrow> bool" where
  "rows_ok n rows \<longleftrightarrow> length rows = 16 \<and> (\<forall>r \<in> set rows. length r = n)"

definition wf_master :: "master_regs \<Rightarrow> bool" where
  "wf_master s \<longleftrightarrow> rows_ok 2 (ucMDiscInBuf s) \<and> rows_ok 8 (ucMCoilBuf s) \<and>
     rows_ok 100 (usMRegInBuf s) \<and> rows_ok 100 (usMRegHoldBuf s)"

lemma wf_master_init: "wf_master master_regs_init"
  by (simp add: wf_master_def master_regs_init_def rows_ok_def)

text \<open>The row \<^verbatim>\<open>buf[ucMBMasterGetDestAddress() - 1]\<close>.\<close>

definition row :: "UCHAR \<Rightarrow> 'a list list \<Rightarrow> 'a list option" where
  "row dest rows = (if dest = 0 then None else rd rows (unat dest - 1))"

definition set_row :: "UCHAR \<Rightarrow> 'a list \<Rightarrow> 'a list list \<Rightarrow> 'a list list" where
  "set_row dest r rows = rows[unat dest - 1 := r]"

definition the_row :: "UCHAR \<Rightarrow> 'a list list \<Rightarrow> 'a list" where
  "the_row dest rows = rows ! (unat dest - 1)"

text \<open>A slave address the master has a row for.\<close>

definition has_row :: "UCHAR \<Rightarrow> bool" where
  "has_row d \<longleftrightarrow> d \<noteq> 0 \<and> unat d \<le> 16"

lemma has_row_bounds: "has_row d \<Longrightarrow> 0 < unat d \<and> unat d - 1 < 16"
  by (auto simp: has_row_def unat_gt_0)

lemma row_in: "has_row d \<Longrightarrow> length rows = 16 \<Longrightarrow> row d rows = Some (the_row d rows)"
  using has_row_bounds [of d] by (auto simp: row_def the_row_def has_row_def)

lemma the_set_row [simp]: "has_row d \<Longrightarrow> length rows = 16 \<Longrightarrow> the_row d (set_row d r rows) = r"
  using has_row_bounds [of d] by (simp add: the_row_def set_row_def)

lemma the_set_row_other:
  assumes "has_row d" "has_row d'" "d \<noteq> d'"
  shows "the_row d' (set_row d r rows) = the_row d' rows"
proof -
  have "unat d \<noteq> unat d'"
    using assms(3) by (simp add: word_unat_eq_iff)
  then have "unat d - 1 \<noteq> unat d' - 1"
    using has_row_bounds [OF assms(1)] has_row_bounds [OF assms(2)] by arith
  then show ?thesis
    by (simp add: the_row_def set_row_def)
qed

lemma rows_ok_set: "rows_ok n rows \<Longrightarrow> length r = n \<Longrightarrow> rows_ok n (set_row d r rows)"
  by (auto simp: rows_ok_def set_row_def dest: set_update_subset_insert [THEN subsetD])

lemma rows_ok_length: "rows_ok n rows \<Longrightarrow> length rows = 16"
  by (simp add: rows_ok_def)

lemma length_the_row: "has_row d \<Longrightarrow> rows_ok n rows \<Longrightarrow> length (the_row d rows) = n"
  using has_row_bounds [of d] by (simp add: rows_ok_def the_row_def)

section \<open>Callbacks\<close>

definition eMBMasterRegInputCB :: "UCHAR \<Rightarrow> master_regs input_cb" where
  "eMBMasterRegInputCB dest s pucRegBuffer p usAddress usNRegs = do {
     pusRegInputBuf \<leftarrow> row dest (usMRegInBuf s);
     let usAddress = usAddress - 1;
     if unat usMStart \<le> unat usAddress \<and>
        unat usAddress + unat usNRegs \<le> unat usMStart + M_REG_INPUT_NREGS
     then do {
       let iRegIndex = unat (usAddress - usMStart);
       regs \<leftarrow> frame_to_regs pusRegInputBuf iRegIndex pucRegBuffer p (unat usNRegs);
       Some (MB_ENOERR, pucRegBuffer, s\<lparr>usMRegInBuf := set_row dest regs (usMRegInBuf s)\<rparr>)
     }
     else Some (MB_ENOREG, pucRegBuffer, s)
   }"

definition eMBMasterRegHoldingCB :: "UCHAR \<Rightarrow> master_regs reg_cb" where
  "eMBMasterRegHoldingCB dest s pucRegBuffer p usAddress usNRegs eMode = do {
     pusRegHoldingBuf \<leftarrow> row dest (usMRegHoldBuf s);
     let eMode = MB_REG_WRITE;
     let usAddress = usAddress - 1;
     if unat usMStart \<le> unat usAddress \<and>
        unat usAddress + unat usNRegs \<le> unat usMStart + M_REG_HOLDING_NREGS
     then (let iRegIndex = unat (usAddress - usMStart) in
       case eMode of
         MB_REG_READ \<Rightarrow> do {
           fr \<leftarrow> regs_to_frame pucRegBuffer p pusRegHoldingBuf iRegIndex (unat usNRegs);
           Some (MB_ENOERR, fr, s)
         }
       | MB_REG_WRITE \<Rightarrow> do {
           regs \<leftarrow> frame_to_regs pusRegHoldingBuf iRegIndex pucRegBuffer p (unat usNRegs);
           Some (MB_ENOERR, pucRegBuffer, s\<lparr>usMRegHoldBuf := set_row dest regs (usMRegHoldBuf s)\<rparr>)
         })
     else Some (MB_ENOREG, pucRegBuffer, s)
   }"

definition eMBMasterRegCoilsCB :: "UCHAR \<Rightarrow> master_regs reg_cb" where
  "eMBMasterRegCoilsCB dest s pucRegBuffer p usAddress usNCoils eMode = do {
     let iNReg = unat (usNCoils div 8 + 1);
     pucCoilBuf \<leftarrow> row dest (ucMCoilBuf s);
     let eMode = MB_REG_WRITE;
     let usAddress = usAddress - 1;
     if unat usMStart \<le> unat usAddress \<and>
        unat usAddress + unat usNCoils \<le> unat usMStart + M_COIL_NCOILS
     then (let iRegIndex = unat ((usAddress - usMStart) div 8);
               iRegBitIndex = (usAddress - usMStart) mod 8 in
       case eMode of
         MB_REG_READ \<Rightarrow> do {
           fr \<leftarrow> coils_to_frame pucRegBuffer p pucCoilBuf iRegIndex iRegBitIndex iNReg;
           fr \<leftarrow> clear_high_bits fr (p + iNReg - 1) (unat (usNCoils mod 8));
           Some (MB_ENOERR, fr, s)
         }
       | MB_REG_WRITE \<Rightarrow> do {
           buf \<leftarrow> store_coils pucCoilBuf iRegIndex iRegBitIndex pucRegBuffer p iNReg usNCoils;
           Some (MB_ENOERR, pucRegBuffer, s\<lparr>ucMCoilBuf := set_row dest buf (ucMCoilBuf s)\<rparr>)
         })
     else Some (MB_ENOREG, pucRegBuffer, s)
   }"

definition eMBMasterRegDiscreteCB :: "UCHAR \<Rightarrow> master_regs input_cb" where
  "eMBMasterRegDiscreteCB dest s pucRegBuffer p usAddress usNDiscrete = do {
     let iNReg = unat (usNDiscrete div 8 + 1);
     pucDiscreteInputBuf \<leftarrow> row dest (ucMDiscInBuf s);
     let usAddress = usAddress - 1;
     if unat usMStart \<le> unat usAddress \<and>
        unat usAddress + unat usNDiscrete \<le> unat usMStart + M_DISCRETE_INPUT_NDISCRETES
     then do {
       let iRegIndex = unat ((usAddress - usMStart) div 8);
       let iRegBitIndex = (usAddress - usMStart) mod 8;
       buf \<leftarrow> store_coils pucDiscreteInputBuf iRegIndex iRegBitIndex pucRegBuffer p iNReg usNDiscrete;
       Some (MB_ENOERR, pucRegBuffer, s\<lparr>ucMDiscInBuf := set_row dest buf (ucMDiscInBuf s)\<rparr>)
     }
     else Some (MB_ENOREG, pucRegBuffer, s)
   }"

section \<open>The rows meet the contracts of a sink\<close>

lemma wf_master_row:
  assumes "wf_master s \<and> has_row d"
  shows "row d (usMRegInBuf s) = Some (the_row d (usMRegInBuf s))" "length (the_row d (usMRegInBuf s)) = 100"
    "row d (usMRegHoldBuf s) = Some (the_row d (usMRegHoldBuf s))" "length (the_row d (usMRegHoldBuf s)) = 100"
    "row d (ucMCoilBuf s) = Some (the_row d (ucMCoilBuf s))" "length (the_row d (ucMCoilBuf s)) = 8"
    "row d (ucMDiscInBuf s) = Some (the_row d (ucMDiscInBuf s))" "length (the_row d (ucMDiscInBuf s)) = 2"
  using assms by (auto simp: wf_master_def row_in rows_ok_length length_the_row)

lemma wf_master_length:
  assumes "wf_master s"
  shows "length (usMRegInBuf s) = 16" "length (usMRegHoldBuf s) = 16" "length (ucMCoilBuf s) = 16"
    "length (ucMDiscInBuf s) = 16"
  using assms by (auto simp: wf_master_def rows_ok_length)

interpretation master_input: reg_sink "eMBMasterRegInputCB d" "\<lambda>s. the_row d (usMRegInBuf s)"
    "\<lambda>rs s. s\<lparr>usMRegInBuf := set_row d rs (usMRegInBuf s)\<rparr>" "\<lambda>s. wf_master s \<and> has_row d" for d
  by unfold_locales (simp_all add: eMBMasterRegInputCB_def usMStart_def master_sizes wf_master_row
      frame_to_regs_eq wf_master_length, simp_all add: wf_master_def rows_ok_set length_the_row)

interpretation master_holding: reg_sink "\<lambda>s fr p a n. eMBMasterRegHoldingCB d s fr p a n m"
    "\<lambda>s. the_row d (usMRegHoldBuf s)"
    "\<lambda>rs s. s\<lparr>usMRegHoldBuf := set_row d rs (usMRegHoldBuf s)\<rparr>" "\<lambda>s. wf_master s \<and> has_row d" for d m
  by unfold_locales (simp_all add: eMBMasterRegHoldingCB_def usMStart_def master_sizes wf_master_row
      frame_to_regs_eq wf_master_length, simp_all add: wf_master_def rows_ok_set length_the_row)

interpretation master_coils: bit_sink "\<lambda>s fr p a n. eMBMasterRegCoilsCB d s fr p a n m"
    "\<lambda>s. the_row d (ucMCoilBuf s)" 64 "store_safe 8"
    "\<lambda>cs s. s\<lparr>ucMCoilBuf := set_row d cs (ucMCoilBuf s)\<rparr>" "\<lambda>s. wf_master s \<and> has_row d" for d m
proof (unfold_locales, goal_cases)
  case (1 s a n p fr)
  then show ?case
    using store_coils_bits [of "the_row d (ucMCoilBuf s)" "unat (a - 1)" n p fr "(a - 1) mod 8"]
    by (auto simp: eMBMasterRegCoilsCB_def usMStart_def master_sizes wf_master_row div8_word mod8_word
        unat_div coil_write_spec_def)
qed (simp_all add: eMBMasterRegCoilsCB_def usMStart_def master_sizes wf_master_row wf_master_length,
    simp add: wf_master_def rows_ok_set)

interpretation master_discrete: bit_sink "eMBMasterRegDiscreteCB d"
    "\<lambda>s. the_row d (ucMDiscInBuf s)" 16 "store_safe 2"
    "\<lambda>cs s. s\<lparr>ucMDiscInBuf := set_row d cs (ucMDiscInBuf s)\<rparr>" "\<lambda>s. wf_master s \<and> has_row d" for d
proof (unfold_locales, goal_cases)
  case (1 s a n p fr)
  then show ?case
    using store_coils_bits [of "the_row d (ucMDiscInBuf s)" "unat (a - 1)" n p fr "(a - 1) mod 8"]
    by (auto simp: eMBMasterRegDiscreteCB_def usMStart_def master_sizes wf_master_row div8_word mod8_word
        unat_div coil_write_spec_def)
qed (simp_all add: eMBMasterRegDiscreteCB_def usMStart_def master_sizes wf_master_row wf_master_length,
    simp add: wf_master_def rows_ok_set)

end
