(* ===== verification/Mb_Master_Func.thy ===== *)
theory Mb_Master_Func
  imports Mb_Master_Regs Mb_Slave_Func
begin

text \<open>
  The master's function handlers, the \<^verbatim>\<open>eMBMasterFunc*\<close> functions of \<^verbatim>\<open>mbfuncholding_m.c\<close>,
  \<^verbatim>\<open>mbfuncinput_m.c\<close>, \<^verbatim>\<open>mbfunccoils_m.c\<close> and \<^verbatim>\<open>mbfuncdisc_m.c\<close>. A handler looks at the reply
  (\<^verbatim>\<open>pucFrame\<close> with its length) and at the request that is still in the send buffer
  (\<open>req\<close>, what \<^verbatim>\<open>vMBMasterGetPDUSndBuf\<close> gives), and stores data through its register callback.
  \<open>broadcast\<close> is \<^verbatim>\<open>xMBMasterRequestIsBroadcast()\<close>.
\<close>

type_synonym 's mfn_result = "(eMBException \<times> 's) option"

text \<open>How every handler ends after its callback.\<close>

definition cb_exception :: "eMBErrorCode \<Rightarrow> eMBException" where
  "cb_exception eRegStatus = (if eRegStatus \<noteq> MB_ENOERR then prveMBError2Exception eRegStatus else MB_EX_NONE)"

section \<open>Holding registers\<close>

definition eMBMasterFuncWriteHoldingRegister ::
  "'s reg_cb \<Rightarrow> 's \<Rightarrow> UCHAR list \<Rightarrow> USHORT \<Rightarrow> 's mfn_result" where
  "eMBMasterFuncWriteHoldingRegister holdingCB s pucFrame usLen =
    (if usLen = 1 + 4
     then do {
       a \<leftarrow> get_u16 pucFrame 1;
       let usRegAddress = a + 1;
       (eRegStatus, _, s) \<leftarrow> holdingCB s pucFrame 3 usRegAddress 1 MB_REG_WRITE;
       Some (cb_exception eRegStatus, s)
     }
     else Some (MB_EX_ILLEGAL_DATA_VALUE, s))"

definition eMBMasterFuncWriteMultipleHoldingRegister ::
  "'s reg_cb \<Rightarrow> bool \<Rightarrow> UCHAR list \<Rightarrow> 's \<Rightarrow> UCHAR list \<Rightarrow> USHORT \<Rightarrow> 's mfn_result" where
  "eMBMasterFuncWriteMultipleHoldingRegister holdingCB broadcast req s pucFrame usLen =
    (if usLen = 1 + 4 \<or> broadcast
     then do {
       a \<leftarrow> get_u16 req 1;
       let usRegAddress = a + 1;
       usRegCount \<leftarrow> get_u16 req 3;
       ucRegByteCount \<leftarrow> rd req 5;
       if unat ucRegByteCount = 2 * unat usRegCount
       then do {
         (eRegStatus, _, s) \<leftarrow> holdingCB s req 6 usRegAddress usRegCount MB_REG_WRITE;
         Some (cb_exception eRegStatus, s)
       }
       else Some (MB_EX_ILLEGAL_DATA_VALUE, s)
     }
     else Some (MB_EX_ILLEGAL_DATA_VALUE, s))"

definition eMBMasterFuncReadHoldingRegister ::
  "'s reg_cb \<Rightarrow> bool \<Rightarrow> UCHAR list \<Rightarrow> 's \<Rightarrow> UCHAR list \<Rightarrow> USHORT \<Rightarrow> 's mfn_result" where
  "eMBMasterFuncReadHoldingRegister holdingCB broadcast req s pucFrame usLen =
    (if broadcast then Some (MB_EX_NONE, s)
     else if 1 + 1 \<le> usLen
     then do {
       a \<leftarrow> get_u16 req 1;
       let usRegAddress = a + 1;
       usRegCount \<leftarrow> get_u16 req 3;
       n \<leftarrow> rd pucFrame 1;
       if 1 \<le> usRegCount \<and> 2 * unat usRegCount = unat n
       then do {
         (eRegStatus, _, s) \<leftarrow> holdingCB s pucFrame 2 usRegAddress usRegCount MB_REG_READ;
         Some (cb_exception eRegStatus, s)
       }
       else Some (MB_EX_ILLEGAL_DATA_VALUE, s)
     }
     else Some (MB_EX_ILLEGAL_DATA_VALUE, s))"

text \<open>A reply that is too short leaves \<^verbatim>\<open>eStatus\<close> at \<^verbatim>\<open>MB_EX_NONE\<close>, as in the slave.\<close>

definition eMBMasterFuncReadWriteMultipleHoldingRegister ::
  "'s reg_cb \<Rightarrow> bool \<Rightarrow> UCHAR list \<Rightarrow> 's \<Rightarrow> UCHAR list \<Rightarrow> USHORT \<Rightarrow> 's mfn_result" where
  "eMBMasterFuncReadWriteMultipleHoldingRegister holdingCB broadcast req s pucFrame usLen =
    (if broadcast then Some (MB_EX_NONE, s)
     else if 1 + 1 \<le> usLen
     then do {
       ra \<leftarrow> get_u16 req 1;
       let usRegReadAddress = ra + 1;
       usRegReadCount \<leftarrow> get_u16 req 3;
       wa \<leftarrow> get_u16 req 5;
       let usRegWriteAddress = wa + 1;
       usRegWriteCount \<leftarrow> get_u16 req 7;
       n \<leftarrow> rd pucFrame 1;
       if 2 * unat usRegReadCount = unat n
       then do {
         (eRegStatus, _, s) \<leftarrow> holdingCB s req 10 usRegWriteAddress usRegWriteCount MB_REG_WRITE;
         (eRegStatus, s) \<leftarrow> (if eRegStatus = MB_ENOERR
           then do {
             (eRegStatus, _, s) \<leftarrow> holdingCB s pucFrame 2 usRegReadAddress usRegReadCount MB_REG_READ;
             Some (eRegStatus, s)
           }
           else Some (eRegStatus, s));
         Some (cb_exception eRegStatus, s)
       }
       else Some (MB_EX_ILLEGAL_DATA_VALUE, s)
     }
     else Some (MB_EX_NONE, s))"

section \<open>Input registers\<close>

definition eMBMasterFuncReadInputRegister ::
  "'s input_cb \<Rightarrow> bool \<Rightarrow> UCHAR list \<Rightarrow> 's \<Rightarrow> UCHAR list \<Rightarrow> USHORT \<Rightarrow> 's mfn_result" where
  "eMBMasterFuncReadInputRegister inputCB broadcast req s pucFrame usLen =
    (if broadcast then Some (MB_EX_NONE, s)
     else if 1 + 1 \<le> usLen
     then do {
       a \<leftarrow> get_u16 req 1;
       let usRegAddress = a + 1;
       usRegCount \<leftarrow> get_u16 req 3;
       n \<leftarrow> rd pucFrame 1;
       if 1 \<le> usRegCount \<and> 2 * unat usRegCount = unat n
       then do {
         (eRegStatus, _, s) \<leftarrow> inputCB s pucFrame 2 usRegAddress usRegCount;
         Some (cb_exception eRegStatus, s)
       }
       else Some (MB_EX_ILLEGAL_DATA_VALUE, s)
     }
     else Some (MB_EX_ILLEGAL_DATA_VALUE, s))"

section \<open>Coils and discrete inputs\<close>

definition eMBMasterFuncReadCoils ::
  "'s reg_cb \<Rightarrow> bool \<Rightarrow> UCHAR list \<Rightarrow> 's \<Rightarrow> UCHAR list \<Rightarrow> USHORT \<Rightarrow> 's mfn_result" where
  "eMBMasterFuncReadCoils coilsCB broadcast req s pucFrame usLen =
    (if broadcast then Some (MB_EX_NONE, s)
     else if 1 + 1 \<le> usLen
     then do {
       a \<leftarrow> get_u16 req 1;
       let usRegAddress = a + 1;
       usCoilCount \<leftarrow> get_u16 req 3;
       let ucByteCount = coil_bytes usCoilCount;
       n \<leftarrow> rd pucFrame 1;
       if 1 \<le> usCoilCount \<and> ucByteCount = n
       then do {
         (eRegStatus, _, s) \<leftarrow> coilsCB s pucFrame 2 usRegAddress usCoilCount MB_REG_READ;
         Some (cb_exception eRegStatus, s)
       }
       else Some (MB_EX_ILLEGAL_DATA_VALUE, s)
     }
     else Some (MB_EX_ILLEGAL_DATA_VALUE, s))"

definition eMBMasterFuncWriteCoil ::
  "'s reg_cb \<Rightarrow> 's \<Rightarrow> UCHAR list \<Rightarrow> USHORT \<Rightarrow> 's mfn_result" where
  "eMBMasterFuncWriteCoil coilsCB s pucFrame usLen =
    (if usLen = 4 + 1
     then do {
       a \<leftarrow> get_u16 pucFrame 1;
       let usRegAddress = a + 1;
       v1 \<leftarrow> rd pucFrame 4;
       v0 \<leftarrow> rd pucFrame 3;
       if v1 = 0x00 \<and> (v0 = 0xFF \<or> v0 = 0x00)
       then do {
         let ucBuf = [if v0 = 0xFF then 1 else 0, 0];
         (eRegStatus, _, s) \<leftarrow> coilsCB s ucBuf 0 usRegAddress 1 MB_REG_WRITE;
         Some (cb_exception eRegStatus, s)
       }
       else Some (MB_EX_ILLEGAL_DATA_VALUE, s)
     }
     else Some (MB_EX_ILLEGAL_DATA_VALUE, s))"

text \<open>Address and count come from the reply here, the data from the request.\<close>

definition eMBMasterFuncWriteMultipleCoils ::
  "'s reg_cb \<Rightarrow> bool \<Rightarrow> UCHAR list \<Rightarrow> 's \<Rightarrow> UCHAR list \<Rightarrow> USHORT \<Rightarrow> 's mfn_result" where
  "eMBMasterFuncWriteMultipleCoils coilsCB broadcast req s pucFrame usLen =
    (if usLen = 5 \<or> broadcast
     then do {
       a \<leftarrow> get_u16 pucFrame 1;
       let usRegAddress = a + 1;
       usCoilCnt \<leftarrow> get_u16 pucFrame 3;
       ucByteCount \<leftarrow> rd req 5;
       let ucByteCountVerify = coil_bytes usCoilCnt;
       if 1 \<le> usCoilCnt \<and> ucByteCountVerify = ucByteCount
       then do {
         (eRegStatus, _, s) \<leftarrow> coilsCB s req 6 usRegAddress usCoilCnt MB_REG_WRITE;
         Some (cb_exception eRegStatus, s)
       }
       else Some (MB_EX_ILLEGAL_DATA_VALUE, s)
     }
     else Some (MB_EX_ILLEGAL_DATA_VALUE, s))"

definition eMBMasterFuncReadDiscreteInputs ::
  "'s input_cb \<Rightarrow> bool \<Rightarrow> UCHAR list \<Rightarrow> 's \<Rightarrow> UCHAR list \<Rightarrow> USHORT \<Rightarrow> 's mfn_result" where
  "eMBMasterFuncReadDiscreteInputs discreteCB broadcast req s pucFrame usLen =
    (if broadcast then Some (MB_EX_NONE, s)
     else if 1 + 1 \<le> usLen
     then do {
       a \<leftarrow> get_u16 req 1;
       let usRegAddress = a + 1;
       usDiscreteCnt \<leftarrow> get_u16 req 3;
       let ucNBytes = coil_bytes usDiscreteCnt;
       n \<leftarrow> rd pucFrame 1;
       if 1 \<le> usDiscreteCnt \<and> ucNBytes = n
       then do {
         (eRegStatus, _, s) \<leftarrow> discreteCB s pucFrame 2 usRegAddress usDiscreteCnt;
         Some (cb_exception eRegStatus, s)
       }
       else Some (MB_EX_ILLEGAL_DATA_VALUE, s)
     }
     else Some (MB_EX_ILLEGAL_DATA_VALUE, s))"

section \<open>Handlers over the callback contracts\<close>

lemma cb_exception_simps [simp]:
  "cb_exception MB_ENOERR = MB_EX_NONE" "cb_exception MB_ENOREG = MB_EX_ILLEGAL_DATA_ADDRESS"
  by (simp_all add: cb_exception_def prveMBError2Exception_def)

text \<open>
  The reply to a read request carries as many bytes as the request asks registers for; the
  registers of the addressed run then hold the values of the reply.
\<close>

context reg_sink
begin

lemma master_read_ok:
  assumes "wf s" "5 \<le> length req" "2 \<le> n" "2 + 2 * unat (req_count req) \<le> length fr"
    and "1 \<le> unat (req_count req)" "unat (fr ! 1) = 2 * unat (req_count req)"
    and "unat (req_addr req) + unat (req_count req) \<le> length (regs s)"
  shows "eMBMasterFuncReadInputRegister wcb False req s fr n =
      Some (MB_EX_NONE, upd (blit (regs s) (unat (req_addr req))
        (bytes_regs (take (2 * unat (req_count req)) (drop 2 fr)))) s)"
    and "eMBMasterFuncReadHoldingRegister (\<lambda>s fr p a n m. wcb s fr p a n) False req s fr n =
      Some (MB_EX_NONE, upd (blit (regs s) (unat (req_addr req))
        (bytes_regs (take (2 * unat (req_count req)) (drop 2 fr)))) s)"
  using assms write_in [of s "req_addr req + 1" "req_count req" 2 fr]
  by (simp_all add: eMBMasterFuncReadInputRegister_def eMBMasterFuncReadHoldingRegister_def count_conv)

lemma master_read_bad_count:
  assumes "5 \<le> length req" "2 \<le> n" "2 \<le> length fr" "unat (fr ! 1) \<noteq> 2 * unat (req_count req)"
  shows "eMBMasterFuncReadHoldingRegister (\<lambda>s fr p a n m. wcb s fr p a n) False req s fr n =
      Some (MB_EX_ILLEGAL_DATA_VALUE, s)"
  using assms by (simp add: eMBMasterFuncReadHoldingRegister_def)

lemma master_write_multiple_ok:
  assumes "wf s" "6 \<le> length req" "n = 5 \<or> broadcast"
    and "unat (req ! 5) = 2 * unat (req_count req)" "6 + 2 * unat (req_count req) \<le> length req"
    and "unat (req_addr req) + unat (req_count req) \<le> length (regs s)"
  shows "eMBMasterFuncWriteMultipleHoldingRegister (\<lambda>s fr p a n m. wcb s fr p a n) broadcast req s fr n =
      Some (MB_EX_NONE, upd (blit (regs s) (unat (req_addr req))
        (bytes_regs (take (2 * unat (req_count req)) (drop 6 req)))) s)"
  using assms write_in [of s "req_addr req + 1" "req_count req" 6 req]
  by (auto simp add: eMBMasterFuncWriteMultipleHoldingRegister_def count_conv)

end

end
