(* ===== verification/Mb_Master.thy ===== *)
theory Mb_Master
  imports Mb_Rtu_M Mb_Master_Func
begin

text \<open>
  The master's protocol stack, \<^verbatim>\<open>pck/freemodbus/modbus/mb_m.c\<close>, and the request functions
  \<^verbatim>\<open>eMBMasterReq*\<close> of \<^verbatim>\<open>functions/mbfunc*_m.c\<close>. A request takes the running resource, writes its
  PDU into the send buffer, posts \<^verbatim>\<open>EV_MASTER_FRAME_SENT\<close> and waits for one of the outcome flags;
  \<^verbatim>\<open>eMBMasterPoll\<close>, in another thread, does the rest and releases the resource.
\<close>

section \<open>State\<close>

datatype master_handler =
    MH_ReportSlaveID | MH_ReadInputRegister | MH_ReadHoldingRegister | MH_WriteMultipleHoldingRegister
  | MH_WriteHoldingRegister | MH_ReadWriteMultipleHoldingRegister | MH_ReadCoils | MH_WriteCoil
  | MH_WriteMultipleCoils | MH_ReadDiscreteInputs

text \<open>The static \<^verbatim>\<open>ucMBFrame\<close> of \<^verbatim>\<open>eMBMasterPoll\<close> points to the PDU received, or to the one sent, or nowhere.\<close>

datatype mb_frame = Rcv_Pdu | Snd_Pdu

record mb_master = mb_rtu_m +
  ucMBMasterDestAddress :: UCHAR
  xMBRunInMasterMode :: bool
  eMBMState :: eMBState
  m_transport :: "eMBMode option"
  ucMBMFrame :: "mb_frame option"
  ucMRcvAddress :: UCHAR
  ucMFunctionCode :: UCHAR
  usMLength :: USHORT
  eMException :: eMBException
  mregs :: master_regs
  m_sid :: slave_id

definition xMasterFuncHandlers :: "(UCHAR \<times> master_handler option) list" where
  "xMasterFuncHandlers =
    [(MB_FUNC_OTHER_REPORT_SLAVEID, Some MH_ReportSlaveID),
     (MB_FUNC_READ_INPUT_REGISTER, Some MH_ReadInputRegister),
     (MB_FUNC_READ_HOLDING_REGISTER, Some MH_ReadHoldingRegister),
     (MB_FUNC_WRITE_MULTIPLE_REGISTERS, Some MH_WriteMultipleHoldingRegister),
     (MB_FUNC_WRITE_REGISTER, Some MH_WriteHoldingRegister),
     (MB_FUNC_READWRITE_MULTIPLE_REGISTERS, Some MH_ReadWriteMultipleHoldingRegister),
     (MB_FUNC_READ_COILS, Some MH_ReadCoils),
     (MB_FUNC_WRITE_SINGLE_COIL, Some MH_WriteCoil),
     (MB_FUNC_WRITE_MULTIPLE_COILS, Some MH_WriteMultipleCoils),
     (MB_FUNC_READ_DISCRETE_INPUTS, Some MH_ReadDiscreteInputs)] @ replicate 6 (0, None)"

definition vMBMasterSetDestAddress :: "UCHAR \<Rightarrow> mb_master \<Rightarrow> mb_master" where
  "vMBMasterSetDestAddress a s = s\<lparr>ucMBMasterDestAddress := a\<rparr>"

definition vMBMasterSetCBRunInMasterMode :: "bool \<Rightarrow> mb_master \<Rightarrow> mb_master" where
  "vMBMasterSetCBRunInMasterMode b s = s\<lparr>xMBRunInMasterMode := b\<rparr>"

section \<open>Starting and stopping\<close>

definition eMBMasterInit ::
  "bool \<Rightarrow> eMBMode \<Rightarrow> UCHAR \<Rightarrow> ULONG \<Rightarrow> eMBParity \<Rightarrow> mb_master \<Rightarrow> (eMBErrorCode \<times> mb_master) option" where
  "eMBMasterInit dev_open eMode ucPort ulBaudRate eParity s = do {
     (eStatus, s) \<leftarrow> (case eMode of
         MB_RTU \<Rightarrow> eMBMasterRTUInit dev_open ucPort ulBaudRate eParity (s\<lparr>m_transport := Some MB_RTU\<rparr>)
       | _ \<Rightarrow> Some (MB_EINVAL, s));
     if eStatus = MB_ENOERR
     then let (ok, s) = xMBMasterPortEventInit s in
       Some (if \<not> ok then (MB_EPORTERR, vMBMasterOsResInit s)
             else (MB_ENOERR, vMBMasterOsResInit (s\<lparr>eMBMState := STATE_DISABLED\<rparr>)))
     else Some (eStatus, s)
   }"

definition eMBMasterClose :: "mb_master \<Rightarrow> eMBErrorCode" where
  "eMBMasterClose s = (if eMBMState s = STATE_DISABLED then MB_ENOERR else MB_EILLSTATE)"

definition eMBMasterEnable :: "mb_master \<Rightarrow> (eMBErrorCode \<times> mb_master) option" where
  "eMBMasterEnable s =
    (if eMBMState s = STATE_DISABLED
     then do {
       _ \<leftarrow> m_transport s;
       s \<leftarrow> eMBMasterRTUStart s;
       Some (MB_ENOERR, s\<lparr>eMBMState := STATE_ENABLED\<rparr>)
     }
     else Some (MB_EILLSTATE, s))"

definition eMBMasterDisable :: "mb_master \<Rightarrow> (eMBErrorCode \<times> mb_master) option" where
  "eMBMasterDisable s =
    (if eMBMState s = STATE_ENABLED
     then do {
       _ \<leftarrow> m_transport s;
       s \<leftarrow> eMBMasterRTUStop s;
       Some (MB_ENOERR, s\<lparr>eMBMState := STATE_DISABLED\<rparr>)
     }
     else if eMBMState s = STATE_DISABLED then Some (MB_ENOERR, s)
     else Some (MB_EILLSTATE, s))"

section \<open>Dispatch\<close>

definition frame_of :: "mb_frame \<Rightarrow> mb_master \<Rightarrow> UCHAR list" where
  "frame_of f s = (case f of Rcv_Pdu \<Rightarrow> drop 1 (ucMasterRTURcvBuf s) | Snd_Pdu \<Rightarrow> drop 1 (ucMasterRTUSndBuf s))"

definition set_frame :: "mb_frame \<Rightarrow> UCHAR list \<Rightarrow> mb_master \<Rightarrow> mb_master" where
  "set_frame f fr s = (case f of
     Rcv_Pdu \<Rightarrow> s\<lparr>ucMasterRTURcvBuf := take 1 (ucMasterRTURcvBuf s) @ fr\<rparr>
   | Snd_Pdu \<Rightarrow> s\<lparr>ucMasterRTUSndBuf := take 1 (ucMasterRTUSndBuf s) @ fr\<rparr>)"

definition call_master_handler ::
  "master_handler \<Rightarrow> UCHAR \<Rightarrow> bool \<Rightarrow> UCHAR list \<Rightarrow> slave_id \<Rightarrow> master_regs \<Rightarrow> UCHAR list \<Rightarrow> USHORT \<Rightarrow>
   (eMBException \<times> UCHAR list \<times> USHORT \<times> master_regs) option" where
  "call_master_handler h dest broadcast req i r fr n = (case h of
     MH_ReportSlaveID \<Rightarrow> map_option (\<lambda>(e, fr, n). (e, fr, n, r)) (eMBFuncReportSlaveID i fr)
   | MH_ReadInputRegister \<Rightarrow> map_option (\<lambda>(e, r). (e, fr, n, r))
       (eMBMasterFuncReadInputRegister (eMBMasterRegInputCB dest) broadcast req r fr n)
   | MH_ReadHoldingRegister \<Rightarrow> map_option (\<lambda>(e, r). (e, fr, n, r))
       (eMBMasterFuncReadHoldingRegister (eMBMasterRegHoldingCB dest) broadcast req r fr n)
   | MH_WriteMultipleHoldingRegister \<Rightarrow> map_option (\<lambda>(e, r). (e, fr, n, r))
       (eMBMasterFuncWriteMultipleHoldingRegister (eMBMasterRegHoldingCB dest) broadcast req r fr n)
   | MH_WriteHoldingRegister \<Rightarrow> map_option (\<lambda>(e, r). (e, fr, n, r))
       (eMBMasterFuncWriteHoldingRegister (eMBMasterRegHoldingCB dest) r fr n)
   | MH_ReadWriteMultipleHoldingRegister \<Rightarrow> map_option (\<lambda>(e, r). (e, fr, n, r))
       (eMBMasterFuncReadWriteMultipleHoldingRegister (eMBMasterRegHoldingCB dest) broadcast req r fr n)
   | MH_ReadCoils \<Rightarrow> map_option (\<lambda>(e, r). (e, fr, n, r))
       (eMBMasterFuncReadCoils (eMBMasterRegCoilsCB dest) broadcast req r fr n)
   | MH_WriteCoil \<Rightarrow> map_option (\<lambda>(e, r). (e, fr, n, r))
       (eMBMasterFuncWriteCoil (eMBMasterRegCoilsCB dest) r fr n)
   | MH_WriteMultipleCoils \<Rightarrow> map_option (\<lambda>(e, r). (e, fr, n, r))
       (eMBMasterFuncWriteMultipleCoils (eMBMasterRegCoilsCB dest) broadcast req r fr n)
   | MH_ReadDiscreteInputs \<Rightarrow> map_option (\<lambda>(e, r). (e, fr, n, r))
       (eMBMasterFuncReadDiscreteInputs (eMBMasterRegDiscreteCB dest) broadcast req r fr n))"

definition run_master_handler :: "master_handler \<Rightarrow> mb_master \<Rightarrow> mb_master option" where
  "run_master_handler h s = do {
     f \<leftarrow> ucMBMFrame s;
     (e, fr, n, r) \<leftarrow> call_master_handler h (ucMBMasterDestAddress s) (xFrameIsBroadcast s)
        (drop 1 (ucMasterRTUSndBuf s)) (m_sid s) (mregs s) (frame_of f s) (usMLength s);
     Some ((set_frame f fr s)\<lparr>eMException := e, usMLength := n, mregs := r\<rparr>)
   }"

text \<open>A broadcast is executed for every slave the master knows.\<close>

fun for_slaves :: "master_handler \<Rightarrow> UCHAR list \<Rightarrow> mb_master \<Rightarrow> mb_master option" where
  "for_slaves h [] s = Some s"
| "for_slaves h (j # js) s = do {
     s \<leftarrow> run_master_handler h (vMBMasterSetDestAddress j s);
     for_slaves h js s
   }"

fun find_master_handler ::
  "UCHAR \<Rightarrow> (UCHAR \<times> master_handler option) list \<Rightarrow> master_handler option option" where
  "find_master_handler fc [] = None"
| "find_master_handler fc ((c, g) # hs) =
     (if c = 0 then None else if c = fc then Some g else find_master_handler fc hs)"

definition m_poll_received :: "mb_master \<Rightarrow> mb_master option" where
  "m_poll_received s = do {
     (eStatus, out) \<leftarrow> eMBMasterRTUReceive s;
     let s = (case out of None \<Rightarrow> s
       | Some (a, n) \<Rightarrow> s\<lparr>ucMRcvAddress := a, ucMBMFrame := Some Rcv_Pdu, usMLength := n\<rparr>);
     (_, s) \<leftarrow> (if eStatus = MB_ENOERR \<and> ucMRcvAddress s = ucMBMasterDestAddress s
       then xMBMasterPortEventPost EV_MASTER_EXECUTE s
       else xMBMasterPortEventPost EV_MASTER_ERROR_PROCESS (vMBMasterSetErrorType EV_ERROR_RECEIVE_DATA s));
     Some s
   }"

definition m_poll_execute :: "mb_master \<Rightarrow> mb_master option" where
  "m_poll_execute s = do {
     f \<leftarrow> ucMBMFrame s;
     fc \<leftarrow> rd (frame_of f s) 0;
     let s = s\<lparr>ucMFunctionCode := fc, eMException := MB_EX_ILLEGAL_FUNCTION\<rparr>;
     s \<leftarrow> (if drop_bit 7 fc \<noteq> 0
       then do { e \<leftarrow> rd (frame_of f s) 1; Some (s\<lparr>eMException := e\<rparr>) }
       else case find_master_handler fc xMasterFuncHandlers of
           None \<Rightarrow> Some s
         | Some None \<Rightarrow> None
         | Some (Some h) \<Rightarrow> do {
             let s = vMBMasterSetCBRunInMasterMode True s;
             s \<leftarrow> (if xFrameIsBroadcast s
               then for_slaves h (map of_nat [1..<MB_MASTER_TOTAL_SLAVE_NUM + 1])
                 (s\<lparr>usMLength := usMasterSendPDULength s\<rparr>)
               else run_master_handler h s);
             Some (vMBMasterSetCBRunInMasterMode False s)
           });
     if eMException s \<noteq> MB_EX_NONE
     then do {
       (_, s) \<leftarrow> xMBMasterPortEventPost EV_MASTER_ERROR_PROCESS
         (vMBMasterSetErrorType EV_ERROR_EXECUTE_FUNCTION s);
       Some s
     }
     else do {
       s \<leftarrow> vMBMasterCBRequestScuuess s;
       vMBMasterRunResRelease s
     }
   }"

definition m_poll_sent :: "mb_master \<Rightarrow> mb_master option" where
  "m_poll_sent s = do {
     let s = s\<lparr>ucMBMFrame := Some Snd_Pdu\<rparr>;
     (_, s) \<leftarrow> eMBMasterRTUSend (ucMBMasterDestAddress s) 1 (usMasterSendPDULength s) s;
     Some s
   }"

definition m_poll_error :: "mb_master \<Rightarrow> mb_master option" where
  "m_poll_error s = do {
     let s = s\<lparr>ucMBMFrame := Some Snd_Pdu\<rparr>;
     s \<leftarrow> (case eMBMasterCurErrorType s of
         EV_ERROR_RESPOND_TIMEOUT \<Rightarrow> vMBMasterErrorCBRespondTimeout s
       | EV_ERROR_RECEIVE_DATA \<Rightarrow> vMBMasterErrorCBReceiveData s
       | EV_ERROR_EXECUTE_FUNCTION \<Rightarrow> vMBMasterErrorCBExecuteFunction s);
     vMBMasterRunResRelease s
   }"

datatype m_poll_result = M_Poll_Done eMBErrorCode | M_Poll_Wait tid

text \<open>
  The flags that \<^verbatim>\<open>xMBMasterPortEventGet\<close> can return are the five of the poll loop; for
  the others the switch has no case.
\<close>

definition eMBMasterPoll :: "mb_master \<Rightarrow> (m_poll_result \<times> mb_master) option" where
  "eMBMasterPoll s =
    (if eMBMState s \<noteq> STATE_ENABLED then Some (M_Poll_Done MB_EILLSTATE, s)
     else do {
       (ev, s) \<leftarrow> xMBMasterPortEventGet s;
       case ev of
         Event_Wait t \<Rightarrow> Some (M_Poll_Wait t, s)
       | Event_Got None \<Rightarrow> None
       | Event_Got (Some eEvent) \<Rightarrow> do {
           s \<leftarrow> (case eEvent of
               EV_MASTER_READY \<Rightarrow> Some s
             | EV_MASTER_FRAME_RECEIVED \<Rightarrow> m_poll_received s
             | EV_MASTER_EXECUTE \<Rightarrow> m_poll_execute s
             | EV_MASTER_FRAME_SENT \<Rightarrow> m_poll_sent s
             | EV_MASTER_ERROR_PROCESS \<Rightarrow> m_poll_error s
             | _ \<Rightarrow> Some s);
           Some (M_Poll_Done MB_ENOERR, s)
         }
     })"

section \<open>Requests\<close>

text \<open>Consecutive writes \<^verbatim>\<open>*ucMBFrame++ = b\<close>, and the copy of \<open>n\<close> bytes of a caller's array.\<close>

fun put_bytes :: "UCHAR list \<Rightarrow> nat \<Rightarrow> UCHAR list \<Rightarrow> UCHAR list option" where
  "put_bytes buf i [] = Some buf"
| "put_bytes buf i (b # bs) = do { buf \<leftarrow> wr buf i b; put_bytes buf (i + 1) bs }"

fun copy_bytes :: "UCHAR list \<Rightarrow> nat \<Rightarrow> UCHAR list \<Rightarrow> nat \<Rightarrow> nat \<Rightarrow> UCHAR list option" where
  "copy_bytes buf p src i 0 = Some buf"
| "copy_bytes buf p src i (Suc n) = do {
     v \<leftarrow> rd src i;
     buf \<leftarrow> wr buf p v;
     copy_bytes buf (p + 1) src (i + 1) n
   }"

text \<open>
  A request after it got the resource: it fills the send buffer from index 1 on, sets the
  destination and the length, and posts the event. Then it waits.
\<close>

definition req_fill ::
  "UCHAR \<Rightarrow> UCHAR list \<Rightarrow> (UCHAR list \<Rightarrow> UCHAR list option) \<Rightarrow> USHORT \<Rightarrow> mb_master \<Rightarrow> mb_master option" where
  "req_fill ucSndAddr header data len s = do {
     let s = vMBMasterSetDestAddress ucSndAddr s;
     buf \<leftarrow> put_bytes (ucMasterRTUSndBuf s) 1 header;
     buf \<leftarrow> data buf;
     Some (vMBMasterSetPDUSndLength len (s\<lparr>ucMasterRTUSndBuf := buf\<rparr>))
   }"

definition req_begin :: "(mb_master \<Rightarrow> mb_master option) \<Rightarrow> mb_master \<Rightarrow> mb_master option" where
  "req_begin fill s = do {
     s \<leftarrow> fill s;
     (_, s) \<leftarrow> xMBMasterPortEventPost EV_MASTER_FRAME_SENT s;
     Some s
   }"

definition master_req ::
  "bool \<Rightarrow> (mb_master \<Rightarrow> mb_master option) \<Rightarrow> int \<Rightarrow> mb_master \<Rightarrow> (req_result \<times> mb_master) option" where
  "master_req arg_ok fill lTimeOut s =
    (if \<not> arg_ok then Some (Req_Done MB_MRE_ILL_ARG, s)
     else do {
       (r, s) \<leftarrow> xMBMasterRunResTake lTimeOut s;
       case r of
         Run_Taken False \<Rightarrow> Some (Req_Done MB_MRE_MASTER_BUSY, s)
       | Run_Taken True \<Rightarrow> do { s \<leftarrow> req_begin fill s; eMBMasterWaitRequestFinish s }
       | Run_Wait t \<Rightarrow> Some (Req_Wait_Res t, s)
     })"

text \<open>A request that had to wait for the resource goes on here when its thread runs again.\<close>

definition master_req_resume ::
  "(mb_master \<Rightarrow> mb_master option) \<Rightarrow> tid \<Rightarrow> mb_master \<Rightarrow> (req_result \<times> mb_master) option" where
  "master_req_resume fill t s =
    (if rt_sem_take_return t (kern s) \<noteq> 0 then Some (Req_Done MB_MRE_MASTER_BUSY, s)
     else do { s \<leftarrow> req_begin fill s; eMBMasterWaitRequestFinish s })"

definition fill_read :: "UCHAR \<Rightarrow> UCHAR \<Rightarrow> USHORT \<Rightarrow> USHORT \<Rightarrow> mb_master \<Rightarrow> mb_master option" where
  "fill_read fc ucSndAddr usAddr n =
    req_fill ucSndAddr [fc, hi8 usAddr, lo8 usAddr, hi8 n, lo8 n] Some (1 + 4)"

definition eMBMasterReqReadHoldingRegister ::
  "UCHAR \<Rightarrow> USHORT \<Rightarrow> USHORT \<Rightarrow> int \<Rightarrow> mb_master \<Rightarrow> (req_result \<times> mb_master) option" where
  "eMBMasterReqReadHoldingRegister ucSndAddr usRegAddr usNRegs lTimeOut s =
    master_req (unat ucSndAddr \<le> MB_MASTER_TOTAL_SLAVE_NUM)
      (fill_read MB_FUNC_READ_HOLDING_REGISTER ucSndAddr usRegAddr usNRegs) lTimeOut s"

definition eMBMasterReqReadInputRegister ::
  "UCHAR \<Rightarrow> USHORT \<Rightarrow> USHORT \<Rightarrow> int \<Rightarrow> mb_master \<Rightarrow> (req_result \<times> mb_master) option" where
  "eMBMasterReqReadInputRegister ucSndAddr usRegAddr usNRegs lTimeOut s =
    master_req (unat ucSndAddr \<le> MB_MASTER_TOTAL_SLAVE_NUM)
      (fill_read MB_FUNC_READ_INPUT_REGISTER ucSndAddr usRegAddr usNRegs) lTimeOut s"

definition eMBMasterReqReadCoils ::
  "UCHAR \<Rightarrow> USHORT \<Rightarrow> USHORT \<Rightarrow> int \<Rightarrow> mb_master \<Rightarrow> (req_result \<times> mb_master) option" where
  "eMBMasterReqReadCoils ucSndAddr usCoilAddr usNCoils lTimeOut s =
    master_req (unat ucSndAddr \<le> MB_MASTER_TOTAL_SLAVE_NUM)
      (fill_read MB_FUNC_READ_COILS ucSndAddr usCoilAddr usNCoils) lTimeOut s"

definition eMBMasterReqReadDiscreteInputs ::
  "UCHAR \<Rightarrow> USHORT \<Rightarrow> USHORT \<Rightarrow> int \<Rightarrow> mb_master \<Rightarrow> (req_result \<times> mb_master) option" where
  "eMBMasterReqReadDiscreteInputs ucSndAddr usDiscreteAddr usNDiscreteIn lTimeOut s =
    master_req (unat ucSndAddr \<le> MB_MASTER_TOTAL_SLAVE_NUM)
      (fill_read MB_FUNC_READ_DISCRETE_INPUTS ucSndAddr usDiscreteAddr usNDiscreteIn) lTimeOut s"

definition eMBMasterReqWriteHoldingRegister ::
  "UCHAR \<Rightarrow> USHORT \<Rightarrow> USHORT \<Rightarrow> int \<Rightarrow> mb_master \<Rightarrow> (req_result \<times> mb_master) option" where
  "eMBMasterReqWriteHoldingRegister ucSndAddr usRegAddr usRegData lTimeOut s =
    master_req (unat ucSndAddr \<le> MB_MASTER_TOTAL_SLAVE_NUM)
      (req_fill ucSndAddr
        [MB_FUNC_WRITE_REGISTER, hi8 usRegAddr, lo8 usRegAddr, hi8 usRegData, lo8 usRegData] Some (1 + 4))
      lTimeOut s"

definition eMBMasterReqWriteCoil ::
  "UCHAR \<Rightarrow> USHORT \<Rightarrow> USHORT \<Rightarrow> int \<Rightarrow> mb_master \<Rightarrow> (req_result \<times> mb_master) option" where
  "eMBMasterReqWriteCoil ucSndAddr usCoilAddr usCoilData lTimeOut s =
    master_req (unat ucSndAddr \<le> MB_MASTER_TOTAL_SLAVE_NUM \<and> (usCoilData = 0xFF00 \<or> usCoilData = 0x0000))
      (req_fill ucSndAddr
        [MB_FUNC_WRITE_SINGLE_COIL, hi8 usCoilAddr, lo8 usCoilAddr, hi8 usCoilData, lo8 usCoilData] Some (1 + 4))
      lTimeOut s"

definition eMBMasterReqWriteMultipleHoldingRegister ::
  "UCHAR \<Rightarrow> USHORT \<Rightarrow> USHORT \<Rightarrow> USHORT list \<Rightarrow> int \<Rightarrow> mb_master \<Rightarrow> (req_result \<times> mb_master) option" where
  "eMBMasterReqWriteMultipleHoldingRegister ucSndAddr usRegAddr usNRegs pusDataBuffer lTimeOut s =
    master_req (unat ucSndAddr \<le> MB_MASTER_TOTAL_SLAVE_NUM)
      (req_fill ucSndAddr
        [MB_FUNC_WRITE_MULTIPLE_REGISTERS, hi8 usRegAddr, lo8 usRegAddr, hi8 usNRegs, lo8 usNRegs,
         ucast (usNRegs * 2)]
        (\<lambda>buf. regs_to_frame buf 7 pusDataBuffer 0 (unat usNRegs)) (1 + 5 + 2 * usNRegs))
      lTimeOut s"

definition eMBMasterReqReadWriteMultipleHoldingRegister ::
  "UCHAR \<Rightarrow> USHORT \<Rightarrow> USHORT \<Rightarrow> USHORT list \<Rightarrow> USHORT \<Rightarrow> USHORT \<Rightarrow> int \<Rightarrow> mb_master \<Rightarrow>
   (req_result \<times> mb_master) option" where
  "eMBMasterReqReadWriteMultipleHoldingRegister ucSndAddr usReadRegAddr usNReadRegs pusDataBuffer
      usWriteRegAddr usNWriteRegs lTimeOut s =
    master_req (unat ucSndAddr \<le> MB_MASTER_TOTAL_SLAVE_NUM)
      (req_fill ucSndAddr
        [MB_FUNC_READWRITE_MULTIPLE_REGISTERS, hi8 usReadRegAddr, lo8 usReadRegAddr,
         hi8 usNReadRegs, lo8 usNReadRegs, hi8 usWriteRegAddr, lo8 usWriteRegAddr,
         hi8 usNWriteRegs, lo8 usNWriteRegs, ucast (usNWriteRegs * 2)]
        (\<lambda>buf. regs_to_frame buf 11 pusDataBuffer 0 (unat usNWriteRegs)) (1 + 9 + 2 * usNWriteRegs))
      lTimeOut s"

definition eMBMasterReqWriteMultipleCoils ::
  "UCHAR \<Rightarrow> USHORT \<Rightarrow> USHORT \<Rightarrow> UCHAR list \<Rightarrow> int \<Rightarrow> mb_master \<Rightarrow> (req_result \<times> mb_master) option" where
  "eMBMasterReqWriteMultipleCoils ucSndAddr usCoilAddr usNCoils pucDataBuffer lTimeOut s =
    master_req (unat ucSndAddr \<le> MB_MASTER_TOTAL_SLAVE_NUM \<and> usNCoils \<le> 0x07B0)
      (req_fill ucSndAddr
        [MB_FUNC_WRITE_MULTIPLE_COILS, hi8 usCoilAddr, lo8 usCoilAddr, hi8 usNCoils, lo8 usNCoils,
         coil_bytes usNCoils]
        (\<lambda>buf. copy_bytes buf 7 pucDataBuffer 0 (unat (coil_bytes usNCoils)))
        (1 + 5 + ucast (coil_bytes usNCoils)))
      lTimeOut s"

lemma put_bytes_eq: "i + length bs \<le> length buf \<Longrightarrow> put_bytes buf i bs = Some (blit buf i bs)"
proof (induction bs arbitrary: buf i)
  case (Cons b bs)
  then show ?case
    using blit_Cons [of i bs buf b] by simp
qed simp

lemma copy_bytes_eq:
  "p + n \<le> length buf \<Longrightarrow> i + n \<le> length src \<Longrightarrow>
   copy_bytes buf p src i n = Some (blit buf p (take n (drop i src)))"
proof (induction n arbitrary: buf p i)
  case (Suc n)
  have "take (Suc n) (drop i src) = src ! i # take n (drop (Suc i) src)"
    using Suc.prems by (simp add: Cons_nth_drop_Suc [symmetric])
  then show ?case
    using Suc blit_Cons [of p "take n (drop (Suc i) src)" buf "src ! i"] by simp
qed simp

end
