(* ===== verification/Mb_Master_Run.thy ===== *)
theory Mb_Master_Run
  imports Mb_Master
begin

text \<open>
  The course of a request through the master: what the request leaves for the poll loop, what
  the poll loop does with each event, and what the requester is told. The requester is taken
  to be preempted before its wait, so that the flags are collected in the event object;
  that waiting first makes no difference is \<open>rt_event_wait_then_send\<close> of \<open>Rt_Event\<close>.
\<close>

section \<open>Events of the master\<close>

definition m_poll_ev :: "eMBMasterEventType \<Rightarrow> bool" where
  "m_poll_ev e \<longleftrightarrow> e \<in> {EV_MASTER_READY, EV_MASTER_FRAME_RECEIVED, EV_MASTER_EXECUTE, EV_MASTER_FRAME_SENT,
     EV_MASTER_ERROR_PROCESS}"

definition m_out_ev :: "eMBMasterEventType \<Rightarrow> bool" where
  "m_out_ev e \<longleftrightarrow> \<not> m_poll_ev e"

lemma xMBMasterPortEventGet_one:
  assumes "port_calm s" "ev_set (os_event s) = m_ev_code e" "m_poll_ev e"
  shows "\<exists>k. xMBMasterPortEventGet s = Some (Event_Got (Some e),
      s\<lparr>os_event := (os_event s)\<lparr>ev_set := 0\<rparr>, kern := k\<rparr>) \<and>
    rt_current_thread k = rt_current_thread (kern s) \<and> rt_interrupt_nest k = rt_interrupt_nest (kern s)"
proof -
  obtain t where t: "rt_current_thread (kern s) = Some t" "rt_interrupt_nest (kern s) = 0"
    using assms(1) by (auto simp: port_calm_def)
  have "m_ev_code e AND (1 OR 2 OR 4 OR 8 OR 16) = m_ev_code e"
    "m_ev_code e AND NOT (1 OR 2 OR 4 OR 8 OR 16) = 0" "m_ev_decode (m_ev_code e) = Some e"
    using assms(3) by (auto simp: m_poll_ev_def m_ev_code_def m_ev_decode_def)
  then show ?thesis
    using rt_event_recv_ready [OF t, of "os_event s" "1 OR 2 OR 4 OR 8 OR 16" RT_WAITING_FOREVER] assms(2) t
    by (auto simp: xMBMasterPortEventGet_def set_error_def)
qed

lemma eMBMasterWaitRequestFinish_flags:
  assumes "port_calm s" "ev_set (os_event s) AND (32 OR 64 OR 128 OR 256) = f" "f \<noteq> 0"
  shows "\<exists>k. eMBMasterWaitRequestFinish s = Some (Req_Done (m_outcome f),
      s\<lparr>os_event := (os_event s)\<lparr>ev_set := ev_set (os_event s) AND NOT (32 OR 64 OR 128 OR 256)\<rparr>, kern := k\<rparr>) \<and>
    rt_current_thread k = rt_current_thread (kern s) \<and> rt_interrupt_nest k = rt_interrupt_nest (kern s)"
proof -
  obtain t where t: "rt_current_thread (kern s) = Some t" "rt_interrupt_nest (kern s) = 0"
    using assms(1) by (auto simp: port_calm_def)
  show ?thesis
    using rt_event_recv_ready [OF t, of "os_event s" "32 OR 64 OR 128 OR 256" RT_WAITING_FOREVER] assms(2,3) t
    by (auto simp: eMBMasterWaitRequestFinish_def set_error_def)
qed

section \<open>The idle master\<close>

definition res_free :: "'a mb_port_m_scheme \<Rightarrow> bool" where
  "res_free s \<longleftrightarrow> suspend_thread (xMasterRunRes s) = []"

text \<open>The stack is enabled and nobody waits on it; the running resource has \<open>v\<close> units.\<close>

definition master_base :: "16 word \<Rightarrow> mb_master \<Rightarrow> bool" where
  "master_base v s \<longleftrightarrow> eMBMState s = STATE_ENABLED \<and> port_calm s \<and> res_free s \<and> rtu_m_listens s \<and>
     eMRcvState s = STATE_M_RX_IDLE \<and> length (ucMasterRTUSndBuf s) = 253 \<and>
     sem_value (xMasterRunRes s) = v"

text \<open>Besides, no transfer is going on, and the flags \<open>ev\<close> are pending.\<close>

definition master_quiet :: "16 word \<Rightarrow> 32 word \<Rightarrow> mb_master \<Rightarrow> bool" where
  "master_quiet v ev s \<longleftrightarrow> master_base v s \<and> eMSndState s = STATE_M_TX_IDLE \<and> ev_set (os_event s) = ev"

abbreviation (input) master_idle :: "mb_master \<Rightarrow> bool" where
  "master_idle s \<equiv> master_quiet 1 0 s"

text \<open>The last request, \<open>req\<close>, went to slave \<open>a\<close>.\<close>

definition holds_req :: "UCHAR \<Rightarrow> UCHAR list \<Rightarrow> mb_master \<Rightarrow> bool" where
  "holds_req a req s \<longleftrightarrow> ucMBMasterDestAddress s = a \<and> req \<noteq> [] \<and> length req \<le> 252 \<and>
     take (length req) (drop 1 (ucMasterRTUSndBuf s)) = req"

lemma master_base_eq:
  assumes "master_base v s" "eMBMState s' = eMBMState s" "port_calm s'"
    and "suspend_thread (xMasterRunRes s') = []" "eMSndState s' \<noteq> STATE_M_TX_XMIT" "rx_fifo s' = []"
    and "length (ucMasterRTURcvBuf s') = 256" "eMRcvState s' = STATE_M_RX_IDLE"
    and "length (ucMasterRTUSndBuf s') = 253" "sem_value (xMasterRunRes s') = v'"
  shows "master_base v' s'"
  using assms by (simp add: master_base_def port_calm_def res_free_def rtu_m_listens_def)

lemma master_baseD:
  assumes "master_base v s"
  shows "eMBMState s = STATE_ENABLED" "port_calm s" "res_free s" "rtu_m_listens s"
    "eMRcvState s = STATE_M_RX_IDLE" "length (ucMasterRTUSndBuf s) = 253" "sem_value (xMasterRunRes s) = v"
    "suspend_thread (os_event s) = []" "suspend_thread (event_serial s) = []"
    "suspend_thread (xMasterRunRes s) = []" "rx_fifo s = []" "length (ucMasterRTURcvBuf s) = 256"
    "eMSndState s \<noteq> STATE_M_TX_XMIT"
  using assms by (simp_all add: master_base_def port_calm_def res_free_def rtu_m_listens_def)

lemma vMBMasterRunResRelease_free:
  "res_free s \<Longrightarrow> vMBMasterRunResRelease s =
   Some (s\<lparr>xMasterRunRes := (xMasterRunRes s)\<lparr>sem_value := sem_value (xMasterRunRes s) + 1\<rparr>\<rparr>)"
  by (simp add: vMBMasterRunResRelease_def res_free_def rt_sem_release_def)

lemma xMBMasterRunResTake_free:
  "0 < sem_value (xMasterRunRes s) \<Longrightarrow> xMBMasterRunResTake t s =
   Some (Run_Taken True, s\<lparr>xMasterRunRes := (xMasterRunRes s)\<lparr>sem_value := sem_value (xMasterRunRes s) - 1\<rparr>\<rparr>)"
  by (simp add: xMBMasterRunResTake_def rt_sem_take_def)

text \<open>Without a unit and without waiting, a request is refused.\<close>

lemma master_req_busy:
  assumes "sem_value (xMasterRunRes s) = 0"
  shows "master_req True fill 0 s = Some (Req_Done MB_MRE_MASTER_BUSY, s)"
  using assms by (simp add: master_req_def xMBMasterRunResTake_def rt_sem_take_def)

lemma m_post_outcome_idle [simp]:
  "suspend_thread (os_event s) = [] \<Longrightarrow> m_post_outcome e s =
   Some (s\<lparr>os_event := (os_event s)\<lparr>ev_set := ev_set (os_event s) OR m_ev_code e\<rparr>\<rparr>)"
  by (simp add: m_post_outcome_def)

section \<open>One poll\<close>

text \<open>The poll that finds the event \<open>e\<close> alone runs that case of its switch.\<close>

lemma eMBMasterPoll_one:
  assumes "eMBMState s = STATE_ENABLED" "port_calm s" "ev_set (os_event s) = m_ev_code e" "m_poll_ev e"
  shows "\<exists>s'. port_calm s' \<and> (\<exists>k. s' = s\<lparr>os_event := (os_event s)\<lparr>ev_set := 0\<rparr>, kern := k\<rparr>) \<and>
    eMBMasterPoll s = do {
       s \<leftarrow> (case e of
           EV_MASTER_READY \<Rightarrow> Some s'
         | EV_MASTER_FRAME_RECEIVED \<Rightarrow> m_poll_received s'
         | EV_MASTER_EXECUTE \<Rightarrow> m_poll_execute s'
         | EV_MASTER_FRAME_SENT \<Rightarrow> m_poll_sent s'
         | EV_MASTER_ERROR_PROCESS \<Rightarrow> m_poll_error s'
         | _ \<Rightarrow> Some s');
       Some (M_Poll_Done MB_ENOERR, s)
     }"
proof -
  obtain k where k: "xMBMasterPortEventGet s = Some (Event_Got (Some e),
      s\<lparr>os_event := (os_event s)\<lparr>ev_set := 0\<rparr>, kern := k\<rparr>)"
    "rt_current_thread k = rt_current_thread (kern s)" "rt_interrupt_nest k = rt_interrupt_nest (kern s)"
    using xMBMasterPortEventGet_one [OF assms(2-4)] by blast
  then show ?thesis
    using assms(1,2)
    by (intro exI [of _ "s\<lparr>os_event := (os_event s)\<lparr>ev_set := 0\<rparr>, kern := k\<rparr>"] conjI exI [of _ k])
      (simp_all add: port_calm_def eMBMasterPoll_def)
qed

section \<open>Posting a request\<close>

lemma blit_in_place:
  assumes "i + length ys \<le> length xs"
  shows "take (length ys) (drop i (blit xs i ys)) = ys" "length (blit xs i ys) = length xs"
  using assms by simp_all

text \<open>
  A request whose PDU fits leaves it in the buffer, takes the resource and posts the event; what
  remains of it is the wait.
\<close>

definition posted :: "16 word \<Rightarrow> 32 word \<Rightarrow> UCHAR \<Rightarrow> UCHAR list \<Rightarrow> mb_master \<Rightarrow> mb_master \<Rightarrow> bool" where
  "posted v ev a req s s' \<longleftrightarrow> master_quiet v (ev OR m_ev_code EV_MASTER_FRAME_SENT) s' \<and> holds_req a req s' \<and>
     usMasterSendPDULength s' = of_nat (length req) \<and> mregs s' = mregs s \<and> tx_line s' = tx_line s \<and>
     xFrameIsBroadcast s' = xFrameIsBroadcast s"

lemma master_req_posts:
  assumes quiet: "master_quiet v ev s" "0 < v" and req: "req \<noteq> []" "length req \<le> 252"
    and fill: "\<And>s. length (ucMasterRTUSndBuf s) = 253 \<Longrightarrow> fill s =
      Some (vMBMasterSetPDUSndLength (of_nat (length req))
        ((vMBMasterSetDestAddress a s)\<lparr>ucMasterRTUSndBuf := blit (ucMasterRTUSndBuf s) 1 req\<rparr>))"
  shows "\<exists>s1. master_req True fill t s = eMBMasterWaitRequestFinish s1 \<and> posted (v - 1) ev a req s s1"
proof -
  have B: "master_base v s" "eMSndState s = STATE_M_TX_IDLE" "ev_set (os_event s) = ev"
    using quiet by (auto simp: master_quiet_def)
  note D = master_baseD [OF B(1)]
  let ?s1 = "s\<lparr>xMasterRunRes := (xMasterRunRes s)\<lparr>sem_value := v - 1\<rparr>, ucMBMasterDestAddress := a,
    ucMasterRTUSndBuf := blit (ucMasterRTUSndBuf s) 1 req, usMasterSendPDULength := of_nat (length req),
    os_event := (os_event s)\<lparr>ev_set := ev OR m_ev_code EV_MASTER_FRAME_SENT\<rparr>\<rparr>"
  have "master_req True fill t s = eMBMasterWaitRequestFinish ?s1"
    using xMBMasterRunResTake_free [of s t] D B(3) quiet(2)
      fill [of "s\<lparr>xMasterRunRes := (xMasterRunRes s)\<lparr>sem_value := v - 1\<rparr>\<rparr>"]
    by (simp add: master_req_def req_begin_def vMBMasterSetPDUSndLength_def vMBMasterSetDestAddress_def)
  moreover have "master_base (v - 1) ?s1"
    using D req by (intro master_base_eq [OF B(1)]) (simp_all add: B(2) port_calm_def)
  then have "posted (v - 1) ev a req s ?s1"
    using B req D blit_in_place [of 1 req "ucMasterRTUSndBuf s"]
    by (simp add: posted_def master_quiet_def holds_req_def)
  ultimately show ?thesis by blast
qed

definition read_req :: "UCHAR \<Rightarrow> USHORT \<Rightarrow> USHORT \<Rightarrow> UCHAR list" where
  "read_req fc a n = [fc, hi8 a, lo8 a, hi8 n, lo8 n]"

lemma fill_read_eq:
  assumes "length (ucMasterRTUSndBuf s) = 253"
  shows "fill_read fc a r n s = Some (vMBMasterSetPDUSndLength (of_nat (length (read_req fc r n)))
        ((vMBMasterSetDestAddress a s)\<lparr>ucMasterRTUSndBuf := blit (ucMasterRTUSndBuf s) 1 (read_req fc r n)\<rparr>))"
  using assms put_bytes_eq [of 1 "read_req fc r n" "ucMasterRTUSndBuf s"]
  by (simp add: fill_read_def req_fill_def read_req_def vMBMasterSetDestAddress_def del: put_bytes.simps)

lemma read_holding_posts:
  assumes "master_quiet v ev s" "0 < v" "unat a \<le> 16"
  shows "\<exists>s1. eMBMasterReqReadHoldingRegister a r n t s = eMBMasterWaitRequestFinish s1 \<and>
    posted (v - 1) ev a (read_req MB_FUNC_READ_HOLDING_REGISTER r n) s s1"
  using assms master_req_posts [of v ev s "read_req MB_FUNC_READ_HOLDING_REGISTER r n", OF _ _ _ _ fill_read_eq]
  by (simp add: eMBMasterReqReadHoldingRegister_def read_req_def)

section \<open>Sending it\<close>

definition master_sends :: "mb_master \<Rightarrow> mb_master option" where
  "master_sends s = do { (_, s) \<leftarrow> eMBMasterPoll s; rtu_m_drain 300 s }"

definition awaits :: "UCHAR \<Rightarrow> UCHAR list \<Rightarrow> mb_master \<Rightarrow> bool" where
  "awaits a req s \<longleftrightarrow> master_base 0 s \<and> holds_req a req s \<and> eMSndState s = STATE_M_TX_XFWR \<and>
     ev_set (os_event s) = 0 \<and> xFrameIsBroadcast s = (a = 0) \<and> ucMBMFrame s = Some Snd_Pdu \<and> timer_on s \<and>
     usMasterSendPDULength s = of_nat (length req) \<and>
     eMasterCurTimerMode s = (if a = 0 then MB_TMODE_CONVERT_DELAY else MB_TMODE_RESPOND_TIMEOUT)"

lemma take_drop_frame:
  assumes "length buf = 253" "length pdu \<le> 250"
  shows "take (length pdu) (drop 1 (blit buf 0 (rtu_frame a pdu))) = pdu"
    "length (blit buf 0 (rtu_frame a pdu)) = 253"
  using assms by (auto simp: blit_def rtu_frame_def Let_def)

lemma posted_sends:
  assumes post: "posted 0 0 a req s0 s" and a: "unat a \<le> 16" and len: "length req \<le> 250"
  shows "\<exists>s'. master_sends s = Some s' \<and> awaits a req s' \<and> tx_line s' = tx_line s0 @ rtu_frame a req \<and>
    mregs s' = mregs s0"
proof -
  have Q: "master_base 0 s" "eMSndState s = STATE_M_TX_IDLE"
    "ev_set (os_event s) = m_ev_code EV_MASTER_FRAME_SENT" "holds_req a req s"
    "usMasterSendPDULength s = of_nat (length req)" "mregs s = mregs s0" "tx_line s = tx_line s0"
    using post by (auto simp: posted_def master_quiet_def)
  note D = master_baseD [OF Q(1)]
  note H = Q(4) [unfolded holds_req_def]
  obtain s1 k where s1: "port_calm s1" "s1 = s\<lparr>os_event := (os_event s)\<lparr>ev_set := 0\<rparr>, kern := k\<rparr>"
    "eMBMasterPoll s = do { s \<leftarrow> m_poll_sent s1; Some (M_Poll_Done MB_ENOERR, s) }"
    using eMBMasterPoll_one [OF D(1,2) Q(3)] by (auto simp: m_poll_ev_def)
  let ?n = "of_nat (length req) :: USHORT" and ?s2 = "s1\<lparr>ucMBMFrame := Some Snd_Pdu\<rparr>"
  have n: "unat ?n = length req"
    using len by (intro rtu_pos) simp
  have calm2: "port_calm ?s2"
    using s1(1) by (simp add: port_calm_def)
  have pdu: "take (unat ?n) (drop 1 (ucMasterRTUSndBuf ?s2)) = req"
    using H n s1(2) by simp
  obtain s3 s4 k' where S: "eMBMasterRTUSend a 1 ?n ?s2 = Some (MB_ENOERR, s3)" "rtu_m_drain 300 s3 = Some s4"
    "s4 = (m_await (a = 0) ?s2)\<lparr>tx_line := tx_line ?s2 @ rtu_frame a req,
      ucMasterRTUSndBuf := blit (ucMasterRTUSndBuf ?s2) 0 (rtu_frame a req),
      pucMasterSndBufferCur := unat ?n + 3, usMasterSndBufferCount := 0,
      rx_int := True, eMSndState := STATE_M_TX_XFWR, xFrameIsBroadcast := (a = 0),
      event_serial := (event_serial ?s2)\<lparr>ev_set := ev_set (event_serial ?s2) AND NOT 1\<rparr>, kern := k'\<rparr>"
    "port_calm s4"
    using rtu_m_send_drain [OF calm2, of ?n a 300] D H len a s1(2) n pdu by auto
  have "master_sends s = Some s4"
    using s1(2,3) S(1,2) Q(5) H by (simp add: master_sends_def m_poll_sent_def)
  moreover have "master_base 0 s4"
    using S(3,4) D take_drop_frame(2) [of "ucMasterRTUSndBuf s" req a] len s1(2)
    by (simp add: master_base_def m_await_def res_free_def rtu_m_listens_def)
  then have "awaits a req s4"
    using S(3) s1(2) D H len Q(5) take_drop_frame(1) [of "ucMasterRTUSndBuf s" req a]
    by (simp add: awaits_def holds_req_def m_await_def)
  moreover have "tx_line s4 = tx_line s0 @ rtu_frame a req" "mregs s4 = mregs s0"
    using S(3) s1(2) Q(6,7) by (simp_all add: m_await_def)
  ultimately show ?thesis by blast
qed

section \<open>Hearing a frame\<close>

definition master_hears :: "UCHAR list \<Rightarrow> mb_master \<Rightarrow> mb_master option" where
  "master_hears bs s = do { s \<leftarrow> rtu_m_burst bs s; (_, s) \<leftarrow> eMBMasterPoll s; Some s }"

text \<open>The frame in the receive buffer is a reply \<open>pdu\<close> of the slave asked; it is about to be executed.\<close>

definition heard :: "16 word \<Rightarrow> UCHAR \<Rightarrow> UCHAR list \<Rightarrow> UCHAR list \<Rightarrow> mb_master \<Rightarrow> bool" where
  "heard v a req pdu s \<longleftrightarrow> master_quiet v (m_ev_code EV_MASTER_EXECUTE) s \<and> holds_req a req s \<and>
     ucMBMFrame s = Some Rcv_Pdu \<and> usMLength s = of_nat (length pdu) \<and> \<not> xFrameIsBroadcast s \<and>
     length (ucMasterRTURcvBuf s) = 256 \<and> take (length pdu) (drop 1 (ucMasterRTURcvBuf s)) = pdu \<and>
     eMasterCurTimerMode s = MB_TMODE_T35"

text \<open>A burst ends in the event for a received frame, whether a reply is awaited or not.\<close>

lemma master_burst:
  assumes base: "master_base v s" and ev: "ev_set (os_event s) = 0"
    and bs: "bs \<noteq> []" "length bs \<le> 255"
  shows "\<exists>s1. rtu_m_burst bs s = Some s1 \<and>
    master_quiet v (m_ev_code EV_MASTER_FRAME_RECEIVED) s1 \<and>
    s1 = (m_t35 s)\<lparr>ucMasterRTURcvBuf := blit (ucMasterRTURcvBuf s) 0 bs,
      usMasterRcvBufferPos := of_nat (length bs), eMSndState := STATE_M_TX_IDLE, timer_on := False,
      os_event := (os_event s)\<lparr>ev_set := m_ev_code EV_MASTER_FRAME_RECEIVED\<rparr>\<rparr> \<and>
    eMBMasterRTUReceive s1 = Some (if 4 \<le> length bs \<and> usMBCRC16 bs = 0
      then (MB_ENOERR, Some (bs ! 0, of_nat (length bs) - 3)) else (MB_EIO, None))"
proof -
  note D = master_baseD [OF base]
  let ?s1 = "(m_t35 s)\<lparr>ucMasterRTURcvBuf := blit (ucMasterRTURcvBuf s) 0 bs,
      usMasterRcvBufferPos := of_nat (length bs), eMSndState := STATE_M_TX_IDLE, timer_on := False,
      os_event := (os_event s)\<lparr>ev_set := m_ev_code EV_MASTER_FRAME_RECEIVED\<rparr>\<rparr>"
  have "rtu_m_burst bs s = Some ?s1"
    using rtu_m_burst_frame [of s bs] D bs ev by simp
  moreover have len: "length (blit (ucMasterRTURcvBuf s) 0 bs) = 256"
    using D bs by simp
  then have "master_base v ?s1"
    using D by (intro master_base_eq [OF base]) (simp_all add: m_t35_def port_calm_def)
  then have "master_quiet v (m_ev_code EV_MASTER_FRAME_RECEIVED) ?s1"
    by (simp add: master_quiet_def)
  moreover have "take (length bs) (blit (ucMasterRTURcvBuf s) 0 bs) = bs"
    using segment_blit [of 0 bs "ucMasterRTURcvBuf s"] D bs by simp
  then have "eMBMasterRTUReceive ?s1 = Some (if 4 \<le> length bs \<and> usMBCRC16 bs = 0
      then (MB_ENOERR, Some (bs ! 0, of_nat (length bs) - 3)) else (MB_EIO, None))"
    using bs by (intro eMBMasterRTUReceive_frame) simp_all
  ultimately show ?thesis by blast
qed

lemma eMBMasterRTUReceive_kern [simp]:
  "eMBMasterRTUReceive (s\<lparr>os_event := e, kern := k\<rparr>) = eMBMasterRTUReceive s"
  by (simp add: eMBMasterRTUReceive_def cong: if_cong)

lemma hears_reply:
  assumes base: "master_base v s" and ev: "ev_set (os_event s) = 0" and req: "holds_req a req s"
    and nb: "\<not> xFrameIsBroadcast s" and pdu: "pdu \<noteq> []" "length pdu \<le> 252"
  shows "\<exists>s'. master_hears (rtu_frame a pdu) s = Some s' \<and> heard v a req pdu s' \<and>
    mregs s' = mregs s \<and> m_sid s' = m_sid s \<and> tx_line s' = tx_line s"
proof -
  note D = master_baseD [OF base]
  have fr: "rtu_frame a pdu \<noteq> []" "length (rtu_frame a pdu) \<le> 255" "rtu_frame a pdu ! 0 = a"
    "4 \<le> length (rtu_frame a pdu)"
    using pdu by (auto simp: rtu_frame_def Let_def Suc_le_eq)
  obtain s1 where s1: "rtu_m_burst (rtu_frame a pdu) s = Some s1"
    "master_quiet v (m_ev_code EV_MASTER_FRAME_RECEIVED) s1"
    "eMBMasterRTUReceive s1 = Some (MB_ENOERR, Some (a, of_nat (length pdu)))"
    and eq: "s1 = (m_t35 s)\<lparr>ucMasterRTURcvBuf := blit (ucMasterRTURcvBuf s) 0 (rtu_frame a pdu),
      usMasterRcvBufferPos := of_nat (length (rtu_frame a pdu)), eMSndState := STATE_M_TX_IDLE,
      timer_on := False, os_event := (os_event s)\<lparr>ev_set := m_ev_code EV_MASTER_FRAME_RECEIVED\<rparr>\<rparr>"
    using master_burst [OF base ev fr(1,2)] fr(3,4) by (auto simp: crc_rtu_frame)
  have Q: "master_base v s1" "ev_set (os_event s1) = m_ev_code EV_MASTER_FRAME_RECEIVED"
    using s1(2) by (simp_all add: master_quiet_def)
  note D1 = master_baseD [OF Q(1)]
  obtain s2 k where s2: "port_calm s2" "s2 = s1\<lparr>os_event := (os_event s1)\<lparr>ev_set := 0\<rparr>, kern := k\<rparr>"
    "eMBMasterPoll s1 = do { s \<leftarrow> m_poll_received s2; Some (M_Poll_Done MB_ENOERR, s) }"
    using eMBMasterPoll_one [OF D1(1,2) Q(2)] by (auto simp: m_poll_ev_def)
  let ?s3 = "s2\<lparr>ucMRcvAddress := a, ucMBMFrame := Some Rcv_Pdu, usMLength := of_nat (length pdu),
    os_event := (os_event s1)\<lparr>ev_set := m_ev_code EV_MASTER_EXECUTE\<rparr>\<rparr>"
  have rcv: "eMBMasterRTUReceive s2 = Some (MB_ENOERR, Some (a, of_nat (length pdu)))"
    using s1(3) by (simp add: s2(2))
  have "ucMBMasterDestAddress s2 = a" "suspend_thread (os_event s2) = []"
    using req D1 by (simp_all add: s2(2) eq holds_req_def m_t35_def)
  then have "m_poll_received s2 = Some ?s3"
    using rcv by (simp add: m_poll_received_def s2(2))
  then have "master_hears (rtu_frame a pdu) s = Some ?s3"
    using s1(1) s2(3) by (simp add: master_hears_def)
  moreover have "master_base v ?s3"
    using D1 s2(1) by (intro master_base_eq [OF Q(1)]) (simp_all add: s2(2) port_calm_def)
  moreover have "take (length pdu) (drop 1 (blit (ucMasterRTURcvBuf s) 0 (rtu_frame a pdu))) = pdu"
    "length (blit (ucMasterRTURcvBuf s) 0 (rtu_frame a pdu)) = 256"
    using D pdu by (auto simp: blit_def rtu_frame_def Let_def)
  ultimately have "heard v a req pdu ?s3"
    using req nb by (simp add: heard_def master_quiet_def s2(2) eq holds_req_def m_t35_def)
  moreover have "mregs ?s3 = mregs s" "m_sid ?s3 = m_sid s" "tx_line ?s3 = tx_line s"
    by (simp_all add: s2(2) eq m_t35_def)
  ultimately show ?thesis
    using \<open>master_hears (rtu_frame a pdu) s = Some ?s3\<close> by blast
qed

text \<open>A burst that is no frame of the slave asked ends in the error process.\<close>

lemma hears_garbage:
  assumes base: "master_base v s" and ev: "ev_set (os_event s) = 0"
    and bs: "bs \<noteq> []" "length bs \<le> 255"
    and bad: "length bs < 4 \<or> usMBCRC16 bs \<noteq> 0 \<or> bs ! 0 \<noteq> ucMBMasterDestAddress s"
  shows "\<exists>s'. master_hears bs s = Some s' \<and> master_quiet v (m_ev_code EV_MASTER_ERROR_PROCESS) s' \<and>
    eMBMasterCurErrorType s' = EV_ERROR_RECEIVE_DATA \<and> mregs s' = mregs s"
proof -
  note D = master_baseD [OF base]
  obtain s1 where s1: "rtu_m_burst bs s = Some s1"
    "master_quiet v (m_ev_code EV_MASTER_FRAME_RECEIVED) s1"
    "eMBMasterRTUReceive s1 = Some (if 4 \<le> length bs \<and> usMBCRC16 bs = 0
      then (MB_ENOERR, Some (bs ! 0, of_nat (length bs) - 3)) else (MB_EIO, None))"
    and eq: "s1 = (m_t35 s)\<lparr>ucMasterRTURcvBuf := blit (ucMasterRTURcvBuf s) 0 bs,
      usMasterRcvBufferPos := of_nat (length bs), eMSndState := STATE_M_TX_IDLE, timer_on := False,
      os_event := (os_event s)\<lparr>ev_set := m_ev_code EV_MASTER_FRAME_RECEIVED\<rparr>\<rparr>"
    using master_burst [OF base ev bs] by blast
  have Q: "master_base v s1" "ev_set (os_event s1) = m_ev_code EV_MASTER_FRAME_RECEIVED"
    using s1(2) by (simp_all add: master_quiet_def)
  note D1 = master_baseD [OF Q(1)]
  obtain s2 k where s2: "port_calm s2" "s2 = s1\<lparr>os_event := (os_event s1)\<lparr>ev_set := 0\<rparr>, kern := k\<rparr>"
    "eMBMasterPoll s1 = do { s \<leftarrow> m_poll_received s2; Some (M_Poll_Done MB_ENOERR, s) }"
    using eMBMasterPoll_one [OF D1(1,2) Q(2)] by (auto simp: m_poll_ev_def)
  have rcv: "eMBMasterRTUReceive s2 = eMBMasterRTUReceive s1"
    by (simp add: s2(2))
  have dest: "ucMBMasterDestAddress s2 = ucMBMasterDestAddress s" "suspend_thread (os_event s2) = []"
    using D1 by (simp_all add: s2(2) eq m_t35_def)
  have fin: "\<exists>x f n. m_poll_received s2 = Some (s2\<lparr>ucMRcvAddress := x, ucMBMFrame := f,
      usMLength := n, eMBMasterCurErrorType := EV_ERROR_RECEIVE_DATA,
      os_event := (os_event s2)\<lparr>ev_set := m_ev_code EV_MASTER_ERROR_PROCESS\<rparr>\<rparr>)"
  proof (cases "4 \<le> length bs \<and> usMBCRC16 bs = 0")
    case True
    then have "bs ! 0 \<noteq> ucMBMasterDestAddress s"
      using bad by auto
    then show ?thesis
      using True rcv s1(3) dest
      by (intro exI [of _ "bs ! 0"] exI [of _ "Some Rcv_Pdu"] exI [of _ "of_nat (length bs) - 3"])
        (simp add: m_poll_received_def vMBMasterSetErrorType_def s2(2))
  next
    case False
    then have "eMBMasterRTUReceive s2 = Some (MB_EIO, None)"
      using rcv s1(3) by simp
    then show ?thesis
      using dest
      by (intro exI [of _ "ucMRcvAddress s2"] exI [of _ "ucMBMFrame s2"] exI [of _ "usMLength s2"])
        (simp add: m_poll_received_def vMBMasterSetErrorType_def s2(2))
  qed
  then obtain s3 x f n where s3: "m_poll_received s2 = Some s3" "s3 = s2\<lparr>ucMRcvAddress := x, ucMBMFrame := f,
      usMLength := n, eMBMasterCurErrorType := EV_ERROR_RECEIVE_DATA,
      os_event := (os_event s2)\<lparr>ev_set := m_ev_code EV_MASTER_ERROR_PROCESS\<rparr>\<rparr>"
    by blast
  have "master_base v s3"
    using D1 s2(1) by (intro master_base_eq [OF Q(1)]) (simp_all add: s3(2) s2(2) port_calm_def)
  moreover have "eMSndState s3 = STATE_M_TX_IDLE" "mregs s3 = mregs s"
    by (simp_all add: s3(2) s2(2) eq m_t35_def)
  ultimately show ?thesis
    using s1(1) s2(3) s3 by (intro exI [of _ s3]) (simp add: master_hears_def master_quiet_def)
qed

section \<open>Executing a reply\<close>

lemma poll_step:
  assumes "master_quiet v (m_ev_code e) s" "m_poll_ev e"
  obtains s1 k where "s1 = s\<lparr>os_event := (os_event s)\<lparr>ev_set := 0\<rparr>, kern := k\<rparr>" "master_quiet v 0 s1"
    "eMBMasterPoll s = do {
       s \<leftarrow> (case e of
           EV_MASTER_READY \<Rightarrow> Some s1
         | EV_MASTER_FRAME_RECEIVED \<Rightarrow> m_poll_received s1
         | EV_MASTER_EXECUTE \<Rightarrow> m_poll_execute s1
         | EV_MASTER_FRAME_SENT \<Rightarrow> m_poll_sent s1
         | EV_MASTER_ERROR_PROCESS \<Rightarrow> m_poll_error s1
         | _ \<Rightarrow> Some s1);
       Some (M_Poll_Done MB_ENOERR, s)
     }"
proof -
  have Q: "master_base v s" "eMSndState s = STATE_M_TX_IDLE" "ev_set (os_event s) = m_ev_code e"
    using assms(1) by (simp_all add: master_quiet_def)
  note D = master_baseD [OF Q(1)]
  obtain s1 k where s1: "port_calm s1" "s1 = s\<lparr>os_event := (os_event s)\<lparr>ev_set := 0\<rparr>, kern := k\<rparr>"
    and P: "eMBMasterPoll s = do {
       s \<leftarrow> (case e of
           EV_MASTER_READY \<Rightarrow> Some s1
         | EV_MASTER_FRAME_RECEIVED \<Rightarrow> m_poll_received s1
         | EV_MASTER_EXECUTE \<Rightarrow> m_poll_execute s1
         | EV_MASTER_FRAME_SENT \<Rightarrow> m_poll_sent s1
         | EV_MASTER_ERROR_PROCESS \<Rightarrow> m_poll_error s1
         | _ \<Rightarrow> Some s1);
       Some (M_Poll_Done MB_ENOERR, s)
     }"
    using eMBMasterPoll_one [OF D(1,2) Q(3) assms(2)] by blast
  have "master_base v s1"
    using D s1(1) by (intro master_base_eq [OF Q(1)]) (simp_all add: s1(2))
  then have "master_quiet v 0 s1"
    using Q(2) by (simp add: master_quiet_def s1(2))
  with s1(2) P show thesis
    by (intro that)
qed

text \<open>The end of an execution: success and the resource back, or the error process.\<close>

definition m_poll_conclude :: "mb_master \<Rightarrow> mb_master option" where
  "m_poll_conclude s = (if eMException s \<noteq> MB_EX_NONE
     then do {
       (_, s) \<leftarrow> xMBMasterPortEventPost EV_MASTER_ERROR_PROCESS
         (vMBMasterSetErrorType EV_ERROR_EXECUTE_FUNCTION s);
       Some s
     }
     else do { s \<leftarrow> vMBMasterCBRequestScuuess s; vMBMasterRunResRelease s })"

definition concluded :: "16 word \<Rightarrow> mb_master \<Rightarrow> mb_master \<Rightarrow> bool" where
  "concluded v s s' \<longleftrightarrow> mregs s' = mregs s \<and>
     (if eMException s = MB_EX_NONE then master_quiet (v + 1) (m_ev_code EV_MASTER_PROCESS_SUCESS) s'
      else master_quiet v (m_ev_code EV_MASTER_ERROR_PROCESS) s' \<and>
        eMBMasterCurErrorType s' = EV_ERROR_EXECUTE_FUNCTION)"

lemma m_poll_conclude_quiet:
  assumes "master_quiet v 0 s"
  shows "\<exists>s'. m_poll_conclude s = Some s' \<and> concluded v s s'"
proof -
  have Q: "master_base v s" "eMSndState s = STATE_M_TX_IDLE" "ev_set (os_event s) = 0"
    using assms by (simp_all add: master_quiet_def)
  note D = master_baseD [OF Q(1)]
  show ?thesis
  proof (cases "eMException s = MB_EX_NONE")
    case True
    let ?s = "s\<lparr>os_event := (os_event s)\<lparr>ev_set := m_ev_code EV_MASTER_PROCESS_SUCESS\<rparr>,
      xMasterRunRes := (xMasterRunRes s)\<lparr>sem_value := v + 1\<rparr>\<rparr>"
    have "m_poll_conclude s = Some ?s"
      using True D Q by (simp add: m_poll_conclude_def vMBMasterCBRequestScuuess_def
          vMBMasterRunResRelease_free res_free_def)
    moreover have "master_base (v + 1) ?s"
      using D by (intro master_base_eq [OF Q(1)]) (simp_all add: port_calm_def)
    ultimately show ?thesis
      using True Q(2) by (intro exI [of _ ?s]) (simp add: concluded_def master_quiet_def)
  next
    case False
    let ?s = "s\<lparr>eMBMasterCurErrorType := EV_ERROR_EXECUTE_FUNCTION,
      os_event := (os_event s)\<lparr>ev_set := m_ev_code EV_MASTER_ERROR_PROCESS\<rparr>\<rparr>"
    have "m_poll_conclude s = Some ?s"
      using False D Q by (simp add: m_poll_conclude_def vMBMasterSetErrorType_def)
    moreover have "master_base v ?s"
      using D by (intro master_base_eq [OF Q(1)]) (simp_all add: port_calm_def)
    ultimately show ?thesis
      using False Q(2) by (intro exI [of _ ?s]) (simp add: concluded_def master_quiet_def)
  qed
qed

lemma heard_executes:
  assumes heard: "heard v a req pdu s" and pdu: "pdu \<noteq> []" "drop_bit 7 (pdu ! 0) = 0"
    and h: "find_master_handler (pdu ! 0) xMasterFuncHandlers = Some (Some h)"
    and call: "call_master_handler h a False (drop 1 (ucMasterRTUSndBuf s)) (m_sid s) (mregs s)
      (drop 1 (ucMasterRTURcvBuf s)) (of_nat (length pdu)) = Some (e, fr, n, r)" "length fr = 255"
  shows "\<exists>s1 s'. eMBMasterPoll s = Some (M_Poll_Done MB_ENOERR, s') \<and> concluded v s1 s' \<and>
    eMException s1 = e \<and> mregs s1 = r"
proof -
  have H: "master_quiet v (m_ev_code EV_MASTER_EXECUTE) s" "ucMBMasterDestAddress s = a"
    "ucMBMFrame s = Some Rcv_Pdu" "usMLength s = of_nat (length pdu)" "\<not> xFrameIsBroadcast s"
    "length (ucMasterRTURcvBuf s) = 256" "take (length pdu) (drop 1 (ucMasterRTURcvBuf s)) = pdu"
    using heard by (auto simp: heard_def holds_req_def)
  obtain s1 k where s1: "s1 = s\<lparr>os_event := (os_event s)\<lparr>ev_set := 0\<rparr>, kern := k\<rparr>" "master_quiet v 0 s1"
    "eMBMasterPoll s = do { s \<leftarrow> m_poll_execute s1; Some (M_Poll_Done MB_ENOERR, s) }"
    using poll_step [OF H(1)] by (auto simp: m_poll_ev_def)
  have "drop 1 (ucMasterRTURcvBuf s) ! 0 = pdu ! 0"
    using H(7) pdu(1) nth_take [of 0 "length pdu" "drop 1 (ucMasterRTURcvBuf s)"] by simp
  then have fc: "rd (frame_of Rcv_Pdu s1) 0 = Some (pdu ! 0)"
    using H(6) by (simp add: frame_of_def s1(1))
  let ?s2 = "s1\<lparr>ucMasterRTURcvBuf := take 1 (ucMasterRTURcvBuf s) @ fr,
    ucMFunctionCode := pdu ! 0, eMException := e, usMLength := n, mregs := r, xMBRunInMasterMode := False\<rparr>"
  have run: "run_master_handler h (s1\<lparr>ucMFunctionCode := pdu ! 0, eMException := MB_EX_ILLEGAL_FUNCTION,
      xMBRunInMasterMode := True\<rparr>) =
    Some (s1\<lparr>ucMasterRTURcvBuf := take 1 (ucMasterRTURcvBuf s) @ fr, xMBRunInMasterMode := True,
      ucMFunctionCode := pdu ! 0, eMException := e, usMLength := n, mregs := r\<rparr>)"
    using H call(1) by (simp add: run_master_handler_def frame_of_def set_frame_def s1(1))
  then have "m_poll_execute s1 = m_poll_conclude ?s2"
    using fc pdu(2) h H(3,5)
    by (simp add: m_poll_execute_def m_poll_conclude_def s1(1) vMBMasterSetCBRunInMasterMode_def)
  moreover have Q: "master_base v s1" "eMSndState s1 = STATE_M_TX_IDLE" "ev_set (os_event s1) = 0"
    using s1(2) by (simp_all add: master_quiet_def)
  have "master_base v ?s2"
    using master_baseD [OF Q(1)] H(6) call(2)
    by (intro master_base_eq [OF Q(1)]) (simp_all add: port_calm_def)
  then have "master_quiet v 0 ?s2"
    using Q by (simp add: master_quiet_def)
  from m_poll_conclude_quiet [OF this] obtain s' where "m_poll_conclude ?s2 = Some s'" "concluded v ?s2 s'"
    by blast
  ultimately show ?thesis
    using s1(3) by (intro exI [of _ ?s2] exI [of _ s']) simp
qed

text \<open>A reply with the error bit set carries the slave's exception code.\<close>

lemma heard_exception:
  assumes heard: "heard v a req [fc, e] s" and fc: "drop_bit 7 fc \<noteq> 0"
  shows "\<exists>s1 s'. eMBMasterPoll s = Some (M_Poll_Done MB_ENOERR, s') \<and> concluded v s1 s' \<and>
    eMException s1 = e \<and> mregs s1 = mregs s"
proof -
  have H: "master_quiet v (m_ev_code EV_MASTER_EXECUTE) s" "ucMBMFrame s = Some Rcv_Pdu"
    "length (ucMasterRTURcvBuf s) = 256" "take 2 (drop 1 (ucMasterRTURcvBuf s)) = [fc, e]"
    using heard by (auto simp: heard_def numeral_2_eq_2)
  obtain s1 k where s1: "s1 = s\<lparr>os_event := (os_event s)\<lparr>ev_set := 0\<rparr>, kern := k\<rparr>" "master_quiet v 0 s1"
    "eMBMasterPoll s = do { s \<leftarrow> m_poll_execute s1; Some (M_Poll_Done MB_ENOERR, s) }"
    using poll_step [OF H(1)] by (auto simp: m_poll_ev_def)
  obtain x y where "drop 1 (ucMasterRTURcvBuf s) = fc # e # y"
    using H(3,4) by (cases "drop 1 (ucMasterRTURcvBuf s)"; cases "tl (drop 1 (ucMasterRTURcvBuf s))") auto
  then have rd: "rd (frame_of Rcv_Pdu s1) 0 = Some fc" "rd (frame_of Rcv_Pdu s1) 1 = Some e"
    by (simp_all add: frame_of_def s1(1) rd_def)
  let ?s2 = "s1\<lparr>ucMFunctionCode := fc, eMException := e\<rparr>"
  have "frame_of Rcv_Pdu (s1\<lparr>ucMFunctionCode := fc, eMException := MB_EX_ILLEGAL_FUNCTION\<rparr>) = frame_of Rcv_Pdu s1"
    by (simp add: frame_of_def)
  then have "m_poll_execute s1 = m_poll_conclude ?s2"
    using rd fc H(2) by (simp add: m_poll_execute_def m_poll_conclude_def s1(1))
  moreover have Q: "master_base v s1" "eMSndState s1 = STATE_M_TX_IDLE" "ev_set (os_event s1) = 0"
    using s1(2) by (simp_all add: master_quiet_def)
  have "master_base v ?s2"
    using master_baseD [OF Q(1)] by (intro master_base_eq [OF Q(1)]) (simp_all add: port_calm_def)
  then have "master_quiet v 0 ?s2"
    using Q by (simp add: master_quiet_def)
  from m_poll_conclude_quiet [OF this] obtain s' where "m_poll_conclude ?s2 = Some s'" "concluded v ?s2 s'"
    by blast
  ultimately show ?thesis
    using s1(1,3) by (intro exI [of _ ?s2] exI [of _ s']) simp
qed

section \<open>Errors and the end of a request\<close>

definition err_flag :: "eMBMasterErrorEventType \<Rightarrow> eMBMasterEventType" where
  "err_flag t = (case t of
     EV_ERROR_RESPOND_TIMEOUT \<Rightarrow> EV_MASTER_ERROR_RESPOND_TIMEOUT
   | EV_ERROR_RECEIVE_DATA \<Rightarrow> EV_MASTER_ERROR_RECEIVE_DATA
   | EV_ERROR_EXECUTE_FUNCTION \<Rightarrow> EV_MASTER_ERROR_EXECUTE_FUNCTION)"

lemma error_polled:
  assumes "master_quiet v (m_ev_code EV_MASTER_ERROR_PROCESS) s"
  shows "\<exists>s'. eMBMasterPoll s = Some (M_Poll_Done MB_ENOERR, s') \<and>
    master_quiet (v + 1) (m_ev_code (err_flag (eMBMasterCurErrorType s))) s' \<and> mregs s' = mregs s \<and>
    xFrameIsBroadcast s' = xFrameIsBroadcast s \<and> (\<forall>a req. holds_req a req s \<longrightarrow> holds_req a req s')"
proof -
  obtain s1 k where s1: "s1 = s\<lparr>os_event := (os_event s)\<lparr>ev_set := 0\<rparr>, kern := k\<rparr>" "master_quiet v 0 s1"
    "eMBMasterPoll s = do { s \<leftarrow> m_poll_error s1; Some (M_Poll_Done MB_ENOERR, s) }"
    using poll_step [OF assms] by (auto simp: m_poll_ev_def)
  have Q: "master_base v s1" "eMSndState s1 = STATE_M_TX_IDLE" "ev_set (os_event s1) = 0"
    using s1(2) by (simp_all add: master_quiet_def)
  note D = master_baseD [OF Q(1)]
  let ?s2 = "s1\<lparr>ucMBMFrame := Some Snd_Pdu,
    os_event := (os_event s1)\<lparr>ev_set := m_ev_code (err_flag (eMBMasterCurErrorType s))\<rparr>,
    xMasterRunRes := (xMasterRunRes s1)\<lparr>sem_value := v + 1\<rparr>\<rparr>"
  have "m_poll_error s1 = Some ?s2"
    using D Q by (cases "eMBMasterCurErrorType s")
      (simp_all add: m_poll_error_def s1(1) err_flag_def vMBMasterErrorCBRespondTimeout_def
        vMBMasterErrorCBReceiveData_def vMBMasterErrorCBExecuteFunction_def vMBMasterRunResRelease_free res_free_def)
  moreover have "master_base (v + 1) ?s2"
    using D by (intro master_base_eq [OF Q(1)]) (simp_all add: port_calm_def)
  ultimately show ?thesis
    using s1(1,3) Q(2) by (intro exI [of _ ?s2]) (simp add: master_quiet_def holds_req_def)
qed

lemma awaits_times_out:
  assumes "awaits a req s" "a \<noteq> 0"
  shows "\<exists>r s'. xMBMasterRTUTimerExpired s = Some (r, s') \<and>
    master_quiet 0 (m_ev_code EV_MASTER_ERROR_PROCESS) s' \<and> holds_req a req s' \<and> \<not> xFrameIsBroadcast s' \<and>
    eMBMasterCurErrorType s' = EV_ERROR_RESPOND_TIMEOUT \<and> mregs s' = mregs s"
proof -
  have A: "master_base 0 s" "eMSndState s = STATE_M_TX_XFWR" "ev_set (os_event s) = 0" "\<not> xFrameIsBroadcast s"
    "eMasterCurTimerMode s = MB_TMODE_RESPOND_TIMEOUT" "holds_req a req s"
    using assms by (auto simp: awaits_def)
  note D = master_baseD [OF A(1)]
  let ?s = "s\<lparr>eMBMasterCurErrorType := EV_ERROR_RESPOND_TIMEOUT,
    os_event := (os_event s)\<lparr>ev_set := m_ev_code EV_MASTER_ERROR_PROCESS\<rparr>,
    eMSndState := STATE_M_TX_IDLE, timer_on := False\<rparr>"
  have "s\<lparr>eMRcvState := STATE_M_RX_IDLE\<rparr> = s"
    using D by simp
  then have "xMBMasterRTUTimerExpired s = Some (True, ?s)"
    using D A by (simp add: xMBMasterRTUTimerExpired_def vMBMasterSetErrorType_def vMBMasterPortTimersDisable_def)
  moreover have "master_base 0 ?s"
    using D by (intro master_base_eq [OF A(1)]) (simp_all add: port_calm_def)
  ultimately show ?thesis
    using A(4,6) by (intro exI [of _ True] exI [of _ ?s]) (simp add: master_quiet_def holds_req_def)
qed

lemma request_finishes:
  assumes "master_quiet v ev s" "ev AND (32 OR 64 OR 128 OR 256) = m_ev_code e" "m_out_ev e"
  shows "\<exists>s'. eMBMasterWaitRequestFinish s = Some (Req_Done (m_outcome (m_ev_code e)), s') \<and>
    master_quiet v (ev AND NOT (32 OR 64 OR 128 OR 256)) s' \<and> mregs s' = mregs s \<and>
    xFrameIsBroadcast s' = xFrameIsBroadcast s \<and> (\<forall>a req. holds_req a req s \<longrightarrow> holds_req a req s')"
proof -
  have Q: "master_base v s" "eMSndState s = STATE_M_TX_IDLE" "ev_set (os_event s) = ev"
    using assms(1) by (simp_all add: master_quiet_def)
  note D = master_baseD [OF Q(1)]
  obtain k where k: "eMBMasterWaitRequestFinish s = Some (Req_Done (m_outcome (m_ev_code e)),
      s\<lparr>os_event := (os_event s)\<lparr>ev_set := ev AND NOT (32 OR 64 OR 128 OR 256)\<rparr>, kern := k\<rparr>)"
    "rt_current_thread k = rt_current_thread (kern s)" "rt_interrupt_nest k = rt_interrupt_nest (kern s)"
    using eMBMasterWaitRequestFinish_flags [OF D(2), of "m_ev_code e"] assms(2) Q(3) by auto
  have "master_base v (s\<lparr>os_event := (os_event s)\<lparr>ev_set := ev AND NOT (32 OR 64 OR 128 OR 256)\<rparr>, kern := k\<rparr>)"
    using D k(2,3) by (intro master_base_eq [OF Q(1)]) (simp_all add: port_calm_def)
  with k(1) Q(2) show ?thesis
    by (simp add: master_quiet_def holds_req_def)
qed

lemma m_out_mask:
  assumes "m_out_ev e"
  shows "m_ev_code e AND (32 OR 64 OR 128 OR 256) = m_ev_code e"
    "m_ev_code e AND NOT (32 OR 64 OR 128 OR 256) = 0"
  using assms by (cases e; simp add: m_out_ev_def m_poll_ev_def m_ev_code_def)+

end
