(* ===== verification/Mb_Transaction.thy ===== *)
theory Mb_Transaction
  imports Mb_Master_Run Mb_Slave
begin

text \<open>
  Whole transactions: a request of the master, its frame on the line, the reply of a slave (any
  device, or the slave stack of this repository) or the lack of one, and the
  result the requester gets.
\<close>

section \<open>From the request to its result\<close>

text \<open>The master sends what was posted, hears the bytes \<open>reply\<close>, and polls once more.\<close>

definition master_transfer :: "UCHAR list \<Rightarrow> mb_master \<Rightarrow> mb_master option" where
  "master_transfer reply s = do {
     s \<leftarrow> master_sends s;
     s \<leftarrow> master_hears reply s;
     (_, s) \<leftarrow> eMBMasterPoll s;
     Some s
   }"

lemma awaitsD:
  assumes "awaits a req s"
  shows "master_base 0 s" "ev_set (os_event s) = 0" "holds_req a req s" "a \<noteq> 0 \<Longrightarrow> \<not> xFrameIsBroadcast s"
  using assms by (auto simp: awaits_def)

text \<open>A reply that its handler accepts ends the request with success.\<close>

lemma transfer_ok:
  assumes post: "posted 0 0 a req s0 s" and a: "has_row a" and req: "length req \<le> 250" and pdu: "pdu \<noteq> []" "length pdu \<le> 252"
    and fc: "drop_bit 7 (pdu ! 0) = 0" "find_master_handler (pdu ! 0) xMasterFuncHandlers = Some (Some h)"
    and call: "\<And>req' fr i. take (length req) req' = req \<Longrightarrow> take (length pdu) fr = pdu \<Longrightarrow> length fr = 255 \<Longrightarrow>
      call_master_handler h a False req' i (mregs s0) fr (of_nat (length pdu)) =
        Some (MB_EX_NONE, fr, of_nat (length pdu), r)"
  shows "\<exists>s1 s2. master_sends s = Some s1 \<and> tx_line s1 = tx_line s0 @ rtu_frame a req \<and>
    master_transfer (rtu_frame a pdu) s = Some s2 \<and> mregs s2 = r \<and>
    master_quiet 1 (m_ev_code EV_MASTER_PROCESS_SUCESS) s2"
proof -
  have a16: "unat a \<le> 16" "a \<noteq> 0"
    using a by (auto simp: has_row_def)
  obtain s1 where s1: "master_sends s = Some s1" "awaits a req s1" "tx_line s1 = tx_line s0 @ rtu_frame a req"
    "mregs s1 = mregs s0"
    using posted_sends [OF post a16(1) req] by blast
  note A = awaitsD [OF s1(2)]
  obtain s3 where s3: "master_hears (rtu_frame a pdu) s1 = Some s3" "heard 0 a req pdu s3"
    "mregs s3 = mregs s1" "m_sid s3 = m_sid s1"
    using hears_reply [OF A(1-3) A(4) [OF a16(2)] pdu] by blast
  have H: "length (ucMasterRTURcvBuf s3) = 256" "take (length pdu) (drop 1 (ucMasterRTURcvBuf s3)) = pdu"
    "take (length req) (drop 1 (ucMasterRTUSndBuf s3)) = req"
    using s3(2) by (auto simp: heard_def holds_req_def)
  have "call_master_handler h a False (drop 1 (ucMasterRTUSndBuf s3)) (m_sid s3) (mregs s3)
      (drop 1 (ucMasterRTURcvBuf s3)) (of_nat (length pdu)) =
    Some (MB_EX_NONE, drop 1 (ucMasterRTURcvBuf s3), of_nat (length pdu), r)"
    using call [OF H(3,2)] H(1) s1(4) s3(3) by simp
  from heard_executes [OF s3(2) pdu(1) fc this] H(1) obtain s4 s5 where
    "eMBMasterPoll s3 = Some (M_Poll_Done MB_ENOERR, s5)" "concluded 0 s4 s5" "eMException s4 = MB_EX_NONE"
    "mregs s4 = r"
    by auto
  then show ?thesis
    using s1(1,3) s3(1) by (intro exI [of _ s1] exI [of _ s5]) (simp add: master_transfer_def concluded_def)
qed

section \<open>Reading holding registers\<close>

lemma holding_cb_mode: "eMBMasterRegHoldingCB d = (\<lambda>s fr p a n m. eMBMasterRegHoldingCB d s fr p a n MB_REG_READ)"
  by (simp add: fun_eq_iff eMBMasterRegHoldingCB_def)

definition read_reply :: "UCHAR \<Rightarrow> USHORT list \<Rightarrow> UCHAR list" where
  "read_reply fc vs = fc # of_nat (2 * length vs) # regs_bytes vs"

lemma length_read_req: "length (read_req fc a n) = 5"
  by (simp add: read_req_def)

lemma read_req_fields:
  assumes "take 5 fr = read_req fc a n"
  shows "5 \<le> length fr" "req_addr fr = a" "req_count fr = n"
proof -
  obtain x where fr: "fr = fc # hi8 a # lo8 a # hi8 n # lo8 n # x"
    using assms unfolding read_req_def
    by (metis append.simps append_take_drop_id)
  show "5 \<le> length fr" "req_addr fr = a" "req_count fr = n"
    by (simp_all add: fr req_addr_def req_count_def numeral_3_eq_3 eval_nat_numeral)
qed

lemma read_reply_fields:
  assumes "take (length (read_reply fc vs)) fr = read_reply fc vs" "length vs \<le> 125"
  shows "fr ! 0 = fc" "unat (fr ! 1) = 2 * length vs" "take (2 * length vs) (drop 2 fr) = regs_bytes vs"
    "2 + 2 * length vs \<le> length fr"
proof -
  obtain x where fr: "fr = fc # of_nat (2 * length vs) # regs_bytes vs @ x"
    using assms(1) unfolding read_reply_def
    by (metis append.simps append_take_drop_id)
  have "unat (of_nat (2 * length vs) :: UCHAR) = 2 * length vs"
    using assms(2) by (simp add: unat_of_nat take_bit_nat_def del: of_nat_mult)
  then show "fr ! 0 = fc" "unat (fr ! 1) = 2 * length vs" "take (2 * length vs) (drop 2 fr) = regs_bytes vs"
    "2 + 2 * length vs \<le> length fr"
    by (simp_all add: fr)
qed

lemma master_reads_holding:
  assumes idle: "master_idle s" and wf: "wf_master (mregs s)" and a: "has_row a"
    and n: "1 \<le> unat n" "unat n \<le> 125" "unat r + unat n \<le> 100" and vs: "length vs = unat n"
  shows "\<exists>s1 s2 s3 s4. eMBMasterReqReadHoldingRegister a r n t s = eMBMasterWaitRequestFinish s1 \<and>
    master_sends s1 = Some s2 \<and>
    tx_line s2 = tx_line s @ rtu_frame a (read_req MB_FUNC_READ_HOLDING_REGISTER r n) \<and>
    master_transfer (rtu_frame a (read_reply MB_FUNC_READ_HOLDING_REGISTER vs)) s1 = Some s3 \<and>
    eMBMasterWaitRequestFinish s3 = Some (Req_Done MB_MRE_NO_ERR, s4) \<and> master_idle s4 \<and>
    mregs s4 = (mregs s)\<lparr>usMRegHoldBuf :=
      set_row a (blit (the_row a (usMRegHoldBuf (mregs s))) (unat r) vs) (usMRegHoldBuf (mregs s))\<rparr>"
proof -
  let ?req = "read_req MB_FUNC_READ_HOLDING_REGISTER r n"
  let ?pdu = "read_reply MB_FUNC_READ_HOLDING_REGISTER vs"
  let ?r = "(mregs s)\<lparr>usMRegHoldBuf :=
      set_row a (blit (the_row a (usMRegHoldBuf (mregs s))) (unat r) vs) (usMRegHoldBuf (mregs s))\<rparr>"
  obtain s1 where s1: "eMBMasterReqReadHoldingRegister a r n t s = eMBMasterWaitRequestFinish s1"
    "posted 0 0 a ?req s s1"
    using read_holding_posts [OF idle, of a r n t] a by (auto simp: has_row_def)
  have req: "length ?req \<le> 250"
    by (simp add: length_read_req)
  have pdu: "?pdu \<noteq> []" "length ?pdu \<le> 252" "?pdu ! 0 = 3"
    using n vs by (simp_all add: read_reply_def func_defs)
  have call: "call_master_handler MH_ReadHoldingRegister a False req' i (mregs s) fr (of_nat (length ?pdu)) =
      Some (MB_EX_NONE, fr, of_nat (length ?pdu), ?r)"
    if "take (length ?req) req' = ?req" "take (length ?pdu) fr = ?pdu" "length fr = 255" for req' i fr
  proof -
    have "take 5 req' = ?req"
      using that(1) by (simp only: length_read_req)
    note R = read_req_fields [OF this]
    note P = read_reply_fields [OF that(2)]
    have le: "2 \<le> (of_nat (length ?pdu) :: USHORT)"
      using vs n rtu_pos [of "2 + 2 * length vs"] by (simp add: read_reply_def word_le_nat_alt)
    have "eMBMasterFuncReadHoldingRegister (eMBMasterRegHoldingCB a) False req' (mregs s) fr
        (of_nat (length ?pdu)) = Some (MB_EX_NONE, ?r)"
      using master_holding.master_read_ok(2) [of "mregs s" a req' "of_nat (length ?pdu)" fr MB_REG_READ]
        R P wf a n vs le
      by (simp only: holding_cb_mode [of a, symmetric]) (simp add: wf_master_row)
    then show ?thesis
      by (simp add: call_master_handler_def)
  qed
  have h: "drop_bit 7 (?pdu ! 0) = 0"
    "find_master_handler (?pdu ! 0) xMasterFuncHandlers = Some (Some MH_ReadHoldingRegister)"
    by (simp_all add: read_reply_def xMasterFuncHandlers_def func_defs)
  obtain s2 s3 where T: "master_sends s1 = Some s2" "tx_line s2 = tx_line s @ rtu_frame a ?req"
    "master_transfer (rtu_frame a ?pdu) s1 = Some s3" "mregs s3 = ?r"
    "master_quiet 1 (m_ev_code EV_MASTER_PROCESS_SUCESS) s3"
    using transfer_ok [OF s1(2) a req pdu(1,2) h call] by blast
  obtain s4 where "eMBMasterWaitRequestFinish s3 = Some (Req_Done MB_MRE_NO_ERR, s4)" "master_idle s4"
    "mregs s4 = mregs s3"
    using request_finishes [OF T(5) m_out_mask(1)] m_out_mask(2) [of EV_MASTER_PROCESS_SUCESS]
    by (auto simp: m_out_ev_def m_poll_ev_def m_outcome_def m_ev_code_def)
  with s1(1) T show ?thesis by auto
qed

section \<open>Master and slave together\<close>

text \<open>
  The bytes that the master puts on the line are heard by the slave, and what the slave puts on
  it by the master: the master's copy of the registers then agrees with the slave.
\<close>

lemma master_reads_slave:
  assumes idle: "master_idle m" and wf: "wf_master (mregs m)" and a: "has_row (ucMBAddress sl)"
    and ready: "slave_ready sl" "xFuncHandlers sl = func_handlers_init" "wf_slave (sregs sl)"
    and n: "1 \<le> unat n" "unat r + unat n \<le> 100"
  shows "\<exists>m1 m2 sl' m3 m4. eMBMasterReqReadHoldingRegister (ucMBAddress sl) r n t m = eMBMasterWaitRequestFinish m1 \<and>
    master_sends m1 = Some m2 \<and>
    slave_serves user (drop (length (tx_line m)) (tx_line m2)) sl = Some sl' \<and>
    master_transfer (drop (length (tx_line sl)) (tx_line sl')) m1 = Some m3 \<and>
    eMBMasterWaitRequestFinish m3 = Some (Req_Done MB_MRE_NO_ERR, m4) \<and> master_idle m4 \<and>
    sregs sl' = sregs sl \<and>
    the_row (ucMBAddress sl) (usMRegHoldBuf (mregs m4)) =
      blit (the_row (ucMBAddress sl) (usMRegHoldBuf (mregs m))) (unat r)
        (take (unat n) (drop (unat r) (usSRegHoldBuf (sregs sl))))"
proof -
  let ?a = "ucMBAddress sl" and ?vs = "take (unat n) (drop (unat r) (usSRegHoldBuf (sregs sl)))"
  have vs: "length ?vs = unat n"
    using ready(3) n by (simp add: wf_slave_def)
  have a0: "?a \<noteq> 0"
    using a by (simp add: has_row_def)
  obtain m1 m2 m3 m4 where M: "eMBMasterReqReadHoldingRegister ?a r n t m = eMBMasterWaitRequestFinish m1"
    "master_sends m1 = Some m2"
    "tx_line m2 = tx_line m @ rtu_frame ?a (read_req MB_FUNC_READ_HOLDING_REGISTER r n)"
    "master_transfer (rtu_frame ?a (read_reply MB_FUNC_READ_HOLDING_REGISTER ?vs)) m1 = Some m3"
    "eMBMasterWaitRequestFinish m3 = Some (Req_Done MB_MRE_NO_ERR, m4)" "master_idle m4"
    "mregs m4 = (mregs m)\<lparr>usMRegHoldBuf :=
      set_row ?a (blit (the_row ?a (usMRegHoldBuf (mregs m))) (unat r) ?vs) (usMRegHoldBuf (mregs m))\<rparr>"
    using master_reads_holding [OF idle wf a n(1) _ n(2) vs, of t] n by auto
  have req: "read_req MB_FUNC_READ_HOLDING_REGISTER r n = read_holding_req r n"
    by (simp add: read_req_def read_holding_req_def)
  have "ucast (n * 2) = (of_nat (2 * length ?vs) :: UCHAR)"
    using vs n count_bytes(1) [of n] by (simp add: word_unat_eq_iff unat_of_nat take_bit_nat_def del: of_nat_mult)
  then obtain sl' where S: "slave_serves user (rtu_frame ?a (read_holding_req r n)) sl = Some sl'"
    "tx_line sl' = tx_line sl @ rtu_frame ?a (read_reply MB_FUNC_READ_HOLDING_REGISTER ?vs)"
    "sregs sl' = sregs sl"
    using slave_serves_read_holding [OF ready(1) a0 ready(2,3) n, of user] by (auto simp: read_reply_def)
  have "the_row ?a (usMRegHoldBuf (mregs m4)) = blit (the_row ?a (usMRegHoldBuf (mregs m))) (unat r) ?vs"
    using M(7) a wf_master_length [OF wf] by simp
  with M S req show ?thesis
    by (intro exI [of _ m1] exI [of _ m2] exI [of _ sl'] exI [of _ m3] exI [of _ m4]) simp
qed

section \<open>Replies that report an error, or do not come\<close>

definition master_no_reply :: "mb_master \<Rightarrow> mb_master option" where
  "master_no_reply s = do {
     s \<leftarrow> master_sends s;
     (_, s) \<leftarrow> xMBMasterRTUTimerExpired s;
     (_, s) \<leftarrow> eMBMasterPoll s;
     Some s
   }"

lemma no_reply_times_out:
  assumes post: "posted 0 0 a req s0 s" and a: "has_row a" and req: "length req \<le> 250"
  shows "\<exists>s1 s2. master_no_reply s = Some s1 \<and>
    eMBMasterWaitRequestFinish s1 = Some (Req_Done MB_MRE_TIMEDOUT, s2) \<and> master_idle s2 \<and>
    mregs s2 = mregs s0 \<and> holds_req a req s2 \<and> \<not> xFrameIsBroadcast s2"
proof -
  have a16: "unat a \<le> 16" "a \<noteq> 0"
    using a by (auto simp: has_row_def)
  obtain s1 where s1: "master_sends s = Some s1" "awaits a req s1" "mregs s1 = mregs s0"
    using posted_sends [OF post a16(1) req] by blast
  obtain x s2 where s2: "xMBMasterRTUTimerExpired s1 = Some (x, s2)"
    "master_quiet 0 (m_ev_code EV_MASTER_ERROR_PROCESS) s2" "holds_req a req s2" "\<not> xFrameIsBroadcast s2"
    "eMBMasterCurErrorType s2 = EV_ERROR_RESPOND_TIMEOUT" "mregs s2 = mregs s1"
    using awaits_times_out [OF s1(2) a16(2)] by blast
  obtain s3 where s3: "eMBMasterPoll s2 = Some (M_Poll_Done MB_ENOERR, s3)"
    "master_quiet 1 (m_ev_code EV_MASTER_ERROR_RESPOND_TIMEOUT) s3" "mregs s3 = mregs s2"
    "holds_req a req s3" "\<not> xFrameIsBroadcast s3"
    using error_polled [OF s2(2)] s2(3-5) by (auto simp: err_flag_def)
  have out: "m_out_ev EV_MASTER_ERROR_RESPOND_TIMEOUT"
    by (simp add: m_out_ev_def m_poll_ev_def)
  obtain s4 where "eMBMasterWaitRequestFinish s3 = Some (Req_Done MB_MRE_TIMEDOUT, s4)" "master_idle s4"
    "mregs s4 = mregs s3" "holds_req a req s4" "\<not> xFrameIsBroadcast s4"
    using request_finishes [OF s3(2) m_out_mask(1) [OF out] out] m_out_mask(2) [OF out] s3(4,5)
    by (auto simp: m_outcome_def m_ev_code_def)
  then show ?thesis
    using s1(1,3) s2(1,6) s3(1,3) by (intro exI [of _ s3] exI [of _ s4]) (simp add: master_no_reply_def)
qed

text \<open>
  Two polls conclude an execution that failed: one posts the error process, the next one tells
  the requester.
\<close>

lemma exception_reply:
  assumes post: "posted 0 0 a req s0 s" and a: "has_row a" and req: "length req \<le> 250" and fc: "drop_bit 7 fc \<noteq> 0" and e: "e \<noteq> MB_EX_NONE"
  shows "\<exists>s1 s2 s3. master_transfer (rtu_frame a [fc, e]) s = Some s1 \<and>
    eMBMasterPoll s1 = Some (M_Poll_Done MB_ENOERR, s2) \<and>
    eMBMasterWaitRequestFinish s2 = Some (Req_Done MB_MRE_EXE_FUN, s3) \<and> master_idle s3 \<and> mregs s3 = mregs s0"
proof -
  have a16: "unat a \<le> 16" "a \<noteq> 0"
    using a by (auto simp: has_row_def)
  obtain s1 where s1: "master_sends s = Some s1" "awaits a req s1" "mregs s1 = mregs s0"
    using posted_sends [OF post a16(1) req] by blast
  note A = awaitsD [OF s1(2)]
  obtain s3 where s3: "master_hears (rtu_frame a [fc, e]) s1 = Some s3" "heard 0 a req [fc, e] s3"
    "mregs s3 = mregs s1"
    using hears_reply [OF A(1-3) A(4) [OF a16(2)], of "[fc, e]"] by auto
  obtain x s4 where s4: "eMBMasterPoll s3 = Some (M_Poll_Done MB_ENOERR, s4)" "concluded 0 x s4"
    "eMException x = e" "mregs x = mregs s3"
    using heard_exception [OF s3(2) fc] by blast
  have q: "master_quiet 0 (m_ev_code EV_MASTER_ERROR_PROCESS) s4"
    "eMBMasterCurErrorType s4 = EV_ERROR_EXECUTE_FUNCTION" "mregs s4 = mregs s3"
    using s4(2-4) e by (auto simp: concluded_def)
  obtain s5 where s5: "eMBMasterPoll s4 = Some (M_Poll_Done MB_ENOERR, s5)"
    "master_quiet 1 (m_ev_code EV_MASTER_ERROR_EXECUTE_FUNCTION) s5" "mregs s5 = mregs s4"
    using error_polled [OF q(1)] q(2) by (auto simp: err_flag_def)
  have out: "m_out_ev EV_MASTER_ERROR_EXECUTE_FUNCTION"
    by (simp add: m_out_ev_def m_poll_ev_def)
  obtain s6 where "eMBMasterWaitRequestFinish s5 = Some (Req_Done MB_MRE_EXE_FUN, s6)" "master_idle s6"
    "mregs s6 = mregs s5"
    using request_finishes [OF s5(2) m_out_mask(1) [OF out] out] m_out_mask(2) [OF out]
    by (auto simp: m_outcome_def m_ev_code_def)
  then show ?thesis
    using s1(1,3) s3(1,3) s4(1) q(3) s5(1,3)
    by (intro exI [of _ s4] exI [of _ s5] exI [of _ s6]) (simp add: master_transfer_def)
qed

section \<open>Bytes that nobody asked for\<close>

text \<open>
  The error process releases the running resource whether a request holds it or not. A burst on
  the line of an idle master leaves two units behind, and the flag for the outcome of a
  request: the next request ends with that outcome before it is sent.
\<close>

lemma noise_frees_resource:
  assumes idle: "master_idle s" and bs: "bs \<noteq> []" "length bs \<le> 255"
    and bad: "length bs < 4 \<or> usMBCRC16 bs \<noteq> 0 \<or> bs ! 0 \<noteq> ucMBMasterDestAddress s" and a: "unat a \<le> 16"
  shows "\<exists>s1 s2 s3. master_hears bs s = Some s1 \<and> eMBMasterPoll s1 = Some (M_Poll_Done MB_ENOERR, s2) \<and>
    sem_value (xMasterRunRes s2) = 2 \<and>
    eMBMasterReqReadHoldingRegister a r n t s2 = Some (Req_Done MB_MRE_REV_DATA, s3) \<and>
    tx_line s3 = tx_line s2 \<and> sem_value (xMasterRunRes s3) = 1"
proof -
  have B: "master_base 1 s" "ev_set (os_event s) = 0"
    using idle by (simp_all add: master_quiet_def)
  obtain s1 where s1: "master_hears bs s = Some s1" "master_quiet 1 (m_ev_code EV_MASTER_ERROR_PROCESS) s1"
    "eMBMasterCurErrorType s1 = EV_ERROR_RECEIVE_DATA"
    using hears_garbage [OF B bs bad] by blast
  obtain s2 where s2: "eMBMasterPoll s1 = Some (M_Poll_Done MB_ENOERR, s2)"
    "master_quiet 2 (m_ev_code EV_MASTER_ERROR_RECEIVE_DATA) s2"
    using error_polled [OF s1(2)] s1(3) by (auto simp: err_flag_def)
  obtain s3 where s3: "eMBMasterReqReadHoldingRegister a r n t s2 = eMBMasterWaitRequestFinish s3"
    "posted 1 (m_ev_code EV_MASTER_ERROR_RECEIVE_DATA) a (read_req MB_FUNC_READ_HOLDING_REGISTER r n) s2 s3"
    using read_holding_posts [OF s2(2) _ a, of r n t] by auto
  let ?ev = "m_ev_code EV_MASTER_ERROR_RECEIVE_DATA OR m_ev_code EV_MASTER_FRAME_SENT"
  have q: "master_quiet 1 ?ev s3" "tx_line s3 = tx_line s2"
    using s3(2) by (simp_all add: posted_def)
  note D = master_baseD [OF conjunct1 [OF q(1) [unfolded master_quiet_def]]]
  have "?ev AND (32 OR 64 OR 128 OR 256) = m_ev_code EV_MASTER_ERROR_RECEIVE_DATA"
    by (simp add: m_ev_code_def)
  then obtain k where "eMBMasterWaitRequestFinish s3 = Some (Req_Done MB_MRE_REV_DATA,
      s3\<lparr>os_event := (os_event s3)\<lparr>ev_set := ev_set (os_event s3) AND NOT (32 OR 64 OR 128 OR 256)\<rparr>, kern := k\<rparr>)"
    using eMBMasterWaitRequestFinish_flags [OF D(2), of "m_ev_code EV_MASTER_ERROR_RECEIVE_DATA"] q(1)
    by (auto simp: master_quiet_def m_outcome_def m_ev_code_def)
  then show ?thesis
    using s1(1) s2 s3(1) q(2) D(7)
    by (intro exI [of _ s1] exI [of _ s2] exI [of _ "s3\<lparr>os_event := (os_event s3)
        \<lparr>ev_set := ev_set (os_event s3) AND NOT (32 OR 64 OR 128 OR 256)\<rparr>, kern := k\<rparr>"])
      (simp add: master_quiet_def master_base_def)
qed

text \<open>A frame of 256 bytes fails the assertion of the poll that looks at it.\<close>

lemma full_frame_kills_poll:
  assumes base: "master_base v s" and ev: "ev_set (os_event s) = 0" and bs: "length bs = 256"
  shows "\<exists>s1. rtu_m_burst bs s = Some s1 \<and> eMBMasterPoll s1 = None"
proof -
  note D = master_baseD [OF base]
  let ?s1 = "(m_t35 s)\<lparr>ucMasterRTURcvBuf := blit (ucMasterRTURcvBuf s) 0 bs,
      usMasterRcvBufferPos := 256, eMSndState := STATE_M_TX_IDLE, timer_on := False,
      os_event := (os_event s)\<lparr>ev_set := m_ev_code EV_MASTER_FRAME_RECEIVED\<rparr>\<rparr>"
  have burst: "rtu_m_burst bs s = Some ?s1"
    using rtu_m_burst_frame [of s bs] D bs ev by (cases "bs = []") auto
  have "eMBMState ?s1 = STATE_ENABLED" "port_calm ?s1" "ev_set (os_event ?s1) = m_ev_code EV_MASTER_FRAME_RECEIVED"
    using D by (simp_all add: m_t35_def port_calm_def)
  from eMBMasterPoll_one [OF this] obtain s2 k where s2: "s2 = ?s1\<lparr>os_event := (os_event ?s1)\<lparr>ev_set := 0\<rparr>, kern := k\<rparr>"
    "eMBMasterPoll ?s1 = do { s \<leftarrow> m_poll_received s2; Some (M_Poll_Done MB_ENOERR, s) }"
    by (auto simp: m_poll_ev_def)
  have "eMBMasterRTUReceive s2 = None"
    by (simp add: s2(1) eMBMasterRTUReceive_def)
  then show ?thesis
    using burst s2(2) by (intro exI [of _ ?s1]) (simp add: m_poll_received_def)
qed

section \<open>Requests that cannot be sent\<close>

text \<open>
  Before the first silence on the line the transport refuses to send; \<^verbatim>\<open>eMBMasterPoll\<close> ignores that
  result. The request stays pending with no timer and no event left to end it, and the
  resource stays taken.
\<close>

lemma startup_request_lost:
  assumes en: "eMBMState s = STATE_ENABLED" and calm: "port_calm s"
    and st: "eMRcvState s = STATE_M_RX_INIT" "eMSndState s = STATE_M_TX_IDLE"
    and mode: "eMasterCurTimerMode s = MB_TMODE_T35"
    and res: "sem_value (xMasterRunRes s) = 1" and ev: "ev_set (os_event s) = 0"
    and buf: "length (ucMasterRTUSndBuf s) = 253" and a: "unat a \<le> 16"
  shows "\<exists>s1 s2 x s3 s4. eMBMasterReqReadHoldingRegister a r n t s = eMBMasterWaitRequestFinish s1 \<and>
    eMBMasterPoll s1 = Some (M_Poll_Done MB_ENOERR, s2) \<and>
    xMBMasterRTUTimerExpired s2 = Some (x, s3) \<and>
    eMBMasterPoll s3 = Some (M_Poll_Done MB_ENOERR, s4) \<and>
    ev_set (os_event s4) = 0 \<and> \<not> timer_on s4 \<and> eMSndState s4 = STATE_M_TX_IDLE \<and>
    tx_line s4 = tx_line s \<and> event_serial s4 = event_serial s \<and> sem_value (xMasterRunRes s4) = 0"
proof -
  let ?req = "read_req MB_FUNC_READ_HOLDING_REGISTER r n"
  let ?s1 = "s\<lparr>xMasterRunRes := (xMasterRunRes s)\<lparr>sem_value := 0\<rparr>, ucMBMasterDestAddress := a,
    ucMasterRTUSndBuf := blit (ucMasterRTUSndBuf s) 1 ?req, usMasterSendPDULength := of_nat (length ?req),
    os_event := (os_event s)\<lparr>ev_set := m_ev_code EV_MASTER_FRAME_SENT\<rparr>\<rparr>"
  have idle: "suspend_thread (os_event s) = []"
    using calm by (simp add: port_calm_def)
  have "eMBMasterReqReadHoldingRegister a r n t s = eMBMasterWaitRequestFinish ?s1"
    using xMBMasterRunResTake_free [of s t] res a ev buf idle
      fill_read_eq [of "s\<lparr>xMasterRunRes := (xMasterRunRes s)\<lparr>sem_value := 0\<rparr>\<rparr>"]
    by (simp add: eMBMasterReqReadHoldingRegister_def master_req_def req_begin_def
        vMBMasterSetPDUSndLength_def vMBMasterSetDestAddress_def)
  moreover have "eMBMState ?s1 = STATE_ENABLED" "port_calm ?s1"
    "ev_set (os_event ?s1) = m_ev_code EV_MASTER_FRAME_SENT"
    using en calm by (simp_all add: port_calm_def)
  from eMBMasterPoll_one [OF this] obtain s1' k where s1': "port_calm s1'"
    "s1' = ?s1\<lparr>os_event := (os_event ?s1)\<lparr>ev_set := 0\<rparr>, kern := k\<rparr>"
    "eMBMasterPoll ?s1 = do { s \<leftarrow> m_poll_sent s1'; Some (M_Poll_Done MB_ENOERR, s) }"
    by (auto simp: m_poll_ev_def)
  let ?s2 = "s1'\<lparr>ucMBMFrame := Some Snd_Pdu\<rparr>"
  have "m_poll_sent s1' = Some ?s2"
    using a st(1) by (simp add: m_poll_sent_def eMBMasterRTUSend_def s1'(2))
  moreover let ?s3 = "?s2\<lparr>os_event := (os_event ?s2)\<lparr>ev_set := m_ev_code EV_MASTER_READY\<rparr>,
    eMRcvState := STATE_M_RX_IDLE, eMSndState := STATE_M_TX_IDLE, timer_on := False\<rparr>"
  have "xMBMasterRTUTimerExpired ?s2 = Some (True, ?s3)"
    using st mode idle
    by (simp add: xMBMasterRTUTimerExpired_def vMBMasterPortTimersDisable_def s1'(2))
  moreover have "eMBMState ?s3 = STATE_ENABLED" "port_calm ?s3"
    "ev_set (os_event ?s3) = m_ev_code EV_MASTER_READY"
    using en s1'(1) idle by (simp_all add: s1'(2) port_calm_def)
  from eMBMasterPoll_one [OF this] obtain s4 k' where s4:
    "s4 = ?s3\<lparr>os_event := (os_event ?s3)\<lparr>ev_set := 0\<rparr>, kern := k'\<rparr>"
    "eMBMasterPoll ?s3 = Some (M_Poll_Done MB_ENOERR, s4)"
    by (auto simp: m_poll_ev_def)
  ultimately show ?thesis
    using s1'(3) s4
    by (intro exI [of _ ?s1] exI [of _ ?s2] exI [of _ True] exI [of _ ?s3] exI [of _ s4])
      (simp add: s1'(2))
qed

text \<open>
  A request for 1953 to 1968 coils is accepted, but its frame is longer than the send
  buffer: the poll writes the checksum behind it.
\<close>

lemma fill_coils_eq:
  assumes "length (ucMasterRTUSndBuf s) = 253" "unat n \<le> 1968" "unat (coil_bytes n) \<le> length data"
  shows "req_fill a [MB_FUNC_WRITE_MULTIPLE_COILS, hi8 c, lo8 c, hi8 n, lo8 n, coil_bytes n]
      (\<lambda>buf. copy_bytes buf 7 data 0 (unat (coil_bytes n))) (1 + 5 + ucast (coil_bytes n)) s =
    (let req = [MB_FUNC_WRITE_MULTIPLE_COILS, hi8 c, lo8 c, hi8 n, lo8 n, coil_bytes n] @
         take (unat (coil_bytes n)) data in
     Some (vMBMasterSetPDUSndLength (of_nat (length req))
        ((vMBMasterSetDestAddress a s)\<lparr>ucMasterRTUSndBuf := blit (ucMasterRTUSndBuf s) 1 req\<rparr>)))"
proof -
  let ?h = "[MB_FUNC_WRITE_MULTIPLE_COILS, hi8 c, lo8 c, hi8 n, lo8 n, coil_bytes n]"
  have b: "unat (coil_bytes n) \<le> 246"
    using coil_bytes_small [of n] assms(2) by simp
  have seven: "1 + length ?h = 7"
    by simp
  have "put_bytes (ucMasterRTUSndBuf s) 1 ?h = Some (blit (ucMasterRTUSndBuf s) 1 ?h)"
    using assms(1) by (intro put_bytes_eq) simp
  moreover have "copy_bytes (blit (ucMasterRTUSndBuf s) 1 ?h) 7 data 0 (unat (coil_bytes n)) =
      Some (blit (blit (ucMasterRTUSndBuf s) 1 ?h) 7 (take (unat (coil_bytes n)) data))"
    using copy_bytes_eq [of 7 "unat (coil_bytes n)" "blit (ucMasterRTUSndBuf s) 1 ?h" 0 data] assms b by simp
  moreover have "blit (blit (ucMasterRTUSndBuf s) 1 ?h) 7 (take (unat (coil_bytes n)) data) =
      blit (ucMasterRTUSndBuf s) 1 (?h @ take (unat (coil_bytes n)) data)"
    using blit_append [of 1 ?h "take (unat (coil_bytes n)) data" "ucMasterRTUSndBuf s", unfolded seven] assms b
    by simp
  moreover have "1 + 5 + ucast (coil_bytes n) = (of_nat (6 + unat (coil_bytes n)) :: USHORT)"
    by (simp add: of_nat_unat)
  ultimately show ?thesis
    using assms(3) by (simp add: req_fill_def vMBMasterSetDestAddress_def vMBMasterSetPDUSndLength_def Let_def
        del: put_bytes.simps)
qed

lemma coil_request_overflows:
  assumes idle: "master_idle s" and a: "unat a \<le> 16" and n: "1953 \<le> unat n" "unat n \<le> 1968"
    and data: "246 \<le> length data"
  shows "\<exists>s1. eMBMasterReqWriteMultipleCoils a c n data t s = eMBMasterWaitRequestFinish s1 \<and>
    eMBMasterPoll s1 = None"
proof -
  let ?req = "[MB_FUNC_WRITE_MULTIPLE_COILS, hi8 c, lo8 c, hi8 n, lo8 n, coil_bytes n] @
    take (unat (coil_bytes n)) data"
  have b: "245 \<le> unat (coil_bytes n)" "unat (coil_bytes n) \<le> 246"
    using coil_bytes_small [of n] n by simp_all
  then have len: "251 \<le> length ?req" "length ?req \<le> 252"
    using data by simp_all
  have le: "n \<le> 0x07B0"
    using n(2) by (simp add: word_le_nat_alt)
  obtain s1 where s1: "eMBMasterReqWriteMultipleCoils a c n data t s = eMBMasterWaitRequestFinish s1"
    "posted 0 0 a ?req s s1"
    using master_req_posts [of 1 0 s ?req, OF idle _ _ len(2) fill_coils_eq [unfolded Let_def]] b data n a le
    by (auto simp: eMBMasterReqWriteMultipleCoils_def)
  have Q: "master_base 0 s1" "ev_set (os_event s1) = m_ev_code EV_MASTER_FRAME_SENT"
    "ucMBMasterDestAddress s1 = a" "usMasterSendPDULength s1 = of_nat (length ?req)"
    using s1(2) by (simp_all add: posted_def master_quiet_def holds_req_def)
  note D = master_baseD [OF Q(1)]
  obtain s2 k where s2: "s2 = s1\<lparr>os_event := (os_event s1)\<lparr>ev_set := 0\<rparr>, kern := k\<rparr>"
    "eMBMasterPoll s1 = do { s \<leftarrow> m_poll_sent s2; Some (M_Poll_Done MB_ENOERR, s) }"
    using eMBMasterPoll_one [OF D(1,2) Q(2)] by (auto simp: m_poll_ev_def)
  have u: "unat (of_nat (length ?req) :: USHORT) = length ?req"
    using len by (intro rtu_pos) simp
  have "eMBMasterRTUSend a 1 (of_nat (length ?req)) (s2\<lparr>ucMBMFrame := Some Snd_Pdu\<rparr>) = None"
    using D len u a by (intro eMBMasterRTUSend_overflow) (simp_all add: s2(1))
  then have "eMBMasterPoll s1 = None"
    using s2 Q(3,4) by (simp add: m_poll_sent_def)
  with s1(1) show ?thesis by blast
qed

section \<open>Failed reads, from the request on\<close>

lemma read_times_out:
  assumes "master_idle s" "has_row a"
  shows "\<exists>s1 s2 s3. eMBMasterReqReadHoldingRegister a r n t s = eMBMasterWaitRequestFinish s1 \<and>
    master_no_reply s1 = Some s2 \<and>
    eMBMasterWaitRequestFinish s2 = Some (Req_Done MB_MRE_TIMEDOUT, s3) \<and> master_idle s3 \<and> mregs s3 = mregs s"
proof -
  obtain s1 where "eMBMasterReqReadHoldingRegister a r n t s = eMBMasterWaitRequestFinish s1"
    "posted 0 0 a (read_req MB_FUNC_READ_HOLDING_REGISTER r n) s s1"
    using read_holding_posts [OF assms(1), of a r n t] assms(2) by (auto simp: has_row_def)
  then show ?thesis
    using no_reply_times_out [OF _ assms(2), of "read_req MB_FUNC_READ_HOLDING_REGISTER r n" s s1]
    by (auto simp: length_read_req)
qed

lemma read_gets_exception:
  assumes "master_idle s" "has_row a" "drop_bit 7 fc \<noteq> 0" "e \<noteq> MB_EX_NONE"
  shows "\<exists>s1 s2 s3 s4. eMBMasterReqReadHoldingRegister a r n t s = eMBMasterWaitRequestFinish s1 \<and>
    master_transfer (rtu_frame a [fc, e]) s1 = Some s2 \<and>
    eMBMasterPoll s2 = Some (M_Poll_Done MB_ENOERR, s3) \<and>
    eMBMasterWaitRequestFinish s3 = Some (Req_Done MB_MRE_EXE_FUN, s4) \<and> master_idle s4 \<and> mregs s4 = mregs s"
proof -
  obtain s1 where "eMBMasterReqReadHoldingRegister a r n t s = eMBMasterWaitRequestFinish s1"
    "posted 0 0 a (read_req MB_FUNC_READ_HOLDING_REGISTER r n) s s1"
    using read_holding_posts [OF assms(1), of a r n t] assms(2) by (auto simp: has_row_def)
  then show ?thesis
    using exception_reply [OF _ assms(2) _ assms(3,4), of "read_req MB_FUNC_READ_HOLDING_REGISTER r n" s s1]
    by (auto simp: length_read_req)
qed

end
