(* ===== verification/Mb_Broadcast.thy ===== *)
theory Mb_Broadcast
  imports Mb_Transaction
begin

text \<open>
  Broadcast writes of the master: nobody replies, and after the delay the poll loop executes the
  request itself for the copy of every slave.
\<close>

section \<open>The request\<close>

lemma length_write_multiple_req: "length (write_multiple_req r vs) = 6 + 2 * length vs"
  by (simp add: write_multiple_req_def Let_def)

lemma fill_write_eq:
  assumes "length (ucMasterRTUSndBuf s) = 253" "length vs \<le> 120"
  defines "n \<equiv> of_nat (length vs)"
  shows "req_fill a [MB_FUNC_WRITE_MULTIPLE_REGISTERS, hi8 r, lo8 r, hi8 n, lo8 n, ucast (n * 2)]
      (\<lambda>buf. regs_to_frame buf 7 vs 0 (unat n)) (1 + 5 + 2 * n) s =
    Some (vMBMasterSetPDUSndLength (of_nat (length (write_multiple_req r vs)))
      ((vMBMasterSetDestAddress a s)\<lparr>ucMasterRTUSndBuf := blit (ucMasterRTUSndBuf s) 1 (write_multiple_req r vs)\<rparr>))"
proof -
  let ?h = "[MB_FUNC_WRITE_MULTIPLE_REGISTERS, hi8 r, lo8 r, hi8 n, lo8 n, ucast (n * 2)]"
  have n: "unat n = length vs"
    unfolding n_def using assms(2) by (intro rtu_pos) simp
  have req: "write_multiple_req r vs = ?h @ regs_bytes vs"
    by (simp add: write_multiple_req_def n_def Let_def mult.commute)
  have seven: "1 + length ?h = 7"
    by simp
  have "put_bytes (ucMasterRTUSndBuf s) 1 ?h = Some (blit (ucMasterRTUSndBuf s) 1 ?h)"
    using assms(1) by (intro put_bytes_eq) simp
  moreover have "regs_to_frame (blit (ucMasterRTUSndBuf s) 1 ?h) 7 vs 0 (unat n) =
      Some (blit (blit (ucMasterRTUSndBuf s) 1 ?h) 7 (regs_bytes vs))"
    using regs_to_frame_eq [of 0 "unat n" vs 7 "blit (ucMasterRTUSndBuf s) 1 ?h"] assms(1,2) n by simp
  moreover have "blit (blit (ucMasterRTUSndBuf s) 1 ?h) 7 (regs_bytes vs) =
      blit (ucMasterRTUSndBuf s) 1 (write_multiple_req r vs)"
    using blit_append [of 1 ?h "regs_bytes vs" "ucMasterRTUSndBuf s", unfolded seven] assms(1,2)
    by (simp add: req)
  moreover have "1 + 5 + 2 * n = of_nat (length (write_multiple_req r vs))"
    by (simp add: length_write_multiple_req n_def)
  ultimately show ?thesis
    by (simp add: req_fill_def vMBMasterSetDestAddress_def vMBMasterSetPDUSndLength_def del: put_bytes.simps)
qed

lemma write_multiple_posts:
  assumes "master_quiet v ev s" "0 < v" "unat a \<le> 16" "length vs \<le> 120"
  shows "\<exists>s1. eMBMasterReqWriteMultipleHoldingRegister a r (of_nat (length vs)) vs t s = eMBMasterWaitRequestFinish s1 \<and>
    posted (v - 1) ev a (write_multiple_req r vs) s s1"
proof -
  have len: "write_multiple_req r vs \<noteq> []" "length (write_multiple_req r vs) \<le> 252"
    using assms(4) length_write_multiple_req [of r vs] by auto
  from master_req_posts [where t = t and a = a, OF assms(1,2) len fill_write_eq [OF _ assms(4)]] assms(3)
  show ?thesis
    by (simp add: eMBMasterReqWriteMultipleHoldingRegister_def)
qed

section \<open>Executing it for every slave\<close>

lemma holding_cb_mode_w: "eMBMasterRegHoldingCB d = (\<lambda>s fr p a n m. eMBMasterRegHoldingCB d s fr p a n MB_REG_WRITE)"
  by (simp add: fun_eq_iff eMBMasterRegHoldingCB_def)

lemma write_req_fields:
  assumes "take (length (write_multiple_req r vs)) req' = write_multiple_req r vs" "length vs \<le> 120"
  shows "6 + 2 * length vs \<le> length req'" "req_addr req' = r" "unat (req_count req') = length vs"
    "unat (req' ! 5) = 2 * length vs" "take (2 * length vs) (drop 6 req') = regs_bytes vs"
    "req' ! 0 = MB_FUNC_WRITE_MULTIPLE_REGISTERS"
proof -
  define n :: USHORT where "n = of_nat (length vs)"
  have n: "unat n = length vs"
    unfolding n_def using assms(2) by (intro rtu_pos) simp
  have h: "write_multiple_req r vs =
      [MB_FUNC_WRITE_MULTIPLE_REGISTERS, hi8 r, lo8 r, hi8 n, lo8 n, ucast (n * 2)] @ regs_bytes vs"
    by (simp add: write_multiple_req_def n_def Let_def mult.commute)
  obtain x where "req' = write_multiple_req r vs @ x"
    using assms(1) append_take_drop_id [of "length (write_multiple_req r vs)" req'] by metis
  then have req: "req' = [MB_FUNC_WRITE_MULTIPLE_REGISTERS, hi8 r, lo8 r, hi8 n, lo8 n, ucast (n * 2)] @
      regs_bytes vs @ x"
    by (simp only: h append.assoc)
  show "6 + 2 * length vs \<le> length req'" "take (2 * length vs) (drop 6 req') = regs_bytes vs"
    "req' ! 0 = MB_FUNC_WRITE_MULTIPLE_REGISTERS"
    by (simp_all add: req)
  show "req_addr req' = r"
    by (simp add: req req_addr_def numeral_2_eq_2)
  have "req_count req' = n"
    by (simp add: req req_count_def numeral_3_eq_3 eval_nat_numeral)
  then show "unat (req_count req') = length vs"
    using n by simp
  have "req' ! 5 = ucast (n * 2)"
    by (simp add: req eval_nat_numeral)
  then show "unat (req' ! 5) = 2 * length vs"
    using count_bytes(1) [of n] n assms(2) by simp
qed

text \<open>One call of the handler, on the row of the slave that is the current destination.\<close>

definition holds_write :: "USHORT \<Rightarrow> USHORT list \<Rightarrow> mb_master \<Rightarrow> bool" where
  "holds_write r vs s \<longleftrightarrow> ucMBMFrame s = Some Snd_Pdu \<and> xFrameIsBroadcast s \<and>
     length (ucMasterRTUSndBuf s) = 253 \<and>
     take (length (write_multiple_req r vs)) (drop 1 (ucMasterRTUSndBuf s)) = write_multiple_req r vs"

lemma run_write_multiple:
  assumes h: "holds_write r vs s" and d: "has_row (ucMBMasterDestAddress s)" and wf: "wf_master (mregs s)"
    and vs: "1 \<le> length vs" "unat r + length vs \<le> 100"
  shows "run_master_handler MH_WriteMultipleHoldingRegister s = Some (s\<lparr>eMException := MB_EX_NONE,
    mregs := (mregs s)\<lparr>usMRegHoldBuf := set_row (ucMBMasterDestAddress s)
      (blit (the_row (ucMBMasterDestAddress s) (usMRegHoldBuf (mregs s))) (unat r) vs) (usMRegHoldBuf (mregs s))\<rparr>\<rparr>)"
proof -
  let ?d = "ucMBMasterDestAddress s" and ?req = "drop 1 (ucMasterRTUSndBuf s)"
  have H: "ucMBMFrame s = Some Snd_Pdu" "xFrameIsBroadcast s"
    "take (length (write_multiple_req r vs)) ?req = write_multiple_req r vs"
    using h by (auto simp: holds_write_def)
  note F = write_req_fields [OF H(3)]
  have "eMBMasterFuncWriteMultipleHoldingRegister (eMBMasterRegHoldingCB ?d) True ?req (mregs s) ?req (usMLength s) =
    Some (MB_EX_NONE, (mregs s)\<lparr>usMRegHoldBuf := set_row ?d
      (blit (the_row ?d (usMRegHoldBuf (mregs s))) (unat r) vs) (usMRegHoldBuf (mregs s))\<rparr>)"
    using master_holding.master_write_multiple_ok [of "mregs s" ?d ?req "usMLength s" True MB_REG_WRITE ?req] F vs d wf
    by (simp only: holding_cb_mode_w [of ?d, symmetric]) (simp add: wf_master_row)
  moreover have "take 1 (ucMasterRTUSndBuf s) @ ?req = ucMasterRTUSndBuf s"
    by (rule append_take_drop_id)
  ultimately show ?thesis
    using H(1,2) by (simp add: run_master_handler_def call_master_handler_def frame_of_def set_frame_def)
qed

lemma for_slaves_write:
  assumes "holds_write r vs s" "wf_master (mregs s)" "1 \<le> length vs" "unat r + length vs \<le> 100"
    and "\<forall>j \<in> set js. has_row j" "distinct js" "js \<noteq> []"
  shows "\<exists>d rs. for_slaves MH_WriteMultipleHoldingRegister js s =
      Some (s\<lparr>ucMBMasterDestAddress := d, eMException := MB_EX_NONE, mregs := rs\<rparr>) \<and> wf_master rs \<and>
    (\<forall>j. has_row j \<longrightarrow> the_row j (usMRegHoldBuf rs) =
      (if j \<in> set js then blit (the_row j (usMRegHoldBuf (mregs s))) (unat r) vs
       else the_row j (usMRegHoldBuf (mregs s))))"
  using assms
proof (induction js arbitrary: s)
  case (Cons j js)
  let ?row = "blit (the_row j (usMRegHoldBuf (mregs s))) (unat r) vs"
  let ?rs = "(mregs s)\<lparr>usMRegHoldBuf := set_row j ?row (usMRegHoldBuf (mregs s))\<rparr>"
  let ?s = "s\<lparr>ucMBMasterDestAddress := j, eMException := MB_EX_NONE, mregs := ?rs\<rparr>"
  have j: "has_row j" "j \<notin> set js" "distinct js" "\<forall>j \<in> set js. has_row j"
    using Cons.prems(5,6) by auto
  have "holds_write r vs (s\<lparr>ucMBMasterDestAddress := j\<rparr>)"
    using Cons.prems(1) by (simp add: holds_write_def)
  from run_write_multiple [OF this] have run: "run_master_handler MH_WriteMultipleHoldingRegister
      (vMBMasterSetDestAddress j s) = Some ?s"
    using Cons.prems(2-4) j(1) by (simp add: vMBMasterSetDestAddress_def)
  have rows: "length (usMRegHoldBuf (mregs s)) = 16" "length (the_row j (usMRegHoldBuf (mregs s))) = 100"
    using wf_master_length [OF Cons.prems(2)] wf_master_row [of "mregs s" j] Cons.prems(2) j(1) by auto
  then have wf: "wf_master ?rs"
    using Cons.prems(2,4) by (simp add: wf_master_def rows_ok_set)
  have here: "the_row i (usMRegHoldBuf ?rs) = (if i = j then ?row else the_row i (usMRegHoldBuf (mregs s)))"
    if "has_row i" for i
    using that j(1) rows the_set_row_other [of j i] by auto
  show ?case
  proof (cases "js = []")
    case True
    then show ?thesis
      using run wf here by (intro exI [of _ j] exI [of _ ?rs]) simp
  next
    case False
    have "holds_write r vs ?s"
      using Cons.prems(1) by (simp add: holds_write_def)
    from Cons.IH [OF this _ Cons.prems(3,4) j(4,3) False] wf obtain d rs where
      "for_slaves MH_WriteMultipleHoldingRegister js ?s =
        Some (?s\<lparr>ucMBMasterDestAddress := d, eMException := MB_EX_NONE, mregs := rs\<rparr>)" "wf_master rs"
      "\<forall>i. has_row i \<longrightarrow> the_row i (usMRegHoldBuf rs) =
        (if i \<in> set js then blit (the_row i (usMRegHoldBuf ?rs)) (unat r) vs else the_row i (usMRegHoldBuf ?rs))"
      by auto
    then show ?thesis
      using run here j(2) by (intro exI [of _ d] exI [of _ rs]) auto
  qed
next
  case Nil
  from Nil.prems(7) show ?case by (simp only: simp_thms)
qed

lemma slave_addresses:
  "\<forall>j \<in> set (map of_nat [1..<17] :: UCHAR list). has_row j" "distinct (map of_nat [1..<17] :: UCHAR list)"
  "has_row d \<Longrightarrow> d \<in> set (map of_nat [1..<17] :: UCHAR list)"
proof -
  have u: "unat (of_nat k :: UCHAR) = k" if "k < 256" for k
    using that by (simp add: unat_of_nat take_bit_nat_def)
  show "\<forall>j \<in> set (map of_nat [1..<17] :: UCHAR list). has_row j"
    using u by (auto simp: has_row_def word_unat_eq_iff)
  have "inj_on (of_nat :: nat \<Rightarrow> UCHAR) (set [1..<17])"
  proof (rule inj_onI)
    fix x y
    assume xy: "x \<in> set [1..<17]" "y \<in> set [1..<17]" and "of_nat x = (of_nat y :: UCHAR)"
    then have "unat (of_nat x :: UCHAR) = unat (of_nat y :: UCHAR)"
      by (simp only:)
    with xy show "x = y"
      using u [of x] u [of y] by (auto simp only: set_upt atLeastLessThan_iff)
  qed
  then show "distinct (map of_nat [1..<17] :: UCHAR list)"
    by (simp add: distinct_map)
  show "d \<in> set (map of_nat [1..<17] :: UCHAR list)" if "has_row d"
    using that has_row_bounds [OF that] by (auto simp: has_row_def intro!: image_eqI [of _ _ "unat d"])
qed

section \<open>The whole broadcast\<close>

lemma awaits_broadcast_expires:
  assumes "awaits 0 req s"
  shows "\<exists>s'. xMBMasterRTUTimerExpired s = Some (True, s') \<and> master_quiet 0 (m_ev_code EV_MASTER_EXECUTE) s' \<and>
    mregs s' = mregs s \<and> holds_req 0 req s' \<and> xFrameIsBroadcast s' \<and> ucMBMFrame s' = Some Snd_Pdu"
proof -
  have A: "master_base 0 s" "eMSndState s = STATE_M_TX_XFWR" "ev_set (os_event s) = 0" "xFrameIsBroadcast s"
    "eMasterCurTimerMode s = MB_TMODE_CONVERT_DELAY" "holds_req 0 req s" "ucMBMFrame s = Some Snd_Pdu"
    using assms by (auto simp: awaits_def)
  note D = master_baseD [OF A(1)]
  let ?s = "s\<lparr>os_event := (os_event s)\<lparr>ev_set := m_ev_code EV_MASTER_EXECUTE\<rparr>,
    eMSndState := STATE_M_TX_IDLE, timer_on := False\<rparr>"
  have "s\<lparr>eMRcvState := STATE_M_RX_IDLE\<rparr> = s"
    using D by simp
  then have "xMBMasterRTUTimerExpired s = Some (True, ?s)"
    using D A by (simp add: xMBMasterRTUTimerExpired_def vMBMasterPortTimersDisable_def)
  moreover have "master_base 0 ?s"
    using D by (intro master_base_eq [OF A(1)]) (simp_all add: port_calm_def)
  ultimately show ?thesis
    using A by (intro exI [of _ ?s]) (simp add: master_quiet_def holds_req_def)
qed

lemma broadcast_executes:
  assumes quiet: "master_quiet 0 (m_ev_code EV_MASTER_EXECUTE) s" and req: "holds_req a (write_multiple_req r vs) s"
    and bc: "xFrameIsBroadcast s" "ucMBMFrame s = Some Snd_Pdu" and wf: "wf_master (mregs s)"
    and vs: "1 \<le> length vs" "unat r + length vs \<le> 100"
  shows "\<exists>s'. eMBMasterPoll s = Some (M_Poll_Done MB_ENOERR, s') \<and>
    master_quiet 1 (m_ev_code EV_MASTER_PROCESS_SUCESS) s' \<and>
    (\<forall>d. has_row d \<longrightarrow> the_row d (usMRegHoldBuf (mregs s')) = blit (the_row d (usMRegHoldBuf (mregs s))) (unat r) vs)"
proof -
  obtain s1 k where s1: "s1 = s\<lparr>os_event := (os_event s)\<lparr>ev_set := 0\<rparr>, kern := k\<rparr>" "master_quiet 0 0 s1"
    "eMBMasterPoll s = do { s \<leftarrow> m_poll_execute s1; Some (M_Poll_Done MB_ENOERR, s) }"
    using poll_step [OF quiet] by (auto simp: m_poll_ev_def)
  have Q: "master_base 0 s1" "eMSndState s1 = STATE_M_TX_IDLE" "ev_set (os_event s1) = 0"
    using s1(2) by (simp_all add: master_quiet_def)
  note D = master_baseD [OF Q(1)]
  have buf: "take (length (write_multiple_req r vs)) (drop 1 (ucMasterRTUSndBuf s)) = write_multiple_req r vs"
    "length (ucMasterRTUSndBuf s) = 253"
    using req D by (simp_all add: holds_req_def s1(1))
  have "drop 1 (ucMasterRTUSndBuf s) ! 0 = MB_FUNC_WRITE_MULTIPLE_REGISTERS"
    using write_req_fields(6) [OF buf(1)] vs by simp
  then have fc: "rd (frame_of Snd_Pdu s1) 0 = Some 16"
    using buf(2) by (simp add: frame_of_def s1(1) func_defs)
  let ?t = "s1\<lparr>ucMFunctionCode := 16, eMException := MB_EX_ILLEGAL_FUNCTION, xMBRunInMasterMode := True,
    usMLength := usMasterSendPDULength s1\<rparr>"
  have "holds_write r vs ?t"
    using bc buf by (simp add: holds_write_def s1(1))
  from for_slaves_write [OF this _ vs slave_addresses(1,2)] wf obtain d rs where
    loop: "for_slaves MH_WriteMultipleHoldingRegister (map of_nat [1..<17]) ?t =
      Some (?t\<lparr>ucMBMasterDestAddress := d, eMException := MB_EX_NONE, mregs := rs\<rparr>)"
    and rows: "\<forall>j. has_row j \<longrightarrow> the_row j (usMRegHoldBuf rs) = blit (the_row j (usMRegHoldBuf (mregs s))) (unat r) vs"
    using slave_addresses(3) by (auto simp: s1(1))
  let ?u = "vMBMasterSetCBRunInMasterMode False
    (?t\<lparr>ucMBMasterDestAddress := d, eMException := MB_EX_NONE, mregs := rs\<rparr>)"
  have "m_poll_execute s1 = m_poll_conclude ?u"
    using fc bc loop
    by (simp add: m_poll_execute_def m_poll_conclude_def s1(1) xMasterFuncHandlers_def func_defs
        vMBMasterSetCBRunInMasterMode_def del: for_slaves.simps upt_rec_numeral)
  moreover have "master_base 0 ?u"
    using D by (intro master_base_eq [OF Q(1)]) (simp_all add: port_calm_def vMBMasterSetCBRunInMasterMode_def)
  then have "master_quiet 0 0 ?u"
    using Q by (simp add: master_quiet_def vMBMasterSetCBRunInMasterMode_def)
  from m_poll_conclude_quiet [OF this] obtain s' where "m_poll_conclude ?u = Some s'" "concluded 0 ?u s'"
    by blast
  ultimately show ?thesis
    using s1(3) rows by (intro exI [of _ s']) (simp add: concluded_def vMBMasterSetCBRunInMasterMode_def)
qed

lemma broadcast_writes_all:
  assumes idle: "master_idle s" and wf: "wf_master (mregs s)"
    and vs: "1 \<le> length vs" "unat r + length vs \<le> 100"
  shows "\<exists>s1 s2 x s3 s4 s5.
    eMBMasterReqWriteMultipleHoldingRegister 0 r (of_nat (length vs)) vs t s = eMBMasterWaitRequestFinish s1 \<and>
    master_sends s1 = Some s2 \<and> tx_line s2 = tx_line s @ rtu_frame 0 (write_multiple_req r vs) \<and>
    xMBMasterRTUTimerExpired s2 = Some (x, s3) \<and> eMBMasterPoll s3 = Some (M_Poll_Done MB_ENOERR, s4) \<and>
    eMBMasterWaitRequestFinish s4 = Some (Req_Done MB_MRE_NO_ERR, s5) \<and> master_idle s5 \<and>
    (\<forall>d. has_row d \<longrightarrow> the_row d (usMRegHoldBuf (mregs s5)) = blit (the_row d (usMRegHoldBuf (mregs s))) (unat r) vs)"
proof -
  obtain s1 where s1: "eMBMasterReqWriteMultipleHoldingRegister 0 r (of_nat (length vs)) vs t s =
      eMBMasterWaitRequestFinish s1" "posted 0 0 0 (write_multiple_req r vs) s s1"
    using write_multiple_posts [OF idle, of 0 vs r t] vs by auto
  have len: "length (write_multiple_req r vs) \<le> 250"
    using vs by (simp add: length_write_multiple_req)
  obtain s2 where s2: "master_sends s1 = Some s2" "awaits 0 (write_multiple_req r vs) s2"
    "tx_line s2 = tx_line s @ rtu_frame 0 (write_multiple_req r vs)" "mregs s2 = mregs s"
    using posted_sends [OF s1(2) _ len] by auto
  obtain s3 where s3: "xMBMasterRTUTimerExpired s2 = Some (True, s3)"
    "master_quiet 0 (m_ev_code EV_MASTER_EXECUTE) s3" "mregs s3 = mregs s2"
    "holds_req 0 (write_multiple_req r vs) s3" "xFrameIsBroadcast s3" "ucMBMFrame s3 = Some Snd_Pdu"
    using awaits_broadcast_expires [OF s2(2)] by blast
  obtain s4 where s4: "eMBMasterPoll s3 = Some (M_Poll_Done MB_ENOERR, s4)"
    "master_quiet 1 (m_ev_code EV_MASTER_PROCESS_SUCESS) s4"
    "\<forall>d. has_row d \<longrightarrow> the_row d (usMRegHoldBuf (mregs s4)) = blit (the_row d (usMRegHoldBuf (mregs s3))) (unat r) vs"
    using broadcast_executes [OF s3(2,4-6) _ vs] wf s2(4) s3(3) by auto
  have out: "m_out_ev EV_MASTER_PROCESS_SUCESS"
    by (simp add: m_out_ev_def m_poll_ev_def)
  obtain s5 where "eMBMasterWaitRequestFinish s4 = Some (Req_Done MB_MRE_NO_ERR, s5)" "master_idle s5"
    "mregs s5 = mregs s4"
    using request_finishes [OF s4(2) m_out_mask(1) [OF out] out] m_out_mask(2) [OF out]
    by (auto simp: m_outcome_def m_ev_code_def)
  then show ?thesis
    using s1(1) s2(1,3,4) s3(1,3) s4(1,3) by metis
qed

end
