(* ===== verification/Examples.thy ===== *)
theory Examples
  imports Kernel_Examples Mb_Slave Mb_Broadcast
begin

text \<open>
  Concrete states on which the properties are applied: a slave and a master that are idle.
\<close>

section \<open>Slave\<close>

definition ex_slave :: mb_slave where
  "ex_slave = \<lparr> kern = ex_kernel, os_event = rt_event_init RT_IPC_FLAG_PRIO,
     event_serial = rt_event_init RT_IPC_FLAG_PRIO, serial = Some 2, baud_rate = 9600,
     data_bits = DATA_BITS_8, parity = PARITY_NONE, rx_int = True, rx_fifo = [], tx_line = [],
     timer_ticks = 1, timer_on = False, trans_irq = 5,
     eSndState = STATE_TX_IDLE, eRcvState = STATE_RX_IDLE, ucRTUBuf = replicate 256 0,
     pucSndBufferCur = 0, usSndBufferCount = 0, usRcvBufferPos = 0,
     ucMBAddress = 1, eMBCurrentMode = MB_RTU, eMBState = STATE_ENABLED, transport = Some MB_RTU,
     xFuncHandlers = func_handlers_init, ucMBFrame = None, ucRcvAddress = 0, ucFunctionCode = 0,
     usLength = 0, eException = 0, sregs = slave_regs_init, sid = slave_id_init \<rparr>"

lemma replicate_2: "replicate 2 x = [x, x]"
  by (simp add: numeral_2_eq_2)

lemma ex_calm: "port_calm ex_slave"
  by (simp add: port_calm_def ex_slave_def rt_event_init_def)

lemma ex_ready: "slave_ready ex_slave"
  using ex_calm by (simp add: slave_ready_def rtu_listens_def ex_slave_def rt_event_init_def)

lemma ex_wf: "wf_slave (sregs ex_slave)"
  by (simp add: wf_slave_def ex_slave_def slave_regs_init_def)

lemma ex_fields [simp]:
  "ucMBAddress ex_slave = 1" "xFuncHandlers ex_slave = func_handlers_init" "tx_line ex_slave = []"
  "eRcvState ex_slave = STATE_RX_IDLE" "length (ucRTUBuf ex_slave) = 256"
  "usSRegHoldBuf (sregs ex_slave) = replicate 100 0" "ucRTUBuf ex_slave = replicate 256 0"
  by (simp_all add: ex_slave_def slave_regs_init_def)

section \<open>Master\<close>

text \<open>A master on serial port 2 that is enabled and has nothing to do.\<close>

definition ex_master :: mb_master where
  "ex_master = \<lparr> kern = ex_kernel, os_event = rt_event_init RT_IPC_FLAG_PRIO,
     event_serial = rt_event_init RT_IPC_FLAG_PRIO, serial = Some 2, baud_rate = 9600,
     data_bits = DATA_BITS_8, parity = PARITY_NONE, rx_int = True, rx_fifo = [], tx_line = [],
     timer_ticks = 1, timer_on = False, trans_irq = 5,
     xMasterRunRes = rt_sem_init 1 RT_IPC_FLAG_PRIO, usT35TimeOut50us = 80,
     eMasterCurTimerMode = MB_TMODE_T35,
     eMSndState = STATE_M_TX_IDLE, eMRcvState = STATE_M_RX_IDLE,
     ucMasterRTUSndBuf = replicate 253 0, ucMasterRTURcvBuf = replicate 256 0,
     usMasterSendPDULength = 0, pucMasterSndBufferCur = 0, usMasterSndBufferCount = 0,
     usMasterRcvBufferPos = 0, xFrameIsBroadcast = False, eMBMasterCurErrorType = EV_ERROR_RECEIVE_DATA,
     ucMBMasterDestAddress = 0, xMBRunInMasterMode = False, eMBMState = STATE_ENABLED,
     m_transport = Some MB_RTU, ucMBMFrame = None, ucMRcvAddress = 0, ucMFunctionCode = 0,
     usMLength = 0, eMException = 0, mregs = master_regs_init, m_sid = slave_id_init \<rparr>"

lemma ex_master_calm: "port_calm ex_master"
  by (simp add: port_calm_def ex_master_def rt_event_init_def)

lemma ex_master_base: "master_base 1 ex_master"
  using ex_master_calm
  by (simp add: master_base_def ex_master_def rt_event_init_def res_free_def rt_sem_init_def rtu_m_listens_def)

lemma ex_master_idle: "master_quiet 1 0 ex_master"
  using ex_master_base by (simp add: master_quiet_def ex_master_def rt_event_init_def)

lemma ex_master_fields [simp]:
  "mregs ex_master = master_regs_init" "tx_line ex_master = []" "ucMBMasterDestAddress ex_master = 0"
  by (simp_all add: ex_master_def)

lemma ex_rows [simp]: "the_row d (usMRegHoldBuf master_regs_init) = replicate 100 0" if "has_row d"
  using has_row_bounds [OF that] by (simp add: the_row_def master_regs_init_def)

lemma has_row_1 [simp]: "has_row 1" "has_row 16"
  by (simp_all add: has_row_def)

end
