(* ===== verification/Master_Props.thy ===== *)
theory Master_Props
  imports Examples
begin

text \<open>
  The properties of the master, alone and together with a slave, each with a concrete instance.
\<close>

section \<open>Transactions that succeed\<close>



text \<open>
  C10: A broadcast write is put on the line, not answered, and executed by the master for its copy of
  every one of the sixteen slaves once the delay is over; the request ends with success.
\<close>

theorem broadcast_reaches_all_copies:
  assumes "master_quiet 1 0 s" "wf_master (mregs s)" "1 \<le> length vs" "unat r + length vs \<le> 100"
  shows "\<exists>s1 s2 x s3 s4 s5.
    eMBMasterReqWriteMultipleHoldingRegister 0 r (of_nat (length vs)) vs t s = eMBMasterWaitRequestFinish s1 \<and>
    master_sends s1 = Some s2 \<and> tx_line s2 = tx_line s @ rtu_frame 0 (write_multiple_req r vs) \<and>
    xMBMasterRTUTimerExpired s2 = Some (x, s3) \<and> eMBMasterPoll s3 = Some (M_Poll_Done MB_ENOERR, s4) \<and>
    eMBMasterWaitRequestFinish s4 = Some (Req_Done MB_MRE_NO_ERR, s5) \<and> master_quiet 1 0 s5 \<and>
    (\<forall>d. has_row d \<longrightarrow> the_row d (usMRegHoldBuf (mregs s5)) = blit (the_row d (usMRegHoldBuf (mregs s))) (unat r) vs)"
  using assms by (rule broadcast_writes_all)

theorem broadcast_reaches_all_copies_witness:
  "\<exists>s1 s2 x s3 s4 s5. eMBMasterReqWriteMultipleHoldingRegister 0 7 1 [0x1234] 100 ex_master =
      eMBMasterWaitRequestFinish s1 \<and>
    master_sends s1 = Some s2 \<and> xMBMasterRTUTimerExpired s2 = Some (x, s3) \<and>
    eMBMasterPoll s3 = Some (M_Poll_Done MB_ENOERR, s4) \<and>
    eMBMasterWaitRequestFinish s4 = Some (Req_Done MB_MRE_NO_ERR, s5) \<and>
    the_row 16 (usMRegHoldBuf (mregs s5)) ! 7 = 0x1234"
proof -
  obtain s1 s2 x s3 s4 s5 where S: "eMBMasterReqWriteMultipleHoldingRegister 0 7 1 [0x1234] 100 ex_master =
      eMBMasterWaitRequestFinish s1"
    "master_sends s1 = Some s2" "xMBMasterRTUTimerExpired s2 = Some (x, s3)"
    "eMBMasterPoll s3 = Some (M_Poll_Done MB_ENOERR, s4)"
    "eMBMasterWaitRequestFinish s4 = Some (Req_Done MB_MRE_NO_ERR, s5)"
    "\<And>d. has_row d \<Longrightarrow> the_row d (usMRegHoldBuf (mregs s5)) = blit (replicate 100 0) 7 [0x1234]"
    using broadcast_reaches_all_copies [OF ex_master_idle, of "[0x1234]" 7 100] wf_master_init by auto
  have "the_row 16 (usMRegHoldBuf (mregs s5)) ! 7 = 0x1234"
    using S(6) [of 16] by (simp add: nth_blit)
  with S(1-5) show ?thesis by blast
qed

section \<open>Transactions that fail\<close>

text \<open>
  C23: A slave that does not answer ends the request with a timeout, with the resource free again and
  all copies as before.
\<close>

theorem silent_slave_times_out:
  assumes "master_quiet 1 0 s" "has_row a"
  shows "\<exists>s1 s2 s3. eMBMasterReqReadHoldingRegister a r n t s = eMBMasterWaitRequestFinish s1 \<and>
    master_no_reply s1 = Some s2 \<and>
    eMBMasterWaitRequestFinish s2 = Some (Req_Done MB_MRE_TIMEDOUT, s3) \<and> master_quiet 1 0 s3 \<and>
    mregs s3 = mregs s"
  using read_times_out [OF assms] by blast

theorem silent_slave_times_out_witness:
  "\<exists>s1 s2 s3. eMBMasterReqReadHoldingRegister 1 0 5 100 ex_master = eMBMasterWaitRequestFinish s1 \<and>
    master_no_reply s1 = Some s2 \<and> eMBMasterWaitRequestFinish s2 = Some (Req_Done MB_MRE_TIMEDOUT, s3)"
  using silent_slave_times_out [OF ex_master_idle, of 1 0 5 100] by auto

text \<open>
  A reply with an exception code ends the request with \<^verbatim>\<open>MB_MRE_EXE_FUN\<close>, leaves the copies alone
  and frees the resource.
\<close>

theorem exception_reply_reported:
  assumes "master_quiet 1 0 s" "has_row a" "drop_bit 7 fc \<noteq> 0" "e \<noteq> MB_EX_NONE"
  shows "\<exists>s1 s2 s3 s4. eMBMasterReqReadHoldingRegister a r n t s = eMBMasterWaitRequestFinish s1 \<and>
    master_transfer (rtu_frame a [fc, e]) s1 = Some s2 \<and>
    eMBMasterPoll s2 = Some (M_Poll_Done MB_ENOERR, s3) \<and>
    eMBMasterWaitRequestFinish s3 = Some (Req_Done MB_MRE_EXE_FUN, s4) \<and> master_quiet 1 0 s4 \<and>
    mregs s4 = mregs s"
  using read_gets_exception [OF assms] by blast

theorem exception_reply_reported_witness:
  "\<exists>s1 s2 s3 s4. eMBMasterReqReadHoldingRegister 1 200 5 100 ex_master = eMBMasterWaitRequestFinish s1 \<and>
    master_transfer (rtu_frame 1 [0x83, 2]) s1 = Some s2 \<and>
    eMBMasterPoll s2 = Some (M_Poll_Done MB_ENOERR, s3) \<and>
    eMBMasterWaitRequestFinish s3 = Some (Req_Done MB_MRE_EXE_FUN, s4)"
  using exception_reply_reported [OF ex_master_idle, of 1 "0x83" 2 200 5 100] by (auto simp: exception_defs)

text \<open>
  C24: Noise on the line of an idle master breaks its bookkeeping: the error process releases the
  running resource that no request holds, so that it has two units, and leaves an
  outcome behind that ends the next request before it is sent.
\<close>

theorem noise_breaks_exclusion:
  assumes "master_quiet 1 0 s" "bs \<noteq> []" "length bs \<le> 255" "unat a \<le> 16"
    and "length bs < 4 \<or> usMBCRC16 bs \<noteq> 0 \<or> bs ! 0 \<noteq> ucMBMasterDestAddress s"
  shows "\<exists>s1 s2 s3. master_hears bs s = Some s1 \<and> eMBMasterPoll s1 = Some (M_Poll_Done MB_ENOERR, s2) \<and>
    sem_value (xMasterRunRes s2) = 2 \<and>
    eMBMasterReqReadHoldingRegister a r n t s2 = Some (Req_Done MB_MRE_REV_DATA, s3) \<and>
    tx_line s3 = tx_line s2 \<and> sem_value (xMasterRunRes s3) = 1"
  using assms(1-3,5,4) by (rule noise_frees_resource)

theorem noise_breaks_exclusion_witness:
  "\<exists>s1 s2. master_hears [0xFF] ex_master = Some s1 \<and> eMBMasterPoll s1 = Some (M_Poll_Done MB_ENOERR, s2) \<and>
    sem_value (xMasterRunRes s2) = 2"
  using noise_breaks_exclusion [OF ex_master_idle, of "[0xFF]" 1 0 5 100] by auto

text \<open>
  C25: A request made before the transport has seen its first silence is lost: it is not sent, the
  error is dropped, and afterwards no event, timer or transmission is pending that could
  end it, while the running resource stays taken.
\<close>

theorem early_request_hangs:
  assumes "eMBMState s = STATE_ENABLED" "port_calm s" "eMRcvState s = STATE_M_RX_INIT"
    and "eMSndState s = STATE_M_TX_IDLE" "eMasterCurTimerMode s = MB_TMODE_T35"
    and "sem_value (xMasterRunRes s) = 1" "ev_set (os_event s) = 0"
    and "length (ucMasterRTUSndBuf s) = 253" "unat a \<le> 16"
  shows "\<exists>s1 s2 x s3 s4. eMBMasterReqReadHoldingRegister a r n t s = eMBMasterWaitRequestFinish s1 \<and>
    eMBMasterPoll s1 = Some (M_Poll_Done MB_ENOERR, s2) \<and>
    xMBMasterRTUTimerExpired s2 = Some (x, s3) \<and>
    eMBMasterPoll s3 = Some (M_Poll_Done MB_ENOERR, s4) \<and>
    ev_set (os_event s4) = 0 \<and> \<not> timer_on s4 \<and> eMSndState s4 = STATE_M_TX_IDLE \<and>
    tx_line s4 = tx_line s \<and> event_serial s4 = event_serial s \<and> sem_value (xMasterRunRes s4) = 0"
  using assms by (rule startup_request_lost)

theorem early_request_hangs_witness:
  "\<exists>s1 s2 x s3 s4. eMBMasterReqReadHoldingRegister 1 0 5 100 (ex_master\<lparr>eMRcvState := STATE_M_RX_INIT\<rparr>) =
      eMBMasterWaitRequestFinish s1 \<and>
    eMBMasterPoll s1 = Some (M_Poll_Done MB_ENOERR, s2) \<and> xMBMasterRTUTimerExpired s2 = Some (x, s3) \<and>
    eMBMasterPoll s3 = Some (M_Poll_Done MB_ENOERR, s4) \<and> ev_set (os_event s4) = 0 \<and> \<not> timer_on s4"
proof -
  let ?s = "ex_master\<lparr>eMRcvState := STATE_M_RX_INIT\<rparr>"
  have "eMBMState ?s = STATE_ENABLED" "port_calm ?s" "eMRcvState ?s = STATE_M_RX_INIT"
    "eMSndState ?s = STATE_M_TX_IDLE" "eMasterCurTimerMode ?s = MB_TMODE_T35"
    "sem_value (xMasterRunRes ?s) = 1" "ev_set (os_event ?s) = 0" "length (ucMasterRTUSndBuf ?s) = 253"
    using ex_master_calm by (simp_all add: port_calm_def ex_master_def rt_event_init_def rt_sem_init_def)
  from early_request_hangs [OF this, of 1 0 5 100] show ?thesis
    by auto
qed

text \<open>
  C31: A write request for 1953 to 1968 coils passes the check of its arguments, and the poll that
  sends it writes the checksum behind the send buffer.
\<close>

theorem long_coil_request_overruns:
  assumes "master_quiet 1 0 s" "unat a \<le> 16" "1953 \<le> unat n" "unat n \<le> 1968" "246 \<le> length data"
  shows "\<exists>s1. eMBMasterReqWriteMultipleCoils a c n data t s = eMBMasterWaitRequestFinish s1 \<and>
    eMBMasterPoll s1 = None"
  using assms by (rule coil_request_overflows)

theorem long_coil_request_overruns_witness:
  "\<exists>s1. eMBMasterReqWriteMultipleCoils 1 0 1968 (replicate 246 0) 100 ex_master = eMBMasterWaitRequestFinish s1 \<and>
    eMBMasterPoll s1 = None"
  by (rule long_coil_request_overruns [OF ex_master_idle]) simp_all

text \<open>
  C32: A frame of exactly 256 bytes fits the receive buffer and passes the receiver, and then fails
  the assertion of the poll that reads it.
\<close>

theorem full_frame_stops_master:
  assumes "master_base v s" "ev_set (os_event s) = 0" "length bs = 256"
  shows "\<exists>s1. rtu_m_burst bs s = Some s1 \<and> eMBMasterPoll s1 = None"
  using assms by (rule full_frame_kills_poll)

theorem full_frame_stops_master_witness:
  "\<exists>s1. rtu_m_burst (replicate 256 0) ex_master = Some s1 \<and> eMBMasterPoll s1 = None"
  using full_frame_stops_master [OF ex_master_base, of "replicate 256 0"]
  by (simp add: ex_master_def rt_event_init_def)

end
