(* ===== verification/Kernel_Props.thy ===== *)
theory Kernel_Props
  imports Kernel_Examples Rt_Sem
begin

text \<open>
  The properties of the kernel, each with a concrete instance.
\<close>

section \<open>Properties of the kernel\<close>

text \<open>
  C2: After a schedule the thread that runs is one of the highest priority, the only one
  running, and the queues and the group word still describe the ready threads exactly.
\<close>

theorem schedule_runs_highest:
  assumes "kinv k" "rt_current_thread k = Some c" "rt_scheduler_lock_nest k = 0"
    and "\<exists>u. stat (threads k u) = RT_THREAD_READY \<or> stat (threads k u) = RT_THREAD_RUNNING"
  shows "\<exists>k' t. rt_schedule k = Some k' \<and> kinv k' \<and> rt_current_thread k' = Some t \<and>
    stat (threads k' t) = RT_THREAD_RUNNING \<and>
    (\<forall>u. stat (threads k' u) = RT_THREAD_READY \<longrightarrow>
       current_priority (threads k' t) \<le> current_priority (threads k' u))"
  using rt_schedule_correct [OF assms] by (auto simp: scheduled_def)

theorem schedule_runs_highest_witness:
  "\<exists>k' t. rt_schedule ex_contended = Some k' \<and> kinv k' \<and> rt_current_thread k' = Some t \<and>
    stat (threads k' t) = RT_THREAD_RUNNING"
proof -
  have "\<exists>u. stat (threads ex_contended u) = RT_THREAD_READY \<or> stat (threads ex_contended u) = RT_THREAD_RUNNING"
    by (rule exI [of _ 3]) (simp add: ex_contended_def)
  from schedule_runs_highest [OF ex_contended_kinv _ _ this, of 0] show ?thesis
    by (auto simp: ex_contended_def)
qed

text \<open>The bit search returns the number of the lowest set bit, counted from 1.\<close>

theorem ffs_lowest_bit:
  assumes "w \<noteq> 0"
  shows "0 < rt_ffs w \<and> bit w (rt_ffs w - 1) \<and> (\<forall>j < rt_ffs w - 1. \<not> bit w j)"
  using rt_ffs_first [OF assms] by blast

theorem ffs_lowest_bit_witness: "0 < rt_ffs 0x50000"
  using ffs_lowest_bit [of "0x50000"] by simp

text \<open>
  The loop that resumes all threads of a suspend list ends, with the list empty and every
  thread of it ready with the error code of an interrupted wait.
\<close>

theorem resume_all_ends:
  assumes "kinv k" "sus_ok k list"
  shows "\<exists>k'. rt_ipc_list_resume_all list k = Some ([], k') \<and> kinv k' \<and>
    (\<forall>t \<in> set list. error (threads k' t) = - RT_ERROR \<and> stat (threads k' t) \<noteq> RT_THREAD_SUSPEND)"
  using rt_ipc_list_resume_all_ok [OF assms] by force

theorem resume_all_ends_witness:
  "\<exists>k'. rt_ipc_list_resume_all [1] ex_waiting = Some ([], k') \<and> error (threads k' 1) = - 1"
  using resume_all_ends [OF ex_waiting_kinv, of "[1]"] ex_waiting_simps by (auto simp: sus_ok_def)





text \<open>
  A unit released while threads wait goes to the first of them and not into the count:
  the count stays 0, that thread can run, its call to take returns success, and the others
  keep waiting in their order.
\<close>

theorem sem_release_hands_over:
  assumes "kinv k" "sem_inv sem k" "suspend_thread sem = t # list" "error (threads k t) = RT_EOK"
    and "rt_current_thread k = Some c" "stat (threads k c) = RT_THREAD_RUNNING"
    and "rt_scheduler_lock_nest k = 0"
  shows "\<exists>k'. rt_sem_release sem k = Some (RT_EOK, sem\<lparr>suspend_thread := list\<rparr>, k') \<and>
    kinv k' \<and> sem_inv (sem\<lparr>suspend_thread := list\<rparr>) k' \<and> rt_sem_take_return t k' = RT_EOK \<and>
    (stat (threads k' t) = RT_THREAD_READY \<or> rt_current_thread k' = Some t)"
  using rt_sem_release_hand_over [of c k sem t list] assms by (auto simp: runs_def)

theorem sem_release_hands_over_witness:
  "\<exists>k'. rt_sem_release \<lparr>flag = RT_IPC_FLAG_FIFO, suspend_thread = [1], sem_value = 0\<rparr> ex_waiting =
     Some (RT_EOK, \<lparr>flag = RT_IPC_FLAG_FIFO, suspend_thread = [], sem_value = 0\<rparr>, k') \<and>
     rt_sem_take_return 1 k' = RT_EOK"
proof -
  let ?sem = "\<lparr>flag = RT_IPC_FLAG_FIFO, suspend_thread = [1], sem_value = 0\<rparr> :: rt_semaphore"
  have "sem_inv ?sem ex_waiting"
    using ex_waiting_simps by (simp add: sem_inv_def sus_ok_def)
  from sem_release_hands_over [OF ex_waiting_kinv this _ _ ex_waiting_simps(1,3,2)] show ?thesis
    using ex_waiting_simps by fastforce
qed

end
