(* ===== verification/Refine.thy ===== *)
theory Refine
  imports Prelude
begin

text \<open>
  Refinement of an abstract data type by the operations of the code. An operation of the code may
  fail (\<^const>\<open>None\<close>: it leaves an array or an assertion fails), an abstract operation is a total
  function that yields an output and the next value. The locale states the simulation of a
  single operation; inside it every sequence of operations is shown to give the outputs of the
  abstract type. \<open>Rt_Mailbox\<close> and \<open>Rt_Mq\<close> interpret it on the model of the code; \<open>App_Sensor_Run\<close>
  interprets the variant for operations that may refuse.
\<close>

section \<open>Sequences of operations\<close>

fun run_ops :: "('op \<Rightarrow> 's \<Rightarrow> ('out \<times> 's) option) \<Rightarrow> 'op list \<Rightarrow> 's \<Rightarrow> ('out list \<times> 's) option" where
  "run_ops step [] s = Some ([], s)"
| "run_ops step (op # ops) s = do {
     (out, s) \<leftarrow> step op s;
     (outs, s) \<leftarrow> run_ops step ops s;
     Some (out # outs, s)
   }"

fun spec_ops :: "('op \<Rightarrow> 'a \<Rightarrow> 'out \<times> 'a) \<Rightarrow> 'op list \<Rightarrow> 'a \<Rightarrow> 'out list \<times> 'a" where
  "spec_ops spec [] a = ([], a)"
| "spec_ops spec (op # ops) a =
    (let (out, a) = spec op a; (outs, a) = spec_ops spec ops a in (out # outs, a))"

locale data_refinement =
  fixes step :: "'op \<Rightarrow> 's \<Rightarrow> ('out \<times> 's) option" and spec :: "'op \<Rightarrow> 'a \<Rightarrow> 'out \<times> 'a"
    and inv :: "'s \<Rightarrow> bool" and abs :: "'s \<Rightarrow> 'a" and valid :: "'op \<Rightarrow> bool"
  assumes step_refines: "inv s \<Longrightarrow> valid op \<Longrightarrow>
    \<exists>s'. step op s = Some (fst (spec op (abs s)), s') \<and> inv s' \<and> abs s' = snd (spec op (abs s))"
begin

lemma run_refines:
  assumes "inv s" "list_all valid ops"
  shows "\<exists>s'. run_ops step ops s = Some (fst (spec_ops spec ops (abs s)), s') \<and> inv s' \<and>
    abs s' = snd (spec_ops spec ops (abs s))"
  using assms
proof (induction ops arbitrary: s)
  case Nil
  then show ?case by simp
next
  case (Cons op ops)
  obtain s1 where s1: "step op s = Some (fst (spec op (abs s)), s1)" "inv s1" "abs s1 = snd (spec op (abs s))"
    using step_refines [OF Cons.prems(1), of op] Cons.prems(2) by auto
  then obtain s2 where "run_ops step ops s1 = Some (fst (spec_ops spec ops (abs s1)), s2)" "inv s2"
    "abs s2 = snd (spec_ops spec ops (abs s1))"
    using Cons.IH [OF s1(2)] Cons.prems(2) by auto
  with s1 show ?case
    by (simp add: case_prod_beta Let_def)
qed

end

text \<open>
  When the code is free to refuse (memory runs out), its outputs resolve the choice: \<open>post\<close> gives the
  next abstract value for an output that is allowed, and \<^const>\<open>None\<close> for any other.
\<close>

fun accept_ops :: "('op \<Rightarrow> 'out \<Rightarrow> 'a \<Rightarrow> 'a option) \<Rightarrow> 'op list \<Rightarrow> 'out list \<Rightarrow> 'a \<Rightarrow> 'a option" where
  "accept_ops post [] [] a = Some a"
| "accept_ops post (op # ops) (out # outs) a = do { a \<leftarrow> post op out a; accept_ops post ops outs a }"
| "accept_ops post _ _ a = None"

locale trace_refinement =
  fixes step :: "'op \<Rightarrow> 's \<Rightarrow> ('out \<times> 's) option" and post :: "'op \<Rightarrow> 'out \<Rightarrow> 'a \<Rightarrow> 'a option"
    and rel :: "'s \<Rightarrow> 'a \<Rightarrow> bool" and valid :: "'op \<Rightarrow> bool"
  assumes step_accepted: "rel s a \<Longrightarrow> valid op \<Longrightarrow>
    \<exists>out s' a'. step op s = Some (out, s') \<and> post op out a = Some a' \<and> rel s' a'"
begin

lemma run_accepted:
  assumes "rel s a" "list_all valid ops"
  shows "\<exists>outs s' a'. run_ops step ops s = Some (outs, s') \<and> accept_ops post ops outs a = Some a' \<and> rel s' a'"
  using assms
proof (induction ops arbitrary: s a)
  case Nil
  then show ?case by (intro exI [of _ "[]"]) simp
next
  case (Cons op ops)
  obtain out s1 a1 where s1: "step op s = Some (out, s1)" "post op out a = Some a1" "rel s1 a1"
    using step_accepted [OF Cons.prems(1), of op] Cons.prems(2) by auto
  then obtain outs s2 a2 where "run_ops step ops s1 = Some (outs, s2)" "accept_ops post ops outs a1 = Some a2" "rel s2 a2"
    using Cons.IH [OF s1(3)] Cons.prems(2) by auto
  with s1 show ?case
    by (intro exI [of _ "out # outs"] exI [of _ s2] exI [of _ a2]) simp
qed

end

section \<open>Bounded queues\<close>

text \<open>The queue that the mailbox and the message queue promise; an urgent message goes to the front.\<close>

datatype 'v queue_op = Q_Put 'v | Q_Urgent 'v | Q_Get
datatype 'v queue_out = Q_Ok | Q_Full | Q_Empty | Q_Got 'v

fun queue_spec :: "nat \<Rightarrow> 'v queue_op \<Rightarrow> 'v list \<Rightarrow> 'v queue_out \<times> 'v list" where
  "queue_spec n (Q_Put v) q = (if length q < n then (Q_Ok, q @ [v]) else (Q_Full, q))"
| "queue_spec n (Q_Urgent v) q = (if length q < n then (Q_Ok, v # q) else (Q_Full, q))"
| "queue_spec n Q_Get [] = (Q_Empty, [])"
| "queue_spec n Q_Get (v # q) = (Q_Got v, q)"

fun accepted :: "'v queue_op list \<Rightarrow> 'v queue_out list \<Rightarrow> 'v list" where
  "accepted (Q_Put v # ops) (Q_Ok # outs) = v # accepted ops outs"
| "accepted (_ # ops) (_ # outs) = accepted ops outs"
| "accepted _ _ = []"

fun delivered :: "'v queue_out list \<Rightarrow> 'v list" where
  "delivered [] = []"
| "delivered (Q_Got v # outs) = v # delivered outs"
| "delivered (_ # outs) = delivered outs"

text \<open>
  Without urgent messages the queue is first in, first out: what was delivered, followed by what is
  still queued, is what was queued at first, followed by what was accepted, in this order.
\<close>

lemma queue_fifo:
  assumes "\<forall>v. Q_Urgent v \<notin> set ops"
  shows "delivered (fst (spec_ops (queue_spec n) ops q)) @ snd (spec_ops (queue_spec n) ops q) =
    q @ accepted ops (fst (spec_ops (queue_spec n) ops q))"
  using assms
proof (induction ops arbitrary: q)
  case Nil
  then show ?case by simp
next
  case (Cons op ops)
  then have IH: "\<And>q. delivered (fst (spec_ops (queue_spec n) ops q)) @ snd (spec_ops (queue_spec n) ops q) =
      q @ accepted ops (fst (spec_ops (queue_spec n) ops q))"
    by simp
  show ?case
  proof (cases op)
    case (Q_Put v)
    then show ?thesis
      using IH [of "q @ [v]"] IH [of q] by (simp add: case_prod_beta Let_def)
  next
    case (Q_Urgent v)
    then show ?thesis using Cons.prems by auto
  next
    case Q_Get
    then show ?thesis
      using IH [of "tl q"] by (cases q) (simp_all add: case_prod_beta Let_def)
  qed
qed

lemma queue_bounded:
  "length q \<le> n \<Longrightarrow> length (snd (spec_ops (queue_spec n) ops q)) \<le> n"
proof (induction ops arbitrary: q)
  case (Cons op ops)
  have "length (snd (queue_spec n op q)) \<le> n"
    using Cons.prems by (cases "(n, op, q)" rule: queue_spec.cases) auto
  then show ?case
    using Cons.IH by (simp add: case_prod_beta Let_def)
qed simp

section \<open>Chains\<close>

text \<open>
  A chain of cells: \<open>next ! i\<close> is the link of cell \<open>i\<close>, and \<^const>\<open>None\<close> ends the chain.
\<close>

fun chain :: "nat option list \<Rightarrow> nat option \<Rightarrow> nat list \<Rightarrow> bool" where
  "chain next' p [] \<longleftrightarrow> p = None"
| "chain next' p (x # xs) \<longleftrightarrow> p = Some x \<and> x < length next' \<and> chain next' (next' ! x) xs"

fun follow :: "nat option list \<Rightarrow> nat option \<Rightarrow> nat \<Rightarrow> nat list" where
  "follow next' (Some i) (Suc n) = i # follow next' (next' ! i) n"
| "follow next' _ _ = []"

lemma follow_chain: "chain next' p xs \<Longrightarrow> length xs = n \<Longrightarrow> follow next' p n = xs"
  by (induction xs arbitrary: p n) auto

lemma chain_None [simp]: "chain next' None xs \<longleftrightarrow> xs = []"
  by (cases xs) auto

lemma chain_upd [simp]: "x \<notin> set xs \<Longrightarrow> chain (next'[x := v]) p xs = chain next' p xs"
  by (induction xs arbitrary: p) auto

lemma chain_less: "chain next' p xs \<Longrightarrow> x \<in> set xs \<Longrightarrow> x < length next'"
  by (induction xs arbitrary: p) auto

text \<open>Linking a fresh cell, whose own link is \<^const>\<open>None\<close>, behind the last one.\<close>

lemma chain_snoc:
  assumes "chain next' p xs" "xs \<noteq> []" "distinct xs" "m \<notin> set xs" "m < length next'" "next' ! m = None"
  shows "chain (next'[last xs := Some m]) p (xs @ [m])"
  using assms
proof (induction xs arbitrary: p)
  case (Cons x xs)
  show ?case
  proof (cases "xs = []")
    case False
    then have "last xs \<noteq> x"
      using Cons.prems(3) last_in_set by auto
    with False Cons show ?thesis by auto
  qed (use Cons.prems in auto)
qed simp

section \<open>Rings\<close>

text \<open>The \<open>n\<close> cells of a circular array from index \<open>out\<close> on.\<close>

definition ring :: "'v list \<Rightarrow> nat \<Rightarrow> nat \<Rightarrow> 'v list" where
  "ring pool out n = map (\<lambda>i. pool ! ((out + i) mod length pool)) [0..<n]"

lemma length_ring [simp]: "length (ring pool out n) = n"
  by (simp add: ring_def)

lemma ring_0 [simp]: "ring pool out 0 = []"
  by (simp add: ring_def)

lemma ring_neq:
  assumes "i < n" "n < (m :: nat)"
  shows "(out + i) mod m \<noteq> (out + n) mod m"
proof
  assume "(out + i) mod m = (out + n) mod m"
  then have "(n - i) mod m = 0"
    using assms by (metis add_diff_cancel_left diff_add_inverse less_imp_le_nat mod_eq_dvd_iff_nat nat_add_left_cancel_le mod_0_imp_dvd dvd_imp_mod_0)
  with assms show False by simp
qed

lemma ring_put:
  assumes "n < length pool"
  shows "ring (pool[(out + n) mod length pool := v]) out (Suc n) = ring pool out n @ [v]"
proof -
  have "pool \<noteq> []" using assms by auto
  moreover have "pool[(out + n) mod length pool := v] ! ((out + i) mod length pool) = pool ! ((out + i) mod length pool)"
    if "i < n" for i
    using ring_neq [OF that assms, of out] by simp
  ultimately show ?thesis
    by (simp add: ring_def)
qed

lemma ring_get:
  assumes "out < length pool"
  shows "ring pool out (Suc n) = pool ! out # ring pool ((out + 1) mod length pool) n"
proof -
  have "pool ! ((out + Suc i) mod length pool) = pool ! (((out + 1) mod length pool + i) mod length pool)" for i
    by (simp add: mod_simps)
  then show ?thesis
    using assms by (simp add: ring_def upt_conv_Cons map_Suc_upt [symmetric] del: upt_Suc)
qed

text \<open>The next index, as the code computes it.\<close>

lemma wrap_index:
  "i < m \<Longrightarrow> (if m \<le> Suc i then 0 else Suc i) = (i + 1) mod (m :: nat)"
  by (auto simp: mod_if)

end
