(* ===== verification/Rt_Mailbox.thy ===== *)
theory Rt_Mailbox
  imports Rt_Ipc Refine
begin

text \<open>
  The mailbox of \<^verbatim>\<open>Kernel/ipc.c\<close>: a ring of machine words with a list of waiting receivers and one
  of waiting senders. A call that blocks is split at its \<^verbatim>\<open>rt_schedule\<close>; the \<open>_resume\<close> functions
  are what the caller does when it runs again, \<open>tick_delta\<close> ticks later.
\<close>

section \<open>Operations\<close>

record rt_mailbox = rt_ipc_object +
  msg_pool :: "32 word list"
  mb_size :: "16 word"
  mb_entry :: "16 word"
  in_offset :: "16 word"
  out_offset :: "16 word"
  suspend_sender_thread :: "tid list"

definition rt_mb_init :: "32 word list \<Rightarrow> 32 word \<Rightarrow> ipc_flag \<Rightarrow> rt_mailbox" where
  "rt_mb_init msgpool size' fl = \<lparr> flag = fl, suspend_thread = [], msg_pool = msgpool, mb_size = ucast size',
     mb_entry = 0, in_offset = 0, out_offset = 0, suspend_sender_thread = [] \<rparr>"

definition rt_mb_detach :: "rt_mailbox \<Rightarrow> kernel \<Rightarrow> (rt_err_t \<times> rt_mailbox \<times> kernel) option" where
  "rt_mb_detach mb k = do {
     (list, k) \<leftarrow> rt_ipc_list_resume_all (suspend_thread mb) k;
     (senders, k) \<leftarrow> rt_ipc_list_resume_all (suspend_sender_thread mb) k;
     Some (RT_EOK, mb\<lparr>suspend_thread := list, suspend_sender_thread := senders\<rparr>, k)
   }"

definition mb_put :: "32 word \<Rightarrow> rt_mailbox \<Rightarrow> rt_mailbox option" where
  "mb_put value mb = do {
     pool \<leftarrow> wr (msg_pool mb) (unat (in_offset mb)) value;
     let i = in_offset mb + 1;
     Some (mb\<lparr>msg_pool := pool, mb_entry := mb_entry mb + 1,
       in_offset := (if mb_size mb \<le> i then 0 else i)\<rparr>)
   }"

definition mb_fetch :: "rt_mailbox \<Rightarrow> (32 word \<times> rt_mailbox) option" where
  "mb_fetch mb = do {
     value \<leftarrow> rd (msg_pool mb) (unat (out_offset mb));
     let i = out_offset mb + 1;
     Some (value, mb\<lparr>mb_entry := mb_entry mb - 1, out_offset := (if mb_size mb \<le> i then 0 else i)\<rparr>)
   }"

definition mb_send_loop ::
  "tid \<Rightarrow> 32 word \<Rightarrow> int \<Rightarrow> rt_mailbox \<Rightarrow> kernel \<Rightarrow> (unit ipc_result \<times> rt_mailbox \<times> kernel) option" where
  "mb_send_loop thread value timeout mb k =
    (if mb_entry mb = mb_size mb
     then let k = set_error thread RT_EOK k in
       if timeout = 0 then Some (Ipc_Done (- RT_EFULL) None, mb, k)
       else do {
         rt_assert (rt_interrupt_nest k = 0);
         (list, k) \<leftarrow> ipc_block (suspend_sender_thread mb) thread (flag mb) timeout k;
         Some (Ipc_Wait thread, mb\<lparr>suspend_sender_thread := list\<rparr>, k)
       }
     else do {
       mb \<leftarrow> mb_put value mb;
       if suspend_thread mb \<noteq> []
       then do {
         (list, k) \<leftarrow> ipc_wake (suspend_thread mb) k;
         Some (Ipc_Done RT_EOK None, mb\<lparr>suspend_thread := list\<rparr>, k)
       }
       else Some (Ipc_Done RT_EOK None, mb, k)
     })"

definition rt_mb_send_wait ::
  "32 word \<Rightarrow> int \<Rightarrow> rt_mailbox \<Rightarrow> kernel \<Rightarrow> (unit ipc_result \<times> rt_mailbox \<times> kernel) option" where
  "rt_mb_send_wait value timeout mb k = do {
     thread \<leftarrow> rt_current_thread k;
     if mb_entry mb = mb_size mb \<and> timeout = 0 then Some (Ipc_Done (- RT_EFULL) None, mb, k)
     else mb_send_loop thread value timeout mb k
   }"

definition rt_mb_send :: "32 word \<Rightarrow> rt_mailbox \<Rightarrow> kernel \<Rightarrow> (unit ipc_result \<times> rt_mailbox \<times> kernel) option" where
  "rt_mb_send value mb k = rt_mb_send_wait value 0 mb k"

definition rt_mb_send_resume ::
  "tid \<Rightarrow> 32 word \<Rightarrow> int \<Rightarrow> 32 word \<Rightarrow> rt_mailbox \<Rightarrow> kernel \<Rightarrow> (unit ipc_result \<times> rt_mailbox \<times> kernel) option" where
  "rt_mb_send_resume thread value timeout tick_delta mb k =
    (if error (threads k thread) \<noteq> RT_EOK then Some (Ipc_Done (error (threads k thread)) None, mb, k)
     else mb_send_loop thread value (wait_left timeout tick_delta) mb k)"

definition mb_recv_loop ::
  "tid \<Rightarrow> int \<Rightarrow> rt_mailbox \<Rightarrow> kernel \<Rightarrow> (32 word ipc_result \<times> rt_mailbox \<times> kernel) option" where
  "mb_recv_loop thread timeout mb k =
    (if mb_entry mb = 0
     then let k = set_error thread RT_EOK k in
       if timeout = 0 then Some (Ipc_Done (- RT_ETIMEOUT) None, mb, set_error thread (- RT_ETIMEOUT) k)
       else do {
         rt_assert (rt_interrupt_nest k = 0);
         (list, k) \<leftarrow> ipc_block (suspend_thread mb) thread (flag mb) timeout k;
         Some (Ipc_Wait thread, mb\<lparr>suspend_thread := list\<rparr>, k)
       }
     else do {
       (value, mb) \<leftarrow> mb_fetch mb;
       if suspend_sender_thread mb \<noteq> []
       then do {
         (list, k) \<leftarrow> ipc_wake (suspend_sender_thread mb) k;
         Some (Ipc_Done RT_EOK (Some value), mb\<lparr>suspend_sender_thread := list\<rparr>, k)
       }
       else Some (Ipc_Done RT_EOK (Some value), mb, k)
     })"

definition rt_mb_recv ::
  "int \<Rightarrow> rt_mailbox \<Rightarrow> kernel \<Rightarrow> (32 word ipc_result \<times> rt_mailbox \<times> kernel) option" where
  "rt_mb_recv timeout mb k = do {
     thread \<leftarrow> rt_current_thread k;
     if mb_entry mb = 0 \<and> timeout = 0 then Some (Ipc_Done (- RT_ETIMEOUT) None, mb, k)
     else mb_recv_loop thread timeout mb k
   }"

definition rt_mb_recv_resume ::
  "tid \<Rightarrow> int \<Rightarrow> 32 word \<Rightarrow> rt_mailbox \<Rightarrow> kernel \<Rightarrow> (32 word ipc_result \<times> rt_mailbox \<times> kernel) option" where
  "rt_mb_recv_resume thread timeout tick_delta mb k =
    (if error (threads k thread) \<noteq> RT_EOK then Some (Ipc_Done (error (threads k thread)) None, mb, k)
     else mb_recv_loop thread (wait_left timeout tick_delta) mb k)"

definition rt_mb_control :: "rt_mailbox \<Rightarrow> int \<Rightarrow> kernel \<Rightarrow> (rt_err_t \<times> rt_mailbox \<times> kernel) option" where
  "rt_mb_control mb cmd k =
    (if cmd = RT_IPC_CMD_RESET
     then do {
       (list, k) \<leftarrow> rt_ipc_list_resume_all (suspend_thread mb) k;
       (senders, k) \<leftarrow> rt_ipc_list_resume_all (suspend_sender_thread mb) k;
       k \<leftarrow> rt_schedule k;
       Some (RT_EOK, mb\<lparr>suspend_thread := list, suspend_sender_thread := senders, mb_entry := 0,
         in_offset := 0, out_offset := 0\<rparr>, k)
     }
     else Some (- RT_ERROR, mb, k))"

section \<open>The ring is a bounded queue\<close>

definition mb_inv :: "rt_mailbox \<Rightarrow> bool" where
  "mb_inv mb \<longleftrightarrow> length (msg_pool mb) = unat (mb_size mb) \<and> mb_entry mb \<le> mb_size mb \<and>
     (mb_size mb \<noteq> 0 \<longrightarrow> out_offset mb < mb_size mb \<and>
       unat (in_offset mb) = (unat (out_offset mb) + unat (mb_entry mb)) mod unat (mb_size mb))"

definition mb_items :: "rt_mailbox \<Rightarrow> 32 word list" where
  "mb_items mb = ring (msg_pool mb) (unat (out_offset mb)) (unat (mb_entry mb))"

lemma mb_inv_init: "length pool = unat (ucast size' :: 16 word) \<Longrightarrow> mb_inv (rt_mb_init pool size' fl)"
  by (simp add: mb_inv_def rt_mb_init_def word_neq_0_conv)

lemma mb_items_empty: "mb_entry mb = 0 \<longleftrightarrow> mb_items mb = []"
  by (simp add: mb_items_def word_unat_eq_iff flip: length_0_conv)

lemma mb_items_full: "mb_entry mb = mb_size mb \<longleftrightarrow> length (mb_items mb) = unat (mb_size mb)"
  by (simp add: mb_items_def word_unat_eq_iff)

lemma next_offset:
  assumes "i < (m :: 16 word)"
  shows "unat (if m \<le> i + 1 then 0 else i + 1) = (unat i + 1) mod unat m"
  using assms unat16_Suc [OF assms] by (auto simp: word_less_nat_alt word_le_nat_alt mod_if)

lemma mb_put_ok:
  assumes inv: "mb_inv mb" and room: "mb_entry mb \<noteq> mb_size mb"
  shows "\<exists>pool i. mb_put v mb = Some (mb\<lparr>msg_pool := pool, mb_entry := mb_entry mb + 1, in_offset := i\<rparr>) \<and>
    mb_inv (mb\<lparr>msg_pool := pool, mb_entry := mb_entry mb + 1, in_offset := i\<rparr>) \<and>
    mb_items (mb\<lparr>msg_pool := pool, mb_entry := mb_entry mb + 1, in_offset := i\<rparr>) = mb_items mb @ [v]"
proof -
  let ?n = "unat (mb_size mb)" and ?in = "in_offset mb"
  let ?i = "if mb_size mb \<le> ?in + 1 then 0 else ?in + 1" and ?pool = "(msg_pool mb)[unat ?in := v]"
  have lt: "mb_entry mb < mb_size mb" and n0: "mb_size mb \<noteq> 0"
    using inv room by (auto simp: mb_inv_def)
  have out: "out_offset mb < mb_size mb" and len: "length (msg_pool mb) = ?n"
    and ins: "unat ?in = (unat (out_offset mb) + unat (mb_entry mb)) mod ?n"
    using inv n0 by (simp_all add: mb_inv_def)
  have "0 < ?n" using n0 by (simp add: unat_gt_0)
  then have in_lt: "?in < mb_size mb"
    using ins by (simp add: word_less_nat_alt)
  have entry: "unat (mb_entry mb + 1) = Suc (unat (mb_entry mb))"
    using lt by (rule unat16_Suc)
  have "mb_put v mb = Some (mb\<lparr>msg_pool := ?pool, mb_entry := mb_entry mb + 1, in_offset := ?i\<rparr>)"
    using in_lt len by (simp add: mb_put_def word_less_nat_alt Let_def)
  moreover have "unat ?i = (unat (out_offset mb) + unat (mb_entry mb + 1)) mod ?n"
    using next_offset [OF in_lt] by (simp add: entry ins mod_simps)
  then have "mb_inv (mb\<lparr>msg_pool := ?pool, mb_entry := mb_entry mb + 1, in_offset := ?i\<rparr>)"
    using len out lt by (simp add: mb_inv_def word_le_nat_alt word_less_nat_alt entry)
  moreover have "ring ?pool (unat (out_offset mb)) (Suc (unat (mb_entry mb))) = mb_items mb @ [v]"
    using ring_put [of "unat (mb_entry mb)" "msg_pool mb"] lt by (simp add: len ins mb_items_def word_less_nat_alt)
  then have "mb_items (mb\<lparr>msg_pool := ?pool, mb_entry := mb_entry mb + 1, in_offset := ?i\<rparr>) = mb_items mb @ [v]"
    by (simp add: mb_items_def entry)
  ultimately show ?thesis by blast
qed

lemma mb_fetch_ok:
  assumes inv: "mb_inv mb" and items: "mb_items mb = v # vs"
  shows "\<exists>i. mb_fetch mb = Some (v, mb\<lparr>mb_entry := mb_entry mb - 1, out_offset := i\<rparr>) \<and>
    mb_inv (mb\<lparr>mb_entry := mb_entry mb - 1, out_offset := i\<rparr>) \<and>
    mb_items (mb\<lparr>mb_entry := mb_entry mb - 1, out_offset := i\<rparr>) = vs"
proof -
  let ?n = "unat (mb_size mb)" and ?out = "out_offset mb"
  let ?i = "if mb_size mb \<le> ?out + 1 then 0 else ?out + 1"
  have e0: "mb_entry mb \<noteq> 0"
    using items by (simp add: mb_items_empty)
  then have n0: "mb_size mb \<noteq> 0" and le: "unat (mb_entry mb) \<le> ?n"
    using inv by (auto simp: mb_inv_def word_le_nat_alt word_unat_eq_iff)
  then have out: "?out < mb_size mb" and len: "length (msg_pool mb) = ?n"
    and ins: "unat (in_offset mb) = (unat ?out + unat (mb_entry mb)) mod ?n"
    using inv by (simp_all add: mb_inv_def)
  have entry: "unat (mb_entry mb) = Suc (unat (mb_entry mb - 1))"
    using e0 by (simp add: unat_minus_one unat_gt_0)
  have "mb_items mb = msg_pool mb ! unat ?out # ring (msg_pool mb) ((unat ?out + 1) mod ?n) (unat (mb_entry mb - 1))"
    using ring_get [of "unat ?out" "msg_pool mb"] out by (simp add: mb_items_def entry len word_less_nat_alt)
  then have v: "v = msg_pool mb ! unat ?out" and vs: "vs = ring (msg_pool mb) (unat ?i) (unat (mb_entry mb - 1))"
    using items next_offset [OF out] by simp_all
  have "mb_fetch mb = Some (v, mb\<lparr>mb_entry := mb_entry mb - 1, out_offset := ?i\<rparr>)"
    using out len v by (simp add: mb_fetch_def word_less_nat_alt Let_def)
  moreover have "unat (in_offset mb) = (unat ?i + unat (mb_entry mb - 1)) mod ?n"
    unfolding next_offset [OF out] ins entry by (simp add: mod_simps)
  then have "mb_inv (mb\<lparr>mb_entry := mb_entry mb - 1, out_offset := ?i\<rparr>)"
    using len le entry next_offset [OF out] n0
    by (simp add: mb_inv_def word_le_nat_alt word_less_nat_alt unat_gt_0 del: if_split)
  moreover have "mb_items (mb\<lparr>mb_entry := mb_entry mb - 1, out_offset := ?i\<rparr>) = vs"
    by (simp add: mb_items_def vs)
  ultimately show ?thesis by blast
qed

text \<open>
  Calls that do not block, on a mailbox that nobody waits on, are those of a bounded queue.
\<close>

definition mb_step ::
  "32 word queue_op \<Rightarrow> rt_mailbox \<times> kernel \<Rightarrow> (32 word queue_out \<times> rt_mailbox \<times> kernel) option" where
  "mb_step op s = (case op of
     Q_Put v \<Rightarrow> do {
       (r, s) \<leftarrow> rt_mb_send v (fst s) (snd s);
       case r of Ipc_Done e _ \<Rightarrow> Some (if e = RT_EOK then Q_Ok else Q_Full, s) | Ipc_Wait t \<Rightarrow> None
     }
   | Q_Get \<Rightarrow> do {
       (r, s) \<leftarrow> rt_mb_recv 0 (fst s) (snd s);
       case r of Ipc_Done e out \<Rightarrow> Some (case out of Some v \<Rightarrow> Q_Got v | None \<Rightarrow> Q_Empty, s)
       | Ipc_Wait t \<Rightarrow> None
     }
   | Q_Urgent v \<Rightarrow> None)"

definition mb_calm :: "nat \<Rightarrow> rt_mailbox \<times> kernel \<Rightarrow> bool" where
  "mb_calm n s \<longleftrightarrow> mb_inv (fst s) \<and> unat (mb_size (fst s)) = n \<and> suspend_thread (fst s) = [] \<and>
     suspend_sender_thread (fst s) = [] \<and> rt_current_thread (snd s) \<noteq> None"

definition not_urgent :: "'v queue_op \<Rightarrow> bool" where
  "not_urgent op \<longleftrightarrow> (case op of Q_Urgent v \<Rightarrow> False | _ \<Rightarrow> True)"

lemma not_urgent_all: "list_all not_urgent ops \<longleftrightarrow> (\<forall>v. Q_Urgent v \<notin> set ops)"
  by (auto simp: list_all_iff not_urgent_def split: queue_op.splits)

lemma mb_step_refines:
  assumes calm: "mb_calm n s" and op: "not_urgent op"
  shows "\<exists>s'. mb_step op s = Some (fst (queue_spec n op (mb_items (fst s))), s') \<and> mb_calm n s' \<and>
    mb_items (fst s') = snd (queue_spec n op (mb_items (fst s)))"
proof -
  obtain mb k where s: "s = (mb, k)" by (cases s)
  obtain t where t: "rt_current_thread k = Some t"
    using calm s by (auto simp: mb_calm_def)
  have inv: "mb_inv mb" and n: "unat (mb_size mb) = n" and calm': "suspend_thread mb = []" "suspend_sender_thread mb = []"
    using calm s by (simp_all add: mb_calm_def)
  show ?thesis
  proof (cases op)
    case (Q_Put v)
    show ?thesis
    proof (cases "mb_entry mb = mb_size mb")
      case True
      then show ?thesis
        using calm n by (simp add: Q_Put s mb_step_def rt_mb_send_def rt_mb_send_wait_def t mb_items_full)
    next
      case False
      have "length (mb_items mb) \<le> n"
        using inv n by (simp add: mb_items_def mb_inv_def word_le_nat_alt)
      then have lt: "length (mb_items mb) < n"
        using False n by (simp add: mb_items_full)
      obtain pool i where "mb_put v mb = Some (mb\<lparr>msg_pool := pool, mb_entry := mb_entry mb + 1, in_offset := i\<rparr>)"
        "mb_inv (mb\<lparr>msg_pool := pool, mb_entry := mb_entry mb + 1, in_offset := i\<rparr>)"
        "mb_items (mb\<lparr>msg_pool := pool, mb_entry := mb_entry mb + 1, in_offset := i\<rparr>) = mb_items mb @ [v]"
        using mb_put_ok [OF inv False] by blast
      with lt False n calm' show ?thesis
        by (simp add: Q_Put s mb_step_def rt_mb_send_def rt_mb_send_wait_def mb_send_loop_def t mb_calm_def)
    qed
  next
    case Q_Get
    show ?thesis
    proof (cases "mb_items mb")
      case Nil
      then show ?thesis
        using calm mb_items_empty [of mb] by (simp add: Q_Get s mb_step_def rt_mb_recv_def t)
    next
      case (Cons v vs)
      then have "mb_entry mb \<noteq> 0" by (simp add: mb_items_empty)
      moreover obtain i where "mb_fetch mb = Some (v, mb\<lparr>mb_entry := mb_entry mb - 1, out_offset := i\<rparr>)"
        "mb_inv (mb\<lparr>mb_entry := mb_entry mb - 1, out_offset := i\<rparr>)"
        "mb_items (mb\<lparr>mb_entry := mb_entry mb - 1, out_offset := i\<rparr>) = vs"
        using mb_fetch_ok [OF inv Cons] by blast
      ultimately show ?thesis
        using Cons n calm' by (simp add: Q_Get s mb_step_def rt_mb_recv_def mb_recv_loop_def t mb_calm_def)
    qed
  qed (use op in \<open>simp add: not_urgent_def\<close>)
qed

interpretation mailbox: data_refinement mb_step "queue_spec n" "mb_calm n" "\<lambda>s. mb_items (fst s)" not_urgent
  for n
  by unfold_locales (rule mb_step_refines)

section \<open>Handing a message to a waiting receiver\<close>

text \<open>
  A message sent to an empty mailbox with a waiting receiver wakes the first one; when that thread
  goes on before another takes the message, its call returns it.
\<close>

lemma mb_send_delivers:
  assumes run: "runs c k" and inv: "mb_inv mb" "mb_entry mb = 0" "mb_size mb \<noteq> 0"
    and sus: "suspend_thread mb = t # list" "sus_ok k (t # list)" "suspend_sender_thread mb = []"
    and err: "error (threads k t) = RT_EOK"
  shows "\<exists>mb' k' v mb''. rt_mb_send value mb k = Some (Ipc_Done RT_EOK None, mb', k') \<and> runs v k' \<and>
    suspend_thread mb' = list \<and> sus_ok k' list \<and> (stat (threads k' t) = RT_THREAD_READY \<or> v = t) \<and>
    rt_mb_recv_resume t timeout ticks mb' k' = Some (Ipc_Done RT_EOK (Some value), mb'', k') \<and>
    mb_items mb'' = []"
proof -
  obtain pool i where put: "mb_put value mb = Some (mb\<lparr>msg_pool := pool, mb_entry := mb_entry mb + 1, in_offset := i\<rparr>)"
    "mb_inv (mb\<lparr>msg_pool := pool, mb_entry := mb_entry mb + 1, in_offset := i\<rparr>)"
    "mb_items (mb\<lparr>msg_pool := pool, mb_entry := mb_entry mb + 1, in_offset := i\<rparr>) = mb_items mb @ [value]"
    using mb_put_ok [OF inv(1)] inv by fastforce
  let ?mb' = "mb\<lparr>msg_pool := pool, mb_entry := mb_entry mb + 1, in_offset := i, suspend_thread := list\<rparr>"
  obtain k' v where wake: "ipc_wake (t # list) k = Some (list, k')" "runs v k'" "keeps {t} k k'" "sus_ok k' list"
    "stat (threads k' t) = RT_THREAD_READY \<or> v = t"
    using ipc_wake_ok [OF run sus(2)] by blast
  have "rt_mb_send value mb k = Some (Ipc_Done RT_EOK None, ?mb', k')"
    using run inv sus put wake by (simp add: rt_mb_send_def rt_mb_send_wait_def mb_send_loop_def runs_def)
  moreover have "mb_inv ?mb'" "mb_items ?mb' = [value]"
    using put mb_items_empty [of mb] inv by (simp_all add: mb_inv_def mb_items_def)
  then obtain j where j: "mb_fetch ?mb' = Some (value, ?mb'\<lparr>mb_entry := mb_entry ?mb' - 1, out_offset := j\<rparr>)"
    "mb_items (?mb'\<lparr>mb_entry := mb_entry ?mb' - 1, out_offset := j\<rparr>) = []"
    using mb_fetch_ok [of ?mb'] by blast
  have "error (threads k' t) = RT_EOK" "mb_entry ?mb' \<noteq> 0"
    using wake(3) err inv by (simp_all add: keeps_def)
  then have "rt_mb_recv_resume t timeout ticks ?mb' k' =
      Some (Ipc_Done RT_EOK (Some value), ?mb'\<lparr>mb_entry := mb_entry ?mb' - 1, out_offset := j\<rparr>, k')"
    using j(1) sus(3) unfolding rt_mb_recv_resume_def mb_recv_loop_def by simp
  moreover have "suspend_thread ?mb' = list" by simp
  ultimately show ?thesis
    using wake j(2) by blast
qed

end
