(* ===== verification/Rt_Mq.thy ===== *)
theory Rt_Mq
  imports Rt_Ipc Refine
begin

text \<open>
  The message queue of \<^verbatim>\<open>Kernel/ipc.c\<close>: a pool of equal slots, each a link and \<^verbatim>\<open>msg_size\<close> bytes, of
  which one chain holds the queued messages and another the free slots. A pointer to a
  slot is its number in the pool. The part of a send or a receive that runs with interrupts
  enabled works on a slot that is on neither chain; it is taken together with the rest.
\<close>

section \<open>Operations\<close>

record rt_messagequeue = rt_ipc_object +
  msg_size :: "16 word"
  max_msgs :: "16 word"
  mq_entry :: "16 word"
  msg_next :: "nat option list"
  msg_data :: "UCHAR list list"
  msg_queue_head :: "nat option"
  msg_queue_tail :: "nat option"
  msg_queue_free :: "nat option"

text \<open>The size of \<^verbatim>\<open>struct rt_mq_message\<close>.\<close>

abbreviation (input) mq_header :: "32 word" where "mq_header \<equiv> 4"

text \<open>The loop that links the slots \<open>temp\<close> to \<open>max_msgs - 1\<close> into the free list, \<open>n\<close> of them.\<close>

fun mq_link :: "nat \<Rightarrow> nat \<Rightarrow> nat option list \<times> nat option \<Rightarrow> (nat option list \<times> nat option) option" where
  "mq_link 0 temp (next', free) = Some (next', free)"
| "mq_link (Suc n) temp (next', free) = do {
     next' \<leftarrow> wr next' temp free;
     mq_link n (temp + 1) (next', Some temp)
   }"

definition rt_mq_init ::
  "(nat \<Rightarrow> UCHAR list) \<Rightarrow> 32 word \<Rightarrow> 32 word \<Rightarrow> ipc_flag \<Rightarrow> rt_messagequeue option" where
  "rt_mq_init msgpool size' pool_size fl = do {
     let sz = (ucast (rt_align size') :: 16 word);
     let n = (ucast (pool_size div (ucast sz + mq_header)) :: 16 word);
     (nx, free) \<leftarrow> mq_link (unat n) 0 (replicate (unat n) None, None);
     Some \<lparr> flag = fl, suspend_thread = [], msg_size = sz, max_msgs = n, mq_entry = 0, msg_next = nx,
       msg_data = map msgpool [0..<unat n], msg_queue_head = None, msg_queue_tail = None, msg_queue_free = free \<rparr>
   }"

definition rt_mq_detach :: "rt_messagequeue \<Rightarrow> kernel \<Rightarrow> (rt_err_t \<times> rt_messagequeue \<times> kernel) option" where
  "rt_mq_detach mq k = do {
     (list, k) \<leftarrow> rt_ipc_list_resume_all (suspend_thread mq) k;
     Some (RT_EOK, mq\<lparr>suspend_thread := list\<rparr>, k)
   }"

text \<open>A slot off the free list, filled with the message.\<close>

definition mq_fill :: "nat \<Rightarrow> UCHAR list \<Rightarrow> nat \<Rightarrow> rt_messagequeue \<Rightarrow> rt_messagequeue option" where
  "mq_fill msg buffer size' mq = do {
     old \<leftarrow> rd (msg_data mq) msg;
     new \<leftarrow> rt_memcpy old buffer size';
     Some (mq\<lparr>msg_data := (msg_data mq)[msg := new]\<rparr>)
   }"

definition mq_append :: "nat \<Rightarrow> rt_messagequeue \<Rightarrow> rt_messagequeue option" where
  "mq_append msg mq = do {
     nx \<leftarrow> (case msg_queue_tail mq of None \<Rightarrow> Some (msg_next mq) | Some t \<Rightarrow> wr (msg_next mq) t (Some msg));
     Some (mq\<lparr>mq_entry := mq_entry mq + 1, msg_next := nx,
       msg_queue_head := (if msg_queue_head mq = None then Some msg else msg_queue_head mq),
       msg_queue_tail := Some msg\<rparr>)
   }"

definition mq_notify :: "rt_messagequeue \<Rightarrow> kernel \<Rightarrow> (rt_err_t \<times> rt_messagequeue \<times> kernel) option" where
  "mq_notify mq k =
    (if suspend_thread mq \<noteq> []
     then do {
       (list, k) \<leftarrow> ipc_wake (suspend_thread mq) k;
       Some (RT_EOK, mq\<lparr>suspend_thread := list\<rparr>, k)
     }
     else Some (RT_EOK, mq, k))"

definition rt_mq_send ::
  "UCHAR list \<Rightarrow> nat \<Rightarrow> rt_messagequeue \<Rightarrow> kernel \<Rightarrow> (rt_err_t \<times> rt_messagequeue \<times> kernel) option" where
  "rt_mq_send buffer size' mq k = do {
     rt_assert (size' \<noteq> 0);
     if unat (msg_size mq) < size' then Some (- RT_ERROR, mq, k)
     else case msg_queue_free mq of
         None \<Rightarrow> Some (- RT_EFULL, mq, k)
       | Some msg \<Rightarrow> do {
           free \<leftarrow> rd (msg_next mq) msg;
           nx \<leftarrow> wr (msg_next mq) msg None;
           let mq = mq\<lparr>msg_next := nx, msg_queue_free := free\<rparr>;
           mq \<leftarrow> mq_fill msg buffer size' mq;
           mq \<leftarrow> mq_append msg mq;
           mq_notify mq k
         }
   }"

definition rt_mq_urgent ::
  "UCHAR list \<Rightarrow> nat \<Rightarrow> rt_messagequeue \<Rightarrow> kernel \<Rightarrow> (rt_err_t \<times> rt_messagequeue \<times> kernel) option" where
  "rt_mq_urgent buffer size' mq k = do {
     rt_assert (size' \<noteq> 0);
     if unat (msg_size mq) < size' then Some (- RT_ERROR, mq, k)
     else case msg_queue_free mq of
         None \<Rightarrow> Some (- RT_EFULL, mq, k)
       | Some msg \<Rightarrow> do {
           free \<leftarrow> rd (msg_next mq) msg;
           mq \<leftarrow> mq_fill msg buffer size' (mq\<lparr>msg_queue_free := free\<rparr>);
           nx \<leftarrow> wr (msg_next mq) msg (msg_queue_head mq);
           mq_notify (mq\<lparr>mq_entry := mq_entry mq + 1, msg_next := nx, msg_queue_head := Some msg,
             msg_queue_tail := (if msg_queue_tail mq = None then Some msg else msg_queue_tail mq)\<rparr>) k
         }
   }"

text \<open>The head of the queue is unlinked; then its slot goes to the free list.\<close>

definition mq_unlink :: "rt_messagequeue \<Rightarrow> (nat \<times> rt_messagequeue) option" where
  "mq_unlink mq = do {
     msg \<leftarrow> msg_queue_head mq;
     nx \<leftarrow> rd (msg_next mq) msg;
     Some (msg, mq\<lparr>msg_queue_head := nx,
       msg_queue_tail := (if msg_queue_tail mq = Some msg then None else msg_queue_tail mq)\<rparr>)
   }"

definition mq_release :: "nat \<Rightarrow> rt_messagequeue \<Rightarrow> rt_messagequeue option" where
  "mq_release msg mq = do {
     nx \<leftarrow> wr (msg_next mq) msg (msg_queue_free mq);
     Some (mq\<lparr>msg_next := nx, msg_queue_free := Some msg\<rparr>)
   }"

definition mq_recv_loop ::
  "tid \<Rightarrow> UCHAR list \<Rightarrow> nat \<Rightarrow> int \<Rightarrow> rt_messagequeue \<Rightarrow> kernel \<Rightarrow>
   (UCHAR list ipc_result \<times> rt_messagequeue \<times> kernel) option" where
  "mq_recv_loop thread buffer size' timeout mq k =
    (if mq_entry mq = 0
     then do {
       rt_assert (rt_interrupt_nest k = 0);
       let k = set_error thread RT_EOK k;
       if timeout = 0 then Some (Ipc_Done (- RT_ETIMEOUT) None, mq, set_error thread (- RT_ETIMEOUT) k)
       else do {
         (list, k) \<leftarrow> ipc_block (suspend_thread mq) thread (flag mq) timeout k;
         Some (Ipc_Wait thread, mq\<lparr>suspend_thread := list\<rparr>, k)
       }
     }
     else do {
       (msg, mq) \<leftarrow> mq_unlink mq;
       let mq = mq\<lparr>mq_entry := mq_entry mq - 1\<rparr>;
       bytes \<leftarrow> rd (msg_data mq) msg;
       out \<leftarrow> rt_memcpy buffer bytes (if unat (msg_size mq) < size' then unat (msg_size mq) else size');
       mq \<leftarrow> mq_release msg mq;
       Some (Ipc_Done RT_EOK (Some out), mq, k)
     })"

definition rt_mq_recv ::
  "UCHAR list \<Rightarrow> nat \<Rightarrow> int \<Rightarrow> rt_messagequeue \<Rightarrow> kernel \<Rightarrow>
   (UCHAR list ipc_result \<times> rt_messagequeue \<times> kernel) option" where
  "rt_mq_recv buffer size' timeout mq k = do {
     rt_assert (size' \<noteq> 0);
     thread \<leftarrow> rt_current_thread k;
     if mq_entry mq = 0 \<and> timeout = 0 then Some (Ipc_Done (- RT_ETIMEOUT) None, mq, k)
     else mq_recv_loop thread buffer size' timeout mq k
   }"

definition rt_mq_recv_resume ::
  "tid \<Rightarrow> UCHAR list \<Rightarrow> nat \<Rightarrow> int \<Rightarrow> 32 word \<Rightarrow> rt_messagequeue \<Rightarrow> kernel \<Rightarrow>
   (UCHAR list ipc_result \<times> rt_messagequeue \<times> kernel) option" where
  "rt_mq_recv_resume thread buffer size' timeout tick_delta mq k =
    (if error (threads k thread) \<noteq> RT_EOK then Some (Ipc_Done (error (threads k thread)) None, mq, k)
     else mq_recv_loop thread buffer size' (wait_left timeout tick_delta) mq k)"

text \<open>The loop that empties the queue; it does not end if the chain is cyclic.\<close>

partial_function (option) mq_flush :: "rt_messagequeue \<Rightarrow> rt_messagequeue option" where
  "mq_flush mq =
    (if msg_queue_head mq = None then Some mq
     else do {
       (msg, mq) \<leftarrow> mq_unlink mq;
       mq \<leftarrow> mq_release msg mq;
       mq_flush mq
     })"

definition rt_mq_control :: "rt_messagequeue \<Rightarrow> int \<Rightarrow> kernel \<Rightarrow> (rt_err_t \<times> rt_messagequeue \<times> kernel) option" where
  "rt_mq_control mq cmd k =
    (if cmd = RT_IPC_CMD_RESET
     then do {
       (list, k) \<leftarrow> rt_ipc_list_resume_all (suspend_thread mq) k;
       mq \<leftarrow> mq_flush (mq\<lparr>suspend_thread := list\<rparr>);
       k \<leftarrow> rt_schedule k;
       Some (RT_EOK, mq\<lparr>mq_entry := 0\<rparr>, k)
     }
     else Some (- RT_ERROR, mq, k))"

section \<open>Invariant\<close>

text \<open>
  Every slot is on exactly one of the two chains: \<open>q\<close> are the queued slots, \<open>f\<close> the free ones.
\<close>

definition mq_chains :: "rt_messagequeue \<Rightarrow> nat list \<Rightarrow> nat list \<Rightarrow> bool" where
  "mq_chains mq q f \<longleftrightarrow>
     chain (msg_next mq) (msg_queue_head mq) q \<and> chain (msg_next mq) (msg_queue_free mq) f \<and>
     distinct (q @ f) \<and> set (q @ f) = {0..<unat (max_msgs mq)} \<and>
     msg_queue_tail mq = (if q = [] then None else Some (last q))"

definition mq_shape :: "rt_messagequeue \<Rightarrow> bool" where
  "mq_shape mq \<longleftrightarrow> length (msg_next mq) = unat (max_msgs mq) \<and> length (msg_data mq) = unat (max_msgs mq) \<and>
     (\<forall>d \<in> set (msg_data mq). length d = unat (msg_size mq))"

definition mq_inv :: "rt_messagequeue \<Rightarrow> bool" where
  "mq_inv mq \<longleftrightarrow> mq_shape mq \<and> (\<exists>q f. mq_chains mq q f \<and> length q = unat (mq_entry mq))"

definition mq_items :: "rt_messagequeue \<Rightarrow> UCHAR list list" where
  "mq_items mq = map ((!) (msg_data mq)) (follow (msg_next mq) (msg_queue_head mq) (unat (mq_entry mq)))"

lemma mq_invE:
  assumes "mq_inv mq"
  obtains q f where "mq_shape mq" "mq_chains mq q f" "length q = unat (mq_entry mq)"
    "mq_items mq = map ((!) (msg_data mq)) q" "length q + length f = unat (max_msgs mq)"
proof -
  obtain q f where qf: "mq_shape mq" "mq_chains mq q f" "length q = unat (mq_entry mq)"
    using assms by (auto simp: mq_inv_def)
  then have "mq_items mq = map ((!) (msg_data mq)) q"
    using follow_chain [of _ _ q] by (simp add: mq_items_def mq_chains_def)
  moreover have "length (q @ f) = unat (max_msgs mq)"
    using qf(2) distinct_card [of "q @ f"] by (simp add: mq_chains_def)
  ultimately show ?thesis using that qf by simp
qed

lemma mq_invI:
  assumes "mq_shape mq" "mq_chains mq q f" "length q = unat (mq_entry mq)"
  shows "mq_inv mq" "mq_items mq = map ((!) (msg_data mq)) q"
  using assms follow_chain [of "msg_next mq" "msg_queue_head mq" q]
  by (auto simp: mq_inv_def mq_items_def mq_chains_def)

section \<open>Sending and receiving\<close>

text \<open>The slot of a message, with the bytes behind the message left from before.\<close>

definition mq_slot :: "UCHAR list \<Rightarrow> nat \<Rightarrow> UCHAR list \<Rightarrow> UCHAR list" where
  "mq_slot buffer size' old = take size' buffer @ drop size' old"

lemma mq_free_cases:
  assumes "mq_chains mq q f" "length q < unat (max_msgs mq)" "mq_shape mq"
  obtains m f' where "f = m # f'" "msg_queue_free mq = Some m" "m < unat (max_msgs mq)"
    "chain (msg_next mq) (msg_next mq ! m) f'" "m \<notin> set q" "m \<notin> set f'"
    "length (msg_data mq ! m) = unat (msg_size mq)"
proof (cases f)
  case Nil
  then have "length q = unat (max_msgs mq)"
    using assms(1) distinct_card [of q] by (simp add: mq_chains_def)
  with assms(2) show ?thesis by simp
next
  case (Cons m f')
  have "m \<in> {0..<unat (max_msgs mq)}"
    using assms(1) Cons unfolding mq_chains_def by (metis in_set_conv_decomp)
  then have m: "m < unat (max_msgs mq)" by simp
  then have "length (msg_data mq ! m) = unat (msg_size mq)"
    using assms(3) by (simp add: mq_shape_def)
  moreover have "chain (msg_next mq) (msg_next mq ! m) f'" "m \<notin> set q" "m \<notin> set f'" "msg_queue_free mq = Some m"
    using assms(1) Cons by (simp_all add: mq_chains_def)
  ultimately show ?thesis
    using that Cons m by blast
qed

lemma mq_append_chains:
  assumes ch: "mq_chains mq q (m # f')" and shape: "mq_shape mq"
    and new: "length new = unat (msg_size mq)"
  shows "\<exists>mq'. mq_append m (mq\<lparr>msg_next := (msg_next mq)[m := None], msg_queue_free := msg_next mq ! m,
      msg_data := (msg_data mq)[m := new]\<rparr>) = Some mq' \<and> mq_shape mq' \<and> mq_chains mq' (q @ [m]) f' \<and>
    msg_data mq' = (msg_data mq)[m := new] \<and> mq_entry mq' = mq_entry mq + 1 \<and> max_msgs mq' = max_msgs mq \<and>
    msg_size mq' = msg_size mq \<and> suspend_thread mq' = suspend_thread mq"
proof -
  have m: "m < length (msg_next mq)" "m \<notin> set q" "m \<notin> set f'" "distinct q" "distinct f'"
    "set q \<inter> set f' = {}" "chain (msg_next mq) (msg_next mq ! m) f'"
    "chain (msg_next mq) (msg_queue_head mq) q"
    using ch by (auto simp: mq_chains_def)
  let ?nx = "(msg_next mq)[m := None]"
  show ?thesis
  proof (cases "q = []")
    case True
    then show ?thesis
      using ch shape new m by (auto simp: mq_append_def mq_chains_def mq_shape_def set_update_subset_insert
          dest!: set_update_subset_insert [THEN subsetD])
  next
    case False
    have tail: "msg_queue_tail mq = Some (last q)" and head: "msg_queue_head mq \<noteq> None"
      using ch False by (auto simp: mq_chains_def)
    have "last q \<in> set q" using False by simp
    then have last: "last q \<notin> set f'" "last q < length (msg_next mq)" "last q \<noteq> m"
      using m chain_less by auto
    have "chain (?nx[last q := Some m]) (msg_queue_head mq) (q @ [m])"
      by (rule chain_snoc) (use m False in auto)
    then show ?thesis
      using ch shape new m last tail head by (auto simp: mq_append_def mq_chains_def mq_shape_def
          dest!: set_update_subset_insert [THEN subsetD])
  qed
qed

lemma mq_send_ok:
  assumes inv: "mq_inv mq" and room: "length (mq_items mq) < unat (max_msgs mq)"
    and size: "0 < n" "n \<le> unat (msg_size mq)" "n \<le> length buffer"
  shows "\<exists>mq' old. rt_mq_send buffer n mq k = mq_notify mq' k \<and> mq_inv mq' \<and>
    length old = unat (msg_size mq) \<and> mq_items mq' = mq_items mq @ [mq_slot buffer n old] \<and>
    max_msgs mq' = max_msgs mq \<and> msg_size mq' = msg_size mq \<and> suspend_thread mq' = suspend_thread mq"
proof -
  from inv obtain q f where q: "mq_shape mq" "mq_chains mq q f" "length q = unat (mq_entry mq)"
    "mq_items mq = map ((!) (msg_data mq)) q" "length q + length f = unat (max_msgs mq)"
    by (rule mq_invE)
  then have lt: "length q < unat (max_msgs mq)" using room by simp
  obtain m f' where m: "f = m # f'" "msg_queue_free mq = Some m" "m < unat (max_msgs mq)"
    "m \<notin> set q" "length (msg_data mq ! m) = unat (msg_size mq)"
    using mq_free_cases [OF q(2) lt q(1)] by metis
  let ?new = "mq_slot buffer n (msg_data mq ! m)"
  have new: "length ?new = unat (msg_size mq)"
    using size m by (simp add: mq_slot_def)
  from mq_append_chains [OF q(2) [unfolded m(1)] q(1) new] obtain mq' where
    mq': "mq_append m (mq\<lparr>msg_next := (msg_next mq)[m := None], msg_queue_free := msg_next mq ! m,
      msg_data := (msg_data mq)[m := ?new]\<rparr>) = Some mq'" "mq_shape mq'" "mq_chains mq' (q @ [m]) f'"
    "msg_data mq' = (msg_data mq)[m := ?new]" "mq_entry mq' = mq_entry mq + 1" "max_msgs mq' = max_msgs mq"
    "msg_size mq' = msg_size mq" "suspend_thread mq' = suspend_thread mq"
    by blast
  have "mq_entry mq < max_msgs mq"
    using lt q(3) by (simp add: word_less_nat_alt)
  then have "length (q @ [m]) = unat (mq_entry mq')"
    using unat16_Suc q(3) mq'(5) by simp
  then have "mq_inv mq'" "mq_items mq' = map ((!) (msg_data mq')) (q @ [m])"
    using mq_invI mq'(2,3) by blast+
  moreover have "map ((!) (msg_data mq')) (q @ [m]) = mq_items mq @ [?new]"
    using m q(1,4) mq'(4) by (auto simp: mq_shape_def nth_list_update)
  moreover have "rt_mq_send buffer n mq k = mq_notify mq' k"
    using size m q(1) mq'(1) by (simp add: rt_mq_send_def mq_fill_def mq_shape_def mq_slot_def)
  ultimately show ?thesis
    using m(5) mq'(6-8) by auto
qed

lemma mq_urgent_ok:
  assumes inv: "mq_inv mq" and room: "length (mq_items mq) < unat (max_msgs mq)"
    and size: "0 < n" "n \<le> unat (msg_size mq)" "n \<le> length buffer"
  shows "\<exists>mq' old. rt_mq_urgent buffer n mq k = mq_notify mq' k \<and> mq_inv mq' \<and>
    length old = unat (msg_size mq) \<and> mq_items mq' = mq_slot buffer n old # mq_items mq \<and>
    max_msgs mq' = max_msgs mq \<and> msg_size mq' = msg_size mq \<and> suspend_thread mq' = suspend_thread mq"
proof -
  from inv obtain q f where q: "mq_shape mq" "mq_chains mq q f" "length q = unat (mq_entry mq)"
    "mq_items mq = map ((!) (msg_data mq)) q" "length q + length f = unat (max_msgs mq)"
    by (rule mq_invE)
  then have lt: "length q < unat (max_msgs mq)" using room by simp
  obtain m f' where m: "f = m # f'" "msg_queue_free mq = Some m" "m < unat (max_msgs mq)"
    "chain (msg_next mq) (msg_next mq ! m) f'" "m \<notin> set q" "m \<notin> set f'"
    "length (msg_data mq ! m) = unat (msg_size mq)"
    using mq_free_cases [OF q(2) lt q(1)] by metis
  let ?new = "mq_slot buffer n (msg_data mq ! m)"
  define mq' where "mq' = mq\<lparr>msg_queue_free := msg_next mq ! m, msg_data := (msg_data mq)[m := ?new],
    mq_entry := mq_entry mq + 1, msg_next := (msg_next mq)[m := msg_queue_head mq], msg_queue_head := Some m,
    msg_queue_tail := (if msg_queue_tail mq = None then Some m else msg_queue_tail mq)\<rparr>"
  have "length ?new = unat (msg_size mq)"
    using size m by (simp add: mq_slot_def)
  then have shape: "mq_shape mq'"
    using q(1) by (auto simp: mq_shape_def mq'_def dest!: set_update_subset_insert [THEN subsetD])
  have ch: "mq_chains mq' (m # q) f'"
    using q(1,2) m by (auto simp: mq_chains_def mq'_def mq_shape_def)
  have "mq_entry mq < max_msgs mq"
    using lt q(3) by (simp add: word_less_nat_alt)
  then have "length (m # q) = unat (mq_entry mq')"
    using unat16_Suc q(3) by (simp add: mq'_def)
  then have "mq_inv mq'" "mq_items mq' = map ((!) (msg_data mq')) (m # q)"
    using mq_invI shape ch by blast+
  moreover have "map ((!) (msg_data mq')) (m # q) = ?new # mq_items mq"
    using m q(1,4) by (auto simp: mq_shape_def nth_list_update mq'_def)
  moreover have "rt_mq_urgent buffer n mq k = mq_notify mq' k"
    using size m q(1) by (simp add: rt_mq_urgent_def mq_fill_def mq_shape_def mq_slot_def mq'_def)
  moreover have "max_msgs mq' = max_msgs mq" "msg_size mq' = msg_size mq" "suspend_thread mq' = suspend_thread mq"
    by (simp_all add: mq'_def)
  ultimately show ?thesis
    using m(7) by metis
qed

text \<open>Taking the head off the queue and giving its slot back.\<close>

lemma mq_take_ok:
  assumes ch: "mq_chains mq (x # q) f" and shape: "mq_shape mq"
  shows "\<exists>mq1 mq2. mq_unlink mq = Some (x, mq1) \<and> msg_data mq1 = msg_data mq \<and> mq_entry mq1 = mq_entry mq \<and>
    msg_size mq1 = msg_size mq \<and> mq_release x (mq1\<lparr>mq_entry := e\<rparr>) = Some mq2 \<and>
    mq_shape mq2 \<and> mq_chains mq2 q (x # f) \<and> msg_data mq2 = msg_data mq \<and> mq_entry mq2 = e \<and>
    max_msgs mq2 = max_msgs mq \<and> msg_size mq2 = msg_size mq \<and> suspend_thread mq2 = suspend_thread mq"
proof -
  have "msg_queue_tail mq = Some (last (x # q))" and x: "x < length (msg_next mq)" "x \<notin> set q"
    "msg_queue_head mq = Some x" "chain (msg_next mq) (msg_next mq ! x) q"
    using ch by (auto simp: mq_chains_def)
  then have tail: "(if msg_queue_tail mq = Some x then None else msg_queue_tail mq) = (if q = [] then None else Some (last q))"
    using last_in_set [of q] by (cases "q = []") auto
  show ?thesis
    using ch shape x by (auto simp: mq_unlink_def mq_release_def mq_chains_def mq_shape_def simp flip: tail)
qed

lemma mq_recv_ok:
  assumes inv: "mq_inv mq" and items: "mq_items mq = v # vs"
    and size: "0 < n" "n \<le> length buffer"
    and len: "l = (if unat (msg_size mq) < n then unat (msg_size mq) else n)"
  shows "\<exists>mq'. mq_recv_loop t buffer n timeout mq k = Some (Ipc_Done RT_EOK (Some (take l v @ drop l buffer)), mq', k) \<and>
    mq_inv mq' \<and> mq_items mq' = vs \<and> length v = unat (msg_size mq) \<and>
    max_msgs mq' = max_msgs mq \<and> msg_size mq' = msg_size mq \<and> suspend_thread mq' = suspend_thread mq"
proof -
  from inv obtain q0 f where q0: "mq_shape mq" "mq_chains mq q0 f" "length q0 = unat (mq_entry mq)"
    "mq_items mq = map ((!) (msg_data mq)) q0"
    by (rule mq_invE)
  then obtain x q where q: "q0 = x # q" "v = msg_data mq ! x" "vs = map ((!) (msg_data mq)) q"
    using items by (cases q0) auto
  obtain mq1 mq2 where t: "mq_unlink mq = Some (x, mq1)" "msg_data mq1 = msg_data mq" "mq_entry mq1 = mq_entry mq"
    "msg_size mq1 = msg_size mq" "mq_release x (mq1\<lparr>mq_entry := mq_entry mq - 1\<rparr>) = Some mq2"
    "mq_shape mq2" "mq_chains mq2 q (x # f)" "msg_data mq2 = msg_data mq" "mq_entry mq2 = mq_entry mq - 1"
    "max_msgs mq2 = max_msgs mq" "msg_size mq2 = msg_size mq" "suspend_thread mq2 = suspend_thread mq"
    using mq_take_ok [OF q0(2) [unfolded q(1)] q0(1)] by blast
  have "mq_entry mq \<noteq> 0"
    using q0(3) q(1) by (auto simp: word_unat_eq_iff)
  then have e: "mq_entry mq \<noteq> 0" "unat (mq_entry mq - 1) = length q"
    using q0(3) q(1) by (simp_all add: unat_minus_one)
  have "mq_inv mq2" "mq_items mq2 = map ((!) (msg_data mq2)) q"
    using mq_invI [OF t(6,7)] t(9) e(2) by simp_all
  moreover have x: "x < length (msg_data mq)" "length v = unat (msg_size mq)"
    using q0(1,2) q(1,2) chain_less [of "msg_next mq" "msg_queue_head mq" q0 x]
    by (auto simp: mq_chains_def mq_shape_def)
  ultimately show ?thesis
    using t e(1) size len q by (simp add: mq_recv_loop_def Let_def)
qed

section \<open>Initialisation and reset\<close>

lemma mq_link_ok:
  assumes "chain nx free xs" "set xs = {0..<temp}" "distinct xs" "length nx = temp + n"
  shows "\<exists>nx' free' ys. mq_link n temp (nx, free) = Some (nx', free') \<and> chain nx' free' ys \<and>
    set ys = {0..<temp + n} \<and> distinct ys \<and> length nx' = temp + n"
  using assms
proof (induction n arbitrary: temp nx free xs)
  case (Suc n)
  have "chain (nx[temp := free]) (Some temp) (temp # xs)"
    using Suc.prems by simp
  moreover have "set (temp # xs) = {0..<Suc temp}" "distinct (temp # xs)"
    using Suc.prems by auto
  ultimately show ?case
    using Suc.IH [of "nx[temp := free]" "Some temp" "temp # xs" "Suc temp"] Suc.prems by simp
qed auto

text \<open>A pool that has just been linked is an empty queue.\<close>

lemma mq_linked_ok:
  assumes "\<And>i. length (pool i) = unat sz"
  shows "\<exists>nx free. mq_link (unat n) 0 (replicate (unat n) None, None) = Some (nx, free) \<and>
    (let mq = \<lparr> flag = fl, suspend_thread = [], msg_size = sz, max_msgs = n, mq_entry = 0, msg_next = nx,
       msg_data = map pool [0..<unat n], msg_queue_head = None, msg_queue_tail = None, msg_queue_free = free \<rparr> in
     mq_inv mq \<and> mq_items mq = [])"
proof -
  obtain nx free f where f: "mq_link (unat n) 0 (replicate (unat n) None, None) = Some (nx, free)"
    "chain nx free f" "set f = {0..<unat n}" "distinct f" "length nx = unat n"
    using mq_link_ok [of "replicate (unat n) None" None "[]" 0 "unat n"] by auto
  let ?mq = "\<lparr> flag = fl, suspend_thread = [], msg_size = sz, max_msgs = n, mq_entry = 0, msg_next = nx,
    msg_data = map pool [0..<unat n], msg_queue_head = None, msg_queue_tail = None, msg_queue_free = free \<rparr> :: rt_messagequeue"
  have "mq_shape ?mq" "mq_chains ?mq [] f"
    using f assms by (auto simp: mq_shape_def mq_chains_def)
  then have "mq_inv ?mq" "mq_items ?mq = []"
    using mq_invI [of ?mq "[]" f] by simp_all
  with f(1) show ?thesis by simp
qed

lemma rt_mq_init_ok:
  assumes "\<And>i. length (msgpool i) = unat (ucast (rt_align sz) :: 16 word)"
  shows "\<exists>mq. rt_mq_init msgpool sz pool_size fl = Some mq \<and> mq_inv mq \<and> mq_items mq = [] \<and>
    msg_size mq = ucast (rt_align sz) \<and>
    max_msgs mq = ucast (pool_size div (ucast (ucast (rt_align sz) :: 16 word) + 4)) \<and> suspend_thread mq = []"
  using mq_linked_ok [of msgpool "ucast (rt_align sz)" "ucast (pool_size div (ucast (ucast (rt_align sz) :: 16 word) + 4))" fl] assms
  by (auto simp: rt_mq_init_def Let_def)

text \<open>The loop of the reset ends, with every slot on the free list.\<close>

lemma mq_flush_ok:
  assumes "mq_shape mq" "mq_chains mq q f"
  shows "\<exists>mq' f'. mq_flush mq = Some mq' \<and> mq_shape mq' \<and> mq_chains mq' [] f' \<and> msg_size mq' = msg_size mq \<and>
    max_msgs mq' = max_msgs mq \<and> mq_entry mq' = mq_entry mq \<and> suspend_thread mq' = suspend_thread mq"
  using assms
proof (induction q arbitrary: mq f)
  case Nil
  then show ?case
    by (subst mq_flush.simps) (auto simp: mq_chains_def)
next
  case (Cons x q)
  obtain mq1 mq2 where t: "mq_unlink mq = Some (x, mq1)" "mq_entry mq1 = mq_entry mq"
    "mq_release x (mq1\<lparr>mq_entry := mq_entry mq\<rparr>) = Some mq2" "mq_shape mq2" "mq_chains mq2 q (x # f)"
    "mq_entry mq2 = mq_entry mq" "max_msgs mq2 = max_msgs mq" "msg_size mq2 = msg_size mq"
    "suspend_thread mq2 = suspend_thread mq"
    using mq_take_ok [OF Cons.prems(2,1), of "mq_entry mq"] by blast
  have "mq1\<lparr>mq_entry := mq_entry mq\<rparr> = mq1"
    using t(2) by simp
  then have "mq_release x mq1 = Some mq2"
    using t(3) by simp
  then have "mq_flush mq = mq_flush mq2"
    using t(1) Cons.prems(2) by (subst mq_flush.simps) (auto simp: mq_chains_def)
  then show ?case
    using Cons.IH [OF t(4,5)] t by auto
qed

section \<open>Refinement of a bounded queue\<close>

text \<open>
  Messages of exactly \<^verbatim>\<open>msg_size\<close> bytes; a shorter one is delivered with the old bytes of its slot
  behind it, since the queue does not keep lengths (\<open>mq_send_ok\<close>).
\<close>

definition mq_step ::
  "UCHAR list queue_op \<Rightarrow> rt_messagequeue \<times> kernel \<Rightarrow> (UCHAR list queue_out \<times> rt_messagequeue \<times> kernel) option" where
  "mq_step op s = (case op of
     Q_Put v \<Rightarrow> do {
       (e, s) \<leftarrow> rt_mq_send v (length v) (fst s) (snd s);
       Some (if e = RT_EOK then Q_Ok else Q_Full, s)
     }
   | Q_Urgent v \<Rightarrow> do {
       (e, s) \<leftarrow> rt_mq_urgent v (length v) (fst s) (snd s);
       Some (if e = RT_EOK then Q_Ok else Q_Full, s)
     }
   | Q_Get \<Rightarrow> do {
       let n = unat (msg_size (fst s));
       (r, s) \<leftarrow> rt_mq_recv (replicate n 0) n 0 (fst s) (snd s);
       case r of Ipc_Done e out \<Rightarrow> Some (case out of Some v \<Rightarrow> Q_Got v | None \<Rightarrow> Q_Empty, s)
       | Ipc_Wait t \<Rightarrow> None
     })"

definition mq_calm :: "nat \<Rightarrow> nat \<Rightarrow> rt_messagequeue \<times> kernel \<Rightarrow> bool" where
  "mq_calm n sz s \<longleftrightarrow> mq_inv (fst s) \<and> unat (max_msgs (fst s)) = n \<and> unat (msg_size (fst s)) = sz \<and> 0 < sz \<and>
     suspend_thread (fst s) = [] \<and> rt_current_thread (snd s) \<noteq> None"

definition fits :: "nat \<Rightarrow> UCHAR list queue_op \<Rightarrow> bool" where
  "fits sz op \<longleftrightarrow> (case op of Q_Put v \<Rightarrow> length v = sz | Q_Urgent v \<Rightarrow> length v = sz | Q_Get \<Rightarrow> True)"

lemma mq_full:
  assumes "mq_inv mq" "length (mq_items mq) = unat (max_msgs mq)"
  shows "msg_queue_free mq = None"
proof -
  from assms(1) obtain q f where q: "mq_chains mq q f" "mq_items mq = map ((!) (msg_data mq)) q"
    "length q + length f = unat (max_msgs mq)"
    by (rule mq_invE)
  then have "f = []" using assms(2) by simp
  with q(1) show ?thesis by (simp add: mq_chains_def)
qed

lemma mq_bounded: "mq_inv mq \<Longrightarrow> length (mq_items mq) \<le> unat (max_msgs mq)"
  by (erule mq_invE) simp

lemma mq_empty: "mq_inv mq \<Longrightarrow> mq_items mq = [] \<longleftrightarrow> mq_entry mq = 0"
  by (erule mq_invE) (auto simp: word_unat_eq_iff)

lemma mq_step_refines:
  assumes calm: "mq_calm n sz s" and op: "fits sz op"
  shows "\<exists>s'. mq_step op s = Some (fst (queue_spec n op (mq_items (fst s))), s') \<and> mq_calm n sz s' \<and>
    mq_items (fst s') = snd (queue_spec n op (mq_items (fst s)))"
proof -
  obtain mq k where s: "s = (mq, k)" by (cases s)
  obtain t where t: "rt_current_thread k = Some t"
    using calm s by (auto simp: mq_calm_def)
  have inv: "mq_inv mq" and n: "unat (max_msgs mq) = n" and sz: "unat (msg_size mq) = sz" "0 < sz"
    and sus: "suspend_thread mq = []"
    using calm s by (simp_all add: mq_calm_def)
  have full: "msg_queue_free mq = None" if "\<not> length (mq_items mq) < n"
    using mq_full [OF inv] mq_bounded [OF inv] n that by simp
  have slot: "mq_slot v sz old = v" if "length v = sz" "length old = sz" for v old
    using that by (simp add: mq_slot_def)
  show ?thesis
  proof (cases op)
    case (Q_Put v)
    then have v: "length v = sz" using op by (simp add: fits_def)
    show ?thesis
    proof (cases "length (mq_items mq) < n")
      case True
      with mq_send_ok [OF inv, of sz v k] n sz v obtain mq' old where
        "rt_mq_send v sz mq k = mq_notify mq' k" "mq_inv mq'" "mq_items mq' = mq_items mq @ [v]"
        "max_msgs mq' = max_msgs mq" "msg_size mq' = msg_size mq" "suspend_thread mq' = suspend_thread mq"
        by (metis order_refl slot)
      with True sus n sz v t show ?thesis
        by (simp add: Q_Put s mq_step_def mq_notify_def mq_calm_def)
    next
      case False
      then show ?thesis
        using full calm sz v by (simp add: Q_Put s mq_step_def rt_mq_send_def)
    qed
  next
    case (Q_Urgent v)
    then have v: "length v = sz" using op by (simp add: fits_def)
    show ?thesis
    proof (cases "length (mq_items mq) < n")
      case True
      with mq_urgent_ok [OF inv, of sz v k] n sz v obtain mq' old where
        "rt_mq_urgent v sz mq k = mq_notify mq' k" "mq_inv mq'" "mq_items mq' = v # mq_items mq"
        "max_msgs mq' = max_msgs mq" "msg_size mq' = msg_size mq" "suspend_thread mq' = suspend_thread mq"
        by (metis order_refl slot)
      with True sus n sz v t show ?thesis
        by (simp add: Q_Urgent s mq_step_def mq_notify_def mq_calm_def)
    next
      case False
      then show ?thesis
        using full calm sz v by (simp add: Q_Urgent s mq_step_def rt_mq_urgent_def)
    qed
  next
    case Q_Get
    show ?thesis
    proof (cases "mq_items mq")
      case Nil
      then show ?thesis
        using calm mq_empty [OF inv] sz t by (simp add: Q_Get s mq_step_def rt_mq_recv_def)
    next
      case (Cons v vs)
      have e: "mq_entry mq \<noteq> 0"
        using mq_empty [OF inv] Cons by simp
      obtain mq' where "mq_recv_loop t (replicate sz 0) sz 0 mq k = Some (Ipc_Done RT_EOK (Some (take sz v @ drop sz (replicate sz 0))), mq', k)"
        "mq_inv mq'" "mq_items mq' = vs" "length v = sz"
        "max_msgs mq' = max_msgs mq" "msg_size mq' = msg_size mq" "suspend_thread mq' = suspend_thread mq"
        using mq_recv_ok [OF inv Cons sz(2), of "replicate sz 0" sz t 0 k] sz by auto
      with e sus n sz t Cons show ?thesis
        by (simp add: Q_Get s mq_step_def rt_mq_recv_def mq_calm_def)
    qed
  qed
qed

interpretation message_queue: data_refinement mq_step "queue_spec n" "mq_calm n sz" "\<lambda>s. mq_items (fst s)" "fits sz"
  for n sz
  by unfold_locales (rule mq_step_refines)

end
