(* ===== verification/Rt_Mutex.thy ===== *)
theory Rt_Mutex
  imports Rt_Ipc
begin

text \<open>
  The mutex of \<^verbatim>\<open>Kernel/ipc.c\<close> with its priority inheritance: while a thread waits, the owner runs at
  least at that thread's priority. A call that blocks is split at its \<^verbatim>\<open>rt_schedule\<close>.
\<close>

section \<open>Operations\<close>

record rt_mutex = rt_ipc_object +
  mtx_value :: "16 word"
  original_priority :: "8 word"
  hold :: "8 word"
  owner :: "tid option"

abbreviation (input) RT_EINTR :: rt_err_t where "RT_EINTR \<equiv> 9"

definition rt_mutex_init :: "ipc_flag \<Rightarrow> rt_mutex" where
  "rt_mutex_init fl = \<lparr> flag = fl, suspend_thread = [], mtx_value = 1, original_priority = 0xFF, hold = 0,
     owner = None \<rparr>"

definition rt_mutex_detach :: "rt_mutex \<Rightarrow> kernel \<Rightarrow> (rt_err_t \<times> rt_mutex \<times> kernel) option" where
  "rt_mutex_detach mutex k = do {
     (list, k) \<leftarrow> rt_ipc_list_resume_all (suspend_thread mutex) k;
     Some (RT_EOK, mutex\<lparr>suspend_thread := list\<rparr>, k)
   }"

text \<open>The part behind the label \<^verbatim>\<open>__again\<close>.\<close>

definition mutex_take_again ::
  "tid \<Rightarrow> int \<Rightarrow> rt_mutex \<Rightarrow> kernel \<Rightarrow> (unit ipc_result \<times> rt_mutex \<times> kernel) option" where
  "mutex_take_again thread time mutex k =
    (if 0 < mtx_value mutex
     then Some (Ipc_Done RT_EOK None, mutex\<lparr>mtx_value := mtx_value mutex - 1,
       original_priority := current_priority (threads k thread), hold := hold mutex + 1, owner := Some thread\<rparr>, k)
     else if time = 0 then Some (Ipc_Done (- RT_ETIMEOUT) None, mutex, set_error thread (- RT_ETIMEOUT) k)
     else do {
       own \<leftarrow> owner mutex;
       (_, k) \<leftarrow> (if current_priority (threads k thread) < current_priority (threads k own)
         then rt_thread_control_priority own (current_priority (threads k thread)) k
         else Some (RT_EOK, k));
       (list, k) \<leftarrow> ipc_block (suspend_thread mutex) thread (flag mutex) time k;
       Some (Ipc_Wait thread, mutex\<lparr>suspend_thread := list\<rparr>, k)
     })"

definition rt_mutex_take ::
  "int \<Rightarrow> rt_mutex \<Rightarrow> kernel \<Rightarrow> (unit ipc_result \<times> rt_mutex \<times> kernel) option" where
  "rt_mutex_take time mutex k = do {
     thread \<leftarrow> rt_current_thread k;
     rt_assert (rt_interrupt_nest k = 0);
     let k = set_error thread RT_EOK k;
     if owner mutex = Some thread then Some (Ipc_Done RT_EOK None, mutex\<lparr>hold := hold mutex + 1\<rparr>, k)
     else mutex_take_again thread time mutex k
   }"

definition rt_mutex_take_resume ::
  "tid \<Rightarrow> int \<Rightarrow> rt_mutex \<Rightarrow> kernel \<Rightarrow> (unit ipc_result \<times> rt_mutex \<times> kernel) option" where
  "rt_mutex_take_resume thread time mutex k =
    (let e = error (threads k thread) in
     if e = RT_EOK then Some (Ipc_Done RT_EOK None, mutex, k)
     else if e = - RT_EINTR then mutex_take_again thread time mutex k
     else Some (Ipc_Done e None, mutex, k))"

definition rt_mutex_release :: "rt_mutex \<Rightarrow> kernel \<Rightarrow> (rt_err_t \<times> rt_mutex \<times> kernel) option" where
  "rt_mutex_release mutex k = do {
     thread \<leftarrow> rt_current_thread k;
     rt_assert (rt_interrupt_nest k = 0);
     if owner mutex \<noteq> Some thread then Some (- RT_ERROR, mutex, set_error thread (- RT_ERROR) k)
     else do {
       let mutex = mutex\<lparr>hold := hold mutex - 1\<rparr>;
       if hold mutex \<noteq> 0 then Some (RT_EOK, mutex, k)
       else do {
         (_, k) \<leftarrow> (if original_priority mutex \<noteq> current_priority (threads k thread)
           then rt_thread_control_priority thread (original_priority mutex) k
           else Some (RT_EOK, k));
         case suspend_thread mutex of
           t # _ \<Rightarrow> do {
             let mutex = mutex\<lparr>original_priority := current_priority (threads k t), hold := hold mutex + 1,
                   owner := Some t\<rparr>;
             (list, k) \<leftarrow> ipc_wake (suspend_thread mutex) k;
             Some (RT_EOK, mutex\<lparr>suspend_thread := list\<rparr>, k)
           }
         | [] \<Rightarrow> Some (RT_EOK, mutex\<lparr>mtx_value := mtx_value mutex + 1, original_priority := 0xFF,
             owner := None\<rparr>, k)
       }
     }
   }"

definition rt_mutex_control :: "rt_mutex \<Rightarrow> int \<Rightarrow> rt_err_t" where
  "rt_mutex_control mutex cmd = - RT_ERROR"

section \<open>Changing a priority\<close>

lemma insert_thread_stat:
  assumes "rt_current_thread k \<noteq> Some t"
  shows "rt_schedule_insert_thread t (change_priority t p (set_stat t st k)) =
    rt_schedule_insert_thread t (change_priority t p k)"
  using assms by (simp add: rt_schedule_insert_thread_def thread_updates upd_thread_def)

text \<open>A new priority of a thread, with everything else as it was.\<close>

definition reprioritised :: "tid \<Rightarrow> 8 word \<Rightarrow> kernel \<Rightarrow> kernel \<Rightarrow> bool" where
  "reprioritised t p k k' \<longleftrightarrow>
     (\<forall>u. threads k' u = (if u = t then (threads k u)\<lparr>current_priority := p, number_mask := push_bit (unat p) 1\<rparr>
        else threads k u)) \<and>
     rt_current_thread k' = rt_current_thread k \<and> rt_scheduler_lock_nest k' = rt_scheduler_lock_nest k \<and>
     rt_interrupt_nest k' = rt_interrupt_nest k"

lemma ready_inv_change_priority:
  assumes "ready_inv k" "stat (threads k t) \<noteq> RT_THREAD_READY" "unat p < 32"
  shows "ready_inv (change_priority t p k)"
  using assms unfolding ready_inv_def change_priority_def wf_thread_def by auto

lemma control_priority_ok:
  assumes inv: "kinv k" and p: "unat p < 32"
  shows "\<exists>k'. rt_thread_control_priority t p k = Some (RT_EOK, k') \<and> kinv k' \<and> reprioritised t p k k'"
proof (cases "stat (threads k t) = RT_THREAD_READY")
  case False
  have "ready_inv (change_priority t p k)"
    using ready_inv_change_priority inv False p by (simp add: kinv_def)
  then have "kinv (change_priority t p k)"
    using inv by (auto simp: kinv_def change_priority_def split: if_splits)
  then show ?thesis
    using False by (auto simp: rt_thread_control_priority_def reprioritised_def change_priority_def)
next
  case True
  have cur: "rt_current_thread k \<noteq> Some t" and rinv: "ready_inv k"
    using inv True by (auto simp: kinv_def)
  obtain k1 where k1: "rt_schedule_remove_thread t k = Some k1" "ready_inv (set_stat t RT_THREAD_SUSPEND k1)"
    "threads k1 = threads k" "rt_current_thread k1 = rt_current_thread k"
    "rt_interrupt_nest k1 = rt_interrupt_nest k" "rt_scheduler_lock_nest k1 = rt_scheduler_lock_nest k"
    using remove_thread_ready [OF rinv, of t RT_THREAD_SUSPEND] True by (auto simp: live_def)
  let ?k2 = "change_priority t p (set_stat t RT_THREAD_SUSPEND k1)"
  have "ready_inv ?k2"
    using ready_inv_change_priority [OF k1(2) _ p] by (simp add: thread_updates)
  then obtain k' where k': "rt_schedule_insert_thread t ?k2 = Some k'" "ready_inv k'"
    "threads k' = (threads ?k2)(t := (threads ?k2 t)\<lparr>stat := RT_THREAD_READY\<rparr>)"
    "rt_current_thread k' = rt_current_thread ?k2" "rt_interrupt_nest k' = rt_interrupt_nest ?k2"
    "rt_scheduler_lock_nest k' = rt_scheduler_lock_nest ?k2"
    using insert_thread_ready [of ?k2 t] cur k1(4) p by (auto simp: thread_updates wf_thread_def)
  have run: "rt_schedule_insert_thread t (change_priority t p k1) = Some k'"
    using k'(1) insert_thread_stat [of k1 t] cur k1(4) by simp
  have th: "threads k' u = (if u = t then (threads k u)\<lparr>current_priority := p, number_mask := push_bit (unat p) 1\<rparr>
        else threads k u)" for u
    using k'(3) k1(3) True by (simp add: thread_updates)
  have "kinv k'"
    using inv k'(2,4) k1(4) by (auto simp: kinv_def th thread_updates split: if_splits)
  then show ?thesis
    using True k1 k' run by (auto simp: rt_thread_control_priority_def reprioritised_def th thread_updates)
qed

lemma reprioritised_runs: "reprioritised t p k k' \<Longrightarrow> kinv k' \<Longrightarrow> runs c k \<Longrightarrow> runs c k'"
  by (auto simp: runs_def reprioritised_def)

section \<open>Invariant\<close>

abbreviation prio :: "kernel \<Rightarrow> tid \<Rightarrow> 8 word" where "prio k t \<equiv> current_priority (threads k t)"

text \<open>
  A mutex without an owner is free and nobody waits; the owner of one does not wait for it and
  runs at least at the priority of every waiter.
\<close>

definition mutex_inv :: "rt_mutex \<Rightarrow> kernel \<Rightarrow> bool" where
  "mutex_inv m k \<longleftrightarrow> sus_ok k (suspend_thread m) \<and>
     (case owner m of None \<Rightarrow> mtx_value m = 1 \<and> hold m = 0 \<and> suspend_thread m = []
      | Some own \<Rightarrow> mtx_value m = 0 \<and> hold m \<noteq> 0 \<and> unat (original_priority m) < 32 \<and>
          own \<notin> set (suspend_thread m) \<and> (\<forall>w \<in> set (suspend_thread m). prio k own \<le> prio k w)) \<and>
     (flag m = RT_IPC_FLAG_PRIO \<longrightarrow> sorted (map (prio k) (suspend_thread m)))"

lemma mutex_inv_init: "mutex_inv (rt_mutex_init fl) k"
  by (simp add: mutex_inv_def rt_mutex_init_def)

lemma running_prio: "runs t k \<Longrightarrow> unat (prio k t) < 32"
  by (auto simp: runs_def kinv_def ready_inv_def wf_thread_def live_def)

lemma mutex_take_free:
  assumes "runs t k" "rt_interrupt_nest k = 0" "mutex_inv m k" "owner m = None"
  shows "\<exists>m'. rt_mutex_take time m k = Some (Ipc_Done RT_EOK None, m', set_error t RT_EOK k) \<and>
    owner m' = Some t \<and> original_priority m' = prio k t \<and> hold m' = 1 \<and> mutex_inv m' (set_error t RT_EOK k)"
  using assms running_prio [OF assms(1)]
  by (auto simp: rt_mutex_take_def mutex_take_again_def runs_def mutex_inv_def set_error_def Let_def)

lemma mutex_take_again_owner:
  assumes "runs t k" "rt_interrupt_nest k = 0" "mutex_inv m k" "owner m = Some t" "hold m \<noteq> 0xFF"
  shows "\<exists>m'. rt_mutex_take time m k = Some (Ipc_Done RT_EOK None, m', set_error t RT_EOK k) \<and>
    m' = m\<lparr>hold := hold m + 1\<rparr> \<and> mutex_inv m' (set_error t RT_EOK k)"
proof -
  have ff: "(- 1 :: 8 word) = 0xFF"
    by (simp add: minus_1_eq_mask mask_eq_exp_minus_1)
  have "hold m + 1 \<noteq> 0"
  proof
    assume "hold m + 1 = 0"
    then have "hold m = - 1" by (simp only: eq_neg_iff_add_eq_0)
    then show False using assms(5) unfolding ff by simp
  qed
  moreover have "sus_ok (set_error t RT_EOK k) l = sus_ok k l" for l
    by (auto simp: sus_ok_def set_error_def)
  moreover have "prio (set_error t RT_EOK k) w = prio k w" for w
    by (simp add: set_error_def)
  ultimately show ?thesis
    using assms by (simp add: rt_mutex_take_def runs_def mutex_inv_def Let_def)
qed

section \<open>Inheritance and hand-over\<close>

lemma insert_prio_sorted':
  assumes "sorted (map (prio k) list)" "\<And>u. prio k' u = prio k u"
  shows "sorted (map (prio k') (insert_prio k t list))"
proof -
  have "prio k' = prio k" using assms(2) by blast
  then show ?thesis using insert_prio_sorted [OF assms(1)] by simp
qed

text \<open>
  A thread that has to wait gives the owner its priority, if that is higher: the invariant holds
  again with the thread on the list.
\<close>

lemma mutex_take_blocks:
  assumes run: "runs t k" and nest: "rt_interrupt_nest k = 0" and inv: "mutex_inv m k"
    and own: "owner m = Some own" "own \<noteq> t" and ready: "stat (threads k u) = RT_THREAD_READY"
    and time: "time \<noteq> 0"
  shows "\<exists>k' v. rt_mutex_take time m k = Some (Ipc_Wait t, m\<lparr>suspend_thread := sus_insert (flag m) k t (suspend_thread m)\<rparr>, k') \<and>
    runs v k' \<and> mutex_inv (m\<lparr>suspend_thread := sus_insert (flag m) k t (suspend_thread m)\<rparr>) k' \<and>
    prio k' own = min (prio k own) (prio k t) \<and> (\<forall>w. w \<noteq> own \<longrightarrow> prio k' w = prio k w)"
proof -
  let ?k0 = "set_error t RT_EOK k" and ?l = "suspend_thread m"
  have k0: "runs t ?k0" "prio ?k0 w = prio k w" "stat (threads ?k0 w) = stat (threads k w)" for w
    using run by (auto simp: runs_def kinv_upd_thread set_error_def fun_eq_iff)
  have m: "sus_ok k ?l" "mtx_value m = 0" "own \<notin> set ?l" "\<And>w. w \<in> set ?l \<Longrightarrow> prio k own \<le> prio k w"
    "flag m = RT_IPC_FLAG_PRIO \<Longrightarrow> sorted (map (prio k) ?l)"
    using inv own by (simp_all add: mutex_inv_def)
  let ?boost = "prio k t < prio k own"
  obtain k1 where k1: "(if ?boost then rt_thread_control_priority own (prio k t) ?k0 else Some (RT_EOK, ?k0)) = Some (RT_EOK, k1)"
    "runs t k1" "prio k1 own = min (prio k own) (prio k t)" "\<And>w. w \<noteq> own \<Longrightarrow> prio k1 w = prio k w"
    "\<And>w. stat (threads k1 w) = stat (threads k w)"
  proof (cases ?boost)
    case True
    have "kinv ?k0" using k0(1) by (simp add: runs_def)
    then obtain k1 where "rt_thread_control_priority own (prio k t) ?k0 = Some (RT_EOK, k1)" "kinv k1"
      "reprioritised own (prio k t) ?k0 k1"
      using control_priority_ok running_prio [OF run] by blast
    moreover from this have "runs t k1"
      using reprioritised_runs k0(1) by blast
    moreover have "stat (threads k1 w) = stat (threads k w)" for w
      using \<open>reprioritised own (prio k t) ?k0 k1\<close> k0(3) by (auto simp: reprioritised_def)
    moreover have "prio k1 own = min (prio k own) (prio k t)" "w \<noteq> own \<Longrightarrow> prio k1 w = prio k w" for w
      using \<open>reprioritised own (prio k t) ?k0 k1\<close> True k0(2) [of w]
      by (auto simp: reprioritised_def min_def)
    ultimately show ?thesis
      using that [of k1] True by simp
  next
    case False
    then have "min (prio k own) (prio k t) = prio k own"
      by (simp add: min_absorb1)
    then show ?thesis
      using that [of ?k0] k0 False by simp
  qed
  have sus: "sus_ok k1 ?l" "stat (threads k1 u) = RT_THREAD_READY"
    using m(1) k1(5) ready by (simp_all add: sus_ok_def)
  have tl: "t \<notin> set ?l"
    using m(1) run by (auto simp: sus_ok_def runs_def)
  have keep: "prio k1 w = prio k w" if "w \<in> insert t (set ?l)" for w
    using k1(4) m(3) own(2) that by (metis insert_iff)
  have same: "insert_prio k1 t ?l = insert_prio k t ?l"
    by (rule insert_prio_cong) (rule keep)
  then have ins: "sus_insert (flag m) k1 t ?l = sus_insert (flag m) k t ?l"
    by (cases "flag m") (simp_all add: sus_insert_def)
  obtain k' v where k': "ipc_block ?l t (flag m) time k1 = Some (sus_insert (flag m) k t ?l, k')" "runs v k'"
    "keeps {t} k1 k'" "sus_ok k' (sus_insert (flag m) k t ?l)"
    using ipc_block_ok [OF k1(2) sus(1,2), of "flag m" time] unfolding ins by blast
  have prio': "prio k' w = prio k1 w" for w
    using k'(3) by (simp add: keeps_def)
  have "mutex_inv (m\<lparr>suspend_thread := sus_insert (flag m) k t ?l\<rparr>) k'"
  proof -
    have "prio k' own \<le> prio k' w" if "w \<in> insert t (set ?l)" for w
    proof -
      have "w \<noteq> own" using that m(3) own(2) by auto
      then show ?thesis
        using that m(4) k1(3) k1(4) [of w] by (auto simp: prio' min.coboundedI1)
    qed
    moreover have "sorted (map (prio k') (sus_insert (flag m) k t ?l))" if "flag m = RT_IPC_FLAG_PRIO"
    proof -
      have "map (prio k') (insert_prio k t ?l) = map (prio k) (insert_prio k t ?l)"
        using keep by (intro map_cong) (simp_all add: prio')
      then have "sorted (map (prio k') (insert_prio k t ?l))"
        using insert_prio_sorted [OF m(5) [OF that], of t] by (simp only:)
      with that show ?thesis by (simp add: sus_insert_def)
    qed
    ultimately show ?thesis
      using inv own m k'(4) tl by (auto simp: mutex_inv_def)
  qed
  moreover have "rt_mutex_take time m k = Some (Ipc_Wait t, m\<lparr>suspend_thread := sus_insert (flag m) k t ?l\<rparr>, k')"
    using run nest own m(2) time k1(1) k'(1) k0(2)
    by (cases ?boost) (simp_all add: rt_mutex_take_def mutex_take_again_def runs_def Let_def)
  ultimately show ?thesis
    using k'(2) k1(3,4) by (auto simp: prio')
qed

text \<open>
  A last release with waiters: the owner has its own priority again, the first waiter owns the mutex
  and can run. For a list in priority order the invariant holds for the new owner too.
\<close>

lemma mutex_release_hands_over:
  assumes run: "runs c k" and nest: "rt_interrupt_nest k = 0" and inv: "mutex_inv m k"
    and own: "owner m = Some c" "hold m = 1" and sus: "suspend_thread m = t # list"
  shows "\<exists>m' k' v. rt_mutex_release m k = Some (RT_EOK, m', k') \<and> runs v k' \<and>
    owner m' = Some t \<and> hold m' = 1 \<and> original_priority m' = prio k t \<and> suspend_thread m' = list \<and> flag m' = flag m \<and>
    prio k' c = original_priority m \<and> (\<forall>w. w \<noteq> c \<longrightarrow> prio k' w = prio k w) \<and>
    error (threads k' t) = error (threads k t) \<and> (stat (threads k' t) = RT_THREAD_READY \<or> v = t) \<and>
    (flag m = RT_IPC_FLAG_PRIO \<longrightarrow> mutex_inv m' k')"
proof -
  have m: "sus_ok k (t # list)" "mtx_value m = 0" "c \<notin> set (t # list)" "unat (original_priority m) < 32"
    "flag m = RT_IPC_FLAG_PRIO \<Longrightarrow> sorted (map (prio k) (t # list))"
    using inv own sus by (simp_all add: mutex_inv_def)
  have "kinv k" using run by (simp add: runs_def)
  then obtain k1 where k1: "(if original_priority m \<noteq> prio k c then rt_thread_control_priority c (original_priority m) k
      else Some (RT_EOK, k)) = Some (RT_EOK, k1)" "runs c k1"
    "prio k1 c = original_priority m" "\<And>w. w \<noteq> c \<Longrightarrow> threads k1 w = threads k w"
  proof (cases "original_priority m = prio k c")
    case False
    obtain k1 where "rt_thread_control_priority c (original_priority m) k = Some (RT_EOK, k1)" "kinv k1"
      "reprioritised c (original_priority m) k k1"
      using control_priority_ok [OF \<open>kinv k\<close> m(4)] by blast
    moreover from this have "runs c k1"
      using reprioritised_runs run by blast
    ultimately show ?thesis
      using that [of k1] False by (simp add: reprioritised_def)
  qed (use run in auto)
  have th: "w \<in> set (t # list) \<Longrightarrow> threads k1 w = threads k w" for w
    using k1(4) m(3) by metis
  then have "sus_ok k1 (t # list)"
    using m(1) by (auto simp: sus_ok_def)
  then obtain k' v where k': "ipc_wake (t # list) k1 = Some (list, k')" "runs v k'" "keeps {t} k1 k'"
    "sus_ok k' list" "stat (threads k' t) = RT_THREAD_READY \<or> v = t"
    using ipc_wake_ok [OF k1(2)] by blast
  have prio': "prio k' w = (if w = c then original_priority m else prio k w)" for w
    using k'(3) k1(3,4) by (simp add: keeps_def)
  let ?m' = "m\<lparr>original_priority := prio k t, hold := 1, owner := Some t, suspend_thread := list\<rparr>"
  have rel: "rt_mutex_release m k = Some (RT_EOK, ?m', k')"
    using run nest own sus k1(1) th [of t] k'(1)
    by (cases "original_priority m = prio k c") (simp_all add: rt_mutex_release_def runs_def)
  have t32: "unat (prio k t) < 32"
    using m(1) \<open>kinv k\<close> by (auto simp: sus_ok_def kinv_def ready_inv_def wf_thread_def live_def)
  have "mutex_inv ?m' k'" if p: "flag m = RT_IPC_FLAG_PRIO"
  proof -
    have "map (prio k') (t # list) = map (prio k) (t # list)"
      using m(3) by (intro map_cong) (auto simp: prio')
    then have "sorted (map (prio k') (t # list))"
      using m(5) [OF p] by (simp only:)
    then show ?thesis
      using k'(4) m(1,2) t32 by (auto simp: mutex_inv_def sus_ok_def)
  qed
  moreover have "error (threads k' t) = error (threads k t)"
    using k'(3) th [of t] by (simp add: keeps_def)
  ultimately show ?thesis
    using rel k'(2,5) by (intro exI [of _ ?m'] exI [of _ k'] exI [of _ v]) (auto simp: prio')
qed

text \<open>
  With a list in arrival order the new owner may run below a thread that still waits: its priority
  is not raised at the hand-over.
\<close>

lemma mutex_fifo_inversion:
  assumes run: "runs c k" and nest: "rt_interrupt_nest k = 0" and inv: "mutex_inv m k"
    and own: "owner m = Some c" "hold m = 1" and sus: "suspend_thread m = t # list"
    and w: "w \<in> set list" "prio k w < prio k t"
  shows "\<exists>m' k' v. rt_mutex_release m k = Some (RT_EOK, m', k') \<and> runs v k' \<and> owner m' = Some t \<and>
    w \<in> set (suspend_thread m') \<and> prio k' w < prio k' t"
proof -
  have "c \<noteq> t" "c \<noteq> w"
    using inv own sus w by (auto simp: mutex_inv_def)
  with mutex_release_hands_over [OF run nest inv own sus] w show ?thesis
    by metis
qed

lemma mutex_release_free:
  assumes run: "runs c k" and nest: "rt_interrupt_nest k = 0" and inv: "mutex_inv m k"
    and own: "owner m = Some c" "hold m = 1" and sus: "suspend_thread m = []"
  shows "\<exists>m' k'. rt_mutex_release m k = Some (RT_EOK, m', k') \<and> runs c k' \<and> owner m' = None \<and>
    mutex_inv m' k' \<and> prio k' c = original_priority m"
proof -
  have m: "mtx_value m = 0" "unat (original_priority m) < 32" and "kinv k"
    using inv own run by (simp_all add: mutex_inv_def runs_def)
  then obtain k1 where k1: "rt_thread_control_priority c (original_priority m) k = Some (RT_EOK, k1)" "kinv k1"
    "reprioritised c (original_priority m) k k1"
    using control_priority_ok by blast
  then have "runs c k1" "prio k1 c = original_priority m"
    using reprioritised_runs [OF k1(3,2) run] by (auto simp: reprioritised_def)
  with run nest own sus k1 m show ?thesis
    by (cases "original_priority m = prio k c")
      (auto simp: rt_mutex_release_def runs_def mutex_inv_def)
qed

text \<open>Only the owner can release.\<close>

lemma mutex_release_other:
  assumes "runs c k" "rt_interrupt_nest k = 0" "owner m \<noteq> Some c"
  shows "rt_mutex_release m k = Some (- RT_ERROR, m, set_error c (- RT_ERROR) k)"
  using assms by (simp add: rt_mutex_release_def runs_def)

text \<open>
  A wait that a signal interrupts is tried again without clearing the error of the thread. When the
  mutex is then handed to it, it takes the old error for another interruption and waits for the
  mutex it owns.
\<close>

lemma mutex_interrupted_waits_for_itself:
  assumes run: "runs t k" and own: "owner m = Some t" "mtx_value m = 0" and sus: "sus_ok k (suspend_thread m)"
    and intr: "error (threads k t) = - RT_EINTR" and time: "time \<noteq> 0"
    and ready: "stat (threads k u) = RT_THREAD_READY"
  shows "\<exists>m' k'. rt_mutex_take_resume t time m k = Some (Ipc_Wait t, m', k') \<and>
    owner m' = Some t \<and> t \<in> set (suspend_thread m')"
proof -
  obtain k' where "ipc_block (suspend_thread m) t (flag m) time k = Some (sus_insert (flag m) k t (suspend_thread m), k')"
    using ipc_block_ok [OF run sus ready] by blast
  with own intr time show ?thesis
    by (simp add: rt_mutex_take_resume_def mutex_take_again_def)
qed

end
