(* ===== verification/Rt_Clock.thy ===== *)
theory Rt_Clock
  imports Prelude
begin

text \<open>
  Milliseconds and ticks, \<^verbatim>\<open>Kernel/clock.c\<close>: the configuration has 100 ticks a second.
\<close>

text \<open>\<^verbatim>\<open>rt_tick_from_millisecond\<close>; the product must fit an \<^verbatim>\<open>int\<close>.\<close>

definition rt_tick_from_millisecond :: "int \<Rightarrow> int option" where
  "rt_tick_from_millisecond ms =
    (if ms < 0 then Some (- 1)
     else if 100 * ms + 999 < 2 ^ 31 then Some ((100 * ms + 999) div 1000)
     else None)"

end
