(* ===== verification/Rt_Timer.thy ===== *)
theory Rt_Timer
  imports Rt_Clock Rt_Kernel
begin

text \<open>
  The timers of \<^verbatim>\<open>Kernel/timer.c\<close> and the tick of \<^verbatim>\<open>Kernel/clock.c\<close>, in the configuration of \<^verbatim>\<open>rtconfig.h\<close>:
  one skip list level, that is one list in the order of the timeouts, and no soft timers. Ticks
  count modulo \<open>2 ^ 32\<close>. The counter \<^verbatim>\<open>random_nr\<close>, which only chooses a level, is left out.

  A timer is a number. What the callbacks work on is the part \<open>world\<close> of the state.
\<close>

section \<open>Operations\<close>

record rt_timer =
  timer_flag :: "8 word"
  init_tick :: "32 word"
  timeout_tick :: "32 word"

record 'w timer_system =
  timer_of :: "nat \<Rightarrow> rt_timer"
  rt_timer_list :: "nat list"
  rt_tick :: "32 word"
  world :: 'w

definition RT_TIMER_FLAG_ACTIVATED :: "8 word" where "RT_TIMER_FLAG_ACTIVATED = 1"
definition RT_TIMER_FLAG_PERIODIC :: "8 word" where "RT_TIMER_FLAG_PERIODIC = 2"
definition RT_TICK_MAX :: "32 word" where "RT_TICK_MAX = 0xFFFFFFFF"

definition upd_timer :: "nat \<Rightarrow> (rt_timer \<Rightarrow> rt_timer) \<Rightarrow> 'w timer_system \<Rightarrow> 'w timer_system" where
  "upd_timer t f s = s\<lparr>timer_of := (timer_of s)(t := f (timer_of s t))\<rparr>"

definition set_active :: "nat \<Rightarrow> 'w timer_system \<Rightarrow> 'w timer_system" where
  "set_active t = upd_timer t (\<lambda>tm. tm\<lparr>timer_flag := timer_flag tm OR RT_TIMER_FLAG_ACTIVATED\<rparr>)"

definition clear_active :: "nat \<Rightarrow> 'w timer_system \<Rightarrow> 'w timer_system" where
  "clear_active t = upd_timer t (\<lambda>tm. tm\<lparr>timer_flag := timer_flag tm AND NOT RT_TIMER_FLAG_ACTIVATED\<rparr>)"

definition rt_timer_init :: "nat \<Rightarrow> 32 word \<Rightarrow> 8 word \<Rightarrow> 'w timer_system \<Rightarrow> 'w timer_system" where
  "rt_timer_init t time fl = upd_timer t (\<lambda>_. \<lparr> timer_flag = fl AND NOT RT_TIMER_FLAG_ACTIVATED,
     init_tick = time, timeout_tick = 0 \<rparr>)"

definition timer_remove :: "nat \<Rightarrow> 'w timer_system \<Rightarrow> 'w timer_system" where
  "timer_remove t s = s\<lparr>rt_timer_list := remove1 t (rt_timer_list s)\<rparr>"

definition rt_timer_detach :: "nat \<Rightarrow> 'w timer_system \<Rightarrow> rt_err_t \<times> 'w timer_system" where
  "rt_timer_detach t s = (RT_EOK, timer_remove t s)"

text \<open>The place of a timer with timeout \<open>new\<close>: behind the timers that time out before it or together with it.\<close>

fun timer_insert :: "(nat \<Rightarrow> rt_timer) \<Rightarrow> nat \<Rightarrow> nat list \<Rightarrow> nat list" where
  "timer_insert tms t [] = [t]"
| "timer_insert tms t (p # ps) =
    (let d = timeout_tick (tms p) - timeout_tick (tms t) in
     if d = 0 then p # timer_insert tms t ps
     else if d < RT_TICK_MAX div 2 then t # p # ps
     else p # timer_insert tms t ps)"

definition rt_timer_start :: "nat \<Rightarrow> 'w timer_system \<Rightarrow> (rt_err_t \<times> 'w timer_system) option" where
  "rt_timer_start t s = do {
     let s = clear_active t (timer_remove t s);
     rt_assert (init_tick (timer_of s t) < RT_TICK_MAX div 2);
     let s = upd_timer t (\<lambda>tm. tm\<lparr>timeout_tick := rt_tick s + init_tick tm\<rparr>) s;
     let s = s\<lparr>rt_timer_list := timer_insert (timer_of s) t (rt_timer_list s)\<rparr>;
     Some (RT_EOK, set_active t s)
   }"

definition rt_timer_stop :: "nat \<Rightarrow> 'w timer_system \<Rightarrow> rt_err_t \<times> 'w timer_system" where
  "rt_timer_stop t s =
    (if timer_flag (timer_of s t) AND RT_TIMER_FLAG_ACTIVATED = 0 then (- RT_ERROR, s)
     else (RT_EOK, clear_active t (timer_remove t s)))"

datatype timer_cmd = RT_TIMER_CTRL_SET_TIME "32 word" | RT_TIMER_CTRL_GET_TIME
  | RT_TIMER_CTRL_SET_ONESHOT | RT_TIMER_CTRL_SET_PERIODIC

definition rt_timer_control ::
  "nat \<Rightarrow> timer_cmd \<Rightarrow> 'w timer_system \<Rightarrow> rt_err_t \<times> 32 word option \<times> 'w timer_system" where
  "rt_timer_control t cmd s = (case cmd of
     RT_TIMER_CTRL_GET_TIME \<Rightarrow> (RT_EOK, Some (init_tick (timer_of s t)), s)
   | RT_TIMER_CTRL_SET_TIME time \<Rightarrow> (RT_EOK, None, upd_timer t (\<lambda>tm. tm\<lparr>init_tick := time\<rparr>) s)
   | RT_TIMER_CTRL_SET_ONESHOT \<Rightarrow> (RT_EOK, None,
       upd_timer t (\<lambda>tm. tm\<lparr>timer_flag := timer_flag tm AND NOT RT_TIMER_FLAG_PERIODIC\<rparr>) s)
   | RT_TIMER_CTRL_SET_PERIODIC \<Rightarrow> (RT_EOK, None,
       upd_timer t (\<lambda>tm. tm\<lparr>timer_flag := timer_flag tm OR RT_TIMER_FLAG_PERIODIC\<rparr>) s))"

text \<open>
  The loop of the check; \<open>cb\<close> runs the callback of a timer. It does not end while a timer that is
  due can be found.
\<close>

partial_function (option) timer_check_loop ::
  "(nat \<Rightarrow> 'w timer_system \<Rightarrow> 'w timer_system option) \<Rightarrow> 32 word \<Rightarrow> 'w timer_system \<Rightarrow> 'w timer_system option" where
  "timer_check_loop cb current_tick s =
    (case rt_timer_list s of
       [] \<Rightarrow> Some s
     | t # _ \<Rightarrow>
         if current_tick - timeout_tick (timer_of s t) < RT_TICK_MAX div 2
         then do {
           s \<leftarrow> cb t (timer_remove t s);
           let fl = timer_flag (timer_of s t);
           s \<leftarrow> (if fl AND RT_TIMER_FLAG_PERIODIC \<noteq> 0 \<and> fl AND RT_TIMER_FLAG_ACTIVATED \<noteq> 0
                then map_option snd (rt_timer_start t (clear_active t s))
                else Some (clear_active t s));
           timer_check_loop cb (rt_tick s) s
         }
         else Some s)"

definition rt_timer_check ::
  "(nat \<Rightarrow> 'w timer_system \<Rightarrow> 'w timer_system option) \<Rightarrow> 'w timer_system \<Rightarrow> 'w timer_system option" where
  "rt_timer_check cb s = timer_check_loop cb (rt_tick s) s"

definition rt_timer_next_timeout_tick :: "'w timer_system \<Rightarrow> 32 word" where
  "rt_timer_next_timeout_tick s =
    (case rt_timer_list s of [] \<Rightarrow> RT_TICK_MAX | t # _ \<Rightarrow> timeout_tick (timer_of s t))"

text \<open>\<^verbatim>\<open>rt_tick_increase\<close> without the time slice of the current thread.\<close>

definition tick_timers ::
  "(nat \<Rightarrow> 'w timer_system \<Rightarrow> 'w timer_system option) \<Rightarrow> 'w timer_system \<Rightarrow> 'w timer_system option" where
  "tick_timers cb s = rt_timer_check cb (s\<lparr>rt_tick := rt_tick s + 1\<rparr>)"

fun ticks :: "(nat \<Rightarrow> 'w timer_system \<Rightarrow> 'w timer_system option) \<Rightarrow> nat \<Rightarrow> 'w timer_system \<Rightarrow> 'w timer_system option" where
  "ticks cb 0 s = Some s"
| "ticks cb (Suc n) s = do { s \<leftarrow> tick_timers cb s; ticks cb n s }"

section \<open>Time that is left\<close>

abbreviation half :: nat where "half \<equiv> 0x7FFFFFFF"

definition left :: "'w timer_system \<Rightarrow> nat \<Rightarrow> nat" where
  "left s t = unat (timeout_tick (timer_of s t) - rt_tick s)"

definition active :: "'w timer_system \<Rightarrow> nat \<Rightarrow> bool" where
  "active s t \<longleftrightarrow> timer_flag (timer_of s t) AND RT_TIMER_FLAG_ACTIVATED \<noteq> 0"

definition periodic :: "'w timer_system \<Rightarrow> nat \<Rightarrow> bool" where
  "periodic s t \<longleftrightarrow> timer_flag (timer_of s t) AND RT_TIMER_FLAG_PERIODIC \<noteq> 0"

lemma half_word: "(d :: 32 word) < RT_TICK_MAX div 2 \<longleftrightarrow> unat d < half"
  by (simp add: RT_TICK_MAX_def word_less_nat_alt unat_div)

lemma diff_shift: "(a :: 32 word) - b = (a - now) - (b - now)"
  by simp

lemma unat_diff32:
  "unat ((x :: 32 word) - y) = (if unat y \<le> unat x then unat x - unat y else unat x + 2 ^ 32 - unat y)"
  using unat_sub_if' [of x y] by (simp add: word_le_nat_alt)

lemma unat32_lt: "unat (w :: 32 word) < 2 ^ 32"
  using unsigned_less [of w, where 'a = nat] by simp

lemma after_test:
  assumes "unat ((a :: 32 word) - now) < half" "unat (b - now) < half"
  shows "a - b = 0 \<longleftrightarrow> unat (a - now) = unat (b - now)"
    and "a - b < RT_TICK_MAX div 2 \<longleftrightarrow> unat (b - now) \<le> unat (a - now)"
proof -
  have "a - b = 0 \<longleftrightarrow> a - now = b - now" by simp
  then show "a - b = 0 \<longleftrightarrow> unat (a - now) = unat (b - now)"
    by (simp only: word_unat_eq_iff)
  show "a - b < RT_TICK_MAX div 2 \<longleftrightarrow> unat (b - now) \<le> unat (a - now)"
    unfolding half_word diff_shift [of a b now] unat_diff32 [of "a - now"] using assms by auto
qed

lemma due_test:
  assumes "unat ((a :: 32 word) - now) < half"
  shows "now - a < RT_TICK_MAX div 2 \<longleftrightarrow> unat (a - now) = 0"
  unfolding half_word using assms unat_diff32 [of 0 "a - now"] by auto

definition place :: "(nat \<Rightarrow> nat) \<Rightarrow> nat \<Rightarrow> nat list \<Rightarrow> nat list" where
  "place r t ps = takeWhile (\<lambda>p. r p \<le> r t) ps @ t # dropWhile (\<lambda>p. r p \<le> r t) ps"

lemma place_simps [simp]:
  "place r t [] = [t]"
  "place r t (p # ps) = (if r p \<le> r t then p # place r t ps else t # p # ps)"
  by (simp_all add: place_def)

lemma set_place [simp]: "set (place r t ps) = insert t (set ps)"
  by (induction ps) auto

lemma distinct_place [simp]: "distinct (place r t ps) \<longleftrightarrow> t \<notin> set ps \<and> distinct ps"
  by (induction ps) auto

lemma sorted_place: "sorted (map r ps) \<Longrightarrow> sorted (map r (place r t ps))"
  by (induction ps) auto

lemma due_place: "0 < r t \<Longrightarrow> takeWhile (\<lambda>p. r p = 0) (place r t ps) = takeWhile (\<lambda>p. r p = 0) ps"
  by (induction ps) auto

lemma timer_insert_place:
  assumes "\<And>p. p \<in> insert t (set ps) \<Longrightarrow> unat (timeout_tick (tms p) - now) < half"
  shows "timer_insert tms t ps = place (\<lambda>p. unat (timeout_tick (tms p) - now)) t ps"
  using assms
proof (induction ps)
  case (Cons p ps)
  have b: "unat (timeout_tick (tms p) - now) < half" "unat (timeout_tick (tms t) - now) < half"
    using Cons.prems by auto
  have IH: "timer_insert tms t ps = place (\<lambda>p. unat (timeout_tick (tms p) - now)) t ps"
    by (rule Cons.IH) (use Cons.prems in auto)
  show ?case
    unfolding timer_insert.simps Let_def after_test(1) [OF b] after_test(2) [OF b] place_simps(2) IH by auto
qed simp

section \<open>Invariant\<close>

text \<open>
  The list is in the order of the time left, which is less than half the range; the listed timers are
  active, and a periodic one has a period of at least one tick.
\<close>

definition timers_inv :: "'w timer_system \<Rightarrow> bool" where
  "timers_inv s \<longleftrightarrow> distinct (rt_timer_list s) \<and> sorted (map (left s) (rt_timer_list s)) \<and>
     (\<forall>t \<in> set (rt_timer_list s). left s t < half \<and> active s t \<and>
        (periodic s t \<longrightarrow> 0 < unat (init_tick (timer_of s t)) \<and> unat (init_tick (timer_of s t)) < half))"

lemma upd_timer_simps [simp]:
  "timer_of (upd_timer t f s) u = (if u = t then f (timer_of s t) else timer_of s u)"
  "rt_timer_list (upd_timer t f s) = rt_timer_list s" "rt_tick (upd_timer t f s) = rt_tick s"
  "world (upd_timer t f s) = world s"
  by (simp_all add: upd_timer_def)

lemma flag_bits [simp]:
  "(fl AND NOT RT_TIMER_FLAG_ACTIVATED) AND RT_TIMER_FLAG_PERIODIC = fl AND RT_TIMER_FLAG_PERIODIC"
  "(fl OR RT_TIMER_FLAG_ACTIVATED) AND RT_TIMER_FLAG_PERIODIC = fl AND RT_TIMER_FLAG_PERIODIC"
  "(fl OR RT_TIMER_FLAG_ACTIVATED) AND RT_TIMER_FLAG_ACTIVATED = RT_TIMER_FLAG_ACTIVATED"
proof -
  have two: "bit (2 :: 8 word) n \<longleftrightarrow> n = 1" for n
    using bit_push_bit_iff [of 1 "1 :: 8 word" n] by (auto simp: bit_simps)
  show "(fl AND NOT RT_TIMER_FLAG_ACTIVATED) AND RT_TIMER_FLAG_PERIODIC = fl AND RT_TIMER_FLAG_PERIODIC"
    "(fl OR RT_TIMER_FLAG_ACTIVATED) AND RT_TIMER_FLAG_PERIODIC = fl AND RT_TIMER_FLAG_PERIODIC"
    "(fl OR RT_TIMER_FLAG_ACTIVATED) AND RT_TIMER_FLAG_ACTIVATED = RT_TIMER_FLAG_ACTIVATED"
    by (rule bit_word_eqI; auto simp: RT_TIMER_FLAG_ACTIVATED_def RT_TIMER_FLAG_PERIODIC_def two bit_simps)+
qed

lemma timer_insert_cong:
  assumes "\<And>p. timeout_tick (tms p) = timeout_tick (tms' p)"
  shows "timer_insert tms t ps = timer_insert tms' t ps"
  using assms by (induction ps) (simp_all add: Let_def)

text \<open>Starting a timer: it is on the list with its whole time left, and no other timer has changed.\<close>

lemma rt_timer_start_ok:
  assumes inv: "timers_inv s" and d: "d = unat (init_tick (timer_of s t))" "d < half" "periodic s t \<Longrightarrow> 0 < d"
  shows "\<exists>s'. rt_timer_start t s = Some (RT_EOK, s') \<and> timers_inv s' \<and>
    rt_timer_list s' = place (left s') t (remove1 t (rt_timer_list s)) \<and>
    left s' t = d \<and> (\<forall>u. u \<noteq> t \<longrightarrow> timer_of s' u = timer_of s u) \<and>
    init_tick (timer_of s' t) = init_tick (timer_of s t) \<and> (\<forall>u. periodic s' u = periodic s u) \<and>
    rt_tick s' = rt_tick s \<and> world s' = world s"
proof -
  define tm where "tm = (timer_of s t)\<lparr>timeout_tick := rt_tick s + init_tick (timer_of s t),
    timer_flag := timer_flag (timer_of s t) AND NOT RT_TIMER_FLAG_ACTIVATED OR RT_TIMER_FLAG_ACTIVATED\<rparr>"
  define l where "l = remove1 t (rt_timer_list s)"
  define tms where "tms = (timer_of s)(t := tm)"
  have b: "unat (timeout_tick (tms p) - rt_tick s) < half" if "p \<in> insert t (set l)" for p
    using that inv d by (auto simp: tms_def tm_def l_def timers_inv_def left_def)
  define l' where "l' = place (\<lambda>p. unat (timeout_tick (tms p) - rt_tick s)) t l"
  define s' where "s' = s\<lparr>rt_timer_list := l', timer_of := tms\<rparr>"
  have ins: "timer_insert ((timer_of s)(t := (timer_of s t)\<lparr>timer_flag := timer_flag (timer_of s t) AND NOT RT_TIMER_FLAG_ACTIVATED,
      timeout_tick := rt_tick s + init_tick (timer_of s t)\<rparr>)) t l = l'"
  proof -
    have "timer_insert ((timer_of s)(t := (timer_of s t)\<lparr>timer_flag := timer_flag (timer_of s t) AND NOT RT_TIMER_FLAG_ACTIVATED,
      timeout_tick := rt_tick s + init_tick (timer_of s t)\<rparr>)) t l =
        timer_insert tms t l"
      by (rule timer_insert_cong) (simp add: tms_def tm_def)
    also have "\<dots> = l'"
      unfolding l'_def by (rule timer_insert_place) (rule b)
    finally show ?thesis .
  qed
  have "rt_timer_start t s = Some (RT_EOK, s')"
    using d(2) ins unfolding rt_timer_start_def
    by (simp add: Let_def half_word d(1) clear_active_def set_active_def timer_remove_def upd_timer_def s'_def tms_def tm_def l_def)
  moreover have left': "left s' u = (if u = t then d else left s u)" for u
    by (simp add: left_def s'_def tms_def tm_def d(1))
  moreover have per: "periodic s' u = periodic s u" "u \<noteq> t \<Longrightarrow> active s' u = active s u" "active s' t" for u
    by (simp_all add: periodic_def active_def s'_def tms_def tm_def)
      (simp add: RT_TIMER_FLAG_ACTIVATED_def)
  moreover have l': "l' = place (left s') t l"
    by (simp add: l'_def s'_def left_def [abs_def])
  moreover have fields: "rt_timer_list s' = l'" "init_tick (timer_of s' u) = init_tick (timer_of s u)" for u
    by (simp_all add: s'_def tms_def tm_def)
  moreover have "timers_inv s'"
  proof -
    have "sorted (map (left s) l)" "distinct l" "t \<notin> set l"
      using inv by (auto simp: timers_inv_def l_def sorted_map_remove1)
    moreover from this have "map (left s') l = map (left s) l"
      by (auto simp: left')
    then have "sorted (map (left s') l)"
      using \<open>sorted (map (left s) l)\<close> by (simp only:)
    ultimately have "sorted (map (left s') l')" "distinct l'"
      using sorted_place [of "left s'" l t] by (simp_all only: l' distinct_place simp_thms)
    moreover have "left s' u < half \<and> active s' u \<and>
        (periodic s' u \<longrightarrow> 0 < unat (init_tick (timer_of s' u)) \<and> unat (init_tick (timer_of s' u)) < half)"
      if u: "u \<in> set l'" for u
    proof (cases "u = t")
      case True
      then show ?thesis
        using d per left' [of t] fields(2) [of t] by simp
    next
      case False
      then have "u \<in> set (rt_timer_list s)"
        using u set_remove1_subset [of t] by (auto simp: l' l_def)
      then show ?thesis
        using False inv per(1,2) [of u] left' [of u] fields(2) [of u] by (simp add: timers_inv_def)
    qed
    ultimately show ?thesis
      by (simp add: timers_inv_def fields(1))
  qed
  moreover have "rt_timer_list s' = place (left s') t (remove1 t (rt_timer_list s))"
    using fields(1) l' by (simp only: l_def)
  moreover have "\<forall>u. u \<noteq> t \<longrightarrow> timer_of s' u = timer_of s u" "rt_tick s' = rt_tick s" "world s' = world s"
    by (simp_all add: s'_def tms_def)
  moreover have "left s' t = d"
    using left' [of t] by simp
  ultimately show ?thesis
    by blast
qed

section \<open>One tick\<close>

text \<open>Callbacks that do not work on timers: \<open>f t\<close> is what the callback of \<open>t\<close> does to the rest.\<close>

definition quiet :: "(nat \<Rightarrow> 'w \<Rightarrow> 'w) \<Rightarrow> nat \<Rightarrow> 'w timer_system \<Rightarrow> 'w timer_system option" where
  "quiet f t s = Some (s\<lparr>world := f t (world s)\<rparr>)"

lemma left_world [simp]: "left (s\<lparr>world := w\<rparr>) = left s"
  by (simp add: left_def fun_eq_iff)

lemma left_list [simp]: "left (s\<lparr>rt_timer_list := l\<rparr>) = left s"
  by (simp add: left_def fun_eq_iff)

lemma timers_inv_world [simp]: "timers_inv (s\<lparr>world := w\<rparr>) = timers_inv s"
  by (simp add: timers_inv_def periodic_def active_def)

lemma left_upd_flag:
  "(\<And>tm. timeout_tick (f tm) = timeout_tick tm) \<Longrightarrow> left (upd_timer t f s) = left s"
  by (simp add: left_def fun_eq_iff)

lemma timers_inv_clear:
  assumes "timers_inv s" "t \<notin> set (rt_timer_list s)"
  shows "timers_inv (clear_active t s)"
proof -
  have "left (clear_active t s) = left s"
    unfolding clear_active_def by (rule left_upd_flag) simp
  moreover have "u \<noteq> t \<Longrightarrow> active (clear_active t s) u = active s u" "periodic (clear_active t s) u = periodic s u" for u
    by (simp_all add: clear_active_def active_def periodic_def)
  ultimately show ?thesis
    using assms by (auto simp: timers_inv_def clear_active_def)
qed

lemma timers_inv_remove: "timers_inv s \<Longrightarrow> timers_inv (timer_remove t s)"
  by (auto simp: timers_inv_def timer_remove_def active_def periodic_def sorted_map_remove1
      dest: set_remove1_subset [THEN subsetD])

text \<open>What a firing of timer \<open>t\<close>, the head of the list, does.\<close>

lemma timer_fires:
  assumes inv: "timers_inv s" and head: "rt_timer_list s = t # ps" and due: "left s t = 0"
  shows "\<exists>s'. timer_check_loop (quiet f) (rt_tick s) s = timer_check_loop (quiet f) (rt_tick s') s' \<and>
    timers_inv s' \<and> rt_tick s' = rt_tick s \<and> world s' = f t (world s) \<and>
    rt_timer_list s' = (if periodic s t then place (left s') t ps else ps) \<and>
    (\<forall>u. periodic s' u = periodic s u \<and> init_tick (timer_of s' u) = init_tick (timer_of s u) \<and>
      left s' u = (if u = t \<and> periodic s t then unat (init_tick (timer_of s t)) else left s u))"
proof -
  let ?s1 = "(timer_remove t s)\<lparr>world := f t (world s)\<rparr>"
  have t: "t \<notin> set ps" "active s t"
    using inv head by (simp_all add: timers_inv_def)
  have inv1: "timers_inv (clear_active t ?s1)"
    using timers_inv_remove [OF inv, of t] head t by (intro timers_inv_clear) (simp_all add: timer_remove_def)
  have due': "rt_tick s - timeout_tick (timer_of s t) < RT_TICK_MAX div 2"
    using due_test [of "timeout_tick (timer_of s t)" "rt_tick s"] due by (simp add: left_def)
  have same: "timer_of ?s1 = timer_of s" "world (timer_remove t s) = world s"
    by (simp_all add: timer_remove_def)
  show ?thesis
  proof (cases "periodic s t")
    case True
    then have d: "unat (init_tick (timer_of s t)) < half" "0 < unat (init_tick (timer_of s t))"
      using inv head by (auto simp: timers_inv_def)
    have init: "init_tick (timer_of (clear_active t ?s1) u) = init_tick (timer_of s u)"
      "periodic (clear_active t ?s1) u = periodic s u" "timeout_tick (timer_of (clear_active t ?s1) u) = timeout_tick (timer_of s u)" for u
      by (simp_all add: clear_active_def same periodic_def)
    have lst: "rt_timer_list (clear_active t ?s1) = ps" "rt_tick (clear_active t ?s1) = rt_tick s"
      "world (clear_active t ?s1) = f t (world s)"
      using head by (simp_all add: clear_active_def timer_remove_def)
    obtain s' where s': "rt_timer_start t (clear_active t ?s1) = Some (RT_EOK, s')" "timers_inv s'"
      "rt_timer_list s' = place (left s') t ps" "left s' t = unat (init_tick (timer_of s t))"
      "\<And>u. u \<noteq> t \<Longrightarrow> timer_of s' u = timer_of (clear_active t ?s1) u"
      "init_tick (timer_of s' t) = init_tick (timer_of s t)" "\<And>u. periodic s' u = periodic s u"
      "rt_tick s' = rt_tick s" "world s' = f t (world s)"
      using rt_timer_start_ok [OF inv1, of "unat (init_tick (timer_of s t))" t] d t lst
      by (auto simp: init remove1_idem)
    have "left s' u = left s u" if "u \<noteq> t" for u
      using s'(5) [OF that] s'(8) init(3) by (simp add: left_def)
    moreover have "init_tick (timer_of s' u) = init_tick (timer_of s u)" for u
      using s'(5) [of u] s'(6) init(1) by (cases "u = t") simp_all
    moreover have "timer_check_loop (quiet f) (rt_tick s) s = timer_check_loop (quiet f) (rt_tick s') s'"
      using due' True t(2) s'(1)
      by (subst timer_check_loop.simps) (simp add: head quiet_def same periodic_def active_def Let_def)
    ultimately show ?thesis
      using s' True by (intro exI [of _ s']) simp
  next
    case False
    let ?s' = "clear_active t ?s1"
    have "timer_check_loop (quiet f) (rt_tick s) s = timer_check_loop (quiet f) (rt_tick ?s') ?s'"
      using due' False
      by (subst timer_check_loop.simps) (simp add: head quiet_def same periodic_def Let_def)
    then show ?thesis
      using inv1 False head by (intro exI [of _ ?s'])
        (simp add: clear_active_def timer_remove_def periodic_def left_def)
  qed
qed

lemma timer_check_loop_ok:
  assumes "timers_inv s" "due = takeWhile (\<lambda>t. left s t = 0) (rt_timer_list s)"
  shows "\<exists>s'. timer_check_loop (quiet f) (rt_tick s) s = Some s' \<and> timers_inv s' \<and> rt_tick s' = rt_tick s \<and>
    world s' = fold f due (world s) \<and>
    set (rt_timer_list s') = {t \<in> set (rt_timer_list s). left s t = 0 \<longrightarrow> periodic s t} \<and>
    (\<forall>u. periodic s' u = periodic s u \<and> init_tick (timer_of s' u) = init_tick (timer_of s u)) \<and>
    (\<forall>u \<in> set (rt_timer_list s'). 0 < left s' u \<and>
      left s' u = (if left s u = 0 then unat (init_tick (timer_of s u)) else left s u))"
  using assms
proof (induction due arbitrary: s)
  case Nil
  show ?case
  proof (cases "rt_timer_list s")
    case Nil
    then show ?thesis
      using Nil.prems(1) by (subst timer_check_loop.simps) simp
  next
    case (Cons t ps)
    then have pos: "0 < left s t" "left s t < half"
      using Nil.prems by (auto simp: timers_inv_def split: if_splits)
    moreover have "\<forall>u \<in> set (rt_timer_list s). 0 < left s u"
      using pos(1) Nil.prems(1) Cons by (auto simp: timers_inv_def)
    ultimately show ?thesis
      using Nil.prems(1) Cons due_test [of "timeout_tick (timer_of s t)" "rt_tick s"]
      by (subst timer_check_loop.simps) (auto simp: left_def)
  qed
next
  case (Cons t due)
  then obtain ps where ps: "rt_timer_list s = t # ps" "left s t = 0" "due = takeWhile (\<lambda>t. left s t = 0) ps"
    by (cases "rt_timer_list s") (auto split: if_splits)
  obtain s1 where s1: "timer_check_loop (quiet f) (rt_tick s) s = timer_check_loop (quiet f) (rt_tick s1) s1"
    "timers_inv s1" "rt_tick s1 = rt_tick s" "world s1 = f t (world s)"
    "rt_timer_list s1 = (if periodic s t then place (left s1) t ps else ps)"
    and all1: "\<And>u. periodic s1 u = periodic s u" "\<And>u. init_tick (timer_of s1 u) = init_tick (timer_of s u)"
      "\<And>u. left s1 u = (if u = t \<and> periodic s t then unat (init_tick (timer_of s t)) else left s u)"
    using timer_fires [OF Cons.prems(1) ps(1,2), of f] by blast
  have pinit: "0 < unat (init_tick (timer_of s u))" if "u \<in> set (rt_timer_list s)" "periodic s u" for u
    using that Cons.prems(1) by (simp add: timers_inv_def)
  have sub: "set (rt_timer_list s1) \<subseteq> set (rt_timer_list s)"
    using s1(5) ps(1) by auto
  have t: "t \<notin> set ps" "periodic s t \<Longrightarrow> 0 < unat (init_tick (timer_of s t))"
    using Cons.prems(1) ps(1) pinit [of t] by (auto simp: timers_inv_def)
  have "takeWhile (\<lambda>t. left s1 t = 0) ps = takeWhile (\<lambda>t. left s t = 0) ps"
    using t(1) by (intro takeWhile_cong) (auto simp: all1)
  then have "due = takeWhile (\<lambda>t. left s1 t = 0) (rt_timer_list s1)"
    using s1(5) t(2) ps(3) due_place [of "left s1" t ps] all1(3) [of t] by auto
  from Cons.IH [OF s1(2) this] obtain s' where s': "timer_check_loop (quiet f) (rt_tick s1) s1 = Some s'"
    "timers_inv s'" "rt_tick s' = rt_tick s1" "world s' = fold f due (world s1)"
    "set (rt_timer_list s') = {t \<in> set (rt_timer_list s1). left s1 t = 0 \<longrightarrow> periodic s1 t}"
    "\<And>u. periodic s' u = periodic s1 u" "\<And>u. init_tick (timer_of s' u) = init_tick (timer_of s1 u)"
    "\<And>u. u \<in> set (rt_timer_list s') \<Longrightarrow> 0 < left s' u \<and>
      left s' u = (if left s1 u = 0 then unat (init_tick (timer_of s1 u)) else left s1 u)"
    by blast
  have "set (rt_timer_list s') = {t \<in> set (rt_timer_list s). left s t = 0 \<longrightarrow> periodic s t}"
    using s'(5) s1(5) ps(1,2) t by (auto simp: all1)
  moreover have "\<forall>u \<in> set (rt_timer_list s'). 0 < left s' u \<and>
      left s' u = (if left s u = 0 then unat (init_tick (timer_of s u)) else left s u)"
  proof
    fix u assume u: "u \<in> set (rt_timer_list s')"
    then have "u \<in> set (rt_timer_list s1)" "left s1 u = 0 \<longrightarrow> periodic s1 u"
      using s'(5) by auto
    then show "0 < left s' u \<and> left s' u = (if left s u = 0 then unat (init_tick (timer_of s u)) else left s u)"
      using s'(8) [OF u] all1 [of u] ps(2) t(2) pinit [of u] sub by (cases "u = t \<and> periodic s t") auto
  qed
  moreover have "\<forall>u. periodic s' u = periodic s u \<and> init_tick (timer_of s' u) = init_tick (timer_of s u)"
    using s'(6,7) all1(1,2) by simp
  moreover have "timer_check_loop (quiet f) (rt_tick s) s = Some s'" "rt_tick s' = rt_tick s"
    "world s' = fold f (t # due) (world s)"
    using s1(1,3,4) s'(1,3,4) by simp_all
  ultimately show ?case
    using s'(2) by blast
qed

lemma takeWhile_least:
  "sorted (map r l) \<Longrightarrow> \<forall>t \<in> set l. (m :: nat) \<le> r t \<Longrightarrow> set (takeWhile (\<lambda>t. r t = m) l) = {t \<in> set l. r t = m}"
  by (induction l) auto

text \<open>
  After the check of a tick every listed timer has time left. One tick later exactly the timers
  with one tick left fire, in the order of the list.
\<close>

definition waiting :: "'w timer_system \<Rightarrow> bool" where
  "waiting s \<longleftrightarrow> timers_inv s \<and> (\<forall>t \<in> set (rt_timer_list s). 0 < left s t)"

lemma tick_timers_ok:
  assumes "waiting s"
  shows "\<exists>s' due. tick_timers (quiet f) s = Some s' \<and> waiting s' \<and> rt_tick s' = rt_tick s + 1 \<and>
    world s' = fold f due (world s) \<and> due = takeWhile (\<lambda>t. left s t = 1) (rt_timer_list s) \<and>
    set due = {t \<in> set (rt_timer_list s). left s t = 1} \<and>
    set (rt_timer_list s') = {t \<in> set (rt_timer_list s). left s t = 1 \<longrightarrow> periodic s t} \<and>
    (\<forall>u. periodic s' u = periodic s u \<and> init_tick (timer_of s' u) = init_tick (timer_of s u)) \<and>
    (\<forall>u \<in> set (rt_timer_list s'). left s' u = (if left s u = 1 then unat (init_tick (timer_of s u)) else left s u - 1))"
proof -
  let ?s = "s\<lparr>rt_tick := rt_tick s + 1\<rparr>"
  have step: "left ?s t = left s t - 1" if "0 < left s t" for t
  proof -
    let ?d = "timeout_tick (timer_of s t) - rt_tick s"
    have "?d \<noteq> 0" using that by (simp add: left_def unat_gt_0)
    then have "unat (?d - 1) = unat ?d - 1" by (simp add: unat_minus_one)
    then show ?thesis by (simp add: left_def algebra_simps)
  qed
  have pos: "\<And>t. t \<in> set (rt_timer_list s) \<Longrightarrow> 0 < left s t" and inv: "timers_inv s"
    using assms by (simp_all add: waiting_def)
  have sorted: "sorted (map (left ?s) (rt_timer_list s))"
    using inv pos by (auto simp: timers_inv_def step sorted_map sorted_wrt_map intro: diff_le_mono
        elim!: sorted_wrt_mono_rel [rotated])
  have inv': "timers_inv ?s"
    using inv pos sorted by (auto simp: timers_inv_def step active_def periodic_def intro: less_imp_diff_less)
  have due: "takeWhile (\<lambda>t. left ?s t = 0) (rt_timer_list ?s) = takeWhile (\<lambda>t. left s t = 1) (rt_timer_list s)"
    using pos by (intro takeWhile_cong) (auto simp: step dest: pos)
  have sdue: "set (takeWhile (\<lambda>t. left s t = 1) (rt_timer_list s)) = {t \<in> set (rt_timer_list s). left s t = 1}"
  proof -
    have "\<forall>t \<in> set (rt_timer_list s). 1 \<le> left s t"
      using pos by (simp add: Suc_le_eq)
    then show ?thesis
      using inv takeWhile_least [of "left s" "rt_timer_list s" 1] by (simp add: timers_inv_def)
  qed
  obtain s' where s': "timer_check_loop (quiet f) (rt_tick ?s) ?s = Some s'" "timers_inv s'" "rt_tick s' = rt_tick ?s"
    "world s' = fold f (takeWhile (\<lambda>t. left ?s t = 0) (rt_timer_list ?s)) (world ?s)"
    "set (rt_timer_list s') = {t \<in> set (rt_timer_list ?s). left ?s t = 0 \<longrightarrow> periodic ?s t}"
    "\<And>u. periodic s' u = periodic ?s u" "\<And>u. init_tick (timer_of s' u) = init_tick (timer_of ?s u)"
    "\<And>u. u \<in> set (rt_timer_list s') \<Longrightarrow> 0 < left s' u \<and>
      left s' u = (if left ?s u = 0 then unat (init_tick (timer_of ?s u)) else left ?s u)"
    using timer_check_loop_ok [OF inv' refl, of f] by blast
  have per: "periodic ?s u = periodic s u" for u by (simp add: periodic_def)
  have "set (rt_timer_list s') = {t \<in> set (rt_timer_list s). left s t = 1 \<longrightarrow> periodic s t}"
    using s'(5) pos by (auto simp: step per dest: pos)
  moreover have "\<forall>u \<in> set (rt_timer_list s'). left s' u = (if left s u = 1 then unat (init_tick (timer_of s u)) else left s u - 1)"
    using s'(5,8) pos by (auto simp: step dest: pos)
  moreover have "waiting s'"
    using s'(2) conjunct1 [OF s'(8)] by (simp only: waiting_def) blast
  moreover have "tick_timers (quiet f) s = Some s'"
    using s'(1) by (simp add: tick_timers_def rt_timer_check_def)
  moreover have "rt_tick s' = rt_tick s + 1" "world s' = fold f (takeWhile (\<lambda>t. left s t = 1) (rt_timer_list s)) (world s)"
    using s'(3,4) due by simp_all
  moreover have "\<forall>u. periodic s' u = periodic s u \<and> init_tick (timer_of s' u) = init_tick (timer_of s u)"
    using s'(6,7) per by simp
  ultimately show ?thesis
    using sdue by blast
qed

section \<open>A timer fires when its time is over\<close>

text \<open>Callbacks that only write down which timer fired.\<close>

definition fire_log :: "nat \<Rightarrow> nat list \<Rightarrow> nat list" where
  "fire_log t w = w @ [t]"

lemma fold_fire_log [simp]: "fold fire_log due w = w @ due"
  by (induction due arbitrary: w) (simp_all add: fire_log_def)

lemma ticks_before:
  assumes "waiting s" "t \<in> set (rt_timer_list s)" "n < left s t"
  shows "\<exists>s' fs. ticks (quiet fire_log) n s = Some s' \<and> waiting s' \<and> t \<in> set (rt_timer_list s') \<and>
    left s' t = left s t - n \<and> world s' = world s @ fs \<and> t \<notin> set fs \<and>
    periodic s' t = periodic s t \<and> init_tick (timer_of s' t) = init_tick (timer_of s t)"
  using assms
proof (induction n arbitrary: s)
  case 0
  then show ?case by simp
next
  case (Suc n)
  obtain s1 where s1: "tick_timers (quiet fire_log) s = Some s1" "waiting s1"
    "world s1 = world s @ takeWhile (\<lambda>t. left s t = 1) (rt_timer_list s)"
    "set (takeWhile (\<lambda>t. left s t = 1) (rt_timer_list s)) = {t \<in> set (rt_timer_list s). left s t = 1}"
    "set (rt_timer_list s1) = {t \<in> set (rt_timer_list s). left s t = 1 \<longrightarrow> periodic s t}"
    "\<forall>u. periodic s1 u = periodic s u \<and> init_tick (timer_of s1 u) = init_tick (timer_of s u)"
    "\<forall>u \<in> set (rt_timer_list s1). left s1 u = (if left s u = 1 then unat (init_tick (timer_of s u)) else left s u - 1)"
    using tick_timers_ok [OF Suc.prems(1), of fire_log] by auto
  have t: "t \<in> set (rt_timer_list s1)" "left s1 t = left s t - 1" "n < left s1 t"
    using s1(5,7) Suc.prems by auto
  obtain s' fs where "ticks (quiet fire_log) n s1 = Some s'" "waiting s'" "t \<in> set (rt_timer_list s')"
    "left s' t = left s1 t - n" "world s' = world s1 @ fs" "t \<notin> set fs" "periodic s' t = periodic s1 t"
    "init_tick (timer_of s' t) = init_tick (timer_of s1 t)"
    using Suc.IH [OF s1(2) t(1,3)] by blast
  with s1 t Suc.prems(3) show ?case
    by (intro exI [of _ s'] exI [of _ "takeWhile (\<lambda>t. left s t = 1) (rt_timer_list s) @ fs"]) auto
qed

text \<open>
  Started at any time among any other timers, a timer with \<open>d\<close> ticks does not fire in the next
  \<open>d - 1\<close> ticks and fires in the one after; then a periodic timer has \<open>d\<close> ticks again.
\<close>

lemma timer_fires_in_time:
  assumes wait: "waiting s" and d: "d = unat (init_tick (timer_of s t))" "0 < d" "d < half"
  shows "\<exists>s0 s1 s2 fs gs. rt_timer_start t s = Some (RT_EOK, s0) \<and> ticks (quiet fire_log) (d - 1) s0 = Some s1 \<and>
    world s1 = world s @ fs \<and> t \<notin> set fs \<and> tick_timers (quiet fire_log) s1 = Some s2 \<and>
    world s2 = world s1 @ gs \<and> t \<in> set gs \<and> waiting s2 \<and>
    (t \<in> set (rt_timer_list s2) \<longleftrightarrow> periodic s t) \<and> (periodic s t \<longrightarrow> left s2 t = d)"
proof -
  have inv: "timers_inv s" and pos: "\<And>u. u \<in> set (rt_timer_list s) \<Longrightarrow> 0 < left s u"
    using wait by (simp_all add: waiting_def)
  obtain s0 where s0: "rt_timer_start t s = Some (RT_EOK, s0)" "timers_inv s0"
    "rt_timer_list s0 = place (left s0) t (remove1 t (rt_timer_list s))" "left s0 t = d"
    "\<And>u. u \<noteq> t \<Longrightarrow> timer_of s0 u = timer_of s u" "init_tick (timer_of s0 t) = init_tick (timer_of s t)"
    "\<And>u. periodic s0 u = periodic s u" "rt_tick s0 = rt_tick s" "world s0 = world s"
    using rt_timer_start_ok [OF inv d(1,3,2)] by blast
  have "0 < left s0 u" if u: "u \<in> set (rt_timer_list s0)" for u
  proof (cases "u = t")
    case False
    then have "u \<in> set (rt_timer_list s)"
      using u s0(3) set_remove1_subset [of t] by auto
    then show ?thesis
      using pos [of u] s0(5) [OF False] s0(8) by (simp add: left_def)
  qed (use s0(4) d in simp)
  then have w0: "waiting s0" "t \<in> set (rt_timer_list s0)"
    using s0(2,3) by (simp_all add: waiting_def)
  obtain s1 fs where s1: "ticks (quiet fire_log) (d - 1) s0 = Some s1" "waiting s1" "t \<in> set (rt_timer_list s1)"
    "left s1 t = left s0 t - (d - 1)" "world s1 = world s0 @ fs" "t \<notin> set fs" "periodic s1 t = periodic s0 t"
    "init_tick (timer_of s1 t) = init_tick (timer_of s0 t)"
    using ticks_before [OF w0, of "d - 1"] s0(4) d(2) by auto
  then have "left s1 t = 1" using s0(4) d(2) by simp
  moreover obtain s2 where "tick_timers (quiet fire_log) s1 = Some s2" "waiting s2"
    "world s2 = world s1 @ takeWhile (\<lambda>t. left s1 t = 1) (rt_timer_list s1)"
    "set (takeWhile (\<lambda>t. left s1 t = 1) (rt_timer_list s1)) = {t \<in> set (rt_timer_list s1). left s1 t = 1}"
    "set (rt_timer_list s2) = {t \<in> set (rt_timer_list s1). left s1 t = 1 \<longrightarrow> periodic s1 t}"
    "\<forall>u \<in> set (rt_timer_list s2). left s2 u = (if left s1 u = 1 then unat (init_tick (timer_of s1 u)) else left s1 u - 1)"
    using tick_timers_ok [OF s1(2), of fire_log] by auto
  ultimately show ?thesis
    using s0 s1 d(1) by (intro exI [of _ s0] exI [of _ s1] exI [of _ s2] exI [of _ fs]
      exI [of _ "takeWhile (\<lambda>t. left s1 t = 1) (rt_timer_list s1)"]) auto
qed

section \<open>A period of zero\<close>

text \<open>The check of a periodic timer with no period starts it again for the same tick, for ever.\<close>

definition stuck :: "nat \<Rightarrow> 'w timer_system \<Rightarrow> bool" where
  "stuck t s \<longleftrightarrow> rt_timer_list s = [t] \<and> active s t \<and> periodic s t \<and> init_tick (timer_of s t) = 0 \<and>
     rt_tick s - timeout_tick (timer_of s t) < RT_TICK_MAX div 2"

lemma stuck_again:
  assumes "stuck t s"
  shows "\<exists>s'. map_option snd (rt_timer_start t (clear_active t ((timer_remove t s)\<lparr>world := w\<rparr>))) = Some s' \<and>
    stuck t s' \<and> rt_tick s' = rt_tick s"
proof -
  have "(0 :: 32 word) < RT_TICK_MAX div 2" and one: "RT_TIMER_FLAG_ACTIVATED \<noteq> 0"
    by (simp_all add: half_word RT_TIMER_FLAG_ACTIVATED_def)
  then show ?thesis
    using assms unfolding stuck_def rt_timer_start_def
    by (auto simp: clear_active_def set_active_def timer_remove_def active_def periodic_def Let_def
        intro!: exI)
qed

lemma timer_check_loop_stuck:
  assumes "timer_check_loop cb c s = Some s'" "cb = quiet f" "stuck t s" "c = rt_tick s"
  shows False
  using assms
proof (induct cb c s s' rule: timer_check_loop.raw_induct [rotated, consumes 1])
  case (1 loop cb c s s')
  note IH = 1(1) and run = 1(2) and st = 1(3-5)
  let ?s1 = "(timer_remove t s)\<lparr>world := f t (world s)\<rparr>"
  obtain s2 where s2: "map_option snd (rt_timer_start t (clear_active t ?s1)) = Some s2" "stuck t s2" "rt_tick s2 = rt_tick s"
    using stuck_again [OF st(2)] by blast
  have w: "world (timer_remove t s) = world s" "timer_of (timer_remove t s) = timer_of s"
    by (simp_all add: timer_remove_def)
  have "loop cb (rt_tick s2) s2 = Some s'"
    using run st s2(1) by (auto simp: stuck_def quiet_def Let_def active_def periodic_def w)
  then show False
    using IH st(1) s2(2) by blast
qed

lemma zero_period_never_returns:
  assumes "rt_timer_list s = []" "periodic s t" "init_tick (timer_of s t) = 0"
  shows "\<exists>s'. rt_timer_start t s = Some (RT_EOK, s') \<and> tick_timers (quiet f) s' = None"
proof -
  have one: "(1 :: 32 word) < RT_TICK_MAX div 2" "RT_TIMER_FLAG_ACTIVATED \<noteq> 0" "(0 :: 32 word) < RT_TICK_MAX div 2"
    by (simp_all add: half_word RT_TIMER_FLAG_ACTIVATED_def)
  obtain s' where s': "rt_timer_start t s = Some (RT_EOK, s')" "stuck t (s'\<lparr>rt_tick := rt_tick s' + 1\<rparr>)"
    using assms one unfolding rt_timer_start_def stuck_def
    by (auto simp: clear_active_def set_active_def timer_remove_def active_def periodic_def Let_def)
  have "tick_timers (quiet f) s' = None"
  proof (cases "tick_timers (quiet f) s'")
    case (Some s2)
    then show ?thesis
      using timer_check_loop_stuck [OF _ refl s'(2)] by (auto simp: tick_timers_def rt_timer_check_def)
  qed
  with s'(1) show ?thesis by blast
qed

end
