(* ===== verification/Ipc_Props.thy ===== *)
theory Ipc_Props
  imports Kernel_Examples Rt_Mailbox Rt_Mq Rt_Mutex Rt_Timer
begin

text \<open>
  The properties of mailboxes, message queues, mutexes and timers, each with a concrete instance.
\<close>

section \<open>Mailbox\<close>


definition ex_mailbox :: rt_mailbox where
  "ex_mailbox = rt_mb_init [0, 0] 2 RT_IPC_FLAG_FIFO"

lemma ex_mailbox_simps [simp]:
  "mb_entry ex_mailbox = 0" "mb_size ex_mailbox = 2" "suspend_thread ex_mailbox = []"
  "suspend_sender_thread ex_mailbox = []" "mb_items ex_mailbox = []" "mb_inv ex_mailbox"
  using mb_inv_init [of "[0, 0]" 2 RT_IPC_FLAG_FIFO]
  by (simp_all add: ex_mailbox_def rt_mb_init_def mb_items_def)


text \<open>
  A value sent to an empty mailbox with waiting receivers goes to the first of them: that thread
  can run, its call returns success and the value, and the others keep waiting.
\<close>

theorem mailbox_hands_over:
  assumes "runs c k" "mb_inv mb" "mb_entry mb = 0" "mb_size mb \<noteq> 0"
    and "suspend_thread mb = t # list" "sus_ok k (t # list)" "suspend_sender_thread mb = []"
    and "error (threads k t) = RT_EOK"
  shows "\<exists>mb' k' v mb''. rt_mb_send value mb k = Some (Ipc_Done RT_EOK None, mb', k') \<and> runs v k' \<and>
    suspend_thread mb' = list \<and> sus_ok k' list \<and> (stat (threads k' t) = RT_THREAD_READY \<or> v = t) \<and>
    rt_mb_recv_resume t timeout delta mb' k' = Some (Ipc_Done RT_EOK (Some value), mb'', k') \<and>
    mb_items mb'' = []"
  using assms by (rule mb_send_delivers)

lemma ex_waiting_runs: "runs 0 ex_waiting"
  using ex_waiting_kinv ex_waiting_simps by (simp add: runs_def)

theorem mailbox_hands_over_witness:
  "\<exists>mb' k' mb''. rt_mb_send 42 (ex_mailbox\<lparr>suspend_thread := [1]\<rparr>) ex_waiting = Some (Ipc_Done RT_EOK None, mb', k') \<and>
    rt_mb_recv_resume 1 (- 1) 0 mb' k' = Some (Ipc_Done RT_EOK (Some 42), mb'', k')"
proof -
  have "mb_inv (ex_mailbox\<lparr>suspend_thread := [1]\<rparr>)" "sus_ok ex_waiting [1]"
    using ex_mailbox_simps(6) ex_waiting_simps by (simp_all add: mb_inv_def sus_ok_def)
  from mailbox_hands_over [OF ex_waiting_runs this(1) _ _ _ this(2), of 42 "- 1" 0] show ?thesis
    using ex_waiting_simps by auto
qed

section \<open>Message queue\<close>



section \<open>Mutex\<close>

text \<open>
  C17: Priority inheritance. A thread that has to wait for a mutex is queued, and from then on the
  owner runs at least at its priority; nobody else's priority changes.
\<close>

theorem mutex_inherits_priority:
  assumes "runs t k" "rt_interrupt_nest k = 0" "mutex_inv m k"
    and "owner m = Some own" "own \<noteq> t" "stat (threads k u) = RT_THREAD_READY" "time \<noteq> 0"
  shows "\<exists>k' v. rt_mutex_take time m k = Some (Ipc_Wait t, m\<lparr>suspend_thread := sus_insert (flag m) k t (suspend_thread m)\<rparr>, k') \<and>
    runs v k' \<and> mutex_inv (m\<lparr>suspend_thread := sus_insert (flag m) k t (suspend_thread m)\<rparr>) k' \<and>
    prio k' own = min (prio k own) (prio k t) \<and> (\<forall>w. w \<noteq> own \<longrightarrow> prio k' w = prio k w)"
  using assms by (rule mutex_take_blocks)

text \<open>A kernel in which thread 3, of priority 20, is ready while thread 0 of priority 10 runs.\<close>

definition ex_low :: kernel where
  "ex_low = (upd_thread 3 (\<lambda>th. th\<lparr>stat := RT_THREAD_READY, current_priority := 20,
      number_mask := 2 ^ 20\<rparr>) ex_kernel)
    \<lparr>rt_thread_priority_table := (replicate 32 [])[20 := [3]], rt_thread_ready_priority_group := 2 ^ 20\<rparr>"

lemma ex_low_runs: "runs 0 ex_low"
proof -
  have "bit (2 ^ 20 :: 32 word) p \<longleftrightarrow> p = 20" for p
    by (rule bit_mask_prio(2)) simp
  then show ?thesis
    by (auto simp: runs_def kinv_def ready_inv_def ex_low_def ex_kernel_def upd_thread_def live_def
        wf_thread_def nth_list_update simp del: power_numeral)
qed

lemma ex_low_simps:
  "rt_interrupt_nest ex_low = 0" "stat (threads ex_low 3) = RT_THREAD_READY" "prio ex_low 0 = 10"
  "prio ex_low 3 = 20"
  by (simp_all add: ex_low_def ex_kernel_def upd_thread_def)

definition ex_mutex :: rt_mutex where
  "ex_mutex = \<lparr> flag = RT_IPC_FLAG_PRIO, suspend_thread = [], mtx_value = 0, original_priority = 20, hold = 1,
     owner = Some 3 \<rparr>"

theorem mutex_inherits_priority_witness:
  "\<exists>k'. rt_mutex_take (- 1) ex_mutex ex_low = Some (Ipc_Wait 0, ex_mutex\<lparr>suspend_thread := [0]\<rparr>, k') \<and>
    prio k' 3 = 10"
proof -
  have "mutex_inv ex_mutex ex_low" by (simp add: mutex_inv_def ex_mutex_def)
  from mutex_inherits_priority [OF ex_low_runs ex_low_simps(1) this _ _ ex_low_simps(2), of 3 "- 1"]
  obtain k' where "rt_mutex_take (- 1) ex_mutex ex_low =
      Some (Ipc_Wait 0, ex_mutex\<lparr>suspend_thread := sus_insert (flag ex_mutex) ex_low 0 (suspend_thread ex_mutex)\<rparr>, k')"
    "prio k' 3 = min (prio ex_low 3) (prio ex_low 0)"
    by (auto simp: ex_mutex_def)
  then show ?thesis
    by (simp add: ex_low_simps ex_mutex_def sus_insert_def)
qed

text \<open>
  The last release gives the owner its own priority back and the mutex to the first waiter; with
  waiters in priority order the owner again runs at least at the priority of all of them.
\<close>

theorem mutex_release_passes_on:
  assumes "runs c k" "rt_interrupt_nest k = 0" "mutex_inv m k"
    and "owner m = Some c" "hold m = 1" "suspend_thread m = t # list"
  shows "\<exists>m' k' v. rt_mutex_release m k = Some (RT_EOK, m', k') \<and> runs v k' \<and>
    owner m' = Some t \<and> hold m' = 1 \<and> original_priority m' = prio k t \<and> suspend_thread m' = list \<and> flag m' = flag m \<and>
    prio k' c = original_priority m \<and> (\<forall>w. w \<noteq> c \<longrightarrow> prio k' w = prio k w) \<and>
    error (threads k' t) = error (threads k t) \<and> (stat (threads k' t) = RT_THREAD_READY \<or> v = t) \<and>
    (flag m = RT_IPC_FLAG_PRIO \<longrightarrow> mutex_inv m' k')"
  using assms by (rule mutex_release_hands_over)

definition ex_mutex_held :: "tid list \<Rightarrow> ipc_flag \<Rightarrow> rt_mutex" where
  "ex_mutex_held ts fl = \<lparr> flag = fl, suspend_thread = ts, mtx_value = 0, original_priority = 15, hold = 1,
     owner = Some 0 \<rparr>"

theorem mutex_release_passes_on_witness:
  "\<exists>m' k'. rt_mutex_release (ex_mutex_held [1] RT_IPC_FLAG_PRIO) ex_waiting = Some (RT_EOK, m', k') \<and>
    owner m' = Some 1 \<and> prio k' 0 = 15 \<and> mutex_inv m' k'"
proof -
  have "mutex_inv (ex_mutex_held [1] RT_IPC_FLAG_PRIO) ex_waiting"
    by (simp add: mutex_inv_def ex_mutex_held_def sus_ok_def ex_waiting_def ex_kernel_def upd_thread_def)
  from mutex_release_passes_on [OF ex_waiting_runs _ this, of 1 "[]"] show ?thesis
    using ex_waiting_simps by (auto simp: ex_mutex_held_def ex_waiting_def ex_kernel_def upd_thread_def)
qed

text \<open>
  C34: A mutex created with the FIFO flag loses the inheritance at the hand-over: when the first waiter
  has a lower priority than one behind it, it becomes the owner and keeps its own priority
  while the more urgent thread waits for it.
\<close>

theorem fifo_mutex_inverts_priority:
  assumes "runs c k" "rt_interrupt_nest k = 0" "mutex_inv m k"
    and "owner m = Some c" "hold m = 1" "suspend_thread m = t # list"
    and "w \<in> set list" "prio k w < prio k t"
  shows "\<exists>m' k' v. rt_mutex_release m k = Some (RT_EOK, m', k') \<and> runs v k' \<and> owner m' = Some t \<and>
    w \<in> set (suspend_thread m') \<and> prio k' w < prio k' t"
  using assms by (rule mutex_fifo_inversion)

text \<open>Thread 1 of priority 20 and thread 2 of priority 10 wait, in this order, while thread 0 runs.\<close>

definition ex_two_waiting :: kernel where
  "ex_two_waiting = upd_thread 2 (\<lambda>th. th\<lparr>stat := RT_THREAD_SUSPEND\<rparr>)
     (upd_thread 1 (\<lambda>th. th\<lparr>stat := RT_THREAD_SUSPEND, current_priority := 20, number_mask := 2 ^ 20\<rparr>) ex_kernel)"

lemma ex_two_waiting_runs: "runs 0 ex_two_waiting"
  by (auto simp: runs_def kinv_def ready_inv_def ex_two_waiting_def ex_kernel_def upd_thread_def live_def
      wf_thread_def nth_append simp del: power_numeral)

theorem fifo_mutex_inverts_priority_witness:
  "\<exists>m' k'. rt_mutex_release (ex_mutex_held [1, 2] RT_IPC_FLAG_FIFO) ex_two_waiting = Some (RT_EOK, m', k') \<and>
    owner m' = Some 1 \<and> 2 \<in> set (suspend_thread m') \<and> prio k' 2 < prio k' 1"
proof -
  have "mutex_inv (ex_mutex_held [1, 2] RT_IPC_FLAG_FIFO) ex_two_waiting"
    by (simp add: mutex_inv_def ex_mutex_held_def sus_ok_def ex_two_waiting_def ex_kernel_def upd_thread_def)
  from fifo_mutex_inverts_priority [OF ex_two_waiting_runs _ this, of 1 "[2]" 2] show ?thesis
    by (auto simp: ex_mutex_held_def ex_two_waiting_def ex_kernel_def upd_thread_def)
qed

section \<open>Timers\<close>


text \<open>No timer is started; timer 0 is periodic with five ticks, timer 1 with none.\<close>

definition ex_timers :: "nat list timer_system" where
  "ex_timers = \<lparr> timer_of = (\<lambda>t. \<lparr> timer_flag = 2, init_tick = (if t = 0 then 5 else 0), timeout_tick = 0 \<rparr>),
     rt_timer_list = [], rt_tick = 0xFFFFFFFE, world = [] \<rparr>"


text \<open>
  C35: Nothing forbids a periodic timer with no ticks; the tick after its start never returns from
  the check of the timers.
\<close>

theorem zero_period_hangs:
  assumes "rt_timer_list s = []" "periodic s t" "init_tick (timer_of s t) = 0"
  shows "\<exists>s'. rt_timer_start t s = Some (RT_EOK, s') \<and> tick_timers (quiet f) s' = None"
  using assms by (rule zero_period_never_returns)

theorem zero_period_hangs_witness:
  "\<exists>s'. rt_timer_start 1 ex_timers = Some (RT_EOK, s') \<and> tick_timers (quiet fire_log) s' = None"
  by (rule zero_period_hangs) (simp_all add: ex_timers_def periodic_def RT_TIMER_FLAG_PERIODIC_def)

end
