(* ===== verification/Register_Props.thy ===== *)
theory Register_Props
  imports Examples
begin

text \<open>
  The properties of bit access, register callbacks and slave identification, each with a concrete
  instance.
\<close>

section \<open>Properties of the register access\<close>

text \<open>
  \<^verbatim>\<open>xMBUtilSetBits\<close> stays inside the buffer, keeps its length and writes the field; the
  bits below the field are kept, and the bits above it are joined with the bits of the
  value that lie beyond the field.
\<close>

theorem set_bits_effect:
  assumes "ucNBits \<le> 8" "unat off div 8 + 1 < length buf" "k < 8 * length buf"
  shows "\<exists>buf'. xMBUtilSetBits buf 0 off ucNBits v = Some buf' \<and> length buf' = length buf \<and>
    bit_at buf' k =
      (if unat off \<le> k \<and> k < unat off + unat ucNBits then bit v (k - unat off)
       else if unat off + unat ucNBits \<le> k then bit_at buf k \<or> bit v (k - unat off)
       else bit_at buf k)"
proof -
  have ok: "0 + unat off div 8 + 1 < length buf"
    using assms(2) by simp
  then obtain buf' where "xMBUtilSetBits buf 0 off ucNBits v = Some buf'"
    using xMBUtilSetBits_eq [OF assms(1) ok] by blast
  then show ?thesis
    using xMBUtilSetBits_bits [OF assms(1) ok _ assms(3)] by auto
qed

theorem set_bits_effect_witness:
  "\<exists>buf'. xMBUtilSetBits [0, 0, 0] 0 4 8 0xFF = Some buf' \<and> bit_at buf' 4 \<and> bit_at buf' 11 \<and> \<not> bit_at buf' 3"
proof -
  have e: "\<exists>buf'. xMBUtilSetBits [0, 0, 0] 0 4 8 0xFF = Some buf' \<and> length buf' = length [0, 0, 0 :: UCHAR] \<and>
    bit_at buf' k =
      (if unat (4 :: USHORT) \<le> k \<and> k < unat (4 :: USHORT) + unat (8 :: UCHAR) then bit (0xFF :: UCHAR) (k - unat (4 :: USHORT))
       else if unat (4 :: USHORT) + unat (8 :: UCHAR) \<le> k then bit_at [0, 0, 0] k \<or> bit (0xFF :: UCHAR) (k - unat (4 :: USHORT))
       else bit_at [0, 0, 0] k)" if "k < 24" for k
    using set_bits_effect [of 8 4 "[0, 0, 0]" k "0xFF"] that by simp
  show ?thesis
    using e [of 3] e [of 4] e [of 11] by (auto simp: bit_at_def)
qed

text \<open>
  \<^verbatim>\<open>xMBUtilGetBits\<close> reads exactly the field: the requested bits at the bottom of the
  result and zeros above them.
\<close>

theorem get_bits_effect:
  assumes "ucNBits \<le> 8" "unat off div 8 + 1 < length buf"
  shows "\<exists>r. xMBUtilGetBits buf 0 off ucNBits = Some r \<and>
    (\<forall>j. bit r j \<longleftrightarrow> j < unat ucNBits \<and> bit_at buf (unat off + j))"
  using xMBUtilGetBits_bits [of ucNBits 0 off buf] assms by auto

theorem get_bits_effect_witness:
  "\<exists>r. xMBUtilGetBits [0xF0, 0x0F] 0 4 8 = Some r \<and> bit r 7"
  using get_bits_effect [of 8 4 "[0xF0, 0x0F]"] by (auto simp: bit_at_def)

text \<open>
  C33: The slave's coil callback accepts a read of coils at the end of the bank, by its address
  check, but its byte loop then reads past the end of \<^verbatim>\<open>ucSCoilBuf\<close>: it does not return.
\<close>

theorem coil_read_overruns:
  assumes "wf_slave s" "unat (a - 1) + unat n \<le> 64" "8 \<le> unat (a - 1) div 8 + unat n div 8 + 1"
  shows "eMBRegCoilsCB s fr p a n MB_REG_READ = None"
  using assms by (rule eMBRegCoilsCB_read_overrun)

theorem coil_read_overruns_witness:
  "eMBRegCoilsCB slave_regs_init (replicate 255 0) 2 1 64 MB_REG_READ = None"
  by (rule coil_read_overruns) (simp_all add: wf_slave_def slave_regs_init_def)

text \<open>
  Inside its safe region the coil callback answers a read with the addressed coils,
  packed from bit 0 on, and zeros above the last one.
\<close>

theorem coil_read_correct:
  assumes "wf_slave s" "unat (a - 1) + unat n \<le> 64" "unat (a - 1) div 8 + unat n div 8 + 1 < 8"
    and "p + unat n div 8 + 1 \<le> length fr"
  shows "\<exists>fr'. eMBRegCoilsCB s fr p a n MB_REG_READ = Some (MB_ENOERR, fr', s) \<and> length fr' = length fr \<and>
    (\<forall>k < 8 * (unat n div 8 + 1). bit_at fr' (8 * p + k) =
       (k < unat n \<and> bit_at (ucSCoilBuf s) (unat (a - 1) + k)))"
  using slave_coils.bits_in [OF assms] by blast

theorem coil_read_correct_witness:
  "\<exists>fr'. eMBRegCoilsCB (slave_regs_init\<lparr>ucSCoilBuf := replicate 8 0xFF\<rparr>) (replicate 10 0) 0 4 3 MB_REG_READ =
    Some (MB_ENOERR, fr', slave_regs_init\<lparr>ucSCoilBuf := replicate 8 0xFF\<rparr>) \<and> bit_at fr' 2 \<and> \<not> bit_at fr' 3"
proof -
  let ?s = "slave_regs_init\<lparr>ucSCoilBuf := replicate 8 0xFF\<rparr>"
  obtain fr' where fr: "eMBRegCoilsCB ?s (replicate 10 0) 0 4 3 MB_REG_READ = Some (MB_ENOERR, fr', ?s)"
    "\<forall>k < 8. bit_at fr' k = (k < 3 \<and> bit_at (replicate 8 0xFF) (3 + k))"
    using coil_read_correct [of ?s 4 3 0 "replicate 10 0"] by (auto simp: wf_slave_def slave_regs_init_def)
  then have "bit_at fr' 2" "\<not> bit_at fr' 3"
    by (simp_all add: bit_at_def)
  with fr(1) show ?thesis by blast
qed

text \<open>
  What \<^verbatim>\<open>eMBSetSlaveID\<close> stores is what the report function sends: the identifier, the run
  indicator and the additional bytes, behind the function code.
\<close>

theorem slave_id_round_trip:
  assumes "wf_slave_id i" "unat n + 2 < 32" "unat n \<le> length extra" "unat n + 3 \<le> length fr"
  shows "\<exists>i' fr'. eMBSetSlaveID i uid running extra n = Some (MB_ENOERR, i') \<and> wf_slave_id i' \<and>
     eMBFuncReportSlaveID i' fr = Some (MB_EX_NONE, fr', n + 3) \<and>
     take (unat n + 2) (drop 1 fr') = uid # (if running then 0xFF else 0) # take (unat n) extra"
  using assms by (rule eMBSetSlaveID_report)

theorem slave_id_round_trip_witness:
  "\<exists>i' fr'. eMBSetSlaveID slave_id_init 0x34 True [1, 2, 3] 2 = Some (MB_ENOERR, i') \<and>
     eMBFuncReportSlaveID i' (replicate 255 0) = Some (MB_EX_NONE, fr', 5) \<and>
     take 4 (drop 1 fr') = [0x34, 0xFF, 1, 2]"
  using slave_id_round_trip [of slave_id_init 2 "[1, 2, 3]" "replicate 255 0" "0x34" True]
  by (auto simp: wf_slave_id_def slave_id_init_def)

end
