(* ===== verification/Rt_Mem.thy ===== *)
theory Rt_Mem
  imports Prelude
begin

text \<open>
  The heap of \<^verbatim>\<open>Kernel/mem.c\<close>, as configured: 32-bit addresses, alignment to 4 bytes, headers of 12 bytes.
  An address is an offset from \<^verbatim>\<open>heap_ptr\<close>, which is aligned. \<^verbatim>\<open>heap_sem\<close>, which every operation takes first and
  releases last, is left out, and so are the contents of the blocks. A header is what \<open>hdr\<close> has at
  its offset. Differences of offsets wrap at 32 bits (\<open>sub32\<close>).
\<close>

section \<open>Operations\<close>

record heap_mem =
  magic :: "16 word"
  used :: "16 word"
  next' :: nat
  prev :: nat

record mem_heap =
  hdr :: "nat \<Rightarrow> heap_mem"
  mem_size_aligned :: nat
  lfree :: nat
  used_mem :: "32 word"
  max_mem :: "32 word"

definition HEAP_MAGIC :: "16 word" where "HEAP_MAGIC = 0x1ea0"
definition MIN_SIZE_ALIGNED :: nat where "MIN_SIZE_ALIGNED = 12"
definition SIZEOF_STRUCT_MEM :: nat where "SIZEOF_STRUCT_MEM = 12"

definition heap_end :: "mem_heap \<Rightarrow> nat" where
  "heap_end h = mem_size_aligned h + SIZEOF_STRUCT_MEM"

definition sub32 :: "nat \<Rightarrow> nat \<Rightarrow> nat" where
  "sub32 a b = (a + 2 ^ 32 - b) mod 2 ^ 32"

definition upd_hdr :: "nat \<Rightarrow> (heap_mem \<Rightarrow> heap_mem) \<Rightarrow> mem_heap \<Rightarrow> mem_heap" where
  "upd_hdr x f h = h\<lparr>hdr := (hdr h)(x := f (hdr h x))\<rparr>"

definition plug_forward :: "nat \<Rightarrow> mem_heap \<Rightarrow> mem_heap" where
  "plug_forward mem h =
    (let nmem = next' (hdr h mem) in
     if mem \<noteq> nmem \<and> used (hdr h nmem) = 0 \<and> nmem \<noteq> heap_end h
     then let h = (if lfree h = nmem then h\<lparr>lfree := mem\<rparr> else h);
              h = upd_hdr mem (\<lambda>m. m\<lparr>next' := next' (hdr h nmem)\<rparr>) h in
       upd_hdr (next' (hdr h nmem)) (\<lambda>m. m\<lparr>prev := mem\<rparr>) h
     else h)"

definition plug_backward :: "nat \<Rightarrow> mem_heap \<Rightarrow> mem_heap" where
  "plug_backward mem h =
    (let pmem = prev (hdr h mem) in
     if pmem \<noteq> mem \<and> used (hdr h pmem) = 0
     then let h = (if lfree h = mem then h\<lparr>lfree := pmem\<rparr> else h);
              h = upd_hdr pmem (\<lambda>m. m\<lparr>next' := next' (hdr h mem)\<rparr>) h in
       upd_hdr (next' (hdr h mem)) (\<lambda>m. m\<lparr>prev := pmem\<rparr>) h
     else h)"

definition plug_holes :: "nat \<Rightarrow> mem_heap \<Rightarrow> mem_heap option" where
  "plug_holes mem h = do {
     rt_assert (mem < heap_end h);
     rt_assert (used (hdr h mem) = 0);
     Some (plug_backward mem (plug_forward mem h))
   }"

text \<open>
  The heap between two addresses; \<open>old\<close> is what the memory held before. \<^const>\<open>None\<close>: the addresses leave
  no room and nothing is initialised.
\<close>

definition rt_system_heap_init :: "(nat \<Rightarrow> heap_mem) \<Rightarrow> 32 word \<Rightarrow> 32 word \<Rightarrow> mem_heap option" where
  "rt_system_heap_init old begin_addr end_addr =
    (let begin_align = (begin_addr + 4 - 1) AND NOT (4 - 1);
         end_align = end_addr AND NOT (4 - 1) in
     if 24 < end_align \<and> begin_align \<le> end_align - 24
     then let n = unat (end_align - begin_align - 24) in
       Some \<lparr> hdr = old(0 := \<lparr> magic = HEAP_MAGIC, used = 0, next' = n + SIZEOF_STRUCT_MEM, prev = 0 \<rparr>,
           n + SIZEOF_STRUCT_MEM := \<lparr> magic = HEAP_MAGIC, used = 1, next' = n + SIZEOF_STRUCT_MEM,
             prev = n + SIZEOF_STRUCT_MEM \<rparr>),
         mem_size_aligned = n, lfree = 0, used_mem = 0, max_mem = 0 \<rparr>
     else None)"

definition user_size :: "nat \<Rightarrow> mem_heap \<Rightarrow> nat" where
  "user_size ptr h = sub32 (next' (hdr h ptr)) (ptr + SIZEOF_STRUCT_MEM)"

text \<open>The search from \<open>ptr\<close> on for a block that \<open>size\<close> bytes fit in; its bound is \<open>lim\<close>.\<close>

partial_function (option) malloc_search :: "nat \<Rightarrow> nat \<Rightarrow> nat \<Rightarrow> mem_heap \<Rightarrow> nat option option" where
  "malloc_search size' lim ptr h =
    (if ptr < lim
     then if used (hdr h ptr) = 0 \<and> size' \<le> user_size ptr h then Some (Some ptr)
       else malloc_search size' lim (next' (hdr h ptr)) h
     else Some None)"

text \<open>\<^verbatim>\<open>while (lfree->used && lfree != heap_end) lfree = lfree->next\<close>.\<close>

partial_function (option) skip_used :: "nat \<Rightarrow> mem_heap \<Rightarrow> nat option" where
  "skip_used l h = (if used (hdr h l) \<noteq> 0 \<and> l \<noteq> heap_end h then skip_used (next' (hdr h l)) h else Some l)"

definition count_used :: "nat \<Rightarrow> mem_heap \<Rightarrow> mem_heap" where
  "count_used n h = (let u = used_mem h + of_nat n in h\<lparr>used_mem := u, max_mem := (if max_mem h < u then u else max_mem h)\<rparr>)"

text \<open>Taking the block at \<open>ptr\<close>, and giving back what is left of it if that is large enough for a block.\<close>

definition malloc_take :: "nat \<Rightarrow> nat \<Rightarrow> mem_heap \<Rightarrow> mem_heap" where
  "malloc_take size' ptr h =
    upd_hdr ptr (\<lambda>m. m\<lparr>magic := HEAP_MAGIC\<rparr>)
     (if size' + SIZEOF_STRUCT_MEM + MIN_SIZE_ALIGNED \<le> user_size ptr h
      then let ptr2 = ptr + SIZEOF_STRUCT_MEM + size';
               n = next' (hdr h ptr);
               h = upd_hdr ptr2 (\<lambda>_. \<lparr> magic = HEAP_MAGIC, used = 0, next' = n, prev = ptr \<rparr>) h;
               h = upd_hdr ptr (\<lambda>m. m\<lparr>next' := ptr2, used := 1\<rparr>) h;
               h = (if n \<noteq> heap_end h then upd_hdr n (\<lambda>m. m\<lparr>prev := ptr2\<rparr>) h else h) in
        count_used (size' + SIZEOF_STRUCT_MEM) h
      else count_used (sub32 (next' (hdr h ptr)) ptr) (upd_hdr ptr (\<lambda>m. m\<lparr>used := 1\<rparr>) h))"

text \<open>The next free block, if the lowest one was taken.\<close>

definition raise_lfree :: "nat \<Rightarrow> mem_heap \<Rightarrow> mem_heap option" where
  "raise_lfree ptr h =
    (if ptr = lfree h
     then do {
       l \<leftarrow> skip_used (lfree h) h;
       rt_assert (l = heap_end h \<or> used (hdr h l) = 0);
       Some (h\<lparr>lfree := l\<rparr>)
     }
     else Some h)"

definition rt_malloc :: "32 word \<Rightarrow> mem_heap \<Rightarrow> (nat option \<times> mem_heap) option" where
  "rt_malloc size' h =
    (if size' = 0 then Some (None, h)
     else let n = unat (rt_align size') in
       if mem_size_aligned h < n then Some (None, h)
       else let n = max n MIN_SIZE_ALIGNED in do {
         r \<leftarrow> malloc_search n (sub32 (mem_size_aligned h) n) (lfree h) h;
         case r of
           None \<Rightarrow> Some (None, h)
         | Some ptr \<Rightarrow> do {
             let h = malloc_take n ptr h;
             h \<leftarrow> raise_lfree ptr h;
             rt_assert (ptr + SIZEOF_STRUCT_MEM + n \<le> heap_end h);
             rt_assert ((ptr + SIZEOF_STRUCT_MEM) mod 4 = 0);
             rt_assert (ptr mod 4 = 0);
             Some (Some (ptr + SIZEOF_STRUCT_MEM), h)
           }
       })"

definition rt_calloc :: "32 word \<Rightarrow> 32 word \<Rightarrow> mem_heap \<Rightarrow> (nat option \<times> mem_heap) option" where
  "rt_calloc count size' h = rt_malloc (count * size') h"

text \<open>\<open>rmem\<close> is \<^const>\<open>None\<close> for \<^verbatim>\<open>RT_NULL\<close>. An address below \<open>12\<close> has no header in the heap.\<close>

definition rt_free :: "nat option \<Rightarrow> mem_heap \<Rightarrow> mem_heap option" where
  "rt_free rmem h = (case rmem of
     None \<Rightarrow> Some h
   | Some p \<Rightarrow> do {
       rt_assert (p mod 4 = 0);
       rt_assert (p < heap_end h);
       rt_assert (SIZEOF_STRUCT_MEM \<le> p);
       let mem = p - SIZEOF_STRUCT_MEM;
       rt_assert (used (hdr h mem) \<noteq> 0);
       rt_assert (magic (hdr h mem) = HEAP_MAGIC);
       let h = upd_hdr mem (\<lambda>m. m\<lparr>used := 0, magic := HEAP_MAGIC\<rparr>) h;
       let h = (if mem < lfree h then h\<lparr>lfree := mem\<rparr> else h);
       let h = h\<lparr>used_mem := used_mem h - of_nat (sub32 (next' (hdr h mem)) mem)\<rparr>;
       plug_holes mem h
     })"

text \<open>The bytes that \<^verbatim>\<open>rt_memcpy\<close> carries over to a new block are left out with the other contents.\<close>

definition rt_realloc :: "nat option \<Rightarrow> 32 word \<Rightarrow> mem_heap \<Rightarrow> (nat option \<times> mem_heap) option" where
  "rt_realloc rmem newsize h =
    (let n = unat (rt_align newsize) in
     if mem_size_aligned h < n then Some (None, h)
     else if n = 0 then map_option (Pair None) (rt_free rmem h)
     else case rmem of
       None \<Rightarrow> rt_malloc (rt_align newsize) h
     | Some p \<Rightarrow>
         if heap_end h \<le> p then Some (Some p, h)
         else do {
           rt_assert (SIZEOF_STRUCT_MEM \<le> p);
           let ptr = p - SIZEOF_STRUCT_MEM;
           let sz = sub32 (sub32 (next' (hdr h ptr)) ptr) SIZEOF_STRUCT_MEM;
           if sz = n then Some (Some p, h)
           else if n + SIZEOF_STRUCT_MEM + 12 < sz
           then do {
             let h = h\<lparr>used_mem := used_mem h - of_nat (sz - n)\<rparr>;
             let ptr2 = ptr + SIZEOF_STRUCT_MEM + n;
             let nx = next' (hdr h ptr);
             let h = upd_hdr ptr2 (\<lambda>_. \<lparr> magic = HEAP_MAGIC, used = 0, next' = nx, prev = ptr \<rparr>) h;
             let h = upd_hdr ptr (\<lambda>m. m\<lparr>next' := ptr2\<rparr>) h;
             let h = (if nx \<noteq> heap_end h then upd_hdr nx (\<lambda>m. m\<lparr>prev := ptr2\<rparr>) h else h);
             h \<leftarrow> plug_holes ptr2 h;
             Some (Some p, h)
           }
           else do {
             (nmem, h) \<leftarrow> rt_malloc (rt_align newsize) h;
             case nmem of
               None \<Rightarrow> Some (None, h)
             | Some q \<Rightarrow> do { h \<leftarrow> rt_free (Some p) h; Some (Some q, h) }
           }
         })"

section \<open>The chain of blocks\<close>

text \<open>
  The blocks from \<open>x\<close> up to \<open>y\<close>, each an offset and whether it is used; \<open>p\<close> is the block before the first
  and \<open>q\<close> the last one.
\<close>

fun heap_seg :: "(nat \<Rightarrow> heap_mem) \<Rightarrow> nat \<Rightarrow> nat \<Rightarrow> (nat \<times> bool) list \<Rightarrow> nat \<Rightarrow> nat \<Rightarrow> bool" where
  "heap_seg m p x [] q y \<longleftrightarrow> q = p \<and> y = x"
| "heap_seg m p x ((i, u) # bs) q y \<longleftrightarrow> i = x \<and> prev (m x) = p \<and> magic (m x) = HEAP_MAGIC \<and> (used (m x) \<noteq> 0) = u \<and>
     x mod 4 = 0 \<and> x + 24 \<le> next' (m x) \<and> heap_seg m x (next' (m x)) bs q y"

definition first_free :: "(nat \<times> bool) list \<Rightarrow> nat \<Rightarrow> nat" where
  "first_free bs e = (case dropWhile snd bs of [] \<Rightarrow> e | (i, u) # _ \<Rightarrow> i)"

definition no_holes :: "(nat \<times> bool) list \<Rightarrow> bool" where
  "no_holes bs \<longleftrightarrow> successively (\<lambda>a b. snd a \<or> snd b) bs"

text \<open>
  The blocks fill the heap, no two neighbours are free, and \<open>lfree\<close> is the first free one. The link back
  from the end marker is not kept up to date by the code.
\<close>

definition heap_inv :: "mem_heap \<Rightarrow> (nat \<times> bool) list \<Rightarrow> bool" where
  "heap_inv h bs \<longleftrightarrow> bs \<noteq> [] \<and> (\<exists>q. heap_seg (hdr h) 0 0 bs q (heap_end h)) \<and> no_holes bs \<and>
     lfree h = first_free bs (heap_end h) \<and> used (hdr h (heap_end h)) \<noteq> 0 \<and> heap_end h < 2 ^ 32 \<and> heap_end h mod 4 = 0"

lemma heap_seg_append [simp]:
  "heap_seg m p x (as @ bs) q y \<longleftrightarrow> (\<exists>p' x'. heap_seg m p x as p' x' \<and> heap_seg m p' x' bs q y)"
  by (induction m p x as q y arbitrary: p x rule: heap_seg.induct) auto

lemma heap_seg_offsets: "heap_seg m p x bs q y \<Longrightarrow> x \<le> y \<and> (\<forall>(i, u) \<in> set bs. x \<le> i \<and> i + 24 \<le> next' (m i) \<and> next' (m i) \<le> y)"
proof (induction bs arbitrary: p x)
  case (Cons b bs)
  then show ?case by (cases b) fastforce
qed simp

lemma heap_seg_frame:
  assumes "heap_seg m p x bs q y" "\<And>i u. (i, u) \<in> set bs \<Longrightarrow> m' i = m i"
  shows "heap_seg m' p x bs q y"
  using assms
proof (induction bs arbitrary: p x)
  case (Cons b bs)
  obtain i u where b: "b = (i, u)" by (cases b)
  then have "m' x = m x"
    using Cons.prems(1) Cons.prems(2) [of i u] by auto
  moreover have "heap_seg m' x (next' (m x)) bs q y"
    using Cons.prems b by (intro Cons.IH) auto
  ultimately show ?case
    using Cons.prems(1) b by simp
qed simp

lemma heap_seg_below:
  assumes "heap_seg m p x bs q y" "y \<le> z"
  shows "heap_seg (m(z := b)) p x bs q y"
proof (rule heap_seg_frame [OF assms(1)])
  show "\<And>i u. (i, u) \<in> set bs \<Longrightarrow> (m(z := b)) i = m i"
    using heap_seg_offsets [OF assms(1)] assms(2) by fastforce
qed

lemma heap_seg_above:
  assumes "heap_seg m p x bs q y" "z < x"
  shows "heap_seg (m(z := b)) p x bs q y"
proof (rule heap_seg_frame [OF assms(1)])
  show "\<And>i u. (i, u) \<in> set bs \<Longrightarrow> (m(z := b)) i = m i"
    using heap_seg_offsets [OF assms(1)] assms(2) by fastforce
qed

lemma heap_seg_prev:
  assumes "heap_seg m p x bs q y"
  shows "\<exists>q'. heap_seg (m(x := (m x)\<lparr>prev := p'\<rparr>)) p' x bs q' y"
proof (cases bs)
  case (Cons b cs)
  obtain i u where b: "b = (i, u)" by (cases b)
  then have "heap_seg m x (next' (m x)) cs q y" "x < next' (m x)"
    using assms Cons by auto
  then have "heap_seg (m(x := (m x)\<lparr>prev := p'\<rparr>)) x (next' (m x)) cs q y"
    by (rule heap_seg_above)
  then show ?thesis
    using assms Cons b by auto
qed (use assms in auto)

lemma heap_seg_last: "heap_seg m p x (as @ [(i, u)]) q y \<Longrightarrow> q = i"
  by auto

text \<open>The data of different blocks do not overlap.\<close>

lemma heap_seg_disjoint:
  assumes "heap_seg m p x bs q y" "(i, u) \<in> set bs" "(j, v) \<in> set bs" "i < j"
  shows "next' (m i) \<le> j"
  using assms
proof (induction bs arbitrary: p x)
  case (Cons b bs)
  obtain k w where b: "b = (k, w)" by (cases b)
  then have seg: "heap_seg m k (next' (m k)) bs q y" "k = x"
    using Cons.prems(1) by auto
  have off: "\<And>j v. (j, v) \<in> set bs \<Longrightarrow> next' (m k) \<le> j"
    using heap_seg_offsets [OF seg(1)] by auto
  have kn: "k < next' (m k)" using Cons.prems(1) b by auto
  show ?case
  proof (cases "(i, u) \<in> set bs")
    case True
    then have "(j, v) \<in> set bs"
      using Cons.prems(3,4) b off [OF True] kn by auto
    with True show ?thesis using Cons.IH [OF seg(1)] Cons.prems(4) by blast
  next
    case False
    then have "i = k" using Cons.prems(2) b by simp
    then show ?thesis using Cons.prems(3,4) b off by auto
  qed
qed simp

lemma first_free_append:
  "first_free (as @ bs) e = (if \<forall>b \<in> set as. snd b then first_free bs e else first_free as e)"
proof -
  have "dropWhile snd as = [] \<longleftrightarrow> (\<forall>b \<in> set as. snd b)"
    by (induction as) auto
  then show ?thesis
    by (auto simp: first_free_def dropWhile_append1 dropWhile_append2 dropWhile_append split: list.splits)
qed

lemma first_free_Cons [simp]: "first_free ((i, u) # bs) e = (if u then first_free bs e else i)" "first_free [] e = e"
  by (simp_all add: first_free_def)

lemma no_holes_simps [simp]:
  "no_holes []" "no_holes (b # bs) \<longleftrightarrow> (bs \<noteq> [] \<longrightarrow> snd b \<or> snd (hd bs)) \<and> no_holes bs"
  "no_holes (as @ bs) \<longleftrightarrow> no_holes as \<and> no_holes bs \<and> (as \<noteq> [] \<longrightarrow> bs \<noteq> [] \<longrightarrow> snd (last as) \<or> snd (hd bs))"
  by (auto simp: no_holes_def successively_append_iff successively_Cons)

lemma sub32_le: "b \<le> a \<Longrightarrow> a < 2 ^ 32 \<Longrightarrow> sub32 a b = a - b"
  using mod_add_self2 [of "a - b" "2 ^ 32"] by (simp add: sub32_def del: mod_add_self2)

end
