(* ===== verification/Rt_Mem_Alloc.thy ===== *)
theory Rt_Mem_Alloc
  imports Rt_Mem
begin

text \<open>
  Allocation and release keep the chain of blocks, and what they do to it.
\<close>

section \<open>Allocation\<close>

fun first_fit :: "(nat \<Rightarrow> heap_mem) \<Rightarrow> nat \<Rightarrow> nat \<Rightarrow> (nat \<times> bool) list \<Rightarrow> nat option" where
  "first_fit m n lim [] = None"
| "first_fit m n lim ((i, u) # bs) =
    (if i < lim then if \<not> u \<and> n \<le> next' (m i) - (i + 12) then Some i else first_fit m n lim bs else None)"

lemma user_size_eq:
  "i + 24 \<le> next' (hdr h i) \<Longrightarrow> next' (hdr h i) < 2 ^ 32 \<Longrightarrow> user_size i h = next' (hdr h i) - (i + 12)"
  by (simp add: user_size_def SIZEOF_STRUCT_MEM_def sub32_le)

lemma malloc_search_ok:
  assumes "heap_seg (hdr h) p x bs q e" "e < 2 ^ 32" "lim \<le> e"
  shows "malloc_search n lim x h = Some (first_fit (hdr h) n lim bs)"
  using assms(1)
proof (induction bs arbitrary: p x)
  case Nil
  then show ?case
    using assms(3) by (subst malloc_search.simps) simp
next
  case (Cons b bs)
  obtain i u where b: "b = (i, u)" by (cases b)
  have "next' (hdr h x) \<le> e" "x + 24 \<le> next' (hdr h x)"
    using heap_seg_offsets [OF Cons.prems] Cons.prems b by auto
  then have "user_size x h = next' (hdr h x) - (x + 12)"
    using assms(2) by (intro user_size_eq) auto
  then show ?case
    using Cons b by (subst malloc_search.simps) auto
qed

lemma skip_used_ok:
  assumes "heap_seg (hdr h) p x bs q (heap_end h)"
  shows "skip_used x h = Some (first_free bs (heap_end h))"
  using assms
proof (induction bs arbitrary: p x)
  case Nil
  then show ?case by (subst skip_used.simps) simp
next
  case (Cons b bs)
  obtain i u where b: "b = (i, u)" by (cases b)
  have "x \<noteq> heap_end h"
    using heap_seg_offsets [OF Cons.prems] Cons.prems b by auto
  then show ?case
    using Cons b by (subst skip_used.simps) auto
qed

lemma hdr_simps [simp]:
  "hdr (upd_hdr x f h) = (hdr h)(x := f (hdr h x))" "hdr (count_used n h) = hdr h"
  "lfree (upd_hdr x f h) = lfree h" "lfree (count_used n h) = lfree h"
  "mem_size_aligned (upd_hdr x f h) = mem_size_aligned h" "mem_size_aligned (count_used n h) = mem_size_aligned h"
  "heap_end (upd_hdr x f h) = heap_end h" "heap_end (count_used n h) = heap_end h"
  "heap_end (h\<lparr>lfree := l\<rparr>) = heap_end h" "heap_end (h\<lparr>used_mem := w\<rparr>) = heap_end h"
  by (simp_all add: upd_hdr_def count_used_def heap_end_def Let_def)

text \<open>What an operation leaves alone: the size of the heap and the blocks outside \<open>A\<close>.\<close>

definition same_blocks :: "nat set \<Rightarrow> mem_heap \<Rightarrow> mem_heap \<Rightarrow> bool" where
  "same_blocks A h h' \<longleftrightarrow> mem_size_aligned h' = mem_size_aligned h \<and>
     (\<forall>i. i \<notin> A \<longrightarrow> next' (hdr h' i) = next' (hdr h i) \<and> used (hdr h' i) = used (hdr h i))"

lemma same_blocks_mono: "same_blocks A h h' \<Longrightarrow> A \<subseteq> B \<Longrightarrow> same_blocks B h h'"
  by (auto simp: same_blocks_def)

lemma malloc_take_whole:
  assumes seg: "heap_seg (hdr h) 0 0 (as @ (x, False) # cs) q e" "e < 2 ^ 32"
    and small: "\<not> n + 24 \<le> next' (hdr h x) - (x + 12)"
  shows "heap_seg (hdr (malloc_take n x h)) 0 0 (as @ (x, True) # cs) q e \<and> lfree (malloc_take n x h) = lfree h \<and>
    same_blocks {x} h (malloc_take n x h) \<and> next' (hdr (malloc_take n x h) x) = next' (hdr h x)"
proof -
  obtain p where as: "heap_seg (hdr h) 0 0 as p x" and x: "prev (hdr h x) = p" "magic (hdr h x) = HEAP_MAGIC"
    "x mod 4 = 0" "x + 24 \<le> next' (hdr h x)" and cs: "heap_seg (hdr h) x (next' (hdr h x)) cs q e"
    using seg(1) by auto
  have "next' (hdr h x) \<le> e"
    using heap_seg_offsets [OF cs] by simp
  then have us: "user_size x h = next' (hdr h x) - (x + 12)"
    using x(4) seg(2) by (intro user_size_eq) auto
  let ?m = "(hdr h)(x := (hdr h x)\<lparr>used := 1, magic := HEAP_MAGIC\<rparr>)"
  have m: "hdr (malloc_take n x h) = ?m" "mem_size_aligned (malloc_take n x h) = mem_size_aligned h"
    "lfree (malloc_take n x h) = lfree h"
    using small us by (simp_all add: malloc_take_def SIZEOF_STRUCT_MEM_def MIN_SIZE_ALIGNED_def)
  have "heap_seg ?m 0 0 as p x" "heap_seg ?m x (next' (hdr h x)) cs q e"
    using heap_seg_below [OF as order_refl] heap_seg_above [OF cs] x(4) by simp_all
  with x m show ?thesis
    by (auto simp: same_blocks_def)
qed

lemma malloc_take_split:
  assumes seg: "heap_seg (hdr h) 0 0 (as @ (x, False) # cs) q (heap_end h)" "heap_end h < 2 ^ 32"
    and n: "n + 24 \<le> next' (hdr h x) - (x + 12)" "12 \<le> n" "n mod 4 = 0"
  shows "\<exists>q'. heap_seg (hdr (malloc_take n x h)) 0 0 (as @ (x, True) # (x + 12 + n, False) # cs) q' (heap_end h) \<and>
    lfree (malloc_take n x h) = lfree h \<and> same_blocks {x, x + 12 + n} h (malloc_take n x h) \<and>
    next' (hdr (malloc_take n x h) x) = x + 12 + n"
proof -
  let ?e = "heap_end h" and ?nx = "next' (hdr h x)" and ?x2 = "x + 12 + n" and ?h' = "malloc_take n x h"
  obtain p where as: "heap_seg (hdr h) 0 0 as p x" and x: "prev (hdr h x) = p" "magic (hdr h x) = HEAP_MAGIC"
    "x mod 4 = 0" "x + 24 \<le> ?nx" and cs: "heap_seg (hdr h) x ?nx cs q ?e"
    using seg(1) by auto
  have le: "?nx \<le> ?e"
    using heap_seg_offsets [OF cs] by simp
  then have us: "user_size x h = ?nx - (x + 12)"
    using x(4) seg(2) by (intro user_size_eq) auto
  let ?m1 = "(hdr h)(?x2 := \<lparr> magic = HEAP_MAGIC, used = 0, next' = ?nx, prev = x \<rparr>,
    x := (hdr h x)\<lparr>next' := ?x2, used := 1\<rparr>)"
  let ?m2 = "if ?nx \<noteq> ?e then ?m1(?nx := (?m1 ?nx)\<lparr>prev := ?x2\<rparr>) else ?m1"
  have m: "hdr ?h' = ?m2(x := (?m2 x)\<lparr>magic := HEAP_MAGIC\<rparr>)" "mem_size_aligned ?h' = mem_size_aligned h" "lfree ?h' = lfree h"
    using n(1) us by (simp_all add: malloc_take_def SIZEOF_STRUCT_MEM_def MIN_SIZE_ALIGNED_def Let_def)
  have pos: "x < ?x2" "?x2 + 24 \<le> ?nx" "?x2 mod 4 = 0"
    using n x(3,4) by (auto simp: mod_simps)
  have "heap_seg ?m1 x ?nx cs q ?e"
    using cs pos by (intro heap_seg_above) auto
  have as2: "heap_seg (hdr ?h') 0 0 as p x"
    unfolding m(1) using as pos by (auto intro!: heap_seg_below)
  obtain q' where "heap_seg ?m2 ?x2 ?nx cs q' ?e"
  proof (cases "?nx = ?e")
    case True
    then have "cs = []"
      using \<open>heap_seg ?m1 x ?nx cs q ?e\<close> heap_seg_offsets [OF cs] by (cases cs) fastforce+
    with True show ?thesis using that [of ?x2] by simp
  next
    case False
    then show ?thesis
      using heap_seg_prev [OF \<open>heap_seg ?m1 x ?nx cs q ?e\<close>, of ?x2] that by auto
  qed
  then have cs2: "heap_seg (hdr ?h') ?x2 ?nx cs q' ?e"
    unfolding m(1) using pos by (intro heap_seg_above) auto
  have "hdr ?h' x = (hdr h x)\<lparr>next' := ?x2, used := 1, magic := HEAP_MAGIC\<rparr>"
    "hdr ?h' ?x2 = \<lparr> magic = HEAP_MAGIC, used = 0, next' = ?nx, prev = x \<rparr>"
    using pos by (auto simp: m(1))
  moreover have "same_blocks {x, ?x2} h ?h'"
    using m(2) pos by (auto simp: same_blocks_def m(1))
  ultimately show ?thesis
    using as2 cs2 x pos n(2) m(3) by auto
qed

lemma first_fit_Some:
  "first_fit m n lim bs = Some x \<Longrightarrow> \<exists>as cs. bs = as @ (x, False) # cs \<and> x < lim \<and> n \<le> next' (m x) - (x + 12)"
proof (induction bs)
  case (Cons b bs)
  obtain i u where b: "b = (i, u)" by (cases b)
  show ?case
  proof (cases "i < lim \<and> \<not> u \<and> n \<le> next' (m i) - (i + 12)")
    case True
    then show ?thesis
      using Cons.prems b by (intro exI [of _ "[]"] exI [of _ bs]) auto
  next
    case False
    then obtain as cs where "bs = as @ (x, False) # cs" "x < lim" "n \<le> next' (m x) - (x + 12)"
      using Cons b by (auto split: if_splits)
    then show ?thesis
      by (intro exI [of _ "b # as"] exI [of _ cs]) simp
  qed
qed simp

lemma first_fit_None:
  assumes "heap_seg m p x bs q y" "first_fit m n lim bs = None" "(i, False) \<in> set bs"
  shows "next' (m i) - (i + 12) < n \<or> lim \<le> i"
  using assms
proof (induction bs arbitrary: p x)
  case (Cons b bs)
  obtain k u where b: "b = (k, u)" by (cases b)
  then have seg: "heap_seg m k (next' (m k)) bs q y" and k: "k = x" "k + 24 \<le> next' (m k)"
    using Cons.prems(1) by auto
  have off: "(i, False) \<in> set bs \<Longrightarrow> k \<le> i"
    using heap_seg_offsets [OF seg] k(2) by fastforce
  show ?case
  proof (cases "k < lim")
    case True
    then show ?thesis
      using Cons.prems(2,3) Cons.IH [OF seg] b by (auto split: if_splits)
  next
    case False
    then show ?thesis
      using off Cons.prems(3) b by auto
  qed
qed simp

lemma rt_align_mod4: "unat (rt_align s) mod 4 = 0"
proof -
  have "(3 :: 32 word) = mask 2" by (simp add: mask_eq_exp_minus_1)
  then have "take_bit 2 (rt_align s) = 0"
    by (intro bit_eqI) (auto simp: rt_align_def bit_take_bit_iff bit_and_iff bit_not_iff bit_mask_iff)
  then have "take_bit 2 (unat (rt_align s)) = 0"
    using unsigned_take_bit_eq [of 2 "rt_align s", where 'a = nat] by simp
  then show ?thesis by (simp add: take_bit_eq_mod)
qed

lemma first_free_mem: "first_free bs e \<noteq> e \<Longrightarrow> (first_free bs e, False) \<in> set bs"
  by (induction bs) (auto split: if_splits)

lemma first_free_none: "first_free bs e = e \<Longrightarrow> (i, False) \<in> set bs \<Longrightarrow> \<exists>j. j = e \<and> (j, False) \<in> set bs"
  by (induction bs) (auto split: if_splits)

text \<open>The blocks before a free block are all used if and only if that block is the lowest free one.\<close>

lemma first_free_split:
  assumes "heap_seg m p y (as @ (x, False) # cs) q e"
  shows "first_free (as @ (x, False) # cs) e = x \<longleftrightarrow> (\<forall>b \<in> set as. snd b)"
proof -
  obtain p' where as: "heap_seg m p y as p' x" and x: "heap_seg m p' x ((x, False) # cs) q e"
    using assms by auto
  have "first_free as e \<noteq> x" if free: "\<exists>b \<in> set as. \<not> snd b"
  proof -
    obtain b where "b \<in> set as" "\<not> snd b" using free by blast
    then have "(fst b, False) \<in> set as" by (metis prod.collapse)
    then obtain i where "(i, False) \<in> set as" by blast
    then have "first_free as e \<noteq> e"
      using first_free_none [of as e i] heap_seg_offsets [OF as] heap_seg_offsets [OF x] by fastforce
    then have "(first_free as e, False) \<in> set as" by (rule first_free_mem)
    then show ?thesis
      using heap_seg_offsets [OF as] by fastforce
  qed
  then show ?thesis by (auto simp: first_free_append)
qed

text \<open>The blocks from the lowest free one on.\<close>

lemma heap_seg_first_free:
  assumes seg: "heap_seg m p x bs q e"
  shows "\<exists>us rest p'. bs = us @ rest \<and> (\<forall>b \<in> set us. snd b) \<and> heap_seg m p' (first_free bs e) rest q e"
proof -
  define us rest where "us = takeWhile snd bs" and "rest = dropWhile snd bs"
  have split: "bs = us @ rest" "\<forall>b \<in> set us. snd b"
    by (auto simp: us_def rest_def dest: set_takeWhileD)
  obtain p' x' where r: "heap_seg m p' x' rest q e"
    using seg split(1) by auto
  moreover have "rest = [] \<or> \<not> snd (hd rest)"
    using hd_dropWhile [of snd bs] by (auto simp: rest_def)
  moreover have "first_free bs e = first_free rest e"
    using split by (simp add: first_free_append)
  ultimately have "x' = first_free bs e"
    by (cases rest) auto
  with r split show ?thesis by blast
qed

lemma heap_seg_used: "heap_seg m p x bs q y \<Longrightarrow> (i, u) \<in> set bs \<Longrightarrow> u \<longleftrightarrow> used (m i) \<noteq> 0"
  by (induction m p x bs q y rule: heap_seg.induct) auto

lemma rt_malloc_ok:
  assumes inv: "heap_inv h bs" and size: "size' \<noteq> 0" and n: "n = max (unat (rt_align size')) 12"
  shows "(\<exists>as x cs cs' h'. rt_malloc size' h = Some (Some (x + 12), h') \<and> bs = as @ (x, False) # cs \<and>
      heap_inv h' (as @ (x, True) # cs') \<and> (cs' = cs \<or> cs' = (x + 12 + n, False) # cs) \<and>
      x + 12 + n \<le> next' (hdr h' x) \<and> next' (hdr h' x) \<le> next' (hdr h x) \<and>
      same_blocks {x..<next' (hdr h x)} h h') \<or>
    rt_malloc size' h = Some (None, h) \<and>
      (\<forall>i. (i, False) \<in> set bs \<longrightarrow> next' (hdr h i) - (i + 12) < n \<or> mem_size_aligned h < i + n + 1)"
proof -
  let ?e = "heap_end h" and ?M = "mem_size_aligned h" and ?m = "hdr h"
  obtain q where seg: "heap_seg ?m 0 0 bs q ?e" and bs: "bs \<noteq> []" "no_holes bs" and lf: "lfree h = first_free bs ?e"
    and e: "used (?m ?e) \<noteq> 0" "?e < 2 ^ 32" "?e mod 4 = 0"
    using inv by (auto simp: heap_inv_def)
  have "24 \<le> ?e"
    using heap_seg_offsets [OF seg] bs(1) by (cases bs) auto
  then have M: "12 \<le> ?M" "?e = ?M + 12"
    by (simp_all add: heap_end_def SIZEOF_STRUCT_MEM_def)
  obtain us rest p' where split: "bs = us @ rest" "\<forall>b \<in> set us. snd b" and rest: "heap_seg ?m p' (lfree h) rest q ?e"
    using heap_seg_first_free [OF seg] lf by auto
  show ?thesis
  proof (cases "unat (rt_align size') \<le> ?M")
    case False
    then have "?M < n" using n by simp
    with False size show ?thesis
      by (auto simp: rt_malloc_def Let_def)
  next
    case True
    then have nM: "n \<le> ?M" "12 \<le> n" "n mod 4 = 0"
      using n M rt_align_mod4 [of size'] by (auto simp: max_def)
    have "sub32 ?M n = ?M - n"
      using nM e(2) M by (intro sub32_le) auto
    then have search: "malloc_search n (sub32 ?M n) (lfree h) h = Some (first_fit ?m n (?M - n) rest)"
      using malloc_search_ok [OF rest e(2), of "?M - n" n] M(2) by simp
    show ?thesis
    proof (cases "first_fit ?m n (?M - n) rest")
      case None
      then have "next' (?m i) - (i + 12) < n \<or> ?M < i + n + 1" if "(i, False) \<in> set bs" for i
        using first_fit_None [OF rest None, of i] that split nM(1) by fastforce
      with None search True size n show ?thesis
        by (simp add: rt_malloc_def Let_def MIN_SIZE_ALIGNED_def)
    next
      case (Some x)
      then obtain as' cs where r: "rest = as' @ (x, False) # cs" "x < ?M - n" "n \<le> next' (?m x) - (x + 12)"
        using first_fit_Some by blast
      define as where "as = us @ as'"
      have b: "bs = as @ (x, False) # cs" by (simp add: as_def r split)
      note seg' = seg [unfolded b]
      have x: "x + 24 \<le> next' (?m x)" "next' (?m x) \<le> ?e" "x mod 4 = 0"
        using seg' heap_seg_offsets [OF seg'] by auto
      let ?h1 = "malloc_take n x h"
      obtain cs' q' where h1: "heap_seg (hdr ?h1) 0 0 (as @ (x, True) # cs') q' ?e" "lfree ?h1 = lfree h"
        "same_blocks {x..<next' (?m x)} h ?h1" "cs' = cs \<or> cs' = (x + 12 + n, False) # cs"
        "x + 12 + n \<le> next' (hdr ?h1 x)" "next' (hdr ?h1 x) \<le> next' (?m x)"
      proof (cases "n + 24 \<le> next' (?m x) - (x + 12)")
        case True
        obtain q' where "heap_seg (hdr ?h1) 0 0 (as @ (x, True) # (x + 12 + n, False) # cs) q' ?e" "lfree ?h1 = lfree h"
          "same_blocks {x, x + 12 + n} h ?h1" "next' (hdr ?h1 x) = x + 12 + n"
          using malloc_take_split [OF seg' e(2) True nM(2,3)] by blast
        moreover have "{x, x + 12 + n} \<subseteq> {x..<next' (?m x)}" "x + 12 + n \<le> next' (?m x)"
          using True nM(2) x(1) by auto
        ultimately show ?thesis
          using that [of "(x + 12 + n, False) # cs" q'] same_blocks_mono by simp
      next
        case False
        note t = malloc_take_whole [OF seg' e(2) False]
        moreover have "{x} \<subseteq> {x..<next' (?m x)}" "x + 12 + n \<le> next' (?m x)"
          using r(3) x(1) by auto
        moreover from this(1) have "same_blocks {x..<next' (?m x)} h ?h1"
          using t same_blocks_mono by blast
        ultimately show ?thesis
          using that [of cs q] by (simp del: heap_seg_append heap_seg.simps)
      qed
      have end1: "heap_end ?h1 = ?e" "used (hdr ?h1 ?e) \<noteq> 0"
        using h1(3) e(1) x(2) by (simp_all add: same_blocks_def heap_end_def)
      have holes: "no_holes (as @ (x, True) # cs')"
        using bs(2) h1(4) unfolding b by auto
      have first: "lfree h = x \<longleftrightarrow> (\<forall>b \<in> set as. snd b)"
        using first_free_split [OF seg'] lf b by simp
      obtain h' where h': "raise_lfree x ?h1 = Some h'" "hdr h' = hdr ?h1" "heap_end h' = ?e"
        "mem_size_aligned h' = mem_size_aligned ?h1" "lfree h' = first_free (as @ (x, True) # cs') ?e"
      proof (cases "lfree h = x")
        case True
        obtain p1 where tail: "heap_seg (hdr ?h1) p1 x ((x, True) # cs') q' (heap_end ?h1)"
          using h1(1) end1(1) by auto
        let ?l = "first_free ((x, True) # cs') ?e"
        have "skip_used x ?h1 = Some ?l"
          using skip_used_ok [OF tail] end1(1) by simp
        moreover have "?l = ?e \<or> used (hdr ?h1 ?l) = 0"
          using first_free_mem [of "(x, True) # cs'" ?e] tail heap_seg_used by fastforce
        ultimately show ?thesis
          using that [of "?h1\<lparr>lfree := ?l\<rparr>"] True first h1(2) end1(1) by (simp add: raise_lfree_def first_free_append)
      next
        case False
        then have "first_free (as @ (x, True) # cs') ?e = lfree h"
          using first lf b by (auto simp: first_free_append)
        then show ?thesis
          using that [of ?h1] False h1(2) end1(1) by (simp add: raise_lfree_def)
      qed
      have "heap_inv h' (as @ (x, True) # cs')"
        using h1(1) holes h' end1 e by (auto simp: heap_inv_def)
      moreover have "x + 12 + n \<le> ?e" "(x + 12) mod 4 = 0" using h1(5,6) x(2,3) by presburger+
      then have "rt_malloc size' h = Some (Some (x + 12), h')"
        using size True search Some h' x(3) n
        by (simp add: rt_malloc_def Let_def MIN_SIZE_ALIGNED_def SIZEOF_STRUCT_MEM_def mod_simps)
      moreover have "same_blocks {x..<next' (?m x)} h h'"
        using h1(3) h' by (simp add: same_blocks_def)
      ultimately show ?thesis
        using b h1(4,5,6) h'(2) by auto
    qed
  qed
qed

section \<open>Release\<close>

lemma heap_seg_merge:
  assumes "heap_seg m p0 x0 (as @ (x, False) # (y, False) # ds) q e" and n: "n = next' (m y)"
    and m': "m' = m(x := (m x)\<lparr>next' := n\<rparr>)"
  shows "\<exists>q'. heap_seg (m'(n := (m' n)\<lparr>prev := x\<rparr>)) p0 x0 (as @ (x, False) # ds) q' e"
proof -
  obtain p where as: "heap_seg m p0 x0 as p x" and x: "prev (m x) = p" "magic (m x) = HEAP_MAGIC" "used (m x) = 0"
    "x mod 4 = 0" "x + 24 \<le> y" "y + 24 \<le> n" and ds: "heap_seg m y n ds q e"
    using assms(1) n by auto
  let ?m2 = "m'(n := (m' n)\<lparr>prev := x\<rparr>)"
  have "heap_seg ?m2 p0 x0 as p x"
    unfolding m' using as x(5,6) by (auto intro!: heap_seg_below)
  moreover have "heap_seg m' y n ds q e"
    unfolding m' using ds x(5,6) by (intro heap_seg_above) auto
  then obtain q' where "heap_seg ?m2 x n ds q' e"
    using heap_seg_prev by blast
  moreover have "?m2 x = (m x)\<lparr>next' := n\<rparr>"
    using x(5,6) by (simp add: m')
  ultimately show ?thesis
    using x by auto
qed

text \<open>The state of a release between its steps: the block at \<open>x\<close> is free.\<close>

definition freeing :: "nat \<Rightarrow> (nat \<times> bool) list \<Rightarrow> (nat \<times> bool) list \<Rightarrow> mem_heap \<Rightarrow> bool" where
  "freeing x as cs h \<longleftrightarrow> (\<exists>q. heap_seg (hdr h) 0 0 (as @ (x, False) # cs) q (heap_end h)) \<and>
     lfree h = first_free (as @ (x, False) # cs) (heap_end h) \<and> used (hdr h (heap_end h)) \<noteq> 0"

lemma first_free_le:
  assumes "heap_seg m p y (as @ (x, False) # cs) q e"
  shows "first_free (as @ (x, False) # cs) e \<le> x"
proof (cases "\<forall>b \<in> set as. snd b")
  case False
  obtain p' where as: "heap_seg m p y as p' x" and x: "x < e"
    using assms heap_seg_offsets [of m x _ cs q e] by fastforce
  obtain b where "b \<in> set as" "\<not> snd b" using False by blast
  then have "(fst b, False) \<in> set as" by (metis prod.collapse)
  then have "first_free as e \<noteq> e"
    using first_free_none [of as e "fst b"] heap_seg_offsets [OF as] x by fastforce
  then have "(first_free as e, False) \<in> set as" by (rule first_free_mem)
  then have "first_free as e \<le> x"
    using heap_seg_offsets [OF as] by fastforce
  then show ?thesis
    using False by (auto simp: first_free_append)
qed (simp add: first_free_append)

lemma plug_forward_ok:
  assumes f: "freeing x as cs h"
  shows "\<exists>cs'. freeing x as cs' (plug_forward x h) \<and>
    (cs' = cs \<and> (cs \<noteq> [] \<longrightarrow> snd (hd cs)) \<or> (\<exists>y. cs = (y, False) # cs')) \<and>
    same_blocks {x} h (plug_forward x h) \<and> used (hdr (plug_forward x h) x) = used (hdr h x)"
proof -
  let ?e = "heap_end h"
  obtain q where seg: "heap_seg (hdr h) 0 0 (as @ (x, False) # cs) q ?e" and lf: "lfree h = first_free (as @ (x, False) # cs) ?e"
    and e: "used (hdr h ?e) \<noteq> 0"
    using f by (auto simp: freeing_def)
  have tail: "heap_seg (hdr h) x (next' (hdr h x)) cs q ?e" "x + 24 \<le> next' (hdr h x)"
    using seg by auto
  show ?thesis
  proof (cases "cs \<noteq> [] \<and> \<not> snd (hd cs)")
    case True
    then obtain y ds where cs: "cs = (y, False) # ds" by (cases cs) auto
    then have y: "next' (hdr h x) = y" "used (hdr h y) = 0" "y \<noteq> ?e" "x \<noteq> y"
      using tail heap_seg_offsets [OF tail(1)] by auto
    let ?n = "next' (hdr h y)" and ?m = "(hdr h)(x := (hdr h x)\<lparr>next' := next' (hdr h y)\<rparr>)"
    have "lfree h \<noteq> y"
      using first_free_le [OF seg] lf tail(2) y(1) by simp
    then have h': "hdr (plug_forward x h) = ?m(?n := (?m ?n)\<lparr>prev := x\<rparr>)" "lfree (plug_forward x h) = lfree h"
      "mem_size_aligned (plug_forward x h) = mem_size_aligned h" "heap_end (plug_forward x h) = ?e"
      using y by (simp_all add: plug_forward_def Let_def)
    obtain q' where "heap_seg (hdr (plug_forward x h)) 0 0 (as @ (x, False) # ds) q' ?e"
      using heap_seg_merge [OF seg [unfolded cs] refl refl] unfolding h'(1) by blast
    moreover have "lfree h = first_free (as @ (x, False) # ds) ?e"
      using lf by (simp add: first_free_append)
    ultimately have "freeing x as ds (plug_forward x h)"
      using h' e by (auto simp: freeing_def)
    moreover have "same_blocks {x} h (plug_forward x h)" "used (hdr (plug_forward x h) x) = used (hdr h x)"
      using h'(3) by (auto simp: same_blocks_def h'(1))
    ultimately show ?thesis
      using cs by blast
  next
    case False
    then have "used (hdr h (next' (hdr h x))) \<noteq> 0"
      using tail(1) e by (cases cs) auto
    then have "plug_forward x h = h"
      by (simp add: plug_forward_def)
    then show ?thesis
      using f False by (auto simp: same_blocks_def)
  qed
qed

lemma plug_backward_ok:
  assumes f: "freeing x as cs h"
  shows "\<exists>as' z. freeing z as' cs (plug_backward x h) \<and>
    (as' = as \<and> z = x \<and> (as \<noteq> [] \<longrightarrow> snd (last as)) \<or> as = as' @ [(z, False)]) \<and>
    same_blocks {z} h (plug_backward x h)"
proof -
  let ?e = "heap_end h"
  obtain q where seg: "heap_seg (hdr h) 0 0 (as @ (x, False) # cs) q ?e" and lf: "lfree h = first_free (as @ (x, False) # cs) ?e"
    and e: "used (hdr h ?e) \<noteq> 0"
    using f by (auto simp: freeing_def)
  show ?thesis
  proof (cases "as \<noteq> [] \<and> \<not> snd (last as)")
    case True
    then obtain w as' where as: "as = as' @ [(w, False)]"
      by (cases as rule: rev_cases) auto
    then have w: "prev (hdr h x) = w" "used (hdr h w) = 0" "w + 24 \<le> x"
      using seg by auto
    let ?n = "next' (hdr h x)" and ?m = "(hdr h)(w := (hdr h w)\<lparr>next' := next' (hdr h x)\<rparr>)"
    have seg': "heap_seg (hdr h) 0 0 (as' @ (w, False) # (x, False) # cs) q ?e"
      using seg by (auto simp: as)
    have "lfree h \<noteq> x"
      using first_free_le [OF seg'] lf w(3) by (auto simp: as)
    then have h': "hdr (plug_backward x h) = ?m(?n := (?m ?n)\<lparr>prev := w\<rparr>)" "lfree (plug_backward x h) = lfree h"
      "mem_size_aligned (plug_backward x h) = mem_size_aligned h" "heap_end (plug_backward x h) = ?e"
      using w by (simp_all add: plug_backward_def Let_def)
    obtain q' where "heap_seg (hdr (plug_backward x h)) 0 0 (as' @ (w, False) # cs) q' ?e"
      using heap_seg_merge [OF seg' refl refl] unfolding h'(1) by blast
    moreover have "lfree h = first_free (as' @ (w, False) # cs) ?e"
      using lf by (simp add: first_free_append as)
    ultimately have "freeing w as' cs (plug_backward x h)"
      using h' e by (auto simp: freeing_def)
    moreover have "same_blocks {w} h (plug_backward x h)"
      using h'(3) by (auto simp: same_blocks_def h'(1))
    ultimately show ?thesis
      using as by blast
  next
    case False
    have "prev (hdr h x) = x \<or> used (hdr h (prev (hdr h x))) \<noteq> 0"
      using seg False by (cases as rule: rev_cases) auto
    then have "plug_backward x h = h"
      by (auto simp: plug_backward_def)
    then show ?thesis
      using f False by (auto simp: same_blocks_def)
  qed
qed

lemma rt_free_ok:
  assumes inv: "heap_inv h (as @ (x, True) # cs)"
  shows "\<exists>h' bs'. rt_free (Some (x + 12)) h = Some h' \<and> heap_inv h' bs' \<and> filter snd bs' = filter snd (as @ cs) \<and>
    (\<forall>i. (i, True) \<in> set bs' \<longrightarrow> next' (hdr h' i) = next' (hdr h i)) \<and> mem_size_aligned h' = mem_size_aligned h"
proof -
  let ?e = "heap_end h"
  obtain q where seg: "heap_seg (hdr h) 0 0 (as @ (x, True) # cs) q ?e" and holes: "no_holes (as @ (x, True) # cs)"
    and lf: "lfree h = first_free (as @ (x, True) # cs) ?e" and e: "used (hdr h ?e) \<noteq> 0" "?e < 2 ^ 32" "?e mod 4 = 0"
    using inv by (auto simp: heap_inv_def)
  obtain p where as: "heap_seg (hdr h) 0 0 as p x" and x: "prev (hdr h x) = p" "magic (hdr h x) = HEAP_MAGIC" "used (hdr h x) \<noteq> 0"
    "x mod 4 = 0" "x + 24 \<le> next' (hdr h x)" and cs: "heap_seg (hdr h) x (next' (hdr h x)) cs q ?e"
    using seg by auto
  let ?m = "(hdr h)(x := (hdr h x)\<lparr>used := 0, magic := HEAP_MAGIC\<rparr>)"
  let ?h1 = "h\<lparr>hdr := ?m, lfree := (if x < lfree h then x else lfree h),
    used_mem := used_mem h - of_nat (sub32 (next' (hdr h x)) x)\<rparr>"
  have le: "x + 24 \<le> ?e"
    using heap_seg_offsets [OF cs] x(5) by simp
  have segs: "heap_seg ?m 0 0 as p x" "heap_seg ?m x (next' (hdr h x)) cs q ?e"
    using heap_seg_below [OF as order_refl] heap_seg_above [OF cs] x(5) by simp_all
  then have seg1: "heap_seg ?m 0 0 (as @ (x, False) # cs) q ?e"
    using x by auto
  have low: "(if x < lfree h then x else lfree h) = first_free (as @ (x, False) # cs) ?e"
  proof (cases "\<forall>b \<in> set as. snd b")
    case True
    then have "lfree h = first_free cs ?e" using lf by (simp add: first_free_append)
    moreover have "x < first_free cs ?e"
      using first_free_mem [of cs ?e] heap_seg_offsets [OF cs] x(5) le by fastforce
    ultimately show ?thesis using True by (simp add: first_free_append)
  next
    case False
    then have "first_free (as @ (x, False) # cs) ?e = lfree h"
      using lf by (auto simp: first_free_append)
    then show ?thesis
      using first_free_le [OF seg1] by simp
  qed
  have e1: "heap_end ?h1 = ?e" by (simp add: heap_end_def)
  then have f1: "freeing x as cs ?h1"
    using seg1 low e(1) le by (auto simp: freeing_def)
  obtain cs' where f2: "freeing x as cs' (plug_forward x ?h1)" "same_blocks {x} ?h1 (plug_forward x ?h1)"
    "cs' = cs \<and> (cs \<noteq> [] \<longrightarrow> snd (hd cs)) \<or> (\<exists>y. cs = (y, False) # cs')"
    using plug_forward_ok [OF f1] by blast
  obtain as' z where f3: "freeing z as' cs' (plug_backward x (plug_forward x ?h1))"
    "as' = as \<and> z = x \<and> (as \<noteq> [] \<longrightarrow> snd (last as)) \<or> as = as' @ [(z, False)]"
    "same_blocks {z} (plug_forward x ?h1) (plug_backward x (plug_forward x ?h1))"
    using plug_backward_ok [OF f2(1)] by blast
  let ?h' = "plug_backward x (plug_forward x ?h1)"
  have size: "mem_size_aligned ?h' = mem_size_aligned h" "heap_end ?h' = ?e"
    using f2(2) f3(3) e1 by (simp_all add: same_blocks_def heap_end_def)
  have "rt_free (Some (x + 12)) h = Some ?h'"
    using x le mod_add_eq [of x 4 12] by (simp add: rt_free_def plug_holes_def upd_hdr_def SIZEOF_STRUCT_MEM_def e1 Let_def heap_end_def)
  moreover have "no_holes (as' @ (z, False) # cs')"
    using holes f2(3) f3(2) by auto
  then have "heap_inv ?h' (as' @ (z, False) # cs')"
    using f3(1) size e by (auto simp: heap_inv_def freeing_def)
  moreover have "filter snd (as' @ (z, False) # cs') = filter snd (as @ cs)"
    using f2(3) f3(2) by auto
  moreover have "next' (hdr ?h' i) = next' (hdr h i)" if i: "(i, True) \<in> set (as' @ (z, False) # cs')" for i
  proof -
    have "(i, True) \<in> set as \<or> (i, True) \<in> set cs"
      using i f2(3) f3(2) by auto
    then have "i \<noteq> x"
      using heap_seg_offsets [OF as] heap_seg_offsets [OF cs] x(5) by fastforce
    moreover have "used (hdr ?h' i) \<noteq> 0" "used (hdr ?h' z) = 0"
      using f3(1) i heap_seg_used unfolding freeing_def by fastforce+
    then have "i \<noteq> z" by auto
    ultimately show ?thesis
      using f2(2) f3(3) by (auto simp: same_blocks_def)
  qed
  ultimately show ?thesis
    using size(1) by blast
qed

end
