(* ===== verification/Rt_Mem_Use.thy ===== *)
theory Rt_Mem_Use
  imports Rt_Mem_Alloc
begin

text \<open>
  What users of the heap rely on, stated as a locale; and requests that the heap serves in a way
  its users cannot expect.
\<close>

section \<open>The contract of an allocator\<close>

text \<open>
  A user of an allocator: it asks for blocks and gives back blocks that it owns, in any order. \<open>own\<close>
  are its blocks, each with the size it asked for.
\<close>

datatype heap_use = Ask "32 word" | Give_Back nat

fun session :: "(32 word \<Rightarrow> 'h \<Rightarrow> (nat option \<times> 'h) option) \<Rightarrow> (nat \<Rightarrow> 'h \<Rightarrow> 'h option) \<Rightarrow>
    heap_use list \<Rightarrow> (nat \<times> 32 word) list \<Rightarrow> 'h \<Rightarrow> ((nat \<times> 32 word) list \<times> 'h) option" where
  "session alloc release [] own h = Some (own, h)"
| "session alloc release (Ask n # us) own h = do {
     (r, h) \<leftarrow> alloc n h;
     session alloc release us (case r of None \<Rightarrow> own | Some p \<Rightarrow> (p, n) # own) h
   }"
| "session alloc release (Give_Back i # us) own h =
    (if i < length own
     then do { h \<leftarrow> release (fst (own ! i)) h; session alloc release us (take i own @ drop (i + 1) own) h }
     else session alloc release us own h)"

text \<open>
  \<open>live_blocks h\<close> are the addresses that have been handed out; \<open>room h p\<close> is the end of the block at \<open>p\<close>.
\<close>

locale allocator =
  fixes alloc :: "32 word \<Rightarrow> 'h \<Rightarrow> (nat option \<times> 'h) option" and release :: "nat \<Rightarrow> 'h \<Rightarrow> 'h option"
    and inv :: "'h \<Rightarrow> bool" and live_blocks :: "'h \<Rightarrow> nat set" and room :: "'h \<Rightarrow> nat \<Rightarrow> nat" and cap lim :: nat
  assumes alloc_total: "inv h \<Longrightarrow> \<exists>r h'. alloc n h = Some (r, h') \<and> inv h' \<and> (r = None \<longrightarrow> h' = h)"
    and alloc_fresh: "inv h \<Longrightarrow> alloc n h = Some (Some p, h') \<Longrightarrow>
      p \<notin> live_blocks h \<and> live_blocks h' = insert p (live_blocks h) \<and> (n \<le> 0xFFFFFFFC \<longrightarrow> p + unat n \<le> room h' p) \<and>
      (\<forall>q \<in> live_blocks h. room h' q = room h q)"
    and release_ok: "inv h \<Longrightarrow> p \<in> live_blocks h \<Longrightarrow>
      \<exists>h'. release p h = Some h' \<and> inv h' \<and> live_blocks h' = live_blocks h - {p} \<and> (\<forall>q \<in> live_blocks h'. room h' q = room h q)"
    and bounded: "inv h \<Longrightarrow> finite (live_blocks h) \<and> card (live_blocks h) \<le> cap"
    and disjoint: "inv h \<Longrightarrow> p \<in> live_blocks h \<Longrightarrow> q \<in> live_blocks h \<Longrightarrow> p < q \<Longrightarrow> room h p \<le> q"
    and inside: "inv h \<Longrightarrow> p \<in> live_blocks h \<Longrightarrow> room h p \<le> lim"
begin

text \<open>The blocks of a user are live, different, and have the room that was asked for.\<close>

definition owns :: "(nat \<times> 32 word) list \<Rightarrow> 'h \<Rightarrow> bool" where
  "owns own h \<longleftrightarrow> distinct (map fst own) \<and>
     (\<forall>(p, n) \<in> set own. p \<in> live_blocks h \<and> (n \<le> 0xFFFFFFFC \<longrightarrow> p + unat n \<le> room h p))"

lemma owns_alloc:
  assumes "inv h" "owns own h" "alloc n h = Some (Some p, h')"
  shows "owns ((p, n) # own) h'"
  using alloc_fresh [OF assms(1,3)] assms(2) unfolding owns_def by fastforce

lemma owns_release:
  assumes "owns (as @ (p, n) # bs) h" "live_blocks h' = live_blocks h - {p}" "\<forall>q \<in> live_blocks h'. room h' q = room h q"
  shows "owns (as @ bs) h'"
  unfolding owns_def
proof (intro conjI ballI)
  show "distinct (map fst (as @ bs))" using assms(1) by (simp add: owns_def)
  fix b assume b: "b \<in> set (as @ bs)"
  obtain q m where qm: "b = (q, m)" by (cases b)
  have "distinct (map fst (as @ (p, n) # bs))" using assms(1) by (simp only: owns_def)
  then have "p \<notin> fst ` set (as @ bs)" by auto
  moreover have "q \<in> fst ` set (as @ bs)" using b qm by (metis fst_conv imageI)
  ultimately have "q \<noteq> p" by auto
  moreover have "q \<in> live_blocks h" "m \<le> 0xFFFFFFFC \<longrightarrow> q + unat m \<le> room h q"
    using assms(1) b qm by (auto simp: owns_def)
  ultimately show "case b of (p, n) \<Rightarrow> p \<in> live_blocks h' \<and> (n \<le> 0xFFFFFFFC \<longrightarrow> p + unat n \<le> room h' p)"
    using assms(2,3) qm by simp
qed

lemma session_owns:
  assumes "inv h" "owns own h"
  shows "\<exists>own' h'. session alloc release us own h = Some (own', h') \<and> inv h' \<and> owns own' h'"
  using assms
proof (induction us arbitrary: own h)
  case (Cons u us)
  show ?case
  proof (cases u)
    case (Ask n)
    obtain r h1 where h1: "alloc n h = Some (r, h1)" "inv h1" "r = None \<longrightarrow> h1 = h"
      using alloc_total [OF Cons.prems(1)] by blast
    then have "owns (case r of None \<Rightarrow> own | Some p \<Rightarrow> (p, n) # own) h1"
      using owns_alloc [OF Cons.prems] Cons.prems(2) by (auto split: option.splits)
    from Cons.IH [OF h1(2) this] show ?thesis
      using Ask h1(1) by simp
  next
    case (Give_Back i)
    show ?thesis
    proof (cases "i < length own")
      case True
      obtain p n where pn: "own ! i = (p, n)" by (cases "own ! i")
      then have split: "own = take i own @ (p, n) # drop (i + 1) own"
        using id_take_nth_drop [OF True] by simp
      then have "p \<in> live_blocks h"
        using Cons.prems(2) pn nth_mem [OF True] by (auto simp: owns_def)
      then obtain h1 where h1: "release p h = Some h1" "inv h1" "live_blocks h1 = live_blocks h - {p}" "\<forall>q \<in> live_blocks h1. room h1 q = room h q"
        using release_ok [OF Cons.prems(1)] by blast
      have "owns (take i own @ drop (i + 1) own) h1"
        using owns_release [OF _ h1(3,4)] Cons.prems(2) split by metis
      from Cons.IH [OF h1(2) this] show ?thesis
        using Give_Back True pn h1(1) by simp
    next
      case False
      then show ?thesis using Give_Back Cons.IH [OF Cons.prems] by simp
    qed
  qed
qed simp

text \<open>So they do not overlap and lie inside the memory of the allocator.\<close>

lemma owns_disjoint:
  assumes "inv h" "owns own h" "(p, n) \<in> set own" "n \<le> 0xFFFFFFFC"
  shows "p + unat n \<le> lim" "(q, m) \<in> set own \<Longrightarrow> p < q \<Longrightarrow> p + unat n \<le> q"
  using assms disjoint [OF assms(1), of p q] inside [OF assms(1), of p] unfolding owns_def by fastforce+

text \<open>A user that never gives back; its requests are \<open>ns\<close>.\<close>

fun alloc_all :: "32 word list \<Rightarrow> 'h \<Rightarrow> (nat option list \<times> 'h) option" where
  "alloc_all [] h = Some ([], h)"
| "alloc_all (n # ns) h = do {
     (r, h) \<leftarrow> alloc n h;
     (rs, h) \<leftarrow> alloc_all ns h;
     Some (r # rs, h)
   }"

lemma alloc_all_live:
  assumes "inv h"
  shows "\<exists>rs h'. alloc_all ns h = Some (rs, h') \<and> inv h' \<and> live_blocks h \<subseteq> live_blocks h' \<and>
    card (live_blocks h') = card (live_blocks h) + length (filter (\<lambda>r. r \<noteq> None) rs) \<and> length rs = length ns"
  using assms
proof (induction ns arbitrary: h)
  case (Cons n ns)
  obtain r h1 where h1: "alloc n h = Some (r, h1)" "inv h1" "r = None \<longrightarrow> h1 = h"
    using alloc_total [OF Cons.prems] by blast
  obtain rs h2 where h2: "alloc_all ns h1 = Some (rs, h2)" "inv h2" "live_blocks h1 \<subseteq> live_blocks h2"
    "card (live_blocks h2) = card (live_blocks h1) + length (filter (\<lambda>r. r \<noteq> None) rs)" "length rs = length ns"
    using Cons.IH [OF h1(2)] by blast
  have "live_blocks h \<subseteq> live_blocks h1 \<and> card (live_blocks h1) = card (live_blocks h) + (if r = None then 0 else 1)"
    using h1 alloc_fresh [OF Cons.prems, of n] bounded [OF Cons.prems] by (cases r) auto
  with h1 h2 show ?case
    by (auto split: if_splits)
qed simp

text \<open>At most \<open>cap\<close> of its requests are served.\<close>

lemma leak_exhausts:
  assumes "inv h" "alloc_all ns h = Some (rs, h')"
  shows "length (filter (\<lambda>r. r \<noteq> None) rs) \<le> cap - card (live_blocks h)"
  using alloc_all_live [OF assms(1), of ns] assms(2) bounded [of h'] by auto

end

section \<open>The heap as an allocator\<close>

definition heap_ok :: "nat \<Rightarrow> mem_heap \<Rightarrow> bool" where
  "heap_ok m h \<longleftrightarrow> mem_size_aligned h = m \<and> (\<exists>bs. heap_inv h bs)"

definition live_blocks :: "mem_heap \<Rightarrow> nat set" where
  "live_blocks h = {x + 12 | x bs. heap_inv h bs \<and> (x, True) \<in> set bs}"

definition room :: "mem_heap \<Rightarrow> nat \<Rightarrow> nat" where
  "room h p = next' (hdr h (p - 12))"

lemma heap_seg_unique: "heap_seg m p x bs q y \<Longrightarrow> heap_seg m p x bs' q' y \<Longrightarrow> bs' = bs"
proof (induction bs arbitrary: p x bs')
  case Nil
  then show ?case
    using heap_seg_offsets [of m p x bs' q' y] by (cases bs') fastforce+
next
  case (Cons b bs)
  obtain k u where b: "b = (k, u)" by (cases b)
  have "bs' \<noteq> []"
    using Cons.prems heap_seg_offsets [OF Cons.prems(1)] b by auto
  then obtain b' cs where b': "bs' = b' # cs" by (cases bs') auto
  obtain k' u' where "b' = (k', u')" by (cases b')
  with Cons b b' show ?case by auto
qed

lemma live_eq:
  assumes "heap_inv h bs"
  shows "live_blocks h = {x + 12 | x. (x, True) \<in> set bs}"
proof -
  have "bs' = bs" if "heap_inv h bs'" for bs'
    using assms that heap_seg_unique unfolding heap_inv_def by blast
  with assms show ?thesis
    unfolding live_blocks_def by blast
qed

lemma blocks_bound:
  assumes "heap_seg m p x bs q y"
  shows "24 * length bs \<le> y - x"
  using assms
proof (induction bs arbitrary: p x)
  case (Cons b bs)
  obtain k u where b: "b = (k, u)" by (cases b)
  then have "heap_seg m k (next' (m k)) bs q y" "k = x" "x + 24 \<le> next' (m k)"
    using Cons.prems by auto
  moreover from this have "next' (m k) \<le> y"
    using heap_seg_offsets by blast
  ultimately show ?case
    using Cons.IH [of k "next' (m k)"] by simp
qed simp

lemma rt_align_ge:
  assumes "s \<le> 0xFFFFFFFC"
  shows "unat s \<le> unat (rt_align s)"
proof -
  have m: "(3 :: 32 word) = mask 2" by (simp add: mask_eq_exp_minus_1)
  have "Suc (Suc (i - 2)) = i" if "\<not> i < 2" for i
    using that by arith
  then have "push_bit 2 (drop_bit 2 (s + 3)) = (s + 3) AND NOT (mask 2)"
    by (intro bit_eqI) (auto simp: bit_push_bit_iff bit_drop_bit_eq bit_and_iff bit_not_iff bit_mask_iff)
  then have "rt_align s = s + 3 - take_bit 2 (s + 3)"
    using bits_ident [of 2 "s + 3"] by (simp add: rt_align_def m eq_diff_eq add.commute)
  moreover have "unat (take_bit 2 (s + 3)) = unat (s + 3) mod 4"
    using unsigned_take_bit_eq [of 2 "s + 3", where 'a = nat] by (simp add: take_bit_eq_mod)
  moreover from this have "take_bit 2 (s + 3) \<le> s + 3"
    by (simp add: word_le_nat_alt)
  ultimately have "unat (rt_align s) = unat (s + 3) - unat (s + 3) mod 4"
    by (simp add: unat_sub)
  moreover have "unat (s + 3) = unat s + 3"
  proof -
    have "unat s \<le> 0xFFFFFFFC" using assms by (simp add: word_le_nat_alt)
    then show ?thesis by (simp add: unat_word_ariths)
  qed
  ultimately show ?thesis by linarith
qed

lemma malloc_fresh:
  assumes inv: "heap_inv h bs" and r: "rt_malloc n h = Some (Some p, h')"
  shows "\<exists>bs'. heap_inv h' bs' \<and> mem_size_aligned h' = mem_size_aligned h \<and> p \<notin> live_blocks h \<and> live_blocks h' = insert p (live_blocks h) \<and>
    p + max (unat (rt_align n)) 12 \<le> room h' p \<and> (\<forall>q \<in> live_blocks h. room h' q = room h q)"
proof -
  have n0: "n \<noteq> 0" using r by (auto simp: rt_malloc_def)
  let ?n = "max (unat (rt_align n)) 12"
  obtain as x cs cs' where m: "p = x + 12" "bs = as @ (x, False) # cs"
    "heap_inv h' (as @ (x, True) # cs')" "cs' = cs \<or> cs' = (x + 12 + ?n, False) # cs"
    "x + 12 + ?n \<le> next' (hdr h' x)" "same_blocks {x..<next' (hdr h x)} h h'"
    using rt_malloc_ok [OF inv n0 refl] r by auto
  obtain q where seg: "heap_seg (hdr h) 0 0 bs q (heap_end h)"
    using inv by (auto simp: heap_inv_def)
  have lv: "live_blocks h = {i + 12 | i. (i, True) \<in> set bs}" "live_blocks h' = {i + 12 | i. (i, True) \<in> set (as @ (x, True) # cs')}"
    using live_eq inv m(3) by blast+
  have notx: "(x, True) \<notin> set bs"
    using seg heap_seg_used m(2) by (metis in_set_conv_decomp)
  have keep: "next' (hdr h' i) = next' (hdr h i)" if "(i, True) \<in> set bs" for i
  proof -
    have "i \<noteq> x" using that notx by auto
    moreover have "(x, False) \<in> set bs" using m(2) by simp
    ultimately have "i < x \<or> next' (hdr h x) \<le> i"
      using heap_seg_disjoint [OF seg _ that, of x False] by force
    then show ?thesis
      using m(6) by (auto simp: same_blocks_def)
  qed
  have "live_blocks h' = insert p (live_blocks h)"
    unfolding lv using m(1,2,4) by auto
  moreover have "p \<notin> live_blocks h"
    unfolding lv m(1) using notx by auto
  moreover have "\<forall>q \<in> live_blocks h. room h' q = room h q"
    unfolding lv room_def using keep by auto
  moreover have "mem_size_aligned h' = mem_size_aligned h"
    using m(6) by (simp add: same_blocks_def)
  ultimately show ?thesis
    using m(1,3,5) by (auto simp: room_def)
qed

lemma free_live:
  assumes inv: "heap_inv h bs" and p: "p \<in> live_blocks h"
  shows "\<exists>h' bs'. rt_free (Some p) h = Some h' \<and> heap_inv h' bs' \<and> mem_size_aligned h' = mem_size_aligned h \<and>
    live_blocks h' = live_blocks h - {p} \<and> (\<forall>q \<in> live_blocks h'. room h' q = room h q)"
proof -
  obtain x where x: "p = x + 12" "(x, True) \<in> set bs"
    using p live_eq [OF inv] by auto
  then obtain as cs where bs: "bs = as @ (x, True) # cs"
    by (meson split_list)
  obtain h' bs' where h': "rt_free (Some (x + 12)) h = Some h'" "heap_inv h' bs'" "filter snd bs' = filter snd (as @ cs)"
    "\<forall>i. (i, True) \<in> set bs' \<longrightarrow> next' (hdr h' i) = next' (hdr h i)" "mem_size_aligned h' = mem_size_aligned h"
    using rt_free_ok [OF inv [unfolded bs]] by blast
  obtain q where seg: "heap_seg (hdr h) 0 0 (as @ (x, True) # cs) q (heap_end h)"
    using inv bs by (auto simp: heap_inv_def)
  then obtain p' where as: "heap_seg (hdr h) 0 0 as p' x" and cs: "heap_seg (hdr h) x (next' (hdr h x)) cs q (heap_end h)"
    "x < next' (hdr h x)"
    by auto
  have "(i, True) \<in> set (filter snd bs') \<longleftrightarrow> (i, True) \<in> set (filter snd (as @ cs))" for i
    by (simp only: h'(3))
  then have "(i, True) \<in> set bs' \<longleftrightarrow> (i, True) \<in> set (as @ cs)" for i
    by simp
  moreover have "(x, True) \<notin> set (as @ cs)"
    using heap_seg_offsets [OF as] heap_seg_offsets [OF cs(1)] cs(2) by fastforce
  ultimately have "(i, True) \<in> set bs' \<longleftrightarrow> (i, True) \<in> set bs \<and> i \<noteq> x" for i
    unfolding bs by auto
  then have "{i + 12 | i. (i, True) \<in> set bs'} = {i + 12 | i. (i, True) \<in> set bs \<and> i \<noteq> x}"
    by (simp only:)
  also have "\<dots> = {i + 12 | i. (i, True) \<in> set bs} - {x + 12}"
    by (rule set_eqI) (simp, metis add_right_cancel)
  finally have "live_blocks h' = live_blocks h - {p}"
    unfolding live_eq [OF h'(2)] live_eq [OF inv] x(1) .
  moreover have "room h' q = room h q" if "q \<in> live_blocks h'" for q
    using that h'(4) unfolding live_eq [OF h'(2)] room_def by auto
  ultimately show ?thesis
    using h' x(1) by blast
qed

lemma live_bounded:
  assumes "heap_inv h bs"
  shows "finite (live_blocks h)" "card (live_blocks h) \<le> (mem_size_aligned h + 12) div 24"
proof -
  obtain q where seg: "heap_seg (hdr h) 0 0 bs q (heap_end h)"
    using assms by (auto simp: heap_inv_def)
  have sub: "live_blocks h \<subseteq> (\<lambda>b. fst b + 12) ` set bs"
    unfolding live_eq [OF assms] by force
  then show "finite (live_blocks h)" using finite_subset by blast
  have "card (live_blocks h) \<le> length bs"
    using card_mono [OF _ sub] card_image_le [of "set bs" "\<lambda>b. fst b + 12"] card_length [of bs] by fastforce
  moreover have "24 * length bs \<le> mem_size_aligned h + 12"
    using blocks_bound [OF seg] by (simp add: heap_end_def SIZEOF_STRUCT_MEM_def)
  ultimately show "card (live_blocks h) \<le> (mem_size_aligned h + 12) div 24"
    by linarith
qed

lemma live_disjoint:
  assumes "heap_inv h bs" "p \<in> live_blocks h" "q \<in> live_blocks h" "p < q"
  shows "room h p + 12 \<le> q"
proof -
  obtain x y where "p = x + 12" "q = y + 12" "(x, True) \<in> set bs" "(y, True) \<in> set bs"
    using assms(2,3) live_eq [OF assms(1)] by auto
  moreover obtain l where "heap_seg (hdr h) 0 0 bs l (heap_end h)"
    using assms(1) by (auto simp: heap_inv_def)
  ultimately show ?thesis
    using heap_seg_disjoint assms(4) by (fastforce simp: room_def)
qed

interpretation heap: allocator rt_malloc "\<lambda>p. rt_free (Some p)" "heap_ok m" live_blocks room "(m + 12) div 24" "m + 12" for m
proof unfold_locales
  fix h n assume "heap_ok m h"
  then obtain bs where bs: "heap_inv h bs" "mem_size_aligned h = m" by (auto simp: heap_ok_def)
  show "\<exists>r h'. rt_malloc n h = Some (r, h') \<and> heap_ok m h' \<and> (r = None \<longrightarrow> h' = h)"
  proof (cases "n = 0")
    case False
    then show ?thesis
      using rt_malloc_ok [OF bs(1) False refl] bs by (fastforce simp: heap_ok_def same_blocks_def)
  next
    case True
    then show ?thesis
      using bs by (auto simp: rt_malloc_def heap_ok_def)
  qed
next
  fix h n p h' assume ok: "heap_ok m h" and r: "rt_malloc n h = Some (Some p, h')"
  obtain bs where bs: "heap_inv h bs" using ok by (auto simp: heap_ok_def)
  from malloc_fresh [OF bs r] rt_align_ge [of n]
  show "p \<notin> live_blocks h \<and> live_blocks h' = insert p (live_blocks h) \<and> (n \<le> 0xFFFFFFFC \<longrightarrow> p + unat n \<le> room h' p) \<and>
      (\<forall>q \<in> live_blocks h. room h' q = room h q)"
    by auto
next
  fix h p assume "heap_ok m h" "p \<in> live_blocks h"
  then show "\<exists>h'. rt_free (Some p) h = Some h' \<and> heap_ok m h' \<and> live_blocks h' = live_blocks h - {p} \<and> (\<forall>q \<in> live_blocks h'. room h' q = room h q)"
    using free_live unfolding heap_ok_def by metis
next
  fix h assume "heap_ok m h"
  then show "finite (live_blocks h) \<and> card (live_blocks h) \<le> (m + 12) div 24"
    using live_bounded unfolding heap_ok_def by blast
next
  fix h p q assume "heap_ok m h" "p \<in> live_blocks h" "q \<in> live_blocks h" "p < q"
  then show "room h p \<le> q"
    using live_disjoint unfolding heap_ok_def by fastforce
next
  fix h p assume "heap_ok m h" "p \<in> live_blocks h"
  then obtain bs where bs: "heap_inv h bs" and m: "heap_end h = m + 12"
    by (auto simp: heap_ok_def heap_end_def SIZEOF_STRUCT_MEM_def)
  then obtain l where seg: "heap_seg (hdr h) 0 0 bs l (heap_end h)"
    by (auto simp: heap_inv_def)
  with m \<open>p \<in> live_blocks h\<close> show "room h p \<le> m + 12"
    using heap_seg_offsets [OF seg] live_eq [OF bs] by (fastforce simp: room_def)
qed

lemma heap_init_ok:
  assumes "rt_system_heap_init old b e = Some h" "12 \<le> mem_size_aligned h"
  shows "heap_inv h [(0, False)]"
proof -
  define ba where "ba = (b + 4 - 1) AND NOT (4 - 1 :: 32 word)"
  define ea where "ea = e AND NOT (4 - 1 :: 32 word)"
  define n where "n = unat (ea - ba - 24)"
  have h: "h = \<lparr> hdr = old(0 := \<lparr> magic = HEAP_MAGIC, used = 0, next' = n + 12, prev = 0 \<rparr>,
           n + 12 := \<lparr> magic = HEAP_MAGIC, used = 1, next' = n + 12, prev = n + 12 \<rparr>),
         mem_size_aligned = n, lfree = 0, used_mem = 0, max_mem = 0 \<rparr>"
    and le: "24 < ea" "ba \<le> ea - 24"
    using assms(1) by (simp_all add: rt_system_heap_init_def Let_def SIZEOF_STRUCT_MEM_def ba_def ea_def n_def split: if_splits)
  have m: "(3 :: 32 word) = mask 2" by (simp add: mask_eq_exp_minus_1)
  have low: "unat (w AND NOT 3) mod 4 = 0" for w :: "32 word"
  proof -
    have "take_bit 2 (w AND NOT 3) = 0"
      by (intro bit_eqI) (auto simp: m bit_take_bit_iff bit_and_iff bit_not_iff bit_mask_iff)
    then have "take_bit 2 (unat (w AND NOT 3)) = 0"
      using unsigned_take_bit_eq [of 2 "w AND NOT 3", where 'a = nat] by simp
    then show ?thesis by (simp add: take_bit_eq_mod)
  qed
  have "24 \<le> ea" using le(1) by simp
  then have "unat (ea - 24) = unat ea - 24" by (simp add: unat_sub)
  moreover have "unat (ea - 24 - ba) = unat (ea - 24) - unat ba" using le(2) by (simp add: unat_sub)
  moreover have "ea - ba - 24 = ea - 24 - ba" by simp
  then have "n = unat (ea - 24 - ba)" unfolding n_def by (rule arg_cong)
  ultimately have n: "n = unat ea - 24 - unat ba" "unat ba \<le> unat ea - 24" "24 < unat ea"
    using le by (simp_all add: word_le_nat_alt word_less_nat_alt)
  have "unat ea mod 4 = 0" "unat ba mod 4 = 0"
    using low by (simp_all add: ea_def ba_def)
  then have "(n + 12) mod 4 = 0"
    using n by presburger
  moreover have "n + 12 < 2 ^ 32"
    using n unsigned_less [of ea, where 'a = nat] by simp
  moreover have "12 \<le> n" using assms(2) h by simp
  ultimately show ?thesis
    by (simp add: heap_inv_def h heap_end_def SIZEOF_STRUCT_MEM_def)
qed

text \<open>The heap as it is initialised serves every user.\<close>

definition disjoint_blocks :: "nat \<Rightarrow> (nat \<times> 32 word) list \<Rightarrow> bool" where
  "disjoint_blocks lim own \<longleftrightarrow> distinct (map fst own) \<and> (\<forall>(p, n) \<in> set own. p + unat n \<le> lim \<and>
     (\<forall>(q, m) \<in> set own. p < q \<longrightarrow> p + unat n \<le> q))"

lemma session_sizes:
  "session a f us own h = Some (own', h') \<Longrightarrow> \<forall>u \<in> set us. \<forall>n. u = Ask n \<longrightarrow> P n \<Longrightarrow> \<forall>(p, n) \<in> set own. P n \<Longrightarrow>
    \<forall>(p, n) \<in> set own'. P n"
proof (induction us arbitrary: own h)
  case (Cons u us)
  show ?case
  proof (cases u)
    case (Ask n)
    with Cons.prems(1) obtain r h1 where r: "session a f us (case r of None \<Rightarrow> own | Some p \<Rightarrow> (p, n) # own) h1 = Some (own', h')"
      by (auto split: Option.bind_splits)
    have "\<forall>(p, n) \<in> set (case r of None \<Rightarrow> own | Some p \<Rightarrow> (p, n) # own). P n"
      using Cons.prems(2,3) Ask by (cases r) simp_all
    from Cons.IH [OF r _ this] Cons.prems(2) show ?thesis by simp
  next
    case (Give_Back i)
    show ?thesis
    proof (cases "i < length own")
      case True
      then obtain h1 where r: "session a f us (take i own @ drop (i + 1) own) h1 = Some (own', h')"
        using Cons.prems(1) Give_Back by (auto split: Option.bind_splits)
      have "set (take i own @ drop (i + 1) own) \<subseteq> set own"
        using set_take_subset set_drop_subset by fastforce
      with Cons.prems(3) have "\<forall>(p, n) \<in> set (take i own @ drop (i + 1) own). P n"
        by (meson subset_iff)
      from Cons.IH [OF r _ this] Cons.prems(2) show ?thesis by simp
    next
      case False
      then show ?thesis using Cons Give_Back by simp
    qed
  qed
qed simp

lemma heap_sessions:
  assumes "rt_system_heap_init old b e = Some h" "12 \<le> mem_size_aligned h"
    and small: "\<forall>u \<in> set us. \<forall>n. u = Ask n \<longrightarrow> n \<le> 0xFFFFFFFC"
  shows "\<exists>own h'. session rt_malloc (\<lambda>p. rt_free (Some p)) us [] h = Some (own, h') \<and>
    disjoint_blocks (mem_size_aligned h + 12) own"
proof -
  have ok: "heap_ok (mem_size_aligned h) h"
    using heap_init_ok [OF assms(1,2)] by (auto simp: heap_ok_def)
  moreover have "heap.owns [] h" by (simp add: heap.owns_def)
  ultimately obtain own h' where s: "session rt_malloc (\<lambda>p. rt_free (Some p)) us [] h = Some (own, h')"
    "heap_ok (mem_size_aligned h) h'" "heap.owns own h'"
    using heap.session_owns by blast
  have "\<forall>(p, n) \<in> set own. n \<le> 0xFFFFFFFC"
    by (rule session_sizes [OF s(1) small]) simp
  then have "disjoint_blocks (mem_size_aligned h + 12) own"
    using heap.owns_disjoint [OF s(2,3)] s(3) unfolding disjoint_blocks_def heap.owns_def by blast
  with s(1) show ?thesis by blast
qed

section \<open>Requests that are served wrongly\<close>

text \<open>Rounding up a request of nearly \<open>2 ^ 32\<close> bytes overflows: it is served as a request of one byte.\<close>

lemma huge_request:
  assumes "0xFFFFFFFC < s" "4 \<le> mem_size_aligned h"
  shows "rt_malloc s h = rt_malloc 1 h"
proof -
  have "unat s = 0xFFFFFFFD \<or> unat s = 0xFFFFFFFE \<or> unat s = 0xFFFFFFFF"
    using assms(1) unsigned_less [of s, where 'a = nat] by (auto simp: word_less_nat_alt)
  then have "s = 0xFFFFFFFD \<or> s = 0xFFFFFFFE \<or> s = 0xFFFFFFFF"
    by (simp add: word_unat_eq_iff)
  then have "rt_align s = 0" "s \<noteq> 0" by (auto simp: rt_align_def)
  moreover have "rt_align 1 = 4" by (simp add: rt_align_def)
  ultimately show ?thesis
    using assms(2) by (simp add: rt_malloc_def Let_def MIN_SIZE_ALIGNED_def)
qed

lemma malloc_above_lfree:
  assumes seg: "heap_seg (hdr h) p x bs q (heap_end h)" "heap_end h < 2 ^ 32" "lfree h = first_free bs (heap_end h)"
    and M: "12 \<le> mem_size_aligned h" and r: "rt_malloc s h = Some (Some a, h')"
  shows "x \<le> a"
proof -
  let ?n = "max (unat (rt_align s)) 12"
  have s: "s \<noteq> 0" "?n \<le> mem_size_aligned h"
    using r M by (auto simp: rt_malloc_def Let_def split: if_splits)
  then have "sub32 (mem_size_aligned h) ?n = mem_size_aligned h - ?n"
    using seg(2) by (intro sub32_le) (auto simp: heap_end_def)
  moreover obtain us rest p' where split: "bs = us @ rest" and rest: "heap_seg (hdr h) p' (lfree h) rest q (heap_end h)"
    using heap_seg_first_free [OF seg(1)] seg(3) by auto
  ultimately have "malloc_search ?n (sub32 (mem_size_aligned h) ?n) (lfree h) h =
      Some (first_fit (hdr h) ?n (mem_size_aligned h - ?n) rest)"
    using malloc_search_ok [OF rest seg(2), of "mem_size_aligned h - ?n" ?n] by (simp add: heap_end_def)
  then obtain b where b: "first_fit (hdr h) ?n (mem_size_aligned h - ?n) rest = Some b" "a = b + 12"
    using r s by (auto simp: rt_malloc_def Let_def MIN_SIZE_ALIGNED_def SIZEOF_STRUCT_MEM_def
        split: option.splits if_splits Option.bind_splits)
  then have "(b, False) \<in> set bs"
    using first_fit_Some [OF b(1)] split by auto
  then show ?thesis
    using heap_seg_offsets [OF seg(1)] b(2) by fastforce
qed

lemma realloc_shrinks:
  assumes "n = unat (rt_align newsize)" "0 < n" "n \<le> mem_size_aligned h"
    and "sub32 (sub32 (next' (hdr h x)) x) 12 = sz" "x + 12 < heap_end h \<and> n + 24 < sz"
    and "plug_holes (x + 12 + n) (h\<lparr>used_mem := used_mem h - of_nat (sz - n),
      hdr := (let m1 = (hdr h)(x + 12 + n := \<lparr> magic = HEAP_MAGIC, used = 0, next' = next' (hdr h x), prev = x \<rparr>,
          x := (hdr h x)\<lparr>next' := x + 12 + n\<rparr>) in
        if next' (hdr h x) \<noteq> heap_end h then m1(next' (hdr h x) := (m1 (next' (hdr h x)))\<lparr>prev := x + 12 + n\<rparr>) else m1)\<rparr>) = Some h'"
  shows "rt_realloc (Some (x + 12)) newsize h = Some (Some (x + 12), h')"
  using assms by (auto simp: rt_realloc_def Let_def upd_hdr_def SIZEOF_STRUCT_MEM_def heap_end_def
      cong: if_cong split: if_splits)

text \<open>
  Shrinking a block makes its end a free block, but \<open>lfree\<close> is not moved down to it: when it was
  behind, no later request is served from that block.
\<close>

lemma realloc_hides_block:
  assumes inv: "heap_inv h (as @ (x, True) # cs)" and low: "\<forall>b \<in> set as. snd b" "cs \<noteq> [] \<longrightarrow> snd (hd cs)"
    and n: "n = unat (rt_align newsize)" "0 < n" "n + 36 < next' (hdr h x) - x"
  shows "\<exists>h'. rt_realloc (Some (x + 12)) newsize h = Some (Some (x + 12), h') \<and> used (hdr h' (x + 12 + n)) = 0 \<and>
    next' (hdr h' (x + 12 + n)) = next' (hdr h x) \<and>
    (\<forall>s p h''. rt_malloc s h' = Some (Some p, h'') \<longrightarrow> next' (hdr h x) \<le> p)"
proof -
  let ?e = "heap_end h" and ?nx = "next' (hdr h x)" and ?y = "x + 12 + n"
  obtain q where seg: "heap_seg (hdr h) 0 0 (as @ (x, True) # cs) q ?e" and lf: "lfree h = first_free (as @ (x, True) # cs) ?e"
    and e: "used (hdr h ?e) \<noteq> 0" "?e < 2 ^ 32"
    using inv by (auto simp: heap_inv_def)
  obtain p where as: "heap_seg (hdr h) 0 0 as p x" and x: "used (hdr h x) \<noteq> 0" "x + 24 \<le> ?nx"
    and cs: "heap_seg (hdr h) x ?nx cs q ?e"
    using seg by auto
  have le: "?nx \<le> ?e" using heap_seg_offsets [OF cs] by simp
  have lf': "lfree h = first_free cs ?e"
    using lf low(1) by (simp add: first_free_append)
  have used_nx: "used (hdr h ?nx) \<noteq> 0"
    using cs e(1) low(2) by (cases cs) auto
  have sz: "sub32 (sub32 ?nx x) 12 = ?nx - x - 12"
    using x(2) le e(2) by (simp add: sub32_le)
  let ?m1 = "(hdr h)(?y := \<lparr> magic = HEAP_MAGIC, used = 0, next' = ?nx, prev = x \<rparr>, x := (hdr h x)\<lparr>next' := ?y\<rparr>)"
  let ?m = "if ?nx \<noteq> ?e then ?m1(?nx := (?m1 ?nx)\<lparr>prev := ?y\<rparr>) else ?m1"
  let ?h' = "h\<lparr>used_mem := used_mem h - of_nat (?nx - x - 12 - n), hdr := ?m\<rparr>"
  have ne: "x < ?y" "?y < ?nx" "?y < ?e" "?nx \<noteq> ?y" "?nx \<noteq> x"
    using n le by auto
  have e': "heap_end ?h' = ?e" by (simp add: heap_end_def)
  have at: "hdr ?h' ?y = \<lparr> magic = HEAP_MAGIC, used = 0, next' = ?nx, prev = x \<rparr>" "used (hdr ?h' ?nx) \<noteq> 0"
    "used (hdr ?h' x) \<noteq> 0"
    using used_nx x(1) ne e(1) by simp_all
  then have "plug_forward ?y ?h' = ?h'" "plug_backward ?y ?h' = ?h'"
    unfolding plug_forward_def plug_backward_def Let_def by (simp_all only: at heap_mem.simps simp_thms if_False)
  then have plug: "plug_holes ?y ?h' = Some ?h'"
    using ne(3) e' at(1) by (simp add: plug_holes_def)
  have "rt_realloc (Some (x + 12)) newsize h = Some (Some (x + 12), ?h')"
  proof (rule realloc_shrinks [OF n(1,2) _ sz])
    show "n \<le> mem_size_aligned h" "x + 12 < ?e \<and> n + 24 < ?nx - x - 12"
      using n(3) le x(2) by (simp_all add: heap_end_def SIZEOF_STRUCT_MEM_def)
    show "plug_holes ?y (h\<lparr>used_mem := used_mem h - of_nat (?nx - x - 12 - n), hdr := (let m1 = ?m1 in
        if ?nx \<noteq> ?e then m1(?nx := (m1 ?nx)\<lparr>prev := ?y\<rparr>) else m1)\<rparr>) = Some ?h'"
      unfolding Let_def by (rule plug)
  qed
  moreover have "heap_seg ?m1 x ?nx cs q ?e"
    using cs ne by (intro heap_seg_above) auto
  then obtain q' where seg': "heap_seg ?m ?y ?nx cs q' ?e"
  proof (cases "?nx = ?e")
    case True
    then have "cs = []"
      using heap_seg_offsets [OF cs] by (cases cs) fastforce+
    with True show ?thesis using that [of ?y] by simp
  next
    case False
    then show ?thesis
      using heap_seg_prev [OF \<open>heap_seg ?m1 x ?nx cs q ?e\<close>, of ?y] that by auto
  qed
  have lfree': "lfree ?h' = first_free cs (heap_end ?h')" and M: "12 \<le> mem_size_aligned ?h'"
    using lf' e' x(2) le by (simp_all add: heap_end_def SIZEOF_STRUCT_MEM_def)
  have "hdr ?h' = ?m" by simp
  then have "heap_seg (hdr ?h') ?y ?nx cs q' (heap_end ?h')" "heap_end ?h' < 2 ^ 32"
    unfolding e' using seg' e(2) by (simp_all only:)
  note above = malloc_above_lfree [OF this lfree' M]
  with \<open>rt_realloc (Some (x + 12)) newsize h = Some (Some (x + 12), ?h')\<close> at(1) show ?thesis
    by (intro exI [of _ ?h'] conjI allI impI) (simp_all only: heap_mem.simps)
qed

end
