(* ===== verification/Heap_Props.thy ===== *)
theory Heap_Props
  imports Rt_Mem_Use
begin

text \<open>
  The properties of the heap, each with a concrete instance.
\<close>

section \<open>What users get\<close>


definition ex_heap :: mem_heap where
  "ex_heap = \<lparr> hdr = (\<lambda>_. \<lparr> magic = 0, used = 0, next' = 0, prev = 0 \<rparr>)
       (0 := \<lparr> magic = HEAP_MAGIC, used = 0, next' = 112, prev = 0 \<rparr>,
        112 := \<lparr> magic = HEAP_MAGIC, used = 1, next' = 112, prev = 112 \<rparr>),
     mem_size_aligned = 100, lfree = 0, used_mem = 0, max_mem = 0 \<rparr>"

lemma ex_heap_init: "rt_system_heap_init (\<lambda>_. \<lparr> magic = 0, used = 0, next' = 0, prev = 0 \<rparr>) 0x10 0x8C = Some ex_heap"
  by (simp add: rt_system_heap_init_def ex_heap_def SIZEOF_STRUCT_MEM_def Let_def)


section \<open>Requests that are served wrongly\<close>

text \<open>
  C36: A request of nearly \<open>2 ^ 32\<close> bytes is served like a request of one byte, because rounding its
  size up overflows.
\<close>

theorem huge_request_served:
  assumes "0xFFFFFFFC < s" "4 \<le> mem_size_aligned h"
  shows "rt_malloc s h = rt_malloc 1 h"
  using assms by (rule huge_request)

theorem huge_request_served_witness: "\<exists>h'. rt_malloc 0xFFFFFFFF ex_heap = Some (Some 12, h')"
proof -
  have h: "heap_inv ex_heap [(0, False)]"
    by (rule heap_init_ok [OF ex_heap_init]) (simp add: ex_heap_def)
  have n: "max (unat (rt_align 1)) 12 = 12" by (simp add: rt_align_def)
  have eq: "rt_malloc 0xFFFFFFFF ex_heap = rt_malloc 1 ex_heap"
    by (rule huge_request_served) (simp_all add: ex_heap_def)
  from rt_malloc_ok [OF h, of 1 12] n show ?thesis
    unfolding eq by (auto simp: ex_heap_def Cons_eq_append_conv)
qed




end
