(* ===== verification/C_String.thy ===== *)
theory C_String
  imports Prelude
begin

text \<open>
  Arrays of characters with strings that end at a NUL, and the functions of \<^verbatim>\<open>string.h\<close> that the
  AT client and the application use. A string that is not ended inside its array, and an
  access outside an array, are \<^const>\<open>None\<close>.
\<close>

abbreviation NUL :: char where "NUL \<equiv> CHR 0x00"
abbreviation LF :: char where "LF \<equiv> CHR 0x0A"
abbreviation CR :: char where "CR \<equiv> CHR 0x0D"

section \<open>Functions of the C library\<close>

definition cstr :: "char list \<Rightarrow> string option" where
  "cstr buf = (if NUL \<in> set buf then Some (takeWhile (\<lambda>c. c \<noteq> NUL) buf) else None)"

definition mem_copy :: "'a list \<Rightarrow> nat \<Rightarrow> 'a list \<Rightarrow> 'a list option" where
  "mem_copy dst off src = (if off + length src \<le> length dst then Some (blit dst off src) else None)"

definition mem_eq :: "char list \<Rightarrow> string \<Rightarrow> bool option" where
  "mem_eq buf s = (if length s \<le> length buf then Some (take (length s) buf = s) else None)"

definition starts_with :: "string \<Rightarrow> string \<Rightarrow> bool" where
  "starts_with s pre \<longleftrightarrow> take (length pre) s = pre"

fun strstr :: "string \<Rightarrow> string \<Rightarrow> bool" where
  "strstr [] needle \<longleftrightarrow> needle = []"
| "strstr (c # hay) needle \<longleftrightarrow> starts_with (c # hay) needle \<or> strstr hay needle"

definition str_cpy :: "char list \<Rightarrow> string \<Rightarrow> char list option" where
  "str_cpy dst s = mem_copy dst 0 (s @ [NUL])"

text \<open>\<^verbatim>\<open>rt_strcmp\<close> of \<^verbatim>\<open>kservice.c\<close>, on the cells from the two pointers on.\<close>

fun rt_strcmp :: "char list \<Rightarrow> char list \<Rightarrow> int option" where
  "rt_strcmp (a # cs) (b # ct) =
    (if a \<noteq> NUL \<and> a = b then rt_strcmp cs ct else Some (of_char a - of_char b))"
| "rt_strcmp _ _ = None"

section \<open>Facts\<close>

lemma of_char_0: "of_char a = (0 :: int) \<longleftrightarrow> a = NUL"
  using of_char_eq_iff [of a NUL, where 'a = int] by simp

lemma rt_strcmp_eq:
  assumes "NUL \<notin> set s" "NUL \<notin> set t"
  shows "\<exists>r. rt_strcmp (s @ NUL # rest) (t @ [NUL]) = Some r \<and> (r = 0 \<longleftrightarrow> s = t)"
  using assms
proof (induction s arbitrary: t)
  case Nil
  then show ?case by (cases t) (auto simp: of_char_0)
next
  case (Cons a s)
  show ?case
  proof (cases t)
    case Nil
    then show ?thesis using Cons.prems by (auto simp: of_char_0)
  next
    case (Cons b t')
    then show ?thesis using Cons.IH [of t'] Cons.prems by auto
  qed
qed

lemma cstr_append [simp]: "NUL \<notin> set s \<Longrightarrow> cstr (s @ NUL # rest) = Some s"
  by (induction s) (auto simp: cstr_def)

lemma cstr_NUL [simp]: "cstr (NUL # rest) = Some []"
  by (simp add: cstr_def)

lemma mem_copy_in [simp]: "off + length src \<le> length dst \<Longrightarrow> mem_copy dst off src = Some (blit dst off src)"
  by (simp add: mem_copy_def)

lemma mem_copy_out: "length dst < off + length src \<Longrightarrow> mem_copy dst off src = None"
  by (simp add: mem_copy_def)

lemma mem_eq_in [simp]: "length s \<le> length buf \<Longrightarrow> mem_eq buf s = Some (take (length s) buf = s)"
  by (simp add: mem_eq_def)

lemma strstr_iff: "strstr hay needle \<longleftrightarrow> (\<exists>a b. hay = a @ needle @ b)"
proof (induction hay)
  case (Cons c hay)
  show ?case
  proof
    assume "strstr (c # hay) needle"
    then consider "starts_with (c # hay) needle" | "strstr hay needle" by auto
    then show "\<exists>a b. c # hay = a @ needle @ b"
    proof cases
      case 1
      then have "c # hay = [] @ needle @ drop (length needle) (c # hay)"
        unfolding starts_with_def by (metis append_Nil append_take_drop_id)
      then show ?thesis by blast
    next
      case 2
      then obtain a b where "c # hay = (c # a) @ needle @ b"
        using Cons.IH by auto
      then show ?thesis by blast
    qed
  next
    assume "\<exists>a b. c # hay = a @ needle @ b"
    then obtain a b where ab: "c # hay = a @ needle @ b" by blast
    show "strstr (c # hay) needle"
    proof (cases a)
      case Nil
      then have "starts_with (c # hay) needle" using ab by (simp add: starts_with_def)
      then show ?thesis by simp
    next
      case (Cons x xs)
      then show ?thesis using ab Cons.IH by auto
    qed
  qed
qed auto

text \<open>What \<^const>\<open>strstr\<close> finds does not span the carriage return behind a line.\<close>

lemma strstr_snoc:
  assumes "c \<notin> set needle" "needle \<noteq> []"
  shows "strstr (hay @ [c]) needle \<longleftrightarrow> strstr hay needle"
proof
  assume "strstr (hay @ [c]) needle"
  then obtain a b where ab: "hay @ [c] = a @ needle @ b"
    by (auto simp: strstr_iff)
  have "b \<noteq> []"
  proof
    assume "b = []"
    then have "last (hay @ [c]) = last needle" using ab assms(2) by simp
    then show False using assms by (metis last_in_set last_snoc)
  qed
  then obtain b' x where "b = b' @ [x]" by (cases b rule: rev_cases) auto
  then show "strstr hay needle"
    using ab by (auto simp: strstr_iff)
next
  assume "strstr hay needle"
  then obtain a b where "hay @ [c] = a @ needle @ (b @ [c])"
    by (auto simp: strstr_iff)
  then show "strstr (hay @ [c]) needle"
    unfolding strstr_iff by blast
qed

end
