(* ===== verification/At_Client.thy ===== *)
theory At_Client
  imports C_String Rt_Event Rt_Sem Rt_Mutex
begin

text \<open>
  The AT client of \<^verbatim>\<open>pck/at/src/at_client.c\<close>: a parser thread cuts what the module sends into lines and
  collects the lines of a response; a caller sends a command and waits for the response.

  The bytes that arrive are a list. The reader waits on \<^verbatim>\<open>rx_notice\<close> when it has consumed them:
  here its loop ends with \<open>Line_Wait\<close>. A response object is an address in \<open>resp_heap\<close>, since the caller and
  the parser share it. \<open>resp_buf_len\<close> and \<open>line_counts'\<close> are the local variables of \<^verbatim>\<open>client_parser\<close>,
  which live as long as the client does. Lengths are bounded by the sizes of the buffers and are
  natural numbers.
\<close>

section \<open>Data\<close>

record at_response =
  buf :: "char list"
  buf_size :: nat
  line_num :: nat
  line_counts :: nat
  timeout :: int

datatype at_resp_status = AT_RESP_OK | AT_RESP_ERROR | AT_RESP_TIMEOUT | AT_RESP_BUFF_FULL

record at_urc =
  cmd_prefix :: string
  cmd_suffix :: string
  urc_func :: "nat option"

record at_client =
  end_sign :: char
  recv_buffer :: "char list"
  cur_recv_len :: nat
  resp :: "nat option"
  resp_status :: at_resp_status
  resp_notice :: rt_semaphore
  lock :: rt_mutex
  urc_table :: "at_urc list"
  resp_buf_len :: nat
  line_counts' :: nat
  resp_heap :: "nat \<Rightarrow> at_response option"
  urc_log :: "(nat \<times> string) list"
  uart_tx :: string
  at_kern :: kernel

definition AT_CMD_MAX_LEN :: nat where "AT_CMD_MAX_LEN = 128"

section \<open>Response objects\<close>

text \<open>
  \<open>obj\<close> is the address that \<^verbatim>\<open>rt_calloc\<close> returns for the object, \<open>mem\<close> whether it returns memory for
  the buffer.
\<close>

definition at_create_resp ::
  "nat option \<Rightarrow> bool \<Rightarrow> nat \<Rightarrow> nat \<Rightarrow> int \<Rightarrow> at_client \<Rightarrow> nat option \<times> at_client" where
  "at_create_resp obj mem size' num time c = (case obj of
     None \<Rightarrow> (None, c)
   | Some r \<Rightarrow> if \<not> mem then (None, c)
       else (Some r, c\<lparr>resp_heap := (resp_heap c)(r \<mapsto> \<lparr> buf = replicate size' NUL, buf_size = size',
         line_num = num, line_counts = 0, timeout = time \<rparr>)\<rparr>))"

definition at_delete_resp :: "nat option \<Rightarrow> at_client \<Rightarrow> at_client" where
  "at_delete_resp r c = (case r of None \<Rightarrow> c | Some a \<Rightarrow> c\<lparr>resp_heap := (resp_heap c)(a := None)\<rparr>)"

text \<open>The outer option is the access to the buffer, the inner one \<^verbatim>\<open>RT_NULL\<close>; a line is the string at the pointer.\<close>

fun nth_line :: "nat \<Rightarrow> char list \<Rightarrow> string option" where
  "nth_line 0 b = cstr b"
| "nth_line (Suc n) b = do { l \<leftarrow> cstr b; nth_line n (drop (length l + 1) b) }"

definition at_resp_get_line :: "at_response \<Rightarrow> nat \<Rightarrow> string option option" where
  "at_resp_get_line rs resp_line =
    (if line_counts rs < resp_line \<or> resp_line = 0 then Some None
     else map_option Some (nth_line (resp_line - 1) (buf rs)))"

fun kw_line :: "nat \<Rightarrow> string \<Rightarrow> char list \<Rightarrow> string option option" where
  "kw_line 0 keyword b = Some None"
| "kw_line (Suc n) keyword b = do {
     l \<leftarrow> cstr b;
     if strstr l keyword then Some (Some l) else kw_line n keyword (drop (length l + 1) b)
   }"

definition at_resp_get_line_by_kw :: "at_response \<Rightarrow> string \<Rightarrow> string option option" where
  "at_resp_get_line_by_kw rs keyword = kw_line (line_counts rs) keyword (buf rs)"

section \<open>Reading a line\<close>

definition urc_matches :: "string \<Rightarrow> at_urc \<Rightarrow> bool" where
  "urc_matches b urc \<longleftrightarrow> length (cmd_prefix urc) + length (cmd_suffix urc) \<le> length b \<and>
     starts_with b (cmd_prefix urc) \<and> drop (length b - length (cmd_suffix urc)) b = cmd_suffix urc"

definition get_urc_obj :: "at_client \<Rightarrow> at_urc option" where
  "get_urc_obj c = List.find (urc_matches (take (cur_recv_len c) (recv_buffer c))) (urc_table c)"

definition clear_recv :: "at_client \<Rightarrow> at_client" where
  "clear_recv c = c\<lparr>recv_buffer := replicate (length (recv_buffer c)) NUL, cur_recv_len := 0\<rparr>"

datatype line_result = Line_Wait nat char bool | Line_Done int

definition put_char :: "nat \<Rightarrow> char \<Rightarrow> at_client \<Rightarrow> at_client" where
  "put_char n ch c =
    (if n < length (recv_buffer c) then c\<lparr>recv_buffer := (recv_buffer c)[n := ch], cur_recv_len := n + 1\<rparr> else c)"

definition line_ends :: "char \<Rightarrow> char \<Rightarrow> at_client \<Rightarrow> bool" where
  "line_ends last_ch ch c \<longleftrightarrow> ch = LF \<and> last_ch = CR \<or> end_sign c \<noteq> NUL \<and> ch = end_sign c \<or> get_urc_obj c \<noteq> None"

fun recv_loop ::
  "nat \<Rightarrow> char \<Rightarrow> bool \<Rightarrow> string \<Rightarrow> at_client \<Rightarrow> line_result \<times> string \<times> at_client" where
  "recv_loop read_len last_ch is_full [] c = (Line_Wait read_len last_ch is_full, [], c)"
| "recv_loop read_len last_ch is_full (ch # input) c =
    (let room = (read_len < length (recv_buffer c));
         c = put_char read_len ch c;
         read_len = (if room then read_len + 1 else read_len);
         is_full = (is_full \<or> \<not> room) in
     if line_ends last_ch ch c
     then if is_full then (Line_Done (- RT_EFULL), input, clear_recv c)
       else (Line_Done (int read_len), input, c)
     else recv_loop read_len ch is_full input c)"

definition at_recv_readline :: "string \<Rightarrow> at_client \<Rightarrow> line_result \<times> string \<times> at_client" where
  "at_recv_readline input c = recv_loop 0 NUL False input (clear_recv c)"

lemma recv_loop_shorter:
  "recv_loop r l f input c = (Line_Done n, rest, c') \<Longrightarrow> length rest < length input"
proof (induction input arbitrary: r l f c)
  case (Cons ch input)
  then show ?case
    by (fastforce simp: Let_def less_Suc_eq split: if_splits)
qed simp

section \<open>The parser thread\<close>

text \<open>The response is complete: its status, the count of its lines, and the notice to the caller.\<close>

definition resp_finish :: "at_resp_status \<Rightarrow> nat \<Rightarrow> at_client \<Rightarrow> at_client option" where
  "resp_finish status r c = do {
     rs \<leftarrow> resp_heap c r;
     let c = c\<lparr>resp_status := status, resp_heap := (resp_heap c)(r \<mapsto> rs\<lparr>line_counts := line_counts' c\<rparr>), resp := None\<rparr>;
     (_, sem, k) \<leftarrow> rt_sem_release (resp_notice c) (at_kern c);
     Some (c\<lparr>resp_notice := sem, at_kern := k, resp_buf_len := 0, line_counts' := 0\<rparr>)
   }"

definition resp_store :: "nat \<Rightarrow> at_response \<Rightarrow> at_client \<Rightarrow> at_client option" where
  "resp_store r rs c =
    (if resp_buf_len c + cur_recv_len c < buf_size rs
     then do {
       b \<leftarrow> mem_copy (buf rs) (resp_buf_len c) (take (cur_recv_len c) (recv_buffer c));
       Some (c\<lparr>resp_heap := (resp_heap c)(r \<mapsto> rs\<lparr>buf := b\<rparr>), resp_buf_len := resp_buf_len c + cur_recv_len c,
         line_counts' := line_counts' c + 1\<rparr>)
     }
     else Some (c\<lparr>resp_status := AT_RESP_BUFF_FULL\<rparr>))"

definition resp_line :: "nat \<Rightarrow> at_client \<Rightarrow> at_client option" where
  "resp_line r c = do {
     rs \<leftarrow> resp_heap c r;
     b \<leftarrow> wr (recv_buffer c) (cur_recv_len c - 1) NUL;
     c \<leftarrow> resp_store r rs (c\<lparr>recv_buffer := b\<rparr>);
     line \<leftarrow> cstr b;
     ok \<leftarrow> mem_eq b ''OK'';
     if ok \<and> line_num rs = 0 then resp_finish AT_RESP_OK r c
     else do {
       bad \<leftarrow> (if strstr line ''ERROR'' then Some True else mem_eq b ''FAIL'');
       if bad then resp_finish AT_RESP_ERROR r c
       else if line_counts' c = line_num rs \<and> line_num rs \<noteq> 0 then resp_finish AT_RESP_OK r c
       else Some c
     }
   }"

definition parse_line :: "at_client \<Rightarrow> at_client option" where
  "parse_line c = (case get_urc_obj c of
     Some urc \<Rightarrow> Some (case urc_func urc of
         Some f \<Rightarrow> c\<lparr>urc_log := urc_log c @ [(f, take (cur_recv_len c) (recv_buffer c))]\<rparr>
       | None \<Rightarrow> c)
   | None \<Rightarrow> (case resp c of Some r \<Rightarrow> resp_line r c | None \<Rightarrow> Some c))"

function client_parser :: "string \<Rightarrow> at_client \<Rightarrow> at_client option" where
  "client_parser input c = (case at_recv_readline input c of
     (Line_Wait _ _ _, _, c) \<Rightarrow> Some c
   | (Line_Done n, rest, c) \<Rightarrow>
       if 0 < n then (case parse_line c of None \<Rightarrow> None | Some c \<Rightarrow> client_parser rest c)
       else client_parser rest c)"
  by pat_completeness auto
termination
  by (relation "measure (\<lambda>(input, _). length input)")
    (auto simp: at_recv_readline_def dest: recv_loop_shorter [OF sym])

declare client_parser.simps [simp del]

section \<open>Executing a command\<close>

text \<open>
  \<^verbatim>\<open>at_vprintfln\<close> of \<^verbatim>\<open>at_utils.c\<close>, for a format without conversions. The device gets as many bytes of
  \<^verbatim>\<open>send_buf\<close> as the formatted text has.
\<close>

definition at_vprintfln :: "string \<Rightarrow> at_client \<Rightarrow> at_client option" where
  "at_vprintfln s c = do {
     rt_assert (CHR 0x25 \<notin> set s \<and> length s \<le> AT_CMD_MAX_LEN);
     Some (c\<lparr>uart_tx := uart_tx c @ take (AT_CMD_MAX_LEN - 1) s @ replicate (length s - (AT_CMD_MAX_LEN - 1)) NUL @ [CR, LF]\<rparr>)
   }"

datatype exec_result = Exec_Done int | Exec_Lock tid | Exec_Wait tid

definition exec_exit :: "int \<Rightarrow> at_client \<Rightarrow> (exec_result \<times> at_client) option" where
  "exec_exit result c = do {
     (_, m, k) \<leftarrow> rt_mutex_release (lock c) (at_kern c);
     Some (Exec_Done result, c\<lparr>resp := None, lock := m, at_kern := k\<rparr>)
   }"

definition exec_noticed :: "rt_err_t \<Rightarrow> at_client \<Rightarrow> (exec_result \<times> at_client) option" where
  "exec_noticed e c =
    (if e \<noteq> RT_EOK then exec_exit (- RT_ETIMEOUT) (c\<lparr>resp_status := AT_RESP_TIMEOUT\<rparr>)
     else if resp_status c \<noteq> AT_RESP_OK then exec_exit (- RT_ERROR) c
     else exec_exit RT_EOK c)"

definition exec_locked :: "nat option \<Rightarrow> string \<Rightarrow> at_client \<Rightarrow> (exec_result \<times> at_client) option" where
  "exec_locked r cmd c = do {
     c \<leftarrow> at_vprintfln cmd (c\<lparr>resp_status := AT_RESP_OK, resp := r\<rparr>);
     case r of
       None \<Rightarrow> exec_exit RT_EOK c
     | Some a \<Rightarrow> do {
         rs \<leftarrow> resp_heap c a;
         let c = c\<lparr>resp_heap := (resp_heap c)(a \<mapsto> rs\<lparr>line_counts := 0\<rparr>)\<rparr>;
         (res, sem, k) \<leftarrow> rt_sem_take (resp_notice c) (timeout rs) (at_kern c);
         let c = c\<lparr>resp_notice := sem, at_kern := k\<rparr>;
         case res of Take_Wait t \<Rightarrow> Some (Exec_Wait t, c) | Take_Done e \<Rightarrow> exec_noticed e c
       }
   }"

definition at_obj_exec_cmd :: "nat option \<Rightarrow> string \<Rightarrow> at_client \<Rightarrow> (exec_result \<times> at_client) option" where
  "at_obj_exec_cmd r cmd c = do {
     (res, m, k) \<leftarrow> rt_mutex_take RT_WAITING_FOREVER (lock c) (at_kern c);
     let c = c\<lparr>lock := m, at_kern := k\<rparr>;
     case res of Ipc_Wait t \<Rightarrow> Some (Exec_Lock t, c) | Ipc_Done _ _ \<Rightarrow> exec_locked r cmd c
   }"

definition at_obj_exec_cmd_return :: "tid \<Rightarrow> at_client \<Rightarrow> (exec_result \<times> at_client) option" where
  "at_obj_exec_cmd_return t c = exec_noticed (rt_sem_take_return t (at_kern c)) c"

end
