(* ===== verification/At_Lines.thy ===== *)
theory At_Lines
  imports At_Client
begin

text \<open>
  What the parser thread of the AT client makes of the lines that arrive.
\<close>

section \<open>One line\<close>

definition at_line :: "string \<Rightarrow> string" where
  "at_line l = l @ [CR, LF]"

definition line_verdict :: "string \<Rightarrow> at_resp_status option" where
  "line_verdict l =
    (if starts_with l ''OK'' then Some AT_RESP_OK
     else if strstr l ''ERROR'' \<or> starts_with l ''FAIL'' then Some AT_RESP_ERROR
     else None)"

text \<open>A line of text that fits the receive buffer.\<close>

definition line_ok :: "nat \<Rightarrow> string \<Rightarrow> bool" where
  "line_ok n l \<longleftrightarrow> LF \<notin> set l \<and> NUL \<notin> set l \<and> length l + 2 \<le> n"

text \<open>No unsolicited codes and no end sign, as \<^verbatim>\<open>at_client_init\<close> leaves the client.\<close>

definition plain :: "at_client \<Rightarrow> bool" where
  "plain c \<longleftrightarrow> urc_table c = [] \<and> end_sign c = NUL \<and> 4 \<le> length (recv_buffer c)"

lemma no_urc: "plain c \<Longrightarrow> get_urc_obj c = None"
  by (simp add: plain_def get_urc_obj_def)

lemma plain_update [simp]:
  "plain (c\<lparr>cur_recv_len := n\<rparr>) = plain c" "plain (c\<lparr>resp_heap := h\<rparr>) = plain c"
  "plain (c\<lparr>resp := r\<rparr>) = plain c" "plain (c\<lparr>resp_status := st\<rparr>) = plain c"
  "plain (c\<lparr>resp_buf_len := n\<rparr>) = plain c" "plain (c\<lparr>line_counts' := n\<rparr>) = plain c"
  "plain (c\<lparr>resp_notice := sem\<rparr>) = plain c" "plain (c\<lparr>at_kern := k\<rparr>) = plain c"
  "length b = length (recv_buffer c) \<Longrightarrow> plain (c\<lparr>recv_buffer := b\<rparr>) = plain c"
  by (simp_all add: plain_def)

lemma recv_loop_line:
  assumes "plain c" "LF \<notin> set l" "n + length l + 2 \<le> length (recv_buffer c)"
  shows "recv_loop n prev False (l @ CR # LF # rest) c =
    (Line_Done (int (n + length l + 2)), rest,
     c\<lparr>recv_buffer := blit (recv_buffer c) n (l @ [CR, LF]), cur_recv_len := n + length l + 2\<rparr>)"
  using assms
proof (induction l arbitrary: n prev c)
  case Nil
  then have "get_urc_obj (c\<lparr>recv_buffer := (recv_buffer c)[n := CR], cur_recv_len := Suc n\<rparr>) = None"
    "plain c"
    by (auto intro: no_urc)
  moreover have "(recv_buffer c)[n := CR, Suc n := LF] = blit (recv_buffer c) n [CR, LF]"
    using Nil.prems(3) by (simp add: blit_Cons [symmetric])
  ultimately show ?case
    using Nil.prems(3) by (simp add: put_char_def line_ends_def plain_def Let_def)
next
  case (Cons ch l)
  let ?c = "c\<lparr>recv_buffer := (recv_buffer c)[n := ch], cur_recv_len := Suc n\<rparr>"
  have p: "plain ?c" using Cons.prems(1) by simp
  then have "\<not> line_ends prev ch ?c"
    using Cons.prems(2) no_urc [OF p] by (auto simp: line_ends_def plain_def)
  moreover have "recv_loop (Suc n) ch False (l @ CR # LF # rest) ?c = (Line_Done (int (Suc n + length l + 2)), rest,
     ?c\<lparr>recv_buffer := blit (recv_buffer ?c) (Suc n) (l @ [CR, LF]), cur_recv_len := Suc n + length l + 2\<rparr>)"
    using Cons.prems by (intro Cons.IH [OF p]) simp_all
  ultimately show ?case
    using Cons.prems(3) by (simp add: put_char_def Let_def blit_Cons)
qed

lemma readline_line:
  assumes "plain c" "line_ok (length (recv_buffer c)) l"
  shows "at_recv_readline (at_line l @ rest) c =
    (Line_Done (int (length l + 2)), rest,
     c\<lparr>recv_buffer := at_line l @ replicate (length (recv_buffer c) - (length l + 2)) NUL, cur_recv_len := length l + 2\<rparr>)"
proof -
  have "plain (clear_recv c)" using assms(1) by (simp add: clear_recv_def plain_def)
  with recv_loop_line [of "clear_recv c" l 0 NUL rest] assms(2) show ?thesis
    by (simp add: at_recv_readline_def at_line_def line_ok_def clear_recv_def blit_def)
qed

text \<open>The tests of a line see the text before its end.\<close>

lemma take_line:
  assumes "CR \<notin> set s"
  shows "take (length s) (l @ CR # rest) = s \<longleftrightarrow> starts_with l s"
proof (cases "length s \<le> length l")
  case False
  then obtain n where n: "length s - length l = Suc n" by (metis Suc_diff_Suc not_le)
  then have "CR \<in> set (take (length s) (l @ CR # rest))" by simp
  moreover have "length (take (length s) l) < length s" using False by simp
  ultimately show ?thesis
    using assms unfolding starts_with_def by (metis less_irrefl)
qed (simp add: starts_with_def)

lemma line_tests:
  assumes "NUL \<notin> set l" and b: "b = l @ CR # NUL # rest" "4 \<le> length b"
  shows "cstr b = Some (l @ [CR])" "mem_eq b ''OK'' = Some (starts_with l ''OK'')"
    "mem_eq b ''FAIL'' = Some (starts_with l ''FAIL'')" "strstr (l @ [CR]) ''ERROR'' \<longleftrightarrow> strstr l ''ERROR''"
proof -
  show "cstr b = Some (l @ [CR])"
    using cstr_append [of "l @ [CR]" rest] assms(1) by (simp add: b)
  show "mem_eq b ''OK'' = Some (starts_with l ''OK'')" "mem_eq b ''FAIL'' = Some (starts_with l ''FAIL'')"
    using take_line [of "''OK''" l "NUL # rest"] take_line [of "''FAIL''" l "NUL # rest"] b(2) by (simp_all add: b(1))
  show "strstr (l @ [CR]) ''ERROR'' \<longleftrightarrow> strstr l ''ERROR''"
    by (rule strstr_snoc) simp_all
qed

section \<open>A response\<close>

text \<open>What the lines of a response leave in its buffer.\<close>

definition cells :: "string list \<Rightarrow> char list" where
  "cells ls = concat (map (\<lambda>l. l @ [CR, NUL]) ls)"

lemma cells_simps [simp]:
  "cells [] = []" "cells (l # ls) = l @ CR # NUL # cells ls" "cells (ls @ ls') = cells ls @ cells ls'"
  by (simp_all add: cells_def)

lemma nth_line_cells:
  assumes "i < length ls" "\<forall>l \<in> set ls. NUL \<notin> set l"
  shows "nth_line i (cells ls @ rest) = Some (ls ! i @ [CR])"
  using assms
proof (induction ls arbitrary: i)
  case (Cons l ls)
  have "cstr (cells (l # ls) @ rest) = Some (l @ [CR])"
    using cstr_append [of "l @ [CR]" "cells ls @ rest"] Cons.prems(2) by simp
  with Cons show ?case
    by (cases i) simp_all
qed simp

text \<open>The parser collects the lines of response \<open>r\<close>, which is \<open>rs\<close>.\<close>

definition collects :: "nat \<Rightarrow> at_response \<Rightarrow> at_client \<Rightarrow> bool" where
  "collects r rs c \<longleftrightarrow> plain c \<and> resp c = Some r \<and> resp_heap c r = Some rs \<and> length (buf rs) = buf_size rs \<and>
     line_num rs = 0"

definition kept :: "at_client \<Rightarrow> at_client \<Rightarrow> bool" where
  "kept c c' \<longleftrightarrow> length (recv_buffer c') = length (recv_buffer c) \<and> resp_notice c' = resp_notice c \<and>
     at_kern c' = at_kern c \<and> lock c' = lock c \<and> uart_tx c' = uart_tx c"

lemma kept_refl [simp]: "kept c c"
  by (simp add: kept_def)

lemma kept_trans: "kept c c' \<Longrightarrow> kept c' c'' \<Longrightarrow> kept c c''"
  by (simp add: kept_def)

lemma parser_line:
  assumes col: "collects r rs c" and l: "line_ok (length (recv_buffer c)) l"
    and b: "b = l @ CR # NUL # replicate (length (recv_buffer c) - (length l + 2)) NUL"
  shows "client_parser (at_line l @ rest) c =
    (case (do {
       c \<leftarrow> resp_store r rs (c\<lparr>cur_recv_len := length l + 2, recv_buffer := b\<rparr>);
       case line_verdict l of Some st \<Rightarrow> resp_finish st r c | None \<Rightarrow> Some c
     }) of None \<Rightarrow> None | Some c \<Rightarrow> client_parser rest c)"
proof -
  let ?b0 = "at_line l @ replicate (length (recv_buffer c) - (length l + 2)) NUL"
  let ?c0 = "c\<lparr>recv_buffer := ?b0, cur_recv_len := length l + 2\<rparr>"
  have p: "plain c" "resp c = Some r" "resp_heap c r = Some rs" "line_num rs = 0"
    using col by (simp_all add: collects_def)
  have fit: "length l + 2 \<le> length (recv_buffer c)" "4 \<le> length (recv_buffer c)"
    using l p(1) by (simp_all add: line_ok_def plain_def)
  then have len: "length b = length (recv_buffer c)" "4 \<le> length b" "length ?b0 = length (recv_buffer c)"
    using fit by (auto simp: b at_line_def)
  have nul: "NUL \<notin> set l" using l by (simp add: line_ok_def)
  have upd: "wr ?b0 (length l + 1) NUL = Some b"
    by (simp add: b at_line_def list_update_append)
  have "plain ?c0" using p(1) len(3) by simp
  from no_urc [OF this] have "parse_line ?c0 = resp_line r ?c0"
    by (simp add: parse_line_def p)
  also have "resp_line r ?c0 = do {
       c \<leftarrow> resp_store r rs (c\<lparr>cur_recv_len := length l + 2, recv_buffer := b\<rparr>);
       case line_verdict l of Some st \<Rightarrow> resp_finish st r c | None \<Rightarrow> Some c
     }"
    using upd p line_tests [OF nul b len(2)]
    by (simp add: resp_line_def line_verdict_def cong: Option.bind_cong if_cong)
  finally show ?thesis
    using readline_line [OF p(1) l, of rest] by (subst client_parser.simps) simp
qed

lemma stored_line:
  assumes col: "collects r rs c" and l: "line_ok (length (recv_buffer c)) l" "line_verdict l = None"
    and room: "resp_buf_len c + length l + 2 < buf_size rs"
  shows "\<exists>c'. client_parser (at_line l @ rest) c = client_parser rest c' \<and>
    collects r (rs\<lparr>buf := blit (buf rs) (resp_buf_len c) (l @ [CR, NUL])\<rparr>) c' \<and>
    resp_buf_len c' = resp_buf_len c + length l + 2 \<and> line_counts' c' = Suc (line_counts' c) \<and>
    resp_status c' = resp_status c \<and> kept c c'"
proof -
  let ?b = "l @ CR # NUL # replicate (length (recv_buffer c) - (length l + 2)) NUL"
  let ?off = "resp_buf_len c" and ?rs = "rs\<lparr>buf := blit (buf rs) (resp_buf_len c) (l @ [CR, NUL])\<rparr>"
  let ?c = "c\<lparr>cur_recv_len := length l + 2, recv_buffer := ?b, resp_heap := (resp_heap c)(r \<mapsto> ?rs),
    resp_buf_len := ?off + (length l + 2), line_counts' := line_counts' c + 1\<rparr>"
  have len: "length (buf rs) = buf_size rs"
    using col by (simp add: collects_def)
  have "length l + 2 \<le> length (recv_buffer c)"
    using l(1) by (simp add: line_ok_def)
  then have b: "length ?b = length (recv_buffer c)"
    by auto
  have "resp_store r rs (c\<lparr>cur_recv_len := length l + 2, recv_buffer := ?b\<rparr>) = Some ?c"
    using room len by (simp add: resp_store_def)
  then have "client_parser (at_line l @ rest) c = client_parser rest ?c"
    using parser_line [OF col l(1) refl] l(2) by simp
  moreover have "length (blit (buf rs) ?off (l @ [CR, NUL])) = buf_size rs"
    using room len by simp
  then have "collects r ?rs ?c"
    using col b unfolding collects_def by (simp del: length_append)
  moreover have "kept c ?c"
    using b by (simp add: kept_def)
  ultimately show ?thesis
    by (intro exI [of _ ?c]) simp
qed

lemma stored_lines:
  assumes "collects r rs c" "\<forall>l \<in> set ls. line_ok (length (recv_buffer c)) l \<and> line_verdict l = None"
    and "resp_buf_len c + length (cells ls) < buf_size rs"
  shows "\<exists>c'. client_parser (concat (map at_line ls) @ rest) c = client_parser rest c' \<and>
    collects r (rs\<lparr>buf := blit (buf rs) (resp_buf_len c) (cells ls)\<rparr>) c' \<and>
    resp_buf_len c' = resp_buf_len c + length (cells ls) \<and> line_counts' c' = line_counts' c + length ls \<and>
    resp_status c' = resp_status c \<and> kept c c'"
  using assms
proof (induction ls arbitrary: c rs)
  case Nil
  then have "rs\<lparr>buf := blit (buf rs) (resp_buf_len c) []\<rparr> = rs" by simp
  with Nil show ?case by (intro exI [of _ c]) simp
next
  case (Cons l ls)
  let ?off = "resp_buf_len c" and ?rs = "rs\<lparr>buf := blit (buf rs) (resp_buf_len c) (l @ [CR, NUL])\<rparr>"
  obtain c1 where c1: "client_parser (at_line l @ concat (map at_line ls) @ rest) c =
      client_parser (concat (map at_line ls) @ rest) c1"
    "collects r ?rs c1" "resp_buf_len c1 = ?off + length l + 2" "line_counts' c1 = Suc (line_counts' c)"
    "resp_status c1 = resp_status c" "kept c c1"
    using stored_line [OF Cons.prems(1), of l "concat (map at_line ls) @ rest"] Cons.prems(2,3) by auto
  have "length (recv_buffer c1) = length (recv_buffer c)"
    using c1(6) by (simp add: kept_def)
  then obtain c2 where c2: "client_parser (concat (map at_line ls) @ rest) c1 = client_parser rest c2"
    "collects r (?rs\<lparr>buf := blit (buf ?rs) (resp_buf_len c1) (cells ls)\<rparr>) c2"
    "resp_buf_len c2 = resp_buf_len c1 + length (cells ls)" "line_counts' c2 = line_counts' c1 + length ls"
    "resp_status c2 = resp_status c1" "kept c1 c2"
    using Cons.IH [OF c1(2)] Cons.prems(2,3) c1(3) by auto
  have "length (buf rs) = buf_size rs"
    using Cons.prems(1) by (simp add: collects_def)
  then have "blit (blit (buf rs) ?off (l @ [CR, NUL])) (resp_buf_len c1) (cells ls) = blit (buf rs) ?off (cells (l # ls))"
    using blit_append [of ?off "l @ [CR, NUL]" "cells ls" "buf rs"] Cons.prems(3) c1(3) by simp
  with c1 c2 kept_trans [OF c1(6) c2(6)] show ?case
    by (intro exI [of _ c2]) simp
qed

section \<open>The end of a response\<close>

text \<open>The caller \<open>t\<close> waits for the notice; \<open>handed\<close> is what the parser leaves when it has given it.\<close>

definition awaited :: "tid \<Rightarrow> at_client \<Rightarrow> bool" where
  "awaited t c \<longleftrightarrow> sem_inv (resp_notice c) (at_kern c) \<and> suspend_thread (resp_notice c) = [t] \<and>
     error (threads (at_kern c) t) = RT_EOK \<and> (\<exists>v. runs v (at_kern c))"

definition handed :: "tid \<Rightarrow> at_client \<Rightarrow> at_client \<Rightarrow> bool" where
  "handed t c c' \<longleftrightarrow> resp c' = None \<and> resp_buf_len c' = 0 \<and> line_counts' c' = 0 \<and>
     plain c' \<and> length (recv_buffer c') = length (recv_buffer c) \<and> lock c' = lock c \<and>
     suspend_thread (resp_notice c') = [] \<and> sem_value (resp_notice c') = 0 \<and>
     rt_sem_take_return t (at_kern c') = RT_EOK \<and>
     (stat (threads (at_kern c') t) = RT_THREAD_READY \<or> rt_current_thread (at_kern c') = Some t)"

lemma awaited_kept: "kept c c' \<Longrightarrow> awaited t c' = awaited t c"
  by (simp add: kept_def awaited_def)

lemma resp_finish_ok:
  assumes "awaited t c" "resp_heap c r = Some rs" "plain c"
  shows "\<exists>c'. resp_finish st r c = Some c' \<and> resp_heap c' r = Some (rs\<lparr>line_counts := line_counts' c\<rparr>) \<and>
    resp_status c' = st \<and> handed t c c'"
proof -
  obtain v where v: "runs v (at_kern c)" using assms(1) by (auto simp: awaited_def)
  have sem: "sem_inv (resp_notice c) (at_kern c)" "suspend_thread (resp_notice c) = t # []" "sem_value (resp_notice c) = 0"
    using assms(1) unfolding awaited_def sem_inv_def by auto
  obtain k' w where k': "rt_sem_release (resp_notice c) (at_kern c) = Some (RT_EOK, (resp_notice c)\<lparr>suspend_thread := []\<rparr>, k')"
    "runs w k'" "rt_sem_take_return t k' = error (threads (at_kern c) t)"
    "stat (threads k' t) = RT_THREAD_READY \<or> w = t"
    using rt_sem_release_hand_over [OF v sem(1,2)] by blast
  let ?c' = "c\<lparr>resp := None, resp_status := st, resp_notice := (resp_notice c)\<lparr>suspend_thread := []\<rparr>,
    resp_buf_len := 0, line_counts' := 0, resp_heap := (resp_heap c)(r \<mapsto> rs\<lparr>line_counts := line_counts' c\<rparr>), at_kern := k'\<rparr>"
  have "resp_finish st r c = Some ?c'"
    using k'(1) assms(2) by (simp add: resp_finish_def)
  moreover have "handed t c ?c'"
    using k' assms sem(3) by (auto simp: handed_def awaited_def runs_def)
  ultimately show ?thesis
    by (intro exI [of _ ?c']) simp
qed

lemma parser_idle: "client_parser [] c = Some (clear_recv c)"
  by (subst client_parser.simps) (simp add: at_recv_readline_def)

lemma handed_clear: "handed t c c' \<Longrightarrow> handed t c (clear_recv c')"
  by (auto simp: handed_def clear_recv_def plain_def)

text \<open>The last line is kept if there is room, and ends the response in any case.\<close>

lemma last_line:
  assumes col: "collects r rs c" and l: "line_ok (length (recv_buffer c)) l" "line_verdict l = Some st"
    and wait: "awaited t c"
  shows "\<exists>c'. client_parser (at_line l) c = Some c' \<and> resp_status c' = st \<and> handed t c c' \<and>
    resp_heap c' r = Some (if resp_buf_len c + length l + 2 < buf_size rs
      then rs\<lparr>buf := blit (buf rs) (resp_buf_len c) (l @ [CR, NUL]), line_counts := line_counts' c + 1\<rparr>
      else rs\<lparr>line_counts := line_counts' c\<rparr>)"
proof -
  let ?b = "l @ CR # NUL # replicate (length (recv_buffer c) - (length l + 2)) NUL"
  let ?c0 = "c\<lparr>cur_recv_len := length l + 2, recv_buffer := ?b\<rparr>"
  have "length l + 2 \<le> length (recv_buffer c)"
    using l(1) by (simp add: line_ok_def)
  then have b: "length ?b = length (recv_buffer c)" by auto
  have h: "resp_heap c r = Some rs" "length (buf rs) = buf_size rs" "plain c"
    using col by (simp_all add: collects_def)
  let ?room = "resp_buf_len c + length l + 2 < buf_size rs"
  obtain c1 where c1: "resp_store r rs ?c0 = Some c1" "plain c1" "awaited t c1" "lock c1 = lock c"
    "length (recv_buffer c1) = length (recv_buffer c)"
    "resp_heap c1 r = Some (if ?room then rs\<lparr>buf := blit (buf rs) (resp_buf_len c) (l @ [CR, NUL])\<rparr> else rs)"
    "line_counts' c1 = (if ?room then line_counts' c + 1 else line_counts' c)"
    using h b wait by (cases ?room) (simp_all add: resp_store_def awaited_def plain_def)
  obtain c2 where c2: "resp_finish st r c1 = Some c2" "resp_status c2 = st" "handed t c1 c2"
    "resp_heap c2 r = Some ((if ?room then rs\<lparr>buf := blit (buf rs) (resp_buf_len c) (l @ [CR, NUL])\<rparr> else rs)
      \<lparr>line_counts := line_counts' c1\<rparr>)"
    using resp_finish_ok [OF c1(3,6,2)] by blast
  have "client_parser (at_line l @ []) c = Some (clear_recv c2)"
    using parser_line [OF col l(1) refl, of "[]"] l(2) c1(1) c2(1) by (simp add: parser_idle)
  moreover have "handed t c (clear_recv c2)"
    using handed_clear [OF c2(3)] c1(4,5) by (simp add: handed_def)
  ultimately show ?thesis
    using c2(2,4) c1(7) by (intro exI [of _ "clear_recv c2"]) (simp add: clear_recv_def)
qed

end
