(* ===== verification/At_Exec.thy ===== *)
theory At_Exec
  imports At_Lines
begin

text \<open>
  Whole commands of the AT client: the response that a caller gets, and two ways in which it gets a
  wrong one.
\<close>

section \<open>The lines of a response\<close>

lemma response_collected:
  assumes col: "collects r rs c" and wait: "awaited t c" and start: "resp_buf_len c = 0" "line_counts' c = 0"
    and ls: "\<forall>l \<in> set ls. line_ok (length (recv_buffer c)) l \<and> line_verdict l = None"
    and e: "line_ok (length (recv_buffer c)) e" "line_verdict e = Some st"
    and room: "length (cells (ls @ [e])) < buf_size rs"
  shows "\<exists>c' rs'. client_parser (concat (map at_line (ls @ [e]))) c = Some c' \<and> resp_heap c' r = Some rs' \<and>
    resp_status c' = st \<and> handed t c c' \<and> line_counts rs' = length ls + 1 \<and>
    (\<forall>i < length ls + 1. at_resp_get_line rs' (i + 1) = Some (Some ((ls @ [e]) ! i @ [CR])))"
proof -
  have "resp_buf_len c + length (cells ls) < buf_size rs"
    using room start by simp
  then obtain c1 where c1: "client_parser (concat (map at_line ls) @ at_line e) c = client_parser (at_line e) c1"
    "collects r (rs\<lparr>buf := blit (buf rs) 0 (cells ls)\<rparr>) c1" "resp_buf_len c1 = length (cells ls)"
    "line_counts' c1 = length ls" "kept c c1"
    using stored_lines [OF col ls, of "at_line e"] start by auto
  have n: "length (recv_buffer c1) = length (recv_buffer c)" "awaited t c1" "lock c1 = lock c"
    using c1(5) wait awaited_kept by (simp_all add: kept_def awaited_def)
  let ?rs = "rs\<lparr>buf := blit (blit (buf rs) 0 (cells ls)) (length (cells ls)) (e @ [CR, NUL]), line_counts := length ls + 1\<rparr>"
  obtain c2 where c2: "client_parser (at_line e) c1 = Some c2" "resp_status c2 = st" "handed t c1 c2"
    "resp_heap c2 r = Some ?rs"
    using last_line [OF c1(2) _ e(2) n(2)] e(1) c1(3,4) room n(1) by auto
  have len: "length (buf rs) = buf_size rs"
    using col by (simp add: collects_def)
  then have buf: "buf ?rs = cells (ls @ [e]) @ drop (length (cells (ls @ [e]))) (buf rs)"
    using blit_append [of 0 "cells ls" "e @ [CR, NUL]" "buf rs"] room by (simp add: blit_def)
  have "at_resp_get_line ?rs (i + 1) = Some (Some ((ls @ [e]) ! i @ [CR]))" if "i < length ls + 1" for i
  proof -
    have "nth_line i (buf ?rs) = Some ((ls @ [e]) ! i @ [CR])"
      unfolding buf using that ls e(1) by (intro nth_line_cells) (auto simp: line_ok_def)
    then show ?thesis
      using that by (simp add: at_resp_get_line_def)
  qed
  moreover have "handed t c c2"
    using c2(3) n by (simp add: handed_def)
  ultimately show ?thesis
    using c1(1) c2 by (intro exI [of _ c2] exI [of _ ?rs]) simp
qed

section \<open>Sending and returning\<close>

text \<open>A client that nobody uses: the lock is free and there is no old notice.\<close>

definition client_free :: "at_client \<Rightarrow> bool" where
  "client_free c \<longleftrightarrow> plain c \<and> owner (lock c) = None \<and> mutex_inv (lock c) (at_kern c) \<and>
     suspend_thread (resp_notice c) = [] \<and> sem_value (resp_notice c) = 0 \<and> rt_interrupt_nest (at_kern c) = 0"

lemma exec_sends:
  assumes free: "client_free c" and run: "runs t (at_kern c)" and ready: "stat (threads (at_kern c) u) = RT_THREAD_READY"
    and cmd: "CHR 0x25 \<notin> set cmd" "length cmd < AT_CMD_MAX_LEN"
    and rs: "resp_heap c r = Some rs" "length (buf rs) = buf_size rs" "line_num rs = 0" "timeout rs \<noteq> 0"
  shows "\<exists>c'. at_obj_exec_cmd (Some r) cmd c = Some (Exec_Wait t, c') \<and> uart_tx c' = uart_tx c @ cmd @ [CR, LF] \<and>
    collects r (rs\<lparr>line_counts := 0\<rparr>) c' \<and> awaited t c' \<and> owner (lock c') = Some t \<and> hold (lock c') = 1 \<and>
    suspend_thread (lock c') = [] \<and> length (recv_buffer c') = length (recv_buffer c) \<and>
    resp_buf_len c' = resp_buf_len c \<and> line_counts' c' = line_counts' c \<and>
    mutex_inv (lock c') (at_kern c)"
proof -
  have f: "plain c" "owner (lock c) = None" "mutex_inv (lock c) (at_kern c)" "suspend_thread (resp_notice c) = []"
    "sem_value (resp_notice c) = 0" "rt_interrupt_nest (at_kern c) = 0"
    using free by (simp_all add: client_free_def)
  let ?k = "set_error t RT_EOK (at_kern c)"
  obtain m where m: "rt_mutex_take RT_WAITING_FOREVER (lock c) (at_kern c) = Some (Ipc_Done RT_EOK None, m, ?k)"
    "owner m = Some t" "hold m = 1" "mutex_inv m ?k"
    using mutex_take_free [OF run f(6,3,2)] by blast
  have sus: "suspend_thread m = []"
    using m(1) run f(2,3,6) by (auto simp: rt_mutex_take_def mutex_take_again_def runs_def mutex_inv_def Let_def)
  have k: "runs t ?k" "sem_inv (resp_notice c) ?k" "rt_interrupt_nest ?k = 0" "stat (threads ?k u) = RT_THREAD_READY"
    using run f ready by (auto simp: runs_def kinv_upd_thread set_error_def sem_inv_def)
  obtain k' v where k': "rt_sem_take (resp_notice c) (timeout rs) ?k =
      Some (Take_Wait t, (resp_notice c)\<lparr>suspend_thread := [t]\<rparr>, k')"
    "runs v k'" "sem_inv ((resp_notice c)\<lparr>suspend_thread := [t]\<rparr>) k'" "error (threads k' t) = RT_EOK"
    using rt_sem_take_wait [OF k(1,2) f(5) k(3,4) rs(4)] f(4) by (cases "flag (resp_notice c)") (auto simp: sus_insert_def)
  let ?c' = "c\<lparr>lock := m, resp_status := AT_RESP_OK, resp := Some r, uart_tx := uart_tx c @ cmd @ [CR, LF],
    resp_heap := (resp_heap c)(r \<mapsto> rs\<lparr>line_counts := 0\<rparr>), resp_notice := (resp_notice c)\<lparr>suspend_thread := [t]\<rparr>, at_kern := k'\<rparr>"
  have "at_obj_exec_cmd (Some r) cmd c = Some (Exec_Wait t, ?c')"
    using m(1) k'(1) cmd rs(1) by (simp add: at_obj_exec_cmd_def exec_locked_def at_vprintfln_def AT_CMD_MAX_LEN_def Let_def)
  moreover have "collects r (rs\<lparr>line_counts := 0\<rparr>) ?c'" "awaited t ?c'"
    using f(1) rs k' by (auto simp: collects_def awaited_def plain_def)
  moreover have "mutex_inv m (at_kern c)"
    using m(2,4) sus by (simp add: mutex_inv_def)
  ultimately show ?thesis
    using m(2,3) sus by (intro exI [of _ ?c']) simp
qed

lemma exec_returns:
  assumes run: "runs t (at_kern c)" "rt_interrupt_nest (at_kern c) = 0" "mutex_inv (lock c) (at_kern c)"
    and own: "owner (lock c) = Some t" "hold (lock c) = 1" "suspend_thread (lock c) = []"
  shows "\<exists>c'. at_obj_exec_cmd_return t c =
      Some (Exec_Done (if error (threads (at_kern c) t) \<noteq> RT_EOK then - RT_ETIMEOUT
        else if resp_status c \<noteq> AT_RESP_OK then - RT_ERROR else RT_EOK), c') \<and>
    resp c' = None \<and> resp_heap c' = resp_heap c \<and> owner (lock c') = None \<and>
    resp_buf_len c' = resp_buf_len c \<and> line_counts' c' = line_counts' c"
proof -
  obtain m k where "rt_mutex_release (lock c) (at_kern c) = Some (RT_EOK, m, k)" "owner m = None"
    using mutex_release_free [OF run own] by blast
  then show ?thesis
    by (simp add: at_obj_exec_cmd_return_def exec_noticed_def exec_exit_def rt_sem_take_return_def)
qed

section \<open>A whole command\<close>

text \<open>
  The caller \<open>t\<close> sends a command and sleeps, the module answers with the lines \<open>ls\<close> and \<open>e\<close>, and
  when \<open>t\<close> runs again, in any kernel state \<open>k\<close>, its call returns.
\<close>

definition at_answers :: "tid \<Rightarrow> nat \<Rightarrow> string \<Rightarrow> string list \<Rightarrow> int \<Rightarrow> at_client \<Rightarrow> bool" where
  "at_answers t r cmd lines result c \<longleftrightarrow>
     (\<exists>c1 c2 rs. at_obj_exec_cmd (Some r) cmd c = Some (Exec_Wait t, c1) \<and> uart_tx c1 = uart_tx c @ cmd @ [CR, LF] \<and>
       client_parser (concat (map at_line lines)) c1 = Some c2 \<and> resp_heap c2 r = Some rs \<and>
       rt_sem_take_return t (at_kern c2) = RT_EOK \<and>
       (stat (threads (at_kern c2) t) = RT_THREAD_READY \<or> rt_current_thread (at_kern c2) = Some t) \<and>
       line_counts rs = length lines \<and>
       (\<forall>i < length lines. at_resp_get_line rs (i + 1) = Some (Some (lines ! i @ [CR]))) \<and>
       (\<forall>k. runs t k \<longrightarrow> rt_interrupt_nest k = 0 \<longrightarrow> error (threads k t) = RT_EOK \<longrightarrow>
         (\<exists>c3. at_obj_exec_cmd_return t (c2\<lparr>at_kern := k\<rparr>) = Some (Exec_Done result, c3) \<and> resp c3 = None \<and>
           resp_heap c3 r = Some rs \<and> owner (lock c3) = None)))"

lemma command_answered:
  assumes free: "client_free c" and run: "runs t (at_kern c)" and ready: "stat (threads (at_kern c) u) = RT_THREAD_READY"
    and start: "resp_buf_len c = 0" "line_counts' c = 0"
    and cmd: "CHR 0x25 \<notin> set cmd" "length cmd < AT_CMD_MAX_LEN"
    and rs: "resp_heap c r = Some rs" "length (buf rs) = buf_size rs" "line_num rs = 0" "timeout rs \<noteq> 0"
    and ls: "\<forall>l \<in> set ls. line_ok (length (recv_buffer c)) l \<and> line_verdict l = None"
    and e: "line_ok (length (recv_buffer c)) e" "line_verdict e = Some st"
    and room: "length (cells (ls @ [e])) < buf_size rs"
  shows "at_answers t r cmd (ls @ [e]) (if st = AT_RESP_OK then 0 else - 1) c"
proof -
  obtain c1 where c1: "at_obj_exec_cmd (Some r) cmd c = Some (Exec_Wait t, c1)" "uart_tx c1 = uart_tx c @ cmd @ [CR, LF]"
    "collects r (rs\<lparr>line_counts := 0\<rparr>) c1" "awaited t c1" "owner (lock c1) = Some t" "hold (lock c1) = 1"
    "suspend_thread (lock c1) = []" "length (recv_buffer c1) = length (recv_buffer c)"
    "resp_buf_len c1 = 0" "line_counts' c1 = 0" "mutex_inv (lock c1) (at_kern c)"
    using exec_sends [OF free run ready cmd rs] start by auto
  obtain c2 rs' where c2: "client_parser (concat (map at_line (ls @ [e]))) c1 = Some c2" "resp_heap c2 r = Some rs'"
    "resp_status c2 = st" "handed t c1 c2" "line_counts rs' = length ls + 1"
    "\<forall>i < length ls + 1. at_resp_get_line rs' (i + 1) = Some (Some ((ls @ [e]) ! i @ [CR]))"
    using response_collected [OF c1(3,4,9,10), of ls e st] ls e room c1(8) by auto
  have ret: "\<exists>c3. at_obj_exec_cmd_return t (c2\<lparr>at_kern := k\<rparr>) = Some (Exec_Done (if st = AT_RESP_OK then 0 else - 1), c3) \<and>
      resp c3 = None \<and> resp_heap c3 r = Some rs' \<and> owner (lock c3) = None"
    if k: "runs t k" "rt_interrupt_nest k = 0" "error (threads k t) = RT_EOK" for k
  proof -
    have "mutex_inv (lock c2) k"
      using c2(4) c1(5,7,11) by (simp add: handed_def mutex_inv_def)
    with exec_returns [of t "c2\<lparr>at_kern := k\<rparr>"] k c2 c1(5,6,7) show ?thesis
      by (auto simp: handed_def)
  qed
  from c2(4) have "rt_sem_take_return t (at_kern c2) = RT_EOK"
    "stat (threads (at_kern c2) t) = RT_THREAD_READY \<or> rt_current_thread (at_kern c2) = Some t"
    by (simp_all add: handed_def)
  moreover have "length (ls @ [e]) = length ls + 1" by simp
  ultimately show ?thesis
    unfolding at_answers_def using c1(1,2) c2(1,2,5,6) ret by metis
qed

section \<open>A response that does not fit\<close>

lemma dropped_line:
  assumes col: "collects r rs c" and l: "line_ok (length (recv_buffer c)) l" "line_verdict l = None"
    and full: "buf_size rs \<le> resp_buf_len c + length l + 2"
  shows "\<exists>c'. client_parser (at_line l @ rest) c = client_parser rest c' \<and> collects r rs c' \<and> kept c c' \<and>
    resp_buf_len c' = resp_buf_len c \<and> line_counts' c' = line_counts' c \<and> resp_status c' = AT_RESP_BUFF_FULL"
proof -
  let ?b = "l @ CR # NUL # replicate (length (recv_buffer c) - (length l + 2)) NUL"
  let ?c = "c\<lparr>cur_recv_len := length l + 2, recv_buffer := ?b, resp_status := AT_RESP_BUFF_FULL\<rparr>"
  have "length l + 2 \<le> length (recv_buffer c)"
    using l(1) by (simp add: line_ok_def)
  then have b: "length ?b = length (recv_buffer c)" by auto
  have "resp_store r rs (c\<lparr>cur_recv_len := length l + 2, recv_buffer := ?b\<rparr>) = Some ?c"
    using full by (simp add: resp_store_def)
  then have "client_parser (at_line l @ rest) c = client_parser rest ?c"
    using parser_line [OF col l(1) refl] l(2) by simp
  moreover have "collects r rs ?c" "kept c ?c"
    using col b unfolding collects_def kept_def by (simp_all del: length_append)
  ultimately show ?thesis
    by (intro exI [of _ ?c]) simp
qed

text \<open>
  A line that does not fit is dropped and the status says so, but a last line \<^verbatim>\<open>OK\<close> overwrites the
  status: the caller is told that all is well and finds \<^verbatim>\<open>OK\<close> as the first line.
\<close>

lemma overflow_reported_as_ok:
  assumes col: "collects r rs c" and wait: "awaited t c" and start: "resp_buf_len c = 0" "line_counts' c = 0"
    and l: "line_ok (length (recv_buffer c)) l" "line_verdict l = None" "buf_size rs \<le> length l + 2" "4 < buf_size rs"
  shows "\<exists>c' rs'. client_parser (at_line l @ at_line ''OK'') c = Some c' \<and> resp_heap c' r = Some rs' \<and>
    resp_status c' = AT_RESP_OK \<and> handed t c c' \<and> line_counts rs' = 1 \<and>
    at_resp_get_line rs' 1 = Some (Some (''OK'' @ [CR]))"
proof -
  obtain c1 where c1: "client_parser (at_line l @ at_line ''OK'') c = client_parser (at_line ''OK'') c1"
    "collects r rs c1" "kept c c1" "resp_buf_len c1 = 0" "line_counts' c1 = 0"
    using dropped_line [OF col l(1,2), of "at_line ''OK''"] l(3) start by auto
  have n: "length (recv_buffer c1) = length (recv_buffer c)" "awaited t c1" "lock c1 = lock c" "4 \<le> length (recv_buffer c)"
    using c1(3) wait awaited_kept [OF c1(3)] col by (simp_all add: kept_def collects_def plain_def)
  have "line_ok (length (recv_buffer c1)) ''OK''" "line_verdict ''OK'' = Some AT_RESP_OK"
    using n by (simp_all add: line_ok_def line_verdict_def starts_with_def)
  from response_collected [OF c1(2) n(2) c1(4,5), of "[]", OF _ this] l(4) obtain c2 rs' where
    c2: "client_parser (at_line ''OK'') c1 = Some c2" "resp_heap c2 r = Some rs'" "resp_status c2 = AT_RESP_OK"
    "handed t c1 c2" "line_counts rs' = 1" "at_resp_get_line rs' 1 = Some (Some (''OK'' @ [CR]))"
    by auto
  have "handed t c c2"
    using c2(4) n by (simp add: handed_def)
  with c1(1) c2 show ?thesis
    by auto
qed

section \<open>Lines of a response that came too late\<close>

text \<open>
  The lines that arrived for a command that timed out stay counted: the lines of the next response are
  stored behind their place, and the caller finds empty lines in front.
\<close>

lemma late_lines_shift_response:
  assumes col: "collects r rs c" and start: "resp_buf_len c = 0" "line_counts' c = 0"
    and ls: "ls \<noteq> []" "\<forall>l \<in> set ls. line_ok (length (recv_buffer c)) l \<and> line_verdict l = None"
      "length (cells ls) < buf_size rs"
  shows "\<exists>c1. client_parser (concat (map at_line ls)) c = Some c1 \<and> resp c1 = Some r \<and>
    (\<forall>c2 r' rs2 t e. resp_buf_len c2 = resp_buf_len c1 \<longrightarrow> line_counts' c2 = line_counts' c1 \<longrightarrow>
      collects r' rs2 c2 \<longrightarrow> buf rs2 = replicate (buf_size rs2) NUL \<longrightarrow> awaited t c2 \<longrightarrow>
      line_ok (length (recv_buffer c2)) e \<longrightarrow> line_verdict e = Some AT_RESP_OK \<longrightarrow>
      length (cells (ls @ [e])) < buf_size rs2 \<longrightarrow>
      (\<exists>c3 rs3. client_parser (at_line e) c2 = Some c3 \<and> resp_status c3 = AT_RESP_OK \<and> resp_heap c3 r' = Some rs3 \<and>
        line_counts rs3 = length ls + 1 \<and> at_resp_get_line rs3 1 = Some (Some [])))"
proof -
  obtain c1 where c1: "client_parser (concat (map at_line ls) @ []) c = client_parser [] c1"
    "collects r (rs\<lparr>buf := blit (buf rs) 0 (cells ls)\<rparr>) c1" "resp_buf_len c1 = length (cells ls)"
    "line_counts' c1 = length ls"
    using stored_lines [OF col ls(2), of "[]"] ls(3) start by auto
  have "\<exists>c3 rs3. client_parser (at_line e) c2 = Some c3 \<and> resp_status c3 = AT_RESP_OK \<and> resp_heap c3 r' = Some rs3 \<and>
        line_counts rs3 = length ls + 1 \<and> at_resp_get_line rs3 1 = Some (Some [])"
    if off: "resp_buf_len c2 = length (cells ls)" "line_counts' c2 = length ls"
      and c2: "collects r' rs2 c2" "buf rs2 = replicate (buf_size rs2) NUL" "awaited t c2"
      and e: "line_ok (length (recv_buffer c2)) e" "line_verdict e = Some AT_RESP_OK"
        "length (cells (ls @ [e])) < buf_size rs2" for c2 r' rs2 t e
  proof -
    let ?rs3 = "rs2\<lparr>buf := blit (buf rs2) (resp_buf_len c2) (e @ [CR, NUL]), line_counts := length ls + 1\<rparr>"
    obtain c3 where c3: "client_parser (at_line e) c2 = Some c3" "resp_status c3 = AT_RESP_OK" "resp_heap c3 r' = Some ?rs3"
      using last_line [OF c2(1) e(1,2) c2(3)] e(3) off by auto
    obtain n where n: "length (cells ls) = Suc n"
      using ls(1) by (cases ls) auto
    have "0 < buf_size rs2" using e(3) by simp
    then have "cstr (blit (buf rs2) (resp_buf_len c2) (e @ [CR, NUL])) = Some []"
      using c2(2) off(1) n by (cases "buf_size rs2") (simp_all add: blit_def)
    then have "at_resp_get_line ?rs3 1 = Some (Some [])"
      by (simp add: at_resp_get_line_def)
    with c3 show ?thesis by auto
  qed
  moreover have "client_parser (concat (map at_line ls)) c = Some (clear_recv c1)"
    using c1(1) by (simp add: parser_idle)
  moreover have "resp (clear_recv c1) = Some r" "resp_buf_len (clear_recv c1) = length (cells ls)"
    "line_counts' (clear_recv c1) = length ls"
    using c1 by (simp_all add: clear_recv_def collects_def)
  ultimately show ?thesis
    by (intro exI [of _ "clear_recv c1"]) auto
qed

end
