(* ===== verification/At_Props.thy ===== *)
theory At_Props
  imports Kernel_Examples At_Exec
begin

text \<open>
  The properties of the AT client, each with a concrete instance.
\<close>

definition ex_client :: at_client where
  "ex_client = \<lparr> end_sign = NUL, recv_buffer = replicate 512 NUL, cur_recv_len = 0, resp = None, resp_status = AT_RESP_OK,
     resp_notice = \<lparr> flag = RT_IPC_FLAG_FIFO, suspend_thread = [], sem_value = 0 \<rparr>,
     lock = \<lparr> flag = RT_IPC_FLAG_FIFO, suspend_thread = [], mtx_value = 1, original_priority = 0xFF, hold = 0, owner = None \<rparr>,
     urc_table = [], resp_buf_len = 0, line_counts' = 0,
     resp_heap = [7 \<mapsto> \<lparr> buf = replicate 64 NUL, buf_size = 64, line_num = 0, line_counts = 0, timeout = 5000 \<rparr>],
     urc_log = [], uart_tx = [], at_kern = ex_contended \<rparr>"

lemma ex_contended_runs: "runs 0 ex_contended" "stat (threads ex_contended 3) = RT_THREAD_READY"
  using ex_contended_kinv by (simp_all add: runs_def ex_contended_def ex_kernel_def upd_thread_def)

lemma ex_client_free: "client_free ex_client"
  by (simp add: client_free_def ex_client_def plain_def mutex_inv_def sus_ok_def ex_contended_def ex_kernel_def upd_thread_def)

text \<open>
  C7: A caller that sends a command and sleeps gets the response: when the lines of the answer have
  arrived, the last of them being the first with a verdict, the caller can run, its call returns what
  the verdict says, and every line of the answer is found at its number.
\<close>

theorem command_gets_response:
  assumes "client_free c" "runs t (at_kern c)" "stat (threads (at_kern c) u) = RT_THREAD_READY"
    and "resp_buf_len c = 0" "line_counts' c = 0"
    and "CHR 0x25 \<notin> set cmd" "length cmd < AT_CMD_MAX_LEN"
    and "resp_heap c r = Some rs" "length (buf rs) = buf_size rs" "line_num rs = 0" "timeout rs \<noteq> 0"
    and "\<forall>l \<in> set ls. line_ok (length (recv_buffer c)) l \<and> line_verdict l = None"
    and "line_ok (length (recv_buffer c)) e" "line_verdict e = Some st"
    and "length (cells (ls @ [e])) < buf_size rs"
  shows "at_answers t r cmd (ls @ [e]) (if st = AT_RESP_OK then 0 else - 1) c"
  using assms by (rule command_answered)

theorem command_gets_response_witness:
  "at_answers 0 7 ''AT+STATUE'' [''+STATUE:LORA_SEND'', ''OK''] 0 ex_client"
proof -
  have l: "line_ok 512 ''+STATUE:LORA_SEND''" "line_verdict ''+STATUE:LORA_SEND'' = None"
    "line_ok 512 ''OK''" "line_verdict ''OK'' = Some AT_RESP_OK"
    by (simp_all add: line_ok_def line_verdict_def starts_with_def)
  have c: "at_kern ex_client = ex_contended" "length (recv_buffer ex_client) = 512" "resp_buf_len ex_client = 0"
    "line_counts' ex_client = 0"
    "resp_heap ex_client 7 = Some \<lparr> buf = replicate 64 NUL, buf_size = 64, line_num = 0, line_counts = 0, timeout = 5000 \<rparr>"
    by (simp_all add: ex_client_def)
  show ?thesis
    using command_gets_response [OF ex_client_free, of 0 3 "''AT+STATUE''" 7, OF _ _ c(3,4) _ _ c(5), where
        ls = "[''+STATUE:LORA_SEND'']" and e = "''OK''" and st = AT_RESP_OK]
      ex_contended_runs l c(1,2)
    by (simp add: AT_CMD_MAX_LEN_def)
qed

text \<open>
  C38: A line that does not fit the response buffer is dropped, and the status that says so is
  overwritten when the last line \<^verbatim>\<open>OK\<close> arrives: the caller is told that all is well.
\<close>

definition ex_collecting :: at_client where
  "ex_collecting = ex_client\<lparr>resp := Some 7, resp_notice := \<lparr> flag = RT_IPC_FLAG_FIFO, suspend_thread = [1], sem_value = 0 \<rparr>,
     resp_heap := [7 \<mapsto> \<lparr> buf = replicate 10 NUL, buf_size = 10, line_num = 0, line_counts = 0, timeout = 5000 \<rparr>],
     at_kern := ex_waiting\<rparr>"

lemma ex_collecting_ok:
  "collects 7 \<lparr> buf = replicate 10 NUL, buf_size = 10, line_num = 0, line_counts = 0, timeout = 5000 \<rparr> ex_collecting"
  "awaited 1 ex_collecting"
  using ex_waiting_kinv ex_waiting_simps
  by (auto simp: collects_def awaited_def plain_def ex_collecting_def ex_client_def sem_inv_def sus_ok_def runs_def)

theorem overflow_says_ok:
  assumes "collects r rs c" "awaited t c" "resp_buf_len c = 0" "line_counts' c = 0"
    and "line_ok (length (recv_buffer c)) l" "line_verdict l = None" "buf_size rs \<le> length l + 2" "4 < buf_size rs"
  shows "\<exists>c' rs'. client_parser (at_line l @ at_line ''OK'') c = Some c' \<and> resp_heap c' r = Some rs' \<and>
    resp_status c' = AT_RESP_OK \<and> handed t c c' \<and> line_counts rs' = 1 \<and>
    at_resp_get_line rs' 1 = Some (Some (''OK'' @ [CR]))"
  using assms by (rule overflow_reported_as_ok)

theorem overflow_says_ok_witness:
  "\<exists>c' rs'. client_parser (at_line ''LORA_SEND'' @ at_line ''OK'') ex_collecting = Some c' \<and> resp_heap c' 7 = Some rs' \<and>
    resp_status c' = AT_RESP_OK \<and> line_counts rs' = 1"
proof -
  have "resp_buf_len ex_collecting = 0" "line_counts' ex_collecting = 0"
    "line_ok (length (recv_buffer ex_collecting)) ''LORA_SEND''" "line_verdict ''LORA_SEND'' = None"
    by (simp_all add: ex_collecting_def ex_client_def line_ok_def line_verdict_def starts_with_def)
  from overflow_says_ok [OF ex_collecting_ok this] show ?thesis by auto
qed



end
