(* ===== verification/Rt_Object.thy ===== *)
theory Rt_Object
  imports C_String Rt_Mem
begin

text \<open>
  Kernel objects, \<^verbatim>\<open>Kernel/object.c\<close>, with the string functions of \<^verbatim>\<open>kservice.c\<close> that it uses: every object
  has a name of at most eight characters and is linked to the list of its class. Hooks are not installed,
  and interrupt locks and the scheduler lock are taken and released within each operation.
  An object that is initialised again while it is linked would close its list to a loop: this is \<^const>\<open>None\<close>.
\<close>

section \<open>Strings of bounded length\<close>

text \<open>A source is a string without its end; \<open>str_ncpy\<close> are the cells that \<^verbatim>\<open>rt_strncpy\<close> writes.\<close>

fun str_ncpy :: "string \<Rightarrow> nat \<Rightarrow> char list" where
  "str_ncpy s 0 = []"
| "str_ncpy [] (Suc n) = NUL # replicate n NUL"
| "str_ncpy (c # s) (Suc n) = c # str_ncpy s n"

definition rt_strncpy :: "char list \<Rightarrow> string \<Rightarrow> nat \<Rightarrow> char list option" where
  "rt_strncpy dst src n = mem_copy dst 0 (str_ncpy src n)"

text \<open>The difference is kept in a \<^verbatim>\<open>signed char\<close>. Reading behind one of the arrays is \<^const>\<open>None\<close>.\<close>

fun rt_strncmp :: "char list \<Rightarrow> char list \<Rightarrow> nat \<Rightarrow> int option" where
  "rt_strncmp cs ct 0 = Some 0"
| "rt_strncmp (a # cs) (b # ct) (Suc count) =
    (let res = sint (of_char a - of_char b :: 8 word) in
     if res \<noteq> 0 \<or> a = NUL then Some res else rt_strncmp cs ct count)"
| "rt_strncmp _ _ (Suc count) = None"

lemma length_str_ncpy [simp]: "length (str_ncpy s n) = n"
  by (induction s n rule: str_ncpy.induct) auto

lemma str_ncpy_eq: "str_ncpy s n = take n s @ replicate (n - length s) NUL"
  by (induction s n rule: str_ncpy.induct) auto

lemma rt_strncpy_fits: "n \<le> length dst \<Longrightarrow> rt_strncpy dst src n = Some (str_ncpy src n @ drop n dst)"
  by (simp add: rt_strncpy_def blit_def)

lemma char_diff [simp]: "sint (of_char a - of_char b :: 8 word) = 0 \<longleftrightarrow> a = b"
proof -
  have "unat (of_char c :: 8 word) = of_char c" for c
  proof -
    have "(of_char c :: 8 word) = of_nat (of_char c)" by (simp only: of_nat_of_char)
    moreover have "unat (of_nat (of_char c) :: 8 word) = of_char c"
      using nat_of_char_less_256 [of c] by (subst unat_of_nat) simp
    ultimately show ?thesis by metis
  qed
  then have "(of_char a :: 8 word) = of_char b \<longleftrightarrow> a = b"
    by (metis of_char_eq_iff)
  then show ?thesis by (simp only: signed_eq_0_iff right_minus_eq)
qed

lemma char_diff_NUL [simp]:
  "sint (- of_char a :: 8 word) = 0 \<longleftrightarrow> a = NUL" "sint (of_char a :: 8 word) = 0 \<longleftrightarrow> a = NUL"
  using char_diff [of NUL a] char_diff [of a NUL] by auto

text \<open>Comparing a copied name with a string looks at the first \<open>n\<close> characters.\<close>

lemma strncmp_ncpy:
  assumes "NUL \<notin> set s" "NUL \<notin> set s'"
  shows "\<exists>r. rt_strncmp (str_ncpy s n) (s' @ [NUL]) n = Some r \<and> (r = 0 \<longleftrightarrow> take n s = take n s')"
  using assms
proof (induction s n arbitrary: s' rule: str_ncpy.induct)
  case (2 n)
  then show ?case
    by (cases s') (auto simp: char_diff Let_def)
next
  case (3 c s n)
  show ?case
  proof (cases s')
    case Nil
    then show ?thesis using 3 by (auto simp: char_diff Let_def)
  next
    case (Cons c' t)
    then show ?thesis using 3 by (auto simp: char_diff Let_def)
  qed
qed simp

section \<open>Objects\<close>

text \<open>
  Objects that the program declares and objects that are allocated from the heap. A container holds the
  objects of a class, the one that was added last in front.
\<close>

datatype obj_ptr = O_Static nat | O_Heap nat

record rt_object =
  obj_name :: "char list"
  obj_type :: "8 word"

record rt_object_information =
  info_type :: "8 word"
  object_list :: "obj_ptr list"
  object_size :: "32 word"

record object_system =
  objects :: "obj_ptr \<Rightarrow> rt_object"
  rt_object_container :: "rt_object_information list"

definition RT_NAME_MAX :: nat where "RT_NAME_MAX = 8"
definition RT_Object_Class_Static :: "8 word" where "RT_Object_Class_Static = 0x80"
definition RT_Object_Class_Device :: "8 word" where "RT_Object_Class_Device = 9"
definition RT_Object_Class_Unknown :: "8 word" where "RT_Object_Class_Unknown = 12"

text \<open>The classes that the configuration has: all but modules.\<close>

definition object_classes :: "8 word list" where
  "object_classes = [1, 2, 3, 4, 5, 6, 7, 8, 9, 10]"

definition rt_object_containers :: "(8 word \<Rightarrow> 32 word) \<Rightarrow> rt_object_information list" where
  "rt_object_containers size' = map (\<lambda>c. \<lparr> info_type = c, object_list = [], object_size = size' c \<rparr>) object_classes"

fun info_index :: "8 word \<Rightarrow> rt_object_information list \<Rightarrow> nat option" where
  "info_index ty [] = None"
| "info_index ty (i # is) = (if info_type i = ty then Some 0 else map_option Suc (info_index ty is))"

definition rt_object_get_information :: "8 word \<Rightarrow> object_system \<Rightarrow> nat option" where
  "rt_object_get_information ty s = info_index ty (rt_object_container s)"

definition linked :: "obj_ptr \<Rightarrow> object_system \<Rightarrow> bool" where
  "linked p s \<longleftrightarrow> list_ex (\<lambda>i. p \<in> set (object_list i)) (rt_object_container s)"

definition obj_link :: "nat \<Rightarrow> obj_ptr \<Rightarrow> object_system \<Rightarrow> object_system option" where
  "obj_link i p s = do {
     rt_assert (\<not> linked p s);
     Some (s\<lparr>rt_object_container := (rt_object_container s)
       [i := (rt_object_container s ! i)\<lparr>object_list := p # object_list (rt_object_container s ! i)\<rparr>]\<rparr>)
   }"

definition obj_unlink :: "obj_ptr \<Rightarrow> object_system \<Rightarrow> object_system" where
  "obj_unlink p s = s\<lparr>rt_object_container :=
     map (\<lambda>i. i\<lparr>object_list := remove1 p (object_list i)\<rparr>) (rt_object_container s)\<rparr>"

definition rt_object_init :: "obj_ptr \<Rightarrow> 8 word \<Rightarrow> string \<Rightarrow> object_system \<Rightarrow> object_system option" where
  "rt_object_init p ty name s = (case rt_object_get_information ty s of
     None \<Rightarrow> None
   | Some i \<Rightarrow> do {
       n \<leftarrow> rt_strncpy (obj_name (objects s p)) name RT_NAME_MAX;
       obj_link i p (s\<lparr>objects := (objects s)(p := \<lparr> obj_name = n, obj_type = ty OR RT_Object_Class_Static \<rparr>)\<rparr>)
     })"

definition rt_object_detach :: "obj_ptr \<Rightarrow> object_system \<Rightarrow> object_system" where
  "rt_object_detach p s = obj_unlink p (s\<lparr>objects := (objects s)(p := (objects s p)\<lparr>obj_type := 0\<rparr>)\<rparr>)"

definition rt_object_allocate ::
  "8 word \<Rightarrow> string \<Rightarrow> object_system \<Rightarrow> mem_heap \<Rightarrow> (obj_ptr option \<times> object_system \<times> mem_heap) option" where
  "rt_object_allocate ty name s h = (case rt_object_get_information ty s of
     None \<Rightarrow> None
   | Some i \<Rightarrow> do {
       (r, h) \<leftarrow> rt_malloc (object_size (rt_object_container s ! i)) h;
       case r of
         None \<Rightarrow> Some (None, s, h)
       | Some a \<Rightarrow> do {
           n \<leftarrow> rt_strncpy (replicate RT_NAME_MAX NUL) name RT_NAME_MAX;
           s \<leftarrow> obj_link i (O_Heap a) (s\<lparr>objects := (objects s)(O_Heap a := \<lparr> obj_name = n, obj_type = ty \<rparr>)\<rparr>);
           Some (Some (O_Heap a), s, h)
         }
     })"

text \<open>\<^verbatim>\<open>rt_free\<close> of an object that the program declares would not find a header in front of it.\<close>

definition rt_object_delete :: "obj_ptr \<Rightarrow> object_system \<Rightarrow> mem_heap \<Rightarrow> (object_system \<times> mem_heap) option" where
  "rt_object_delete p s h = do {
     rt_assert (obj_type (objects s p) AND RT_Object_Class_Static = 0);
     let s = obj_unlink p (s\<lparr>objects := (objects s)(p := (objects s p)\<lparr>obj_type := 0\<rparr>)\<rparr>);
     case p of
       O_Static _ \<Rightarrow> None
     | O_Heap a \<Rightarrow> do { h \<leftarrow> rt_free (Some a) h; Some (s, h) }
   }"

definition rt_object_is_systemobject :: "obj_ptr \<Rightarrow> object_system \<Rightarrow> bool" where
  "rt_object_is_systemobject p s \<longleftrightarrow> obj_type (objects s p) AND RT_Object_Class_Static \<noteq> 0"

definition rt_object_get_type :: "obj_ptr \<Rightarrow> object_system \<Rightarrow> 8 word" where
  "rt_object_get_type p s = obj_type (objects s p) AND NOT RT_Object_Class_Static"

fun find_named :: "(obj_ptr \<Rightarrow> rt_object) \<Rightarrow> string \<Rightarrow> obj_ptr list \<Rightarrow> obj_ptr option option" where
  "find_named objs name [] = Some None"
| "find_named objs name (p # ps) = do {
     r \<leftarrow> rt_strncmp (obj_name (objs p)) (name @ [NUL]) RT_NAME_MAX;
     if r = 0 then Some (Some p) else find_named objs name ps
   }"

definition rt_object_find :: "string option \<Rightarrow> 8 word \<Rightarrow> object_system \<Rightarrow> obj_ptr option option" where
  "rt_object_find name ty s = (case name of
     None \<Rightarrow> Some None
   | Some n \<Rightarrow>
       if RT_Object_Class_Unknown < ty then Some None
       else case rt_object_get_information ty s of
         None \<Rightarrow> None
       | Some i \<Rightarrow> find_named (objects s) n (object_list (rt_object_container s ! i)))"

section \<open>Finding objects by name\<close>

text \<open>The registry of a class: the names, cut to eight characters, and the objects, in the order of the search.\<close>

definition registry :: "8 word \<Rightarrow> object_system \<Rightarrow> (string \<times> obj_ptr) list" where
  "registry ty s = (case rt_object_get_information ty s of
     None \<Rightarrow> []
   | Some i \<Rightarrow> map (\<lambda>p. (takeWhile (\<lambda>c. c \<noteq> NUL) (obj_name (objects s p)), p)) (object_list (rt_object_container s ! i)))"

text \<open>Names are copied strings, classes are different, and no object is in two lists.\<close>

definition name_ok :: "char list \<Rightarrow> bool" where
  "name_ok n \<longleftrightarrow> (\<exists>s. NUL \<notin> set s \<and> n = str_ncpy s RT_NAME_MAX)"

definition objects_ok :: "object_system \<Rightarrow> bool" where
  "objects_ok s \<longleftrightarrow> map info_type (rt_object_container s) = object_classes \<and>
     (\<forall>i < 10. \<forall>p \<in> set (object_list (rt_object_container s ! i)). name_ok (obj_name (objects s p))) \<and>
     distinct (concat (map object_list (rt_object_container s)))"

lemma takeWhile_ncpy: "NUL \<notin> set s \<Longrightarrow> takeWhile (\<lambda>c. c \<noteq> NUL) (str_ncpy s n) = take n s"
  by (induction s n rule: str_ncpy.induct) auto

lemma find_named_ok:
  assumes "\<forall>p \<in> set ps. name_ok (obj_name (objs p))" "NUL \<notin> set name"
  shows "find_named objs name ps =
    Some (map_of (map (\<lambda>p. (takeWhile (\<lambda>c. c \<noteq> NUL) (obj_name (objs p)), p)) ps) (take RT_NAME_MAX name))"
  using assms(1)
proof (induction ps)
  case (Cons p ps)
  then obtain n where n: "NUL \<notin> set n" "obj_name (objs p) = str_ncpy n RT_NAME_MAX"
    by (auto simp: name_ok_def)
  obtain r where "rt_strncmp (str_ncpy n RT_NAME_MAX) (name @ [NUL]) RT_NAME_MAX = Some r"
    "r = 0 \<longleftrightarrow> take RT_NAME_MAX n = take RT_NAME_MAX name"
    using strncmp_ncpy [OF n(1) assms(2)] by blast
  then show ?case
    using Cons n by (auto simp: takeWhile_ncpy)
qed simp

lemma info_index_found:
  "ty \<in> set (map info_type is) \<Longrightarrow> \<exists>i < length is. info_index ty is = Some i \<and> info_type (is ! i) = ty"
proof (induction "is")
  case (Cons a "is")
  show ?case
  proof (cases "info_type a = ty")
    case False
    then obtain i where "i < length is" "info_index ty is = Some i" "info_type (is ! i) = ty"
      using Cons by auto
    with False show ?thesis by (intro exI [of _ "Suc i"]) simp
  qed auto
qed simp

lemma info_index_map: "map info_type is' = map info_type is \<Longrightarrow> info_index ty is' = info_index ty is"
proof (induction "is" arbitrary: is')
  case (Cons a "is")
  then obtain a' js where is': "is' = a' # js" "info_type a' = info_type a" "map info_type js = map info_type is"
    by (auto simp: map_eq_Cons_conv)
  from Cons.IH [OF is'(3)] is'(1,2) show ?case by simp
qed simp

lemma info_index_bound: "info_index ty is = Some i \<Longrightarrow> i < length is \<and> info_type (is ! i) = ty"
proof (induction "is" arbitrary: i)
  case (Cons a "is")
  then show ?case
    by (cases "info_type a = ty") auto
qed simp

lemma linked_iff: "linked p s \<longleftrightarrow> p \<in> set (concat (map object_list (rt_object_container s)))"
  by (simp add: linked_def list_ex_iff)

lemma objects_okD:
  assumes "objects_ok s" "ty \<in> set object_classes"
  obtains i where "rt_object_get_information ty s = Some i" "i < 10" "i < length (rt_object_container s)"
    "\<forall>p \<in> set (object_list (rt_object_container s ! i)). name_ok (obj_name (objects s p))"
proof -
  have "map info_type (rt_object_container s) = object_classes" using assms(1) by (simp add: objects_ok_def)
  then have "length (rt_object_container s) = 10" "ty \<in> set (map info_type (rt_object_container s))"
    using assms(2) by (auto simp: object_classes_def dest: arg_cong [where f = length])
  with info_index_found [of ty "rt_object_container s"] obtain i where
    "i < 10" "info_index ty (rt_object_container s) = Some i"
    by metis
  with that assms(1) \<open>length (rt_object_container s) = 10\<close> show thesis
    by (simp add: rt_object_get_information_def objects_ok_def)
qed

lemma rt_object_find_registry:
  assumes "objects_ok s" "ty \<in> set object_classes" "NUL \<notin> set name"
  shows "rt_object_find (Some name) ty s = Some (map_of (registry ty s) (take RT_NAME_MAX name))"
proof -
  obtain i where "rt_object_get_information ty s = Some i"
    "\<forall>p \<in> set (object_list (rt_object_container s ! i)). name_ok (obj_name (objects s p))"
    using objects_okD [OF assms(1,2)] by blast
  moreover have "\<not> RT_Object_Class_Unknown < ty"
    using assms(2) by (auto simp: object_classes_def RT_Object_Class_Unknown_def)
  ultimately show ?thesis
    using find_named_ok [OF _ assms(3)] by (simp add: rt_object_find_def registry_def)
qed

lemma in_container: "i < length is \<Longrightarrow> p \<in> set (object_list (is ! i)) \<Longrightarrow> p \<in> set (concat (map object_list is))"
  by auto

text \<open>Linking an object with a copied name puts it in front of its class and leaves the others.\<close>

lemma linking_ok:
  assumes ok: "objects_ok s" "ty \<in> set object_classes" "NUL \<notin> set name" and fresh: "\<not> linked p s"
  shows "\<exists>i s'. rt_object_get_information ty s = Some i \<and>
    obj_link i p (s\<lparr>objects := (objects s)(p := \<lparr> obj_name = str_ncpy name RT_NAME_MAX, obj_type = ot \<rparr>)\<rparr>) = Some s' \<and>
    objects_ok s' \<and> obj_type (objects s' p) = ot \<and> registry ty s' = (take RT_NAME_MAX name, p) # registry ty s \<and>
    (\<forall>ty'. ty' \<noteq> ty \<longrightarrow> registry ty' s' = registry ty' s) \<and> (\<forall>q. linked q s' \<longleftrightarrow> q = p \<or> linked q s)"
proof -
  let ?c = "rt_object_container s"
  obtain i where i: "rt_object_get_information ty s = Some i" "i < 10" "i < length ?c"
    "\<forall>p \<in> set (object_list (?c ! i)). name_ok (obj_name (objects s p))"
    using objects_okD [OF ok(1,2)] by blast
  let ?o = "\<lparr> obj_name = str_ncpy name RT_NAME_MAX, obj_type = ot \<rparr>"
  let ?c' = "?c[i := (?c ! i)\<lparr>object_list := p # object_list (?c ! i)\<rparr>]"
  let ?s' = "s\<lparr>objects := (objects s)(p := ?o), rt_object_container := ?c'\<rparr>"
  have run: "obj_link i p (s\<lparr>objects := (objects s)(p := ?o)\<rparr>) = Some ?s'"
    using fresh by (simp add: obj_link_def linked_def)
  have types: "map info_type ?c' = map info_type ?c"
    using list_update_id [of "map info_type ?c" i] i(3) by (simp add: map_update)
  have out: "p \<notin> set (object_list (?c ! j))" if "j < length ?c" for j
    using in_container [OF that] fresh by (auto simp: linked_iff)
  have len: "length ?c = 10"
    using ok(1) by (auto simp: objects_ok_def object_classes_def dest: arg_cong [where f = length])
  have "name_ok (str_ncpy name RT_NAME_MAX)"
    using ok(3) by (auto simp: name_ok_def)
  then have names: "\<forall>j < 10. \<forall>q \<in> set (object_list (?c' ! j)). name_ok (obj_name (objects ?s' q))"
    using ok(1) len i(3) by (auto simp: objects_ok_def nth_list_update split: if_splits)
  have "concat (map object_list ?c') = concat (map object_list (take i ?c)) @ p # concat (map object_list (drop i ?c))"
    using i(3) by (simp add: upd_conv_take_nth_drop Cons_nth_drop_Suc [symmetric])
  moreover have "concat (map object_list ?c) = concat (map object_list (take i ?c)) @ concat (map object_list (drop i ?c))"
    by (metis append_take_drop_id concat_append map_append)
  ultimately have all: "set (concat (map object_list ?c')) = insert p (set (concat (map object_list ?c)))"
    "distinct (concat (map object_list ?c)) \<Longrightarrow> p \<notin> set (concat (map object_list ?c)) \<Longrightarrow> distinct (concat (map object_list ?c'))"
    by auto
  have "objects_ok ?s'"
    using ok(1) types names all(2) fresh unfolding objects_ok_def linked_iff by simp
  moreover have "registry ty ?s' = (take RT_NAME_MAX name, p) # registry ty s"
    using i(1,3) out [OF i(3)] ok(3) info_index_map [OF types]
    by (auto simp: registry_def rt_object_get_information_def takeWhile_ncpy)
  moreover have "registry ty' ?s' = registry ty' s" if ty': "ty' \<noteq> ty" for ty'
  proof (cases "info_index ty' ?c")
    case (Some j)
    then have "j < length ?c" "info_type (?c ! j) = ty'" by (simp_all add: info_index_bound)
    moreover have "info_type (?c ! i) = ty"
      using i(1) by (simp add: rt_object_get_information_def info_index_bound)
    ultimately have "j \<noteq> i" "j < length ?c" using ty' by auto
    then show ?thesis
      using Some out [of j] info_index_map [OF types, of ty'] by (auto simp: registry_def rt_object_get_information_def)
  qed (use info_index_map [OF types, of ty'] in \<open>simp add: registry_def rt_object_get_information_def\<close>)
  moreover have "linked q ?s' \<longleftrightarrow> q = p \<or> linked q s" for q
    unfolding linked_iff using all(1) by simp
  ultimately show ?thesis
    using run i(1) by (intro exI [of _ i] exI [of _ ?s'] conjI) simp_all
qed

text \<open>Objects of the program and objects from the heap.\<close>

lemma rt_object_init_ok:
  assumes ok: "objects_ok s" "ty \<in> set object_classes" "NUL \<notin> set name"
    and fresh: "\<not> linked p s" "length (obj_name (objects s p)) = RT_NAME_MAX"
  shows "\<exists>s'. rt_object_init p ty name s = Some s' \<and> objects_ok s' \<and> registry ty s' = (take RT_NAME_MAX name, p) # registry ty s \<and>
    (\<forall>ty'. ty' \<noteq> ty \<longrightarrow> registry ty' s' = registry ty' s) \<and> rt_object_get_type p s' = ty \<and>
    (\<forall>q. linked q s' \<longleftrightarrow> q = p \<or> linked q s)"
proof -
  have "(ty OR RT_Object_Class_Static) AND NOT RT_Object_Class_Static = ty"
    using ok(2) by (auto simp: object_classes_def RT_Object_Class_Static_def)
  then show ?thesis
    using linking_ok [OF ok fresh(1), of "ty OR RT_Object_Class_Static"] fresh(2)
    by (auto simp: rt_object_init_def rt_strncpy_fits rt_object_get_type_def)
qed

text \<open>Detaching takes the object out of every registry.\<close>

lemma rt_object_detach_ok:
  assumes ok: "objects_ok s"
  shows "objects_ok (rt_object_detach p s) \<and>
    registry ty (rt_object_detach p s) = filter (\<lambda>(n, q). q \<noteq> p) (registry ty s) \<and>
    (linked q (rt_object_detach p s) \<longleftrightarrow> q \<noteq> p \<and> linked q s)"
proof -
  let ?c = "rt_object_container s" and ?s' = "rt_object_detach p s"
  let ?c' = "map (\<lambda>i. i\<lparr>object_list := remove1 p (object_list i)\<rparr>) ?c"
  have c: "rt_object_container ?s' = ?c'" "obj_name (objects ?s' q) = obj_name (objects s q)" for q
    by (simp_all add: rt_object_detach_def obj_unlink_def)
  have dist: "distinct (concat (map object_list ?c))"
    using ok by (simp add: objects_ok_def)
  then have rem: "remove1 p (object_list i) = filter (\<lambda>q. q \<noteq> p) (object_list i)" if "i \<in> set ?c" for i
  proof -
    have "distinct (object_list i)" using that dist by (auto simp: distinct_concat_iff)
    then show ?thesis by (simp add: distinct_remove1_removeAll removeAll_filter_not_eq) (rule filter_cong, auto)
  qed
  have types: "map info_type ?c' = map info_type ?c" by simp
  have cat: "concat (map object_list ?c') = filter (\<lambda>q. q \<noteq> p) (concat (map object_list ?c))"
    using rem by (simp add: filter_concat comp_def cong: map_cong)
  have len: "length ?c = 10"
    using ok by (auto simp: objects_ok_def object_classes_def dest: arg_cong [where f = length])
  have "objects_ok ?s'"
    using ok dist len rem unfolding objects_ok_def c cat types by auto
  moreover have "registry ty ?s' = filter (\<lambda>(n, q). q \<noteq> p) (registry ty s)"
  proof (cases "info_index ty ?c")
    case (Some i)
    then show ?thesis
      using info_index_bound [OF Some] rem [of "?c ! i"] info_index_map [OF types, of ty]
      by (simp add: registry_def rt_object_get_information_def c filter_map comp_def)
  qed (use info_index_map [OF types, of ty] in \<open>simp add: registry_def rt_object_get_information_def c\<close>)
  moreover have "linked q ?s' \<longleftrightarrow> q \<noteq> p \<and> linked q s"
    unfolding linked_iff c cat by auto
  ultimately show ?thesis by blast
qed

end
