(* ===== verification/Rt_Device.thy ===== *)
theory Rt_Device
  imports Rt_Object Rt_Event
begin

text \<open>
  Devices, \<^verbatim>\<open>Kernel/device.c\<close>: objects of a class of their own with flags, a count of users and the operations of
  a driver. A driver is a parameter: its operations work on the device and on a state \<open>drv\<close> that all drivers
  share. \<^verbatim>\<open>rt_set_errno\<close> is the field \<open>errno\<close>.
\<close>

section \<open>Data\<close>

record rt_device =
  dev_flag :: "16 word"
  open_flag :: "16 word"
  ref_count :: "8 word"
  rx_indicate :: "nat option"
  tx_complete :: "nat option"

text \<open>A missing operation is \<^const>\<open>None\<close>. A read writes into an array from an offset on; leaving the array is \<^const>\<open>None\<close>.\<close>

record 'd rt_device_ops =
  device_init :: "(rt_device \<Rightarrow> 'd \<Rightarrow> int \<times> rt_device \<times> 'd) option"
  device_open :: "(16 word \<Rightarrow> rt_device \<Rightarrow> 'd \<Rightarrow> int \<times> rt_device \<times> 'd) option"
  device_close :: "(rt_device \<Rightarrow> 'd \<Rightarrow> int \<times> rt_device \<times> 'd) option"
  device_read :: "(int \<Rightarrow> UCHAR list \<Rightarrow> nat \<Rightarrow> 32 word \<Rightarrow> rt_device \<Rightarrow> 'd \<Rightarrow> (32 word \<times> UCHAR list \<times> rt_device \<times> 'd) option) option"
  device_write :: "(int \<Rightarrow> UCHAR list \<Rightarrow> 32 word \<Rightarrow> rt_device \<Rightarrow> 'd \<Rightarrow> 32 word \<times> rt_device \<times> 'd) option"
  device_control :: "(int \<Rightarrow> nat \<Rightarrow> rt_device \<Rightarrow> 'd \<Rightarrow> int \<times> rt_device \<times> 'd) option"

record 'd device_sys =
  osys :: object_system
  dheap :: mem_heap
  devs :: "obj_ptr \<Rightarrow> rt_device"
  ops :: "obj_ptr \<Rightarrow> 'd rt_device_ops"
  drv :: 'd
  errno :: int

definition RT_DEVICE_FLAG_STANDALONE :: "16 word" where "RT_DEVICE_FLAG_STANDALONE = 0x008"
definition RT_DEVICE_FLAG_ACTIVATED :: "16 word" where "RT_DEVICE_FLAG_ACTIVATED = 0x010"
definition RT_DEVICE_OFLAG_RDWR :: "16 word" where "RT_DEVICE_OFLAG_RDWR = 0x003"
definition RT_DEVICE_OFLAG_OPEN :: "16 word" where "RT_DEVICE_OFLAG_OPEN = 0x008"
definition RT_DEVICE_OFLAG_MASK :: "16 word" where "RT_DEVICE_OFLAG_MASK = 0xf0f"
definition RT_ENOSYS :: int where "RT_ENOSYS = 6"
definition RT_EBUSY :: int where "RT_EBUSY = 7"
definition SIZEOF_DEVICE :: "32 word" where "SIZEOF_DEVICE = 68"

abbreviation set_dev :: "obj_ptr \<Rightarrow> rt_device \<Rightarrow> 'd device_sys \<Rightarrow> 'd device_sys" where
  "set_dev p d s \<equiv> s\<lparr>devs := (devs s)(p := d)\<rparr>"

definition is_device :: "obj_ptr \<Rightarrow> 'd device_sys \<Rightarrow> bool" where
  "is_device p s \<longleftrightarrow> rt_object_get_type p (osys s) = RT_Object_Class_Device"

section \<open>Registration\<close>

definition rt_device_find :: "string \<Rightarrow> 'd device_sys \<Rightarrow> obj_ptr option option" where
  "rt_device_find name s = (case rt_object_get_information RT_Object_Class_Device (osys s) of
     None \<Rightarrow> None
   | Some i \<Rightarrow> find_named (objects (osys s)) name (object_list (rt_object_container (osys s) ! i)))"

definition rt_device_register ::
  "obj_ptr option \<Rightarrow> string \<Rightarrow> 16 word \<Rightarrow> 'd device_sys \<Rightarrow> (int \<times> 'd device_sys) option" where
  "rt_device_register dev name flags s = (case dev of
     None \<Rightarrow> Some (- RT_ERROR, s)
   | Some p \<Rightarrow> do {
       old \<leftarrow> rt_device_find name s;
       if old \<noteq> None then Some (- RT_ERROR, s)
       else do {
         os \<leftarrow> rt_object_init p RT_Object_Class_Device name (osys s);
         Some (RT_EOK, set_dev p ((devs s p)\<lparr>dev_flag := flags, ref_count := 0, open_flag := 0\<rparr>) (s\<lparr>osys := os\<rparr>))
       }
     })"

definition rt_device_unregister :: "obj_ptr \<Rightarrow> 'd device_sys \<Rightarrow> (int \<times> 'd device_sys) option" where
  "rt_device_unregister p s = do {
     rt_assert (is_device p s);
     rt_assert (rt_object_is_systemobject p (osys s));
     Some (RT_EOK, s\<lparr>osys := rt_object_detach p (osys s)\<rparr>)
   }"

text \<open>The type of the device is not used by the code that is modelled.\<close>

definition no_ops :: "'d rt_device_ops" where
  "no_ops = \<lparr> device_init = None, device_open = None, device_close = None, device_read = None, device_write = None,
     device_control = None \<rparr>"

definition rt_device_create :: "32 word \<Rightarrow> 'd device_sys \<Rightarrow> (obj_ptr option \<times> 'd device_sys) option" where
  "rt_device_create attach_size s = do {
     (r, h) \<leftarrow> rt_malloc (rt_align SIZEOF_DEVICE + rt_align attach_size) (dheap s);
     case r of
       None \<Rightarrow> Some (None, s\<lparr>dheap := h\<rparr>)
     | Some a \<Rightarrow> Some (Some (O_Heap a), s\<lparr>dheap := h,
         osys := (osys s)\<lparr>objects := (objects (osys s))(O_Heap a := \<lparr> obj_name = replicate RT_NAME_MAX NUL, obj_type = 0 \<rparr>)\<rparr>,
         devs := (devs s)(O_Heap a := \<lparr> dev_flag = 0, open_flag = 0, ref_count = 0, rx_indicate = None, tx_complete = None \<rparr>),
         ops := (ops s)(O_Heap a := no_ops)\<rparr>)
   }"

definition rt_device_destroy :: "obj_ptr \<Rightarrow> 'd device_sys \<Rightarrow> 'd device_sys option" where
  "rt_device_destroy p s = do {
     rt_assert (is_device p s);
     rt_assert (\<not> rt_object_is_systemobject p (osys s));
     let s = s\<lparr>osys := rt_object_detach p (osys s)\<rparr>;
     case p of
       O_Static _ \<Rightarrow> None
     | O_Heap a \<Rightarrow> do { h \<leftarrow> rt_free (Some a) (dheap s); Some (s\<lparr>dheap := h\<rparr>) }
   }"

section \<open>Using a device\<close>

definition rt_device_init :: "obj_ptr \<Rightarrow> 'd device_sys \<Rightarrow> int \<times> 'd device_sys" where
  "rt_device_init p s = (case device_init (ops s p) of
     None \<Rightarrow> (RT_EOK, s)
   | Some f \<Rightarrow>
       if dev_flag (devs s p) AND RT_DEVICE_FLAG_ACTIVATED = 0
       then let (result, d, w) = f (devs s p) (drv s) in
         if result \<noteq> RT_EOK then (result, set_dev p d (s\<lparr>drv := w\<rparr>))
         else (result, set_dev p (d\<lparr>dev_flag := dev_flag d OR RT_DEVICE_FLAG_ACTIVATED\<rparr>) (s\<lparr>drv := w\<rparr>))
       else (RT_EOK, s))"

definition open_activate :: "obj_ptr \<Rightarrow> 'd device_sys \<Rightarrow> int \<times> 'd device_sys" where
  "open_activate p s =
    (if dev_flag (devs s p) AND RT_DEVICE_FLAG_ACTIVATED = 0
     then let (result, d, w) = (case device_init (ops s p) of None \<Rightarrow> (RT_EOK, devs s p, drv s) | Some f \<Rightarrow> f (devs s p) (drv s)) in
       if result \<noteq> RT_EOK then (result, set_dev p d (s\<lparr>drv := w\<rparr>))
       else (result, set_dev p (d\<lparr>dev_flag := dev_flag d OR RT_DEVICE_FLAG_ACTIVATED\<rparr>) (s\<lparr>drv := w\<rparr>))
     else (RT_EOK, s))"

definition rt_device_open :: "obj_ptr \<Rightarrow> 16 word \<Rightarrow> 'd device_sys \<Rightarrow> (int \<times> 'd device_sys) option" where
  "rt_device_open p oflag s = do {
     rt_assert (is_device p s);
     let (result, s) = open_activate p s;
     if result \<noteq> RT_EOK then Some (result, s)
     else if dev_flag (devs s p) AND RT_DEVICE_FLAG_STANDALONE \<noteq> 0 \<and> open_flag (devs s p) AND RT_DEVICE_OFLAG_OPEN \<noteq> 0
     then Some (- RT_EBUSY, s)
     else do {
       let (result, d, w) = (case device_open (ops s p) of
           None \<Rightarrow> (result, (devs s p)\<lparr>open_flag := oflag AND RT_DEVICE_OFLAG_MASK\<rparr>, drv s)
         | Some f \<Rightarrow> f oflag (devs s p) (drv s));
       if result = RT_EOK \<or> result = - RT_ENOSYS
       then do {
         let d = d\<lparr>open_flag := open_flag d OR RT_DEVICE_OFLAG_OPEN, ref_count := ref_count d + 1\<rparr>;
         rt_assert (ref_count d \<noteq> 0);
         Some (result, set_dev p d (s\<lparr>drv := w\<rparr>))
       }
       else Some (result, set_dev p d (s\<lparr>drv := w\<rparr>))
     }
   }"

definition rt_device_close :: "obj_ptr \<Rightarrow> 'd device_sys \<Rightarrow> (int \<times> 'd device_sys) option" where
  "rt_device_close p s = do {
     rt_assert (is_device p s);
     if ref_count (devs s p) = 0 then Some (- RT_ERROR, s)
     else let d = (devs s p)\<lparr>ref_count := ref_count (devs s p) - 1\<rparr> in
       if ref_count d \<noteq> 0 then Some (RT_EOK, set_dev p d s)
       else let (result, d, w) = (case device_close (ops s p) of None \<Rightarrow> (RT_EOK, d, drv s) | Some f \<Rightarrow> f d (drv s));
              d = (if result = RT_EOK \<or> result = - RT_ENOSYS then d\<lparr>open_flag := 0\<rparr> else d) in
         Some (result, set_dev p d (s\<lparr>drv := w\<rparr>))
   }"

definition rt_device_read ::
  "obj_ptr \<Rightarrow> int \<Rightarrow> UCHAR list \<Rightarrow> nat \<Rightarrow> 32 word \<Rightarrow> 'd device_sys \<Rightarrow> (32 word \<times> UCHAR list \<times> 'd device_sys) option" where
  "rt_device_read p pos buffer off size' s = do {
     rt_assert (is_device p s);
     if ref_count (devs s p) = 0 then Some (0, buffer, s\<lparr>errno := - RT_ERROR\<rparr>)
     else case device_read (ops s p) of
       None \<Rightarrow> Some (0, buffer, s\<lparr>errno := - RT_ENOSYS\<rparr>)
     | Some f \<Rightarrow> do {
         (n, buffer, d, w) \<leftarrow> f pos buffer off size' (devs s p) (drv s);
         Some (n, buffer, set_dev p d (s\<lparr>drv := w\<rparr>))
       }
   }"

definition rt_device_write ::
  "obj_ptr \<Rightarrow> int \<Rightarrow> UCHAR list \<Rightarrow> 32 word \<Rightarrow> 'd device_sys \<Rightarrow> (32 word \<times> 'd device_sys) option" where
  "rt_device_write p pos buffer size' s = do {
     rt_assert (is_device p s);
     if ref_count (devs s p) = 0 then Some (0, s\<lparr>errno := - RT_ERROR\<rparr>)
     else case device_write (ops s p) of
       None \<Rightarrow> Some (0, s\<lparr>errno := - RT_ENOSYS\<rparr>)
     | Some f \<Rightarrow> let (n, d, w) = f pos buffer size' (devs s p) (drv s) in Some (n, set_dev p d (s\<lparr>drv := w\<rparr>))
   }"

definition rt_device_control :: "obj_ptr \<Rightarrow> int \<Rightarrow> nat \<Rightarrow> 'd device_sys \<Rightarrow> (int \<times> 'd device_sys) option" where
  "rt_device_control p cmd arg s = do {
     rt_assert (is_device p s);
     case device_control (ops s p) of
       None \<Rightarrow> Some (- RT_ENOSYS, s)
     | Some f \<Rightarrow> let (r, d, w) = f cmd arg (devs s p) (drv s) in Some (r, set_dev p d (s\<lparr>drv := w\<rparr>))
   }"

definition rt_device_set_rx_indicate :: "obj_ptr \<Rightarrow> nat option \<Rightarrow> 'd device_sys \<Rightarrow> (int \<times> 'd device_sys) option" where
  "rt_device_set_rx_indicate p f s = do {
     rt_assert (is_device p s);
     Some (RT_EOK, set_dev p ((devs s p)\<lparr>rx_indicate := f\<rparr>) s)
   }"

definition rt_device_set_tx_complete :: "obj_ptr \<Rightarrow> nat option \<Rightarrow> 'd device_sys \<Rightarrow> (int \<times> 'd device_sys) option" where
  "rt_device_set_tx_complete p f s = do {
     rt_assert (is_device p s);
     Some (RT_EOK, set_dev p ((devs s p)\<lparr>tx_complete := f\<rparr>) s)
   }"

section \<open>Names of devices\<close>

definition devices :: "'d device_sys \<Rightarrow> (string \<times> obj_ptr) list" where
  "devices s = registry RT_Object_Class_Device (osys s)"

lemma device_class: "RT_Object_Class_Device \<in> set object_classes"
  by (simp add: RT_Object_Class_Device_def object_classes_def)

lemma rt_device_find_ok:
  assumes "objects_ok (osys s)" "NUL \<notin> set name"
  shows "rt_device_find name s = Some (map_of (devices s) (take RT_NAME_MAX name))"
  using rt_object_find_registry [OF assms(1) device_class assms(2)]
  by (simp add: rt_object_find_def rt_device_find_def devices_def RT_Object_Class_Unknown_def RT_Object_Class_Device_def)

lemma rt_device_register_ok:
  assumes "objects_ok (osys s)" "NUL \<notin> set name" "\<not> linked p (osys s)" "length (obj_name (objects (osys s) p)) = RT_NAME_MAX"
  shows "\<exists>r s'. rt_device_register (Some p) name flags s = Some (r, s') \<and> objects_ok (osys s') \<and>
    (if map_of (devices s) (take RT_NAME_MAX name) = None
     then r = RT_EOK \<and> devices s' = (take RT_NAME_MAX name, p) # devices s \<and> is_device p s'
     else r = - RT_ERROR \<and> s' = s)"
proof (cases "map_of (devices s) (take RT_NAME_MAX name)")
  case None
  obtain os where "rt_object_init p RT_Object_Class_Device name (osys s) = Some os" "objects_ok os"
    "registry RT_Object_Class_Device os = (take RT_NAME_MAX name, p) # registry RT_Object_Class_Device (osys s)"
    "rt_object_get_type p os = RT_Object_Class_Device"
    using rt_object_init_ok [OF assms(1) device_class assms(2-4)] by blast
  then show ?thesis
    using None rt_device_find_ok [OF assms(1,2)] by (simp add: rt_device_register_def devices_def is_device_def)
next
  case (Some q)
  then show ?thesis
    using rt_device_find_ok [OF assms(1,2)] assms(1) by (simp add: rt_device_register_def)
qed

lemma registration:
  assumes "objects_ok (osys s)" "NUL \<notin> set name" "\<not> linked p (osys s)" "length (obj_name (objects (osys s) p)) = RT_NAME_MAX"
  shows "\<exists>r s'. rt_device_register (Some p) name flags s = Some (r, s') \<and> objects_ok (osys s') \<and>
    (if rt_device_find name s = Some None
     then r = RT_EOK \<and> (\<forall>n. NUL \<notin> set n \<longrightarrow>
       rt_device_find n s' = (if take 8 n = take 8 name then Some (Some p) else rt_device_find n s))
     else r = - RT_ERROR \<and> s' = s)"
proof -
  obtain r s' where s': "rt_device_register (Some p) name flags s = Some (r, s')" "objects_ok (osys s')"
    "if map_of (devices s) (take RT_NAME_MAX name) = None
     then r = RT_EOK \<and> devices s' = (take RT_NAME_MAX name, p) # devices s \<and> is_device p s'
     else r = - RT_ERROR \<and> s' = s"
    using rt_device_register_ok [OF assms] by blast
  show ?thesis
  proof (cases "map_of (devices s) (take RT_NAME_MAX name) = None")
    case True
    then have "devices s' = (take RT_NAME_MAX name, p) # devices s" "r = RT_EOK" using s'(3) by simp_all
    then show ?thesis
      using s'(1,2) True rt_device_find_ok [OF assms(1)] rt_device_find_ok [OF s'(2)] assms(2)
      by (auto simp: RT_NAME_MAX_def)
  next
    case False
    then show ?thesis
      using s' rt_device_find_ok [OF assms(1,2)] by auto
  qed
qed

section \<open>Devices that are created cannot be destroyed\<close>

text \<open>What can be done to devices before one is destroyed.\<close>

inductive dev_reach :: "'d device_sys \<Rightarrow> bool" where
  start: "\<forall>p. obj_type (objects (osys s) p) = 0 \<Longrightarrow> dev_reach s"
| create: "dev_reach s \<Longrightarrow> rt_device_create n s = Some (r, s') \<Longrightarrow> dev_reach s'"
| register: "dev_reach s \<Longrightarrow> rt_device_register dev name flags s = Some (e, s') \<Longrightarrow> dev_reach s'"
| unregister: "dev_reach s \<Longrightarrow> rt_device_unregister p s = Some (e, s') \<Longrightarrow> dev_reach s'"
| opened: "dev_reach s \<Longrightarrow> rt_device_open p oflag s = Some (e, s') \<Longrightarrow> dev_reach s'"
| closed: "dev_reach s \<Longrightarrow> rt_device_close p s = Some (e, s') \<Longrightarrow> dev_reach s'"
| inited: "dev_reach s \<Longrightarrow> rt_device_init p s = (e, s') \<Longrightarrow> dev_reach s'"
| reads: "dev_reach s \<Longrightarrow> rt_device_read p pos b off n s = Some (k, b', s') \<Longrightarrow> dev_reach s'"
| writes: "dev_reach s \<Longrightarrow> rt_device_write p pos b n s = Some (k, s') \<Longrightarrow> dev_reach s'"
| controlled: "dev_reach s \<Longrightarrow> rt_device_control p cmd arg s = Some (e, s') \<Longrightarrow> dev_reach s'"
| rx_indicated: "dev_reach s \<Longrightarrow> rt_device_set_rx_indicate p f s = Some (e, s') \<Longrightarrow> dev_reach s'"
| tx_completed: "dev_reach s \<Longrightarrow> rt_device_set_tx_complete p f s = Some (e, s') \<Longrightarrow> dev_reach s'"

lemma osys_open: "rt_device_open p oflag s = Some (e, s') \<Longrightarrow> osys s' = osys s"
  by (auto simp: rt_device_open_def open_activate_def Let_def split: if_splits prod.splits option.splits Option.bind_splits)

lemma osys_close: "rt_device_close p s = Some (e, s') \<Longrightarrow> osys s' = osys s"
  by (auto simp: rt_device_close_def Let_def split: if_splits prod.splits option.splits Option.bind_splits)

text \<open>Using a device leaves the objects alone.\<close>

lemma osys_use:
  "rt_device_init p s = (e, s') \<Longrightarrow> osys s' = osys s"
  "rt_device_read p pos b off n s = Some (k, b', s') \<Longrightarrow> osys s' = osys s"
  "rt_device_write p pos b n s = Some (k, s') \<Longrightarrow> osys s' = osys s"
  "rt_device_control p cmd arg s = Some (e, s') \<Longrightarrow> osys s' = osys s"
  "rt_device_set_rx_indicate p f s = Some (e, s') \<Longrightarrow> osys s' = osys s"
  "rt_device_set_tx_complete p f s = Some (e, s') \<Longrightarrow> osys s' = osys s"
  by (auto simp: rt_device_init_def rt_device_read_def rt_device_write_def rt_device_control_def
      rt_device_set_rx_indicate_def rt_device_set_tx_complete_def Let_def
      split: if_splits prod.splits option.splits Option.bind_splits)

lemma dev_types:
  assumes "dev_reach s"
  shows "obj_type (objects (osys s) p) = 0 \<or> obj_type (objects (osys s) p) = RT_Object_Class_Device OR RT_Object_Class_Static"
  using assms
proof (induction arbitrary: p rule: dev_reach.induct)
  case (create s n r s')
  from create.IH [of p] create.hyps(2) show ?case
    by (auto simp: rt_device_create_def split: Option.bind_splits option.splits)
next
  case (register s dev name flags e s')
  from register.IH [of p] register.hyps(2) show ?case
    by (auto simp: rt_device_register_def rt_object_init_def obj_link_def split: Option.bind_splits option.splits if_splits)
next
  case (unregister s q e s')
  from unregister.IH [of p] unregister.hyps(2) show ?case
    by (auto simp: rt_device_unregister_def rt_object_detach_def obj_unlink_def split: Option.bind_splits)
qed (simp_all add: osys_open osys_close osys_use)

lemma destroy_fails:
  assumes "dev_reach s"
  shows "rt_device_destroy p s = None"
proof -
  have "\<not> is_device p s \<or> rt_object_is_systemobject p (osys s)"
    using dev_types [OF assms, of p]
    by (auto simp: is_device_def rt_object_get_type_def rt_object_is_systemobject_def RT_Object_Class_Device_def
        RT_Object_Class_Static_def)
  then show ?thesis by (auto simp: rt_device_destroy_def)
qed

end
