(* ===== verification/App_Sensor_Data.thy ===== *)
theory App_Sensor_Data
  imports Rt_Device
begin

text \<open>
  The readings of \<^verbatim>\<open>applications/sensor_control.c\<close>: the devices of the protocol table are read into a buffer,
  and the main thread asks for a copy of it. What is at address 0 of the microcontroller is the
  parameter \<open>low\<close>.
\<close>

record 'd sensor_ctl =
  sdev :: "'d device_sys"
  sb_size :: UCHAR
  sb_buf :: "UCHAR list"

text \<open>The table of \<^verbatim>\<open>protocol.h\<close>.\<close>

definition Ptc_version :: UCHAR where "Ptc_version = 1"

definition Ptc_sensor :: "string list" where
  "Ptc_sensor = [''temp'', ''humi'', ''windDpend'', ''windDirection'', ''pm2_5'', ''light'', ''rain'']"

fun protocol_loop :: "string list \<Rightarrow> UCHAR \<Rightarrow> 'd sensor_ctl \<Rightarrow> (UCHAR \<times> 'd sensor_ctl) option" where
  "protocol_loop [] size' s = Some (size', s)"
| "protocol_loop (n # ns) size' s = do {
     dev \<leftarrow> rt_device_find n (sdev s);
     case dev of
       None \<Rightarrow> protocol_loop ns size' s
     | Some p \<Rightarrow> do {
         (_, d) \<leftarrow> rt_device_open p RT_DEVICE_OFLAG_RDWR (sdev s);
         (k, b, d) \<leftarrow> rt_device_read p 1 (sb_buf s) (unat size') 0 d;
         (_, d) \<leftarrow> rt_device_close p d;
         protocol_loop ns (size' + ucast k) (s\<lparr>sdev := d, sb_buf := b\<rparr>)
       }
   }"

definition use_protocol_v1 :: "'d sensor_ctl \<Rightarrow> 'd sensor_ctl option" where
  "use_protocol_v1 s = do {
     (size', s) \<leftarrow> protocol_loop Ptc_sensor 0 s;
     Some (s\<lparr>sb_size := size'\<rparr>)
   }"

definition update_sensor :: "UCHAR list \<Rightarrow> 'd sensor_ctl \<Rightarrow> 'd sensor_ctl option" where
  "update_sensor low s = do {
     b \<leftarrow> rt_memcpy (sb_buf s) low 255;
     let s = s\<lparr>sb_size := 0, sb_buf := b\<rparr>;
     if Ptc_version = 1 then use_protocol_v1 s else Some s
   }"

definition SENSOR_EVENT_MODBUS_OK :: "32 word" where "SENSOR_EVENT_MODBUS_OK = 1"
definition SENSOR_EVENT_UPDATE :: "32 word" where "SENSOR_EVENT_UPDATE = 2"

text \<open>What the thread does with the events it has received.\<close>

definition sensor_thread_event :: "UCHAR list \<Rightarrow> 32 word \<Rightarrow> 'd sensor_ctl \<Rightarrow> 'd sensor_ctl option" where
  "sensor_thread_event low event s = (if event AND SENSOR_EVENT_UPDATE \<noteq> 0 then update_sensor low s else Some s)"

text \<open>\<^verbatim>\<open>rt_memcmp\<close> of \<^verbatim>\<open>kservice.c\<close>.\<close>

fun rt_memcmp :: "UCHAR list \<Rightarrow> UCHAR list \<Rightarrow> nat \<Rightarrow> int option" where
  "rt_memcmp cs ct 0 = Some 0"
| "rt_memcmp (a # cs) (b # ct) (Suc count) = (if a \<noteq> b then Some (uint a - uint b) else rt_memcmp cs ct count)"
| "rt_memcmp _ _ (Suc count) = None"

text \<open>The number of bytes and the caller's buffer.\<close>

definition sensor_get_data :: "UCHAR list \<Rightarrow> 'd sensor_ctl \<Rightarrow> (UCHAR \<times> UCHAR list) option" where
  "sensor_get_data buf s = do {
     _ \<leftarrow> rt_memcmp buf (sb_buf s) (unat (sb_size s));
     Some (sb_size s, buf)
   }"

lemma rt_memcmp_in: "n \<le> length cs \<Longrightarrow> n \<le> length ct \<Longrightarrow> \<exists>r. rt_memcmp cs ct n = Some r"
  by (induction cs ct n rule: rt_memcmp.induct) auto

lemma sensor_get_data_keeps:
  assumes "length buf = 255" "length (sb_buf s) = 255"
  shows "sensor_get_data buf s = Some (sb_size s, buf)"
proof -
  have "unat (sb_size s) \<le> 255" using unsigned_less [of "sb_size s", where 'a = nat] by simp
  with rt_memcmp_in [of "unat (sb_size s)" buf "sb_buf s"] assms show ?thesis
    by (auto simp: sensor_get_data_def)
qed

section \<open>Reading the devices\<close>

text \<open>
  Drivers that keep their buffers: they answer success, a read stays inside the array, and the flags
  and the counter of the device are left alone.
\<close>

definition driver_ok :: "'d rt_device_ops \<Rightarrow> bool" where
  "driver_ok f \<longleftrightarrow>
     (case device_init f of None \<Rightarrow> True | Some g \<Rightarrow> \<forall>d w. \<exists>w'. g d w = (RT_EOK, d, w')) \<and>
     (case device_open f of None \<Rightarrow> True | Some g \<Rightarrow> \<forall>o' d w. \<exists>w'. g o' d w = (RT_EOK, d, w')) \<and>
     (case device_close f of None \<Rightarrow> True | Some g \<Rightarrow> \<forall>d w. \<exists>w'. g d w = (RT_EOK, d, w')) \<and>
     (case device_read f of None \<Rightarrow> True | Some g \<Rightarrow> \<forall>pos b off n d w. length b = 255 \<longrightarrow>
       (\<exists>k b' w'. g pos b off n d w = Some (k, b', d, w') \<and> length b' = 255))"

definition sensors_ready :: "'d sensor_ctl \<Rightarrow> bool" where
  "sensors_ready s \<longleftrightarrow> objects_ok (osys (sdev s)) \<and> length (sb_buf s) = 255 \<and>
     (\<forall>p. p \<in> snd ` set (devices (sdev s)) \<longrightarrow> is_device p (sdev s) \<and> driver_ok (ops (sdev s) p) \<and>
       dev_flag (devs (sdev s) p) AND RT_DEVICE_FLAG_STANDALONE = 0 \<and> ref_count (devs (sdev s) p) = 0)"

lemma standalone_activated: "x AND RT_DEVICE_FLAG_STANDALONE = 0 \<Longrightarrow> (x OR RT_DEVICE_FLAG_ACTIVATED) AND RT_DEVICE_FLAG_STANDALONE = 0"
  by (simp add: RT_DEVICE_FLAG_STANDALONE_def RT_DEVICE_FLAG_ACTIVATED_def bit.conj_disj_distrib2)

text \<open>What a call on the device \<open>p\<close> leaves: everything but that device and the drivers' state.\<close>

definition only_dev :: "obj_ptr \<Rightarrow> rt_device \<Rightarrow> 'd device_sys \<Rightarrow> 'd device_sys \<Rightarrow> bool" where
  "only_dev p d s s' \<longleftrightarrow> osys s' = osys s \<and> ops s' = ops s \<and> devs s' = (devs s)(p := d)"

lemma activate_ok:
  assumes "driver_ok (ops s p)" "dev_flag (devs s p) AND RT_DEVICE_FLAG_STANDALONE = 0"
  shows "\<exists>d s'. open_activate p s = (RT_EOK, s') \<and> only_dev p d s s' \<and> ref_count d = ref_count (devs s p) \<and>
    dev_flag d AND RT_DEVICE_FLAG_STANDALONE = 0"
proof (cases "dev_flag (devs s p) AND RT_DEVICE_FLAG_ACTIVATED = 0")
  case True
  obtain w' where "(case device_init (ops s p) of None \<Rightarrow> (RT_EOK, devs s p, drv s) | Some f \<Rightarrow> f (devs s p) (drv s)) =
      (RT_EOK, devs s p, w')"
    using assms(1) by (cases "device_init (ops s p)") (auto simp: driver_ok_def)
  then show ?thesis
    using True assms(2)
    by (intro exI [of _ "(devs s p)\<lparr>dev_flag := dev_flag (devs s p) OR RT_DEVICE_FLAG_ACTIVATED\<rparr>"])
      (simp add: open_activate_def only_dev_def standalone_activated)
next
  case False
  then show ?thesis
    using assms(2) by (intro exI [of _ "devs s p"]) (simp add: open_activate_def only_dev_def)
qed

lemma open_ok:
  assumes dev: "is_device p s" "driver_ok (ops s p)" "dev_flag (devs s p) AND RT_DEVICE_FLAG_STANDALONE = 0" "ref_count (devs s p) = 0"
  shows "\<exists>d s'. rt_device_open p oflag s = Some (RT_EOK, s') \<and> only_dev p d s s' \<and> ref_count d = 1 \<and>
    dev_flag d AND RT_DEVICE_FLAG_STANDALONE = 0"
proof -
  obtain d s1 where act: "open_activate p s = (RT_EOK, s1)" "only_dev p d s s1" "ref_count d = 0"
    "dev_flag d AND RT_DEVICE_FLAG_STANDALONE = 0"
    using activate_ok [OF dev(2,3)] dev(4) by auto
  have s1: "devs s1 p = d" "ops s1 = ops s" "is_device p s1"
    using act(2) dev(1) by (simp_all add: only_dev_def is_device_def)
  obtain e w' where e: "(case device_open (ops s1 p) of
      None \<Rightarrow> (RT_EOK, (devs s1 p)\<lparr>open_flag := oflag AND RT_DEVICE_OFLAG_MASK\<rparr>, drv s1)
    | Some f \<Rightarrow> f oflag (devs s1 p) (drv s1)) = (RT_EOK, e, w')" "ref_count e = 0" "dev_flag e = dev_flag d"
  proof (cases "device_open (ops s p)")
    case None
    then show ?thesis using that act(3) s1 by simp
  next
    case (Some g)
    then have "\<exists>w'. g oflag d (drv s1) = (RT_EOK, d, w')"
      using dev(2) by (simp add: driver_ok_def)
    then show ?thesis using that Some act(3) s1 by auto
  qed
  then show ?thesis
    using act dev(1) s1
    by (intro exI [of _ "e\<lparr>open_flag := open_flag e OR RT_DEVICE_OFLAG_OPEN, ref_count := 1\<rparr>"])
      (simp add: rt_device_open_def only_dev_def)
qed

lemma read_ok:
  assumes "is_device p s" "driver_ok (ops s p)" "ref_count (devs s p) = 1" "length b = 255"
  shows "\<exists>k b' s'. rt_device_read p pos b off n s = Some (k, b', s') \<and> length b' = 255 \<and> only_dev p (devs s p) s s'"
proof (cases "device_read (ops s p)")
  case None
  then show ?thesis using assms by (simp add: rt_device_read_def only_dev_def)
next
  case (Some g)
  then obtain k b' w' where "g pos b off n (devs s p) (drv s) = Some (k, b', devs s p, w')" "length b' = 255"
    using assms(2,4) by (fastforce simp: driver_ok_def)
  then show ?thesis using assms Some by (simp add: rt_device_read_def only_dev_def)
qed

lemma close_ok:
  assumes "is_device p s" "driver_ok (ops s p)" "ref_count (devs s p) = 1"
  shows "\<exists>d s'. rt_device_close p s = Some (RT_EOK, s') \<and> only_dev p d s s' \<and> ref_count d = 0 \<and>
    dev_flag d = dev_flag (devs s p)"
proof -
  let ?d = "(devs s p)\<lparr>ref_count := 0\<rparr>"
  obtain w' where "(case device_close (ops s p) of None \<Rightarrow> (RT_EOK, ?d, drv s) | Some f \<Rightarrow> f ?d (drv s)) = (RT_EOK, ?d, w')"
    using assms(2) by (cases "device_close (ops s p)") (auto simp: driver_ok_def)
  then show ?thesis
    using assms(1,3) by (intro exI [of _ "?d\<lparr>open_flag := 0\<rparr>"]) (simp add: rt_device_close_def only_dev_def Let_def)
qed

lemma protocol_loop_ready:
  assumes "sensors_ready s" "\<forall>n \<in> set ns. NUL \<notin> set n"
  shows "\<exists>size' s'. protocol_loop ns size0 s = Some (size', s') \<and> sensors_ready s' \<and> devices (sdev s') = devices (sdev s)"
  using assms
proof (induction ns arbitrary: size0 s)
  case (Cons n ns)
  let ?d = "sdev s"
  have ready: "objects_ok (osys ?d)" "length (sb_buf s) = 255"
    using Cons.prems(1) by (simp_all add: sensors_ready_def)
  have find: "rt_device_find n ?d = Some (map_of (devices ?d) (take RT_NAME_MAX n))"
    using rt_device_find_ok [OF ready(1)] Cons.prems(2) by simp
  show ?case
  proof (cases "map_of (devices ?d) (take RT_NAME_MAX n)")
    case None
    then show ?thesis
      using Cons find by simp
  next
    case (Some p)
    then have "p \<in> snd ` set (devices ?d)" by (force dest: map_of_SomeD)
    with Cons.prems(1) have p: "is_device p ?d" "driver_ok (ops ?d p)" "dev_flag (devs ?d p) AND RT_DEVICE_FLAG_STANDALONE = 0"
      "ref_count (devs ?d p) = 0"
      unfolding sensors_ready_def by blast+
    obtain e d1 where o1: "rt_device_open p RT_DEVICE_OFLAG_RDWR ?d = Some (RT_EOK, d1)" "only_dev p e ?d d1" "ref_count e = 1"
      "dev_flag e AND RT_DEVICE_FLAG_STANDALONE = 0"
      using open_ok [OF p] by blast
    then have p1: "is_device p d1" "driver_ok (ops d1 p)" "ref_count (devs d1 p) = 1"
      using p by (simp_all add: is_device_def only_dev_def)
    obtain k b d2 where r: "rt_device_read p 1 (sb_buf s) (unat size0) 0 d1 = Some (k, b, d2)" "length b = 255"
      "only_dev p (devs d1 p) d1 d2"
      using read_ok [OF p1 ready(2)] by blast
    then have p2: "is_device p d2" "driver_ok (ops d2 p)" "ref_count (devs d2 p) = 1"
      using p1 by (simp_all add: is_device_def only_dev_def)
    obtain e' d3 where c: "rt_device_close p d2 = Some (RT_EOK, d3)" "only_dev p e' d2 d3" "ref_count e' = 0"
      "dev_flag e' = dev_flag (devs d2 p)"
      using close_ok [OF p2] by blast
    let ?s = "s\<lparr>sdev := d3, sb_buf := b\<rparr>"
    have o3: "osys d3 = osys ?d" "ops d3 = ops ?d" "devs d3 = (devs ?d)(p := e')" "dev_flag e' = dev_flag e"
      using o1(2) r(3) c(2,4) by (simp_all add: only_dev_def)
    have dev: "devices (sdev ?s) = devices ?d" using o3 by (simp add: devices_def)
    have "sensors_ready ?s"
      using Cons.prems(1) o3 c(3) o1(4) r(2) dev unfolding sensors_ready_def is_device_def by simp
    moreover have "protocol_loop (n # ns) size0 s = protocol_loop ns (size0 + ucast k) ?s"
      using find Some o1(1) r(1) c(1) by simp
    ultimately show ?thesis
      using Cons.IH [of ?s "size0 + ucast k"] Cons.prems(2) dev by simp
  qed
qed simp

text \<open>An update runs to its end and leaves every device closed.\<close>

lemma update_sensor_ready:
  assumes "sensors_ready s" "255 \<le> length low"
  shows "\<exists>s'. update_sensor low s = Some s' \<and> sensors_ready s' \<and> devices (sdev s') = devices (sdev s)"
proof -
  have buf: "length (sb_buf s) = 255" using assms(1) by (simp add: sensors_ready_def)
  let ?s = "s\<lparr>sb_size := 0, sb_buf := take 255 low\<rparr>"
  have "sensors_ready ?s" using assms by (simp add: sensors_ready_def)
  moreover have "\<forall>n \<in> set Ptc_sensor. NUL \<notin> set n" by (simp add: Ptc_sensor_def)
  ultimately obtain size' s' where "protocol_loop Ptc_sensor 0 ?s = Some (size', s')" "sensors_ready s'"
    "devices (sdev s') = devices (sdev s)"
    using protocol_loop_ready [of ?s Ptc_sensor 0] by auto
  moreover from this have "sensors_ready (s'\<lparr>sb_size := size'\<rparr>)" by (simp add: sensors_ready_def)
  ultimately show ?thesis
    using assms(2) buf by (simp add: update_sensor_def Ptc_version_def use_protocol_v1_def)
qed

end
