(* ===== verification/App_Radio.thy ===== *)
theory App_Radio
  imports At_Client Rt_Mem_Use Rt_Clock
begin

text \<open>
  The radio module: \<^verbatim>\<open>applications/AT_client_radio.c\<close> and \<^verbatim>\<open>radio_control.c\<close>.

  A call of \<^verbatim>\<open>at_exec_cmd\<close> returns only after the module has answered or the time is over; what happens
  until then is the parameter \<open>exec\<close>: from the response object, the command and the client it
  gives the result and the client. The response objects of the client come from the heap, each with the address of its
  buffer. Flash storage of the settings (\<^verbatim>\<open>PKG_USING_FAL\<close>) is not configured.
\<close>

section \<open>Data\<close>

datatype AtError = AT_ER_OK | AT_ER_CREAT_RESP | AT_ER_SEND_ERROR | AT_ER_SEND_TIMEOUT | AT_ER_GET_LINE | AT_ER_GET_KW
  | AT_ER_PARSE_LINE | AT_ER_PARSE_KW | AT_ER_OTHER

datatype AtRadioStatue = AT_RADIO_STATUE_SLEEP | AT_RADIO_STATUE_JOIN | AT_RADIO_STATUE_SEND
  | AT_RADIO_STATUE_CYCLE_SEND | AT_RADIO_STATUE_NULL | AT_RADIO_STATUE_WAIT | AT_RADIO_STATUE_LOSE

record AtRadioInfo =
  devEui :: "char list"
  appEui :: "char list"
  appKey :: "char list"

text \<open>
  A pointer to data is the number of an array in \<open>arrays\<close>. \<open>radio_event\<close> are the flags of the event
  object: only the radio thread waits for them.
\<close>

record data_s =
  data_ptr :: nat
  data_size :: UCHAR

record radio =
  client :: at_client
  rheap :: mem_heap
  resp_bufs :: "nat \<Rightarrow> nat"
  radioStatue :: AtRadioStatue
  RadioBuffer :: "nat option"
  datas :: "nat \<Rightarrow> data_s"
  arrays :: "nat \<Rightarrow> UCHAR list"
  radio_event :: "32 word"

type_synonym exec = "nat \<Rightarrow> string \<Rightarrow> at_client \<Rightarrow> int \<times> at_client"

definition SIZEOF_AT_RESPONSE :: "32 word" where "SIZEOF_AT_RESPONSE = 20"
definition SIZEOF_DATA_S :: "32 word" where "SIZEOF_DATA_S = 8"

section \<open>Strings\<close>

definition hex_char :: "UCHAR \<Rightarrow> char" where
  "hex_char n = (let b = n + 0x30 in if 0x39 < b then char_of (unat (b + 0x07)) else char_of (unat b))"

fun hexstr_loop :: "nat \<Rightarrow> UCHAR list \<Rightarrow> char list \<Rightarrow> char list option" where
  "hexstr_loop i [] dest = Some dest"
| "hexstr_loop i (b # bs) dest = do {
     dest \<leftarrow> wr dest (i * 2) (hex_char (drop_bit 4 b));
     dest \<leftarrow> wr dest (i * 2 + 1) (hex_char (b AND 0x0f));
     hexstr_loop (i + 1) bs dest
   }"

definition byte_2_hexstr :: "UCHAR list \<Rightarrow> char list \<Rightarrow> nat \<Rightarrow> char list option" where
  "byte_2_hexstr source dest sourceLen =
    (if sourceLen \<le> length source then hexstr_loop 0 (take sourceLen source) dest else None)"

definition strcat_m :: "char list \<Rightarrow> char list \<Rightarrow> char list option" where
  "strcat_m dest str = do {
     d \<leftarrow> cstr dest;
     s \<leftarrow> cstr str;
     mem_copy dest (length d) (s @ [NUL])
   }"

text \<open>An array of characters that is initialised with a string.\<close>

definition char_array :: "nat \<Rightarrow> string \<Rightarrow> char list" where
  "char_array n s = s @ replicate (n - length s) NUL"

text \<open>
  \<^verbatim>\<open>vsscanf\<close> for the format \<^verbatim>\<open>%*[^:]:%s\<close>: the count of conversions and the characters stored with their
  end. A line that ends before the first conversion gives -1.
\<close>

definition scan_after_colon :: "string \<Rightarrow> int \<times> string option" where
  "scan_after_colon l =
    (let pre = takeWhile (\<lambda>c. c \<noteq> CHR 0x3A) l; rest = drop (length pre + 1) l;
         white = (\<lambda>c. c \<in> {CHR 0x20, CHR 0x09, LF, CHR 0x0B, CHR 0x0C, CR});
         w = takeWhile (\<lambda>c. \<not> white c) (dropWhile white rest) in
     if l = [] then (- 1, None)
     else if pre = [] \<or> length pre = length l \<or> w = [] then (0, None)
     else (1, Some w))"

section \<open>Response objects\<close>

definition radio_create_resp :: "nat \<Rightarrow> radio \<Rightarrow> (nat option \<times> radio) option" where
  "radio_create_resp size' s = do {
     time \<leftarrow> rt_tick_from_millisecond 5000;
     (r, h) \<leftarrow> rt_calloc 1 SIZEOF_AT_RESPONSE (rheap s);
     case r of
       None \<Rightarrow> Some (None, s\<lparr>rheap := h\<rparr>)
     | Some a \<Rightarrow> do {
         (b, h) \<leftarrow> rt_calloc 1 (of_nat size') h;
         case b of
           None \<Rightarrow> do { h \<leftarrow> rt_free (Some a) h; Some (None, s\<lparr>rheap := h\<rparr>) }
         | Some b \<Rightarrow>
             let (r, c) = at_create_resp (Some a) True size' 0 time (client s) in
             Some (r, s\<lparr>rheap := h, client := c, resp_bufs := (resp_bufs s)(a := b)\<rparr>)
       }
   }"

definition radio_delete_resp :: "nat \<Rightarrow> radio \<Rightarrow> radio option" where
  "radio_delete_resp a s = do {
     h \<leftarrow> rt_free (Some (resp_bufs s a)) (rheap s);
     h \<leftarrow> rt_free (Some a) h;
     Some (s\<lparr>rheap := h, client := at_delete_resp (Some a) (client s)\<rparr>)
   }"

section \<open>Commands\<close>

text \<open>
  A command whose answer is not looked at: the steps that the functions below share. An error leaves
  the response object where it is.
\<close>

definition at_command :: "exec \<Rightarrow> nat \<Rightarrow> string \<Rightarrow> radio \<Rightarrow> (AtError \<times> radio) option" where
  "at_command exec size' cmd s = do {
     (r, s) \<leftarrow> radio_create_resp size' s;
     case r of
       None \<Rightarrow> Some (AT_ER_CREAT_RESP, s)
     | Some a \<Rightarrow>
         let (re, c) = exec a cmd (client s); s = s\<lparr>client := c\<rparr> in
         if re = - 1 then Some (AT_ER_SEND_ERROR, s)
         else if re = - 2 then Some (AT_ER_SEND_TIMEOUT, s)
         else do { s \<leftarrow> radio_delete_resp a s; Some (AT_ER_OK, s) }
   }"

text \<open>The comparisons; a string that is none of the names leaves the status.\<close>

definition status_of :: "string \<Rightarrow> AtRadioStatue \<Rightarrow> AtRadioStatue" where
  "status_of str old =
    (if str = ''LORA_SLEEP'' then AT_RADIO_STATUE_SLEEP
     else if str = ''LORA_JOIN'' then AT_RADIO_STATUE_JOIN
     else if str = ''LORA_SEND'' then AT_RADIO_STATUE_SEND
     else if str = ''LORA_CYCLE_SEND'' then AT_RADIO_STATUE_CYCLE_SEND
     else if str = ''LORA_NULL'' then AT_RADIO_STATUE_NULL
     else if str = ''LORA_WAIT_JOIN'' then AT_RADIO_STATUE_WAIT
     else old)"

text \<open>\<open>junk\<close> is what the array \<^verbatim>\<open>char str[10]\<close> on the stack holds. The result 0 of the scan is \<^verbatim>\<open>RT_NULL\<close>.\<close>

definition parse_statue :: "char list \<Rightarrow> at_response \<Rightarrow> (int \<times> char list) option" where
  "parse_statue junk rs = do {
     l \<leftarrow> at_resp_get_line_by_kw rs ''+STATUE'';
     case l of
       None \<Rightarrow> Some (- 1, junk)
     | Some line \<Rightarrow> (case scan_after_colon line of
         (n, Some w) \<Rightarrow> do { str \<leftarrow> str_cpy junk w; Some (n, str) }
       | (n, None) \<Rightarrow> Some (n, junk))
   }"

definition at_radio_get_statue :: "exec \<Rightarrow> char list \<Rightarrow> radio \<Rightarrow> (AtError \<times> radio) option" where
  "at_radio_get_statue exec junk s = do {
     (r, s) \<leftarrow> radio_create_resp 64 s;
     case r of
       None \<Rightarrow> Some (AT_ER_CREAT_RESP, s)
     | Some a \<Rightarrow>
         let (re, c) = exec a ''AT+STATUE'' (client s); s = s\<lparr>client := c\<rparr> in
         if re = - 1 then Some (AT_ER_SEND_ERROR, s)
         else if re = - 2 then Some (AT_ER_SEND_TIMEOUT, s\<lparr>radioStatue := AT_RADIO_STATUE_LOSE\<rparr>)
         else do {
           rs \<leftarrow> resp_heap c a;
           (n, str) \<leftarrow> parse_statue junk rs;
           if n = 0 then Some (AT_ER_PARSE_KW, s)
           else do {
             st \<leftarrow> cstr str;
             s \<leftarrow> radio_delete_resp a (s\<lparr>radioStatue := status_of st (radioStatue s)\<rparr>);
             Some (AT_ER_OK, s)
           }
         }
   }"

definition at_radio_join_net :: "exec \<Rightarrow> radio \<Rightarrow> (AtError \<times> radio) option" where
  "at_radio_join_net exec s = do {
     (e, s) \<leftarrow> at_command exec 10 ''AT+JOIN=60,1'' s;
     if e \<noteq> AT_ER_OK then Some (e, s) else at_command exec 64 ''AT+JOIN'' s
   }"

text \<open>
  \<open>str\<close> has 256 characters: 128 bytes leave no room for its end, and \<open>strcat_m\<close> then reads past it.
\<close>

definition at_radio_send_hex :: "exec \<Rightarrow> UCHAR list \<Rightarrow> UCHAR \<Rightarrow> radio \<Rightarrow> (AtError \<times> radio) option" where
  "at_radio_send_hex exec data size' s = do {
     str \<leftarrow> byte_2_hexstr data (char_array 256 []) (unat size');
     (r, s) \<leftarrow> radio_create_resp 64 s;
     case r of
       None \<Rightarrow> Some (AT_ER_CREAT_RESP, s)
     | Some a \<Rightarrow> do {
         sendStr \<leftarrow> strcat_m (char_array 512 ''AT+SENDHEX='') str;
         cmd \<leftarrow> cstr sendStr;
         let (re, c) = exec a cmd (client s); s = s\<lparr>client := c\<rparr> in
         if re = - 1 then Some (AT_ER_SEND_ERROR, s)
         else if re = - 2 then Some (AT_ER_SEND_TIMEOUT, s)
         else do { s \<leftarrow> radio_delete_resp a s; Some (AT_ER_OK, s) }
       }
   }"

definition at_radio_set_autojoin :: "exec \<Rightarrow> UCHAR \<Rightarrow> radio \<Rightarrow> (AtError \<times> radio) option" where
  "at_radio_set_autojoin exec mode s = do {
     sendStr \<leftarrow> strcat_m (char_array 50 ''AT+AUTOJOIN='') (if mode = 1 then ''1'' @ [NUL] else ''0'' @ [NUL]);
     cmd \<leftarrow> cstr sendStr;
     at_command exec 64 cmd s
   }"

definition at_radio_set_OTAA_info :: "exec \<Rightarrow> AtRadioInfo option \<Rightarrow> radio \<Rightarrow> (AtError \<times> radio) option" where
  "at_radio_set_OTAA_info exec info s = (case info of
     None \<Rightarrow> Some (AT_ER_OTHER, s)
   | Some i \<Rightarrow> do {
       str0 \<leftarrow> strcat_m (char_array 100 ''AT+DEVEUI='') (devEui i);
       str1 \<leftarrow> strcat_m (char_array 100 ''AT+APPEUI='') (appEui i);
       str2 \<leftarrow> strcat_m (char_array 100 ''AT+APPKEY='') (appKey i);
       cmd0 \<leftarrow> cstr str0; cmd1 \<leftarrow> cstr str1; cmd2 \<leftarrow> cstr str2;
       (e, s) \<leftarrow> at_command exec 64 cmd0 s;
       if e \<noteq> AT_ER_OK then Some (e, s)
       else do {
         (e, s) \<leftarrow> at_command exec 64 cmd1 s;
         if e \<noteq> AT_ER_OK then Some (e, s) else at_command exec 100 cmd2 s
       }
     })"

section \<open>The radio thread\<close>

definition RADIO_EVENT_SEND :: "32 word" where "RADIO_EVENT_SEND = 2"
definition RADIO_EVENT_CHECK_STATUE :: "32 word" where "RADIO_EVENT_CHECK_STATUE = 4"

text \<open>\<^const>\<open>None\<close>: no memory, and the code writes through the null pointer.\<close>

definition radio_send :: "nat \<Rightarrow> UCHAR \<Rightarrow> radio \<Rightarrow> (int \<times> radio) option" where
  "radio_send data size' s =
    (if 50 \<le> size' then Some (1, s)
     else do {
       (r, h) \<leftarrow> rt_malloc SIZEOF_DATA_S (rheap s);
       a \<leftarrow> r;
       Some (0, s\<lparr>rheap := h, RadioBuffer := Some a, datas := (datas s)(a := \<lparr> data_ptr = data, data_size = size' \<rparr>),
         radio_event := radio_event s OR RADIO_EVENT_SEND\<rparr>)
     })"

definition radio_check_statue_timer_irq :: "radio \<Rightarrow> radio" where
  "radio_check_statue_timer_irq s = s\<lparr>radio_event := radio_event s OR RADIO_EVENT_CHECK_STATUE\<rparr>"

definition radio_read_statue :: "radio \<Rightarrow> UCHAR" where
  "radio_read_statue s = (if radioStatue s = AT_RADIO_STATUE_LOSE then 0 else 1)"

definition raido_join_config_join :: "exec \<Rightarrow> AtRadioInfo option \<Rightarrow> radio \<Rightarrow> (AtError \<times> radio) option" where
  "raido_join_config_join exec info s = (case info of
     None \<Rightarrow> Some (AT_ER_OK, s)
   | Some i \<Rightarrow> do {
       (re, s) \<leftarrow> at_radio_set_OTAA_info exec (Some i) s;
       if re \<noteq> AT_ER_OK then Some (re, s)
       else do {
         (re, s) \<leftarrow> at_radio_set_autojoin exec 1 s;
         if re \<noteq> AT_ER_OK then Some (re, s) else at_radio_join_net exec s
       }
     })"

definition radio_thread_send :: "exec \<Rightarrow> radio \<Rightarrow> radio option" where
  "radio_thread_send exec s =
    (if radioStatue s \<noteq> AT_RADIO_STATUE_LOSE \<and> radioStatue s \<noteq> AT_RADIO_STATUE_WAIT
     then do {
       a \<leftarrow> RadioBuffer s;
       let d = datas s a;
       (re, s) \<leftarrow> at_radio_send_hex exec (arrays s (data_ptr d)) (data_size d) s;
       h \<leftarrow> rt_free (RadioBuffer s) (rheap s);
       Some (s\<lparr>rheap := h\<rparr>)
     }
     else Some s)"

text \<open>
  One round of the loop: the flags that are set are taken and cleared, then handled. Without a flag the thread
  waits.
\<close>

definition radio_thread_round :: "exec \<Rightarrow> char list \<Rightarrow> radio \<Rightarrow> radio option" where
  "radio_thread_round exec junk s = do {
     s \<leftarrow> (if radioStatue s = AT_RADIO_STATUE_WAIT then map_option snd (raido_join_config_join exec None s) else Some s);
     let event = radio_event s AND (RADIO_EVENT_SEND OR RADIO_EVENT_CHECK_STATUE);
     let s = s\<lparr>radio_event := radio_event s AND NOT (RADIO_EVENT_SEND OR RADIO_EVENT_CHECK_STATUE)\<rparr>;
     s \<leftarrow> (if event AND RADIO_EVENT_CHECK_STATUE \<noteq> 0 then map_option snd (at_radio_get_statue exec junk s) else Some s);
     if event AND RADIO_EVENT_SEND \<noteq> 0 then radio_thread_send exec s else Some s
   }"

text \<open>The first status query of the thread, before the loop.\<close>

definition radio_thread_start :: "exec \<Rightarrow> char list \<Rightarrow> radio \<Rightarrow> radio option" where
  "radio_thread_start exec junk s = map_option snd (at_radio_get_statue exec junk s)"

text \<open>The shell command; \<open>i\<close> is what the structure on the stack holds.\<close>

definition radio_set :: "exec \<Rightarrow> AtRadioInfo \<Rightarrow> string list \<Rightarrow> radio \<Rightarrow> radio option" where
  "radio_set exec i argv s =
    (if length argv \<noteq> 4 then Some s
     else if length (argv ! 1) \<noteq> 16 then Some s
     else if length (argv ! 2) \<noteq> 16 then Some s
     else if length (argv ! 3) \<noteq> 32 then Some s
     else do {
       d \<leftarrow> str_cpy (devEui i) (argv ! 1);
       a \<leftarrow> str_cpy (appEui i) (argv ! 2);
       k \<leftarrow> str_cpy (appKey i) (argv ! 3);
       (_, s) \<leftarrow> raido_join_config_join exec (Some \<lparr> devEui = d, appEui = a, appKey = k \<rparr>) s;
       Some s
     })"

end
