(* ===== verification/App_Radio_Mem.thy ===== *)
theory App_Radio_Mem
  imports App_Radio At_Lines
begin

text \<open>
  The memory of the radio thread: what the commands allocate and what they give back.
\<close>

section \<open>Response objects\<close>

text \<open>What a command may change besides the heap, the client and the addresses of the buffers: nothing.\<close>

definition same_radio :: "radio \<Rightarrow> radio \<Rightarrow> bool" where
  "same_radio s s' \<longleftrightarrow> radioStatue s' = radioStatue s \<and> RadioBuffer s' = RadioBuffer s \<and> datas s' = datas s \<and>
     arrays s' = arrays s \<and> radio_event s' = radio_event s"

lemma same_radio_refl [simp]: "same_radio s s"
  by (simp add: same_radio_def)

lemma same_radio_trans: "same_radio s s' \<Longrightarrow> same_radio s' s'' \<Longrightarrow> same_radio s s''"
  by (simp add: same_radio_def)

lemma ticks_5000 [simp]: "rt_tick_from_millisecond 5000 = Some 500"
  by (simp add: rt_tick_from_millisecond_def)

text \<open>An object \<open>a\<close> with its buffer is there: two live blocks more than \<open>L\<close>.\<close>

definition holds :: "nat \<Rightarrow> nat set \<Rightarrow> nat \<Rightarrow> radio \<Rightarrow> bool" where
  "holds m L a s \<longleftrightarrow> heap_ok m (rheap s) \<and> a \<notin> L \<and> resp_bufs s a \<notin> L \<and> resp_bufs s a \<noteq> a \<and>
     live_blocks (rheap s) = insert a (insert (resp_bufs s a) L)"

lemma create_resp_ok:
  assumes ok: "heap_ok m (rheap s)"
  shows "\<exists>r s'. radio_create_resp n s = Some (r, s') \<and> same_radio s s' \<and>
    (case r of
       None \<Rightarrow> heap_ok m (rheap s') \<and> live_blocks (rheap s') = live_blocks (rheap s) \<and> client s' = client s
     | Some a \<Rightarrow> holds m (live_blocks (rheap s)) a s' \<and> client s' = (client s)\<lparr>resp_heap := (resp_heap (client s))(a \<mapsto>
         \<lparr> buf = replicate n NUL, buf_size = n, line_num = 0, line_counts = 0, timeout = 500 \<rparr>)\<rparr>)"
proof -
  obtain r h1 where h1: "rt_malloc SIZEOF_AT_RESPONSE (rheap s) = Some (r, h1)" "heap_ok m h1" "r = None \<longrightarrow> h1 = rheap s"
    using heap.alloc_total [OF ok] by blast
  show ?thesis
  proof (cases r)
    case None
    then show ?thesis using h1 by (simp add: radio_create_resp_def rt_calloc_def same_radio_def)
  next
    case (Some a)
    then have a: "a \<notin> live_blocks (rheap s)" "live_blocks h1 = insert a (live_blocks (rheap s))"
      using heap.alloc_fresh [OF ok] h1(1) by blast+
    obtain r2 h2 where h2: "rt_malloc (of_nat n) h1 = Some (r2, h2)" "heap_ok m h2" "r2 = None \<longrightarrow> h2 = h1"
      using heap.alloc_total [OF h1(2)] by blast
    show ?thesis
    proof (cases r2)
      case None
      obtain h3 where h3: "rt_free (Some a) h1 = Some h3" "heap_ok m h3" "live_blocks h3 = live_blocks h1 - {a}"
        using heap.release_ok [OF h1(2), of a] a(2) by auto
      then show ?thesis
        using h1(1) h2 Some None a by (simp add: radio_create_resp_def rt_calloc_def same_radio_def)
    next
      case (Some b)
      then have b: "b \<notin> live_blocks h1" "live_blocks h2 = insert b (live_blocks h1)"
        using heap.alloc_fresh [OF h1(2)] h2(1) by blast+
      then show ?thesis
        using h1(1) h2 Some \<open>r = Some a\<close> a
        by (auto simp: radio_create_resp_def rt_calloc_def same_radio_def at_create_resp_def holds_def)
    qed
  qed
qed

lemma delete_resp_ok:
  assumes "holds m L a s"
  shows "\<exists>s'. radio_delete_resp a s = Some s' \<and> same_radio s s' \<and> heap_ok m (rheap s') \<and> live_blocks (rheap s') = L \<and>
    client s' = at_delete_resp (Some a) (client s)"
proof -
  let ?b = "resp_bufs s a"
  have h: "heap_ok m (rheap s)" "live_blocks (rheap s) = insert a (insert ?b L)" "a \<notin> L" "?b \<notin> L" "?b \<noteq> a"
    using assms by (simp_all add: holds_def)
  have "insert a (insert ?b L) - {?b} = insert a L" using h(3-5) by auto
  then obtain h1 where h1: "rt_free (Some ?b) (rheap s) = Some h1" "heap_ok m h1" "live_blocks h1 = insert a L"
    using heap.release_ok [OF h(1), of ?b] h(2) by auto
  obtain h2 where h2: "rt_free (Some a) h1 = Some h2" "heap_ok m h2" "live_blocks h2 = L"
    using heap.release_ok [OF h1(2), of a] h1(3) h(3) by auto
  show ?thesis
    using h1 h2 by (simp add: radio_delete_resp_def same_radio_def)
qed

lemma holds_client [simp]: "holds m L a (s\<lparr>client := c\<rparr>) = holds m L a s" "holds m L a (s\<lparr>radioStatue := st\<rparr>) = holds m L a s"
  by (simp_all add: holds_def)

section \<open>What a command costs\<close>

text \<open>Blocks that are lost with an error.\<close>

definition lost_blocks :: "AtError \<Rightarrow> nat" where
  "lost_blocks e = (if e \<in> {AT_ER_SEND_ERROR, AT_ER_SEND_TIMEOUT, AT_ER_PARSE_KW} then 2 else 0)"

definition costs :: "nat \<Rightarrow> AtError \<Rightarrow> radio \<Rightarrow> radio \<Rightarrow> bool" where
  "costs m e s s' \<longleftrightarrow> heap_ok m (rheap s') \<and> live_blocks (rheap s) \<subseteq> live_blocks (rheap s') \<and>
     card (live_blocks (rheap s')) = card (live_blocks (rheap s)) + lost_blocks e"

lemma costs_held:
  assumes "heap_ok m (rheap s)" "holds m (live_blocks (rheap s)) a s'" "lost_blocks e = 2"
  shows "costs m e s s'"
  using assms heap.bounded [OF assms(1)] by (auto simp: costs_def holds_def)

lemma at_command_ok:
  assumes "heap_ok m (rheap s)"
  shows "\<exists>e s'. at_command exec n cmd s = Some (e, s') \<and> same_radio s s' \<and> costs m e s s' \<and>
    e \<in> {AT_ER_OK, AT_ER_CREAT_RESP, AT_ER_SEND_ERROR, AT_ER_SEND_TIMEOUT}"
proof -
  obtain r s1 where s1: "radio_create_resp n s = Some (r, s1)" "same_radio s s1"
    and r: "case r of None \<Rightarrow> heap_ok m (rheap s1) \<and> live_blocks (rheap s1) = live_blocks (rheap s) \<and> client s1 = client s
      | Some a \<Rightarrow> holds m (live_blocks (rheap s)) a s1 \<and> client s1 = (client s)\<lparr>resp_heap := (resp_heap (client s))(a \<mapsto>
         \<lparr> buf = replicate n NUL, buf_size = n, line_num = 0, line_counts = 0, timeout = 500 \<rparr>)\<rparr>"
    using create_resp_ok [OF assms] by blast
  show ?thesis
  proof (cases r)
    case None
    then show ?thesis using s1 r by (simp add: at_command_def costs_def lost_blocks_def)
  next
    case (Some a)
    obtain re c where re: "exec a cmd (client s1) = (re, c)" by (cases "exec a cmd (client s1)")
    let ?s = "s1\<lparr>client := c\<rparr>"
    have held: "holds m (live_blocks (rheap s)) a ?s" "same_radio s ?s"
      using r Some s1(2) by (simp_all add: same_radio_def)
    obtain s2 where s2: "radio_delete_resp a ?s = Some s2" "same_radio ?s s2" "heap_ok m (rheap s2)" "live_blocks (rheap s2) = live_blocks (rheap s)"
      using delete_resp_ok [OF held(1)] by blast
    have "costs m AT_ER_SEND_ERROR s ?s" "costs m AT_ER_SEND_TIMEOUT s ?s"
      by (rule costs_held [OF assms held(1)]; simp add: lost_blocks_def)+
    moreover have "costs m AT_ER_OK s s2" "same_radio s s2"
      using s2 held(2) same_radio_trans by (auto simp: costs_def lost_blocks_def)
    ultimately show ?thesis
      using s1(1) Some re held(2) s2(1) by (cases "re = - 1"; cases "re = - 2") (simp_all add: at_command_def Let_def)
  qed
qed

section \<open>A module that does not answer\<close>

text \<open>The status queries of the periodic timer.\<close>

fun status_checks :: "exec \<Rightarrow> char list \<Rightarrow> nat \<Rightarrow> radio \<Rightarrow> (AtError list \<times> radio) option" where
  "status_checks exec junk 0 s = Some ([], s)"
| "status_checks exec junk (Suc n) s = do {
     (e, s) \<leftarrow> at_radio_get_statue exec junk s;
     (es, s) \<leftarrow> status_checks exec junk n s;
     Some (e # es, s)
   }"

lemma get_statue_timeout:
  assumes ok: "heap_ok m (rheap s)" and silent: "\<forall>a c. fst (exec a ''AT+STATUE'' c) = - 2"
  shows "\<exists>e s'. at_radio_get_statue exec junk s = Some (e, s') \<and> costs m e s s' \<and> e \<in> {AT_ER_CREAT_RESP, AT_ER_SEND_TIMEOUT} \<and>
    (e = AT_ER_SEND_TIMEOUT \<longrightarrow> radioStatue s' = AT_RADIO_STATUE_LOSE)"
proof -
  obtain r s1 where s1: "radio_create_resp 64 s = Some (r, s1)" "same_radio s s1"
    and r: "case r of None \<Rightarrow> heap_ok m (rheap s1) \<and> live_blocks (rheap s1) = live_blocks (rheap s) \<and> client s1 = client s
      | Some a \<Rightarrow> holds m (live_blocks (rheap s)) a s1 \<and> client s1 = (client s)\<lparr>resp_heap := (resp_heap (client s))(a \<mapsto>
         \<lparr> buf = replicate 64 NUL, buf_size = 64, line_num = 0, line_counts = 0, timeout = 500 \<rparr>)\<rparr>"
    using create_resp_ok [OF ok] by blast
  show ?thesis
  proof (cases r)
    case None
    then show ?thesis using s1 r by (simp add: at_radio_get_statue_def costs_def lost_blocks_def)
  next
    case (Some a)
    obtain c where re: "exec a ''AT+STATUE'' (client s1) = (- 2, c)"
      using silent by (metis prod.collapse)
    let ?s = "s1\<lparr>client := c, radioStatue := AT_RADIO_STATUE_LOSE\<rparr>"
    have "holds m (live_blocks (rheap s)) a ?s" using r Some by simp
    then have "costs m AT_ER_SEND_TIMEOUT s ?s"
      by (rule costs_held [OF ok]) (simp add: lost_blocks_def)
    then show ?thesis
      using s1(1) Some re by (simp add: at_radio_get_statue_def)
  qed
qed

lemma status_checks_leak:
  assumes "heap_ok m (rheap s)" and silent: "\<forall>a c. fst (exec a ''AT+STATUE'' c) = - 2"
  shows "\<exists>es s'. status_checks exec junk n s = Some (es, s') \<and> length es = n \<and> heap_ok m (rheap s') \<and>
    set es \<subseteq> {AT_ER_CREAT_RESP, AT_ER_SEND_TIMEOUT} \<and>
    card (live_blocks (rheap s')) = card (live_blocks (rheap s)) + 2 * count_list es AT_ER_SEND_TIMEOUT"
  using assms(1)
proof (induction n arbitrary: s)
  case (Suc n)
  obtain e s1 where s1: "at_radio_get_statue exec junk s = Some (e, s1)" "costs m e s s1" "e \<in> {AT_ER_CREAT_RESP, AT_ER_SEND_TIMEOUT}"
    using get_statue_timeout [of m s exec junk] Suc.prems silent by blast
  then have "heap_ok m (rheap s1)" by (simp add: costs_def)
  from Suc.IH [OF this] obtain es s' where "status_checks exec junk n s1 = Some (es, s')" "length es = n" "heap_ok m (rheap s')"
    "set es \<subseteq> {AT_ER_CREAT_RESP, AT_ER_SEND_TIMEOUT}"
    "card (live_blocks (rheap s')) = card (live_blocks (rheap s1)) + 2 * count_list es AT_ER_SEND_TIMEOUT"
    by blast
  with s1 show ?case
    by (auto simp: costs_def lost_blocks_def)
qed simp

lemma silent_module_exhausts:
  assumes "heap_ok m (rheap s)" "\<forall>a c. fst (exec a ''AT+STATUE'' c) = - 2"
  shows "\<exists>es s'. status_checks exec junk n s = Some (es, s') \<and> length es = n \<and>
    set es \<subseteq> {AT_ER_CREAT_RESP, AT_ER_SEND_TIMEOUT} \<and>
    2 * count_list es AT_ER_SEND_TIMEOUT \<le> (m + 12) div 24 - card (live_blocks (rheap s))"
proof -
  obtain es s' where s': "status_checks exec junk n s = Some (es, s')" "length es = n" "heap_ok m (rheap s')"
    "set es \<subseteq> {AT_ER_CREAT_RESP, AT_ER_SEND_TIMEOUT}"
    "card (live_blocks (rheap s')) = card (live_blocks (rheap s)) + 2 * count_list es AT_ER_SEND_TIMEOUT"
    using status_checks_leak [of m s exec junk n] assms by blast
  moreover have "card (live_blocks (rheap s')) \<le> (m + 12) div 24"
    using heap.bounded [OF s'(3)] by blast
  ultimately show ?thesis by auto
qed

section \<open>A module that waits to be joined\<close>

text \<open>Uploads of the main thread, each followed by a round of the radio thread.\<close>

fun upload_rounds :: "exec \<Rightarrow> char list \<Rightarrow> nat \<Rightarrow> UCHAR \<Rightarrow> nat \<Rightarrow> radio \<Rightarrow> radio option" where
  "upload_rounds exec junk data size' 0 s = Some s"
| "upload_rounds exec junk data size' (Suc n) s = do {
     (_, s) \<leftarrow> radio_send data size' s;
     s \<leftarrow> radio_thread_round exec junk s;
     upload_rounds exec junk data size' n s
   }"

definition waiting :: "radio \<Rightarrow> bool" where
  "waiting s \<longleftrightarrow> radioStatue s = AT_RADIO_STATUE_WAIT \<and> radio_event s = 0"

lemma waiting_upload:
  assumes ok: "heap_ok m (rheap s)" "waiting s" "size' < 50"
  shows "rt_malloc SIZEOF_DATA_S (rheap s) = Some (None, rheap s) \<and> radio_send data size' s = None \<or>
    (\<exists>s1 s'. radio_send data size' s = Some (0, s1) \<and> radio_thread_round exec junk s1 = Some s' \<and> waiting s' \<and>
      heap_ok m (rheap s') \<and> card (live_blocks (rheap s')) = card (live_blocks (rheap s)) + 1)"
proof -
  obtain r h where h: "rt_malloc SIZEOF_DATA_S (rheap s) = Some (r, h)" "heap_ok m h" "r = None \<longrightarrow> h = rheap s"
    using heap.alloc_total [OF ok(1)] by blast
  show ?thesis
  proof (cases r)
    case None
    then show ?thesis using h ok(3) by (simp add: radio_send_def linorder_not_le)
  next
    case (Some a)
    then have "a \<notin> live_blocks (rheap s)" "live_blocks h = insert a (live_blocks (rheap s))"
      using heap.alloc_fresh [OF ok(1)] h(1) by blast+
    then have card: "card (live_blocks h) = card (live_blocks (rheap s)) + 1"
      using heap.bounded [OF ok(1)] by simp
    let ?s = "s\<lparr>rheap := h, RadioBuffer := Some a, datas := (datas s)(a := \<lparr> data_ptr = data, data_size = size' \<rparr>),
         radio_event := RADIO_EVENT_SEND\<rparr>"
    have "radio_send data size' s = Some (0, ?s)"
      using h(1) Some ok(2,3) by (simp add: radio_send_def linorder_not_le waiting_def)
    moreover have "radio_thread_round exec junk ?s = Some (?s\<lparr>radio_event := 0\<rparr>)"
      using ok(2) by (simp add: radio_thread_round_def radio_thread_send_def raido_join_config_join_def waiting_def
          RADIO_EVENT_SEND_def RADIO_EVENT_CHECK_STATUE_def)
    moreover have "waiting (?s\<lparr>radio_event := 0\<rparr>)"
      using ok(2) by (simp add: waiting_def)
    ultimately show ?thesis
      using h(2) card by (intro disjI2 exI [of _ ?s] exI [of _ "?s\<lparr>radio_event := 0\<rparr>"]) simp
  qed
qed

text \<open>After at most as many uploads as the heap has room for blocks, memory runs out and the code writes through the null pointer.\<close>

lemma waiting_module_exhausts:
  assumes "heap_ok m (rheap s)" "waiting s" "size' < 50" "(m + 12) div 24 - card (live_blocks (rheap s)) < n"
  shows "\<exists>k s'. k < n \<and> upload_rounds exec junk data size' k s = Some s' \<and>
    rt_malloc SIZEOF_DATA_S (rheap s') = Some (None, rheap s') \<and> radio_send data size' s' = None"
  using assms
proof (induction n arbitrary: s)
  case (Suc n)
  from waiting_upload [OF Suc.prems(1-3), of data exec junk] show ?case
  proof (elim disjE exE conjE)
    assume "rt_malloc SIZEOF_DATA_S (rheap s) = Some (None, rheap s)" "radio_send data size' s = None"
    then show ?thesis by (intro exI [of _ 0] exI [of _ s]) simp
  next
    fix s1 s' assume s1: "radio_send data size' s = Some (0, s1)" "radio_thread_round exec junk s1 = Some s'" "waiting s'"
      "heap_ok m (rheap s')" "card (live_blocks (rheap s')) = card (live_blocks (rheap s)) + 1"
    have "card (live_blocks (rheap s')) \<le> (m + 12) div 24"
      using heap.bounded [OF s1(4)] by blast
    then have "(m + 12) div 24 - card (live_blocks (rheap s')) < n"
      using s1(5) Suc.prems(4) by linarith
    from Suc.IH [OF s1(4,3) Suc.prems(3) this] obtain k s2 where "k < n" "upload_rounds exec junk data size' k s' = Some s2"
      "rt_malloc SIZEOF_DATA_S (rheap s2) = Some (None, rheap s2)" "radio_send data size' s2 = None"
      by blast
    with s1(1,2) show ?thesis by (intro exI [of _ "Suc k"] exI [of _ s2]) simp
  qed
qed simp

end
