(* ===== verification/App_Radio_Text.thy ===== *)
theory App_Radio_Text
  imports App_Radio_Mem
begin

text \<open>
  The strings of the radio commands: hexadecimal data, and the words of a status report.
\<close>

section \<open>Hexadecimal digits\<close>

definition hex_of :: "UCHAR list \<Rightarrow> string" where
  "hex_of bs = concat (map (\<lambda>b. [hex_char (drop_bit 4 b), hex_char (b AND 0x0f)]) bs)"

text \<open>What the module reads back.\<close>

definition digit_val :: "char \<Rightarrow> UCHAR" where
  "digit_val c = (let n = of_char c :: UCHAR in if n < 0x41 then n - 0x30 else n - 0x37)"

fun unhex :: "string \<Rightarrow> UCHAR list" where
  "unhex (a # b # s) = (push_bit 4 (digit_val a) OR digit_val b) # unhex s"
| "unhex _ = []"

lemma hex_of_simps [simp]:
  "hex_of [] = []" "hex_of (b # bs) = hex_char (drop_bit 4 b) # hex_char (b AND 0x0f) # hex_of bs"
  "length (hex_of bs) = 2 * length bs"
  by (simp_all add: hex_of_def length_concat comp_def sum_list_triv)

text \<open>The sixteen digits, by evaluation.\<close>

definition digit_ok :: "UCHAR \<Rightarrow> bool" where
  "digit_ok n \<longleftrightarrow> digit_val (hex_char n) = n \<and> hex_char n \<noteq> NUL \<and> hex_char n \<noteq> CHR 0x25 \<and> hex_char n \<noteq> LF"

lemma digits_ok: "list_all digit_ok (map of_nat [0..<16])"
  by code_simp

lemma digit_below_16:
  assumes "(n :: UCHAR) < 16"
  shows "digit_ok n"
proof -
  have "unat n < 16" using assms by (simp add: word_less_nat_alt)
  then have "n \<in> set (map of_nat [0..<16])"
    by (auto intro: image_eqI [of _ _ "unat n"])
  with digits_ok show ?thesis
    unfolding list_all_iff by blast
qed

lemma digit_val_hex: "(n :: UCHAR) < 16 \<Longrightarrow> digit_val (hex_char n) = n"
  using digit_below_16 by (simp add: digit_ok_def)

lemma hex_char_plain: "(n :: UCHAR) < 16 \<Longrightarrow> hex_char n \<noteq> NUL \<and> hex_char n \<noteq> CHR 0x25 \<and> hex_char n \<noteq> LF"
  using digit_below_16 by (simp add: digit_ok_def)

lemma nibbles: "drop_bit 4 (b :: UCHAR) < 16" "b AND 0x0f < 16" "push_bit 4 (drop_bit 4 b) OR (b AND 0x0f) = b"
proof -
  have "unat (drop_bit 4 b) < 16"
    using unsigned_less [of b, where 'a = nat] by (simp only: unat_drop_bit_eq) (simp add: drop_bit_eq_div)
  then show "drop_bit 4 b < 16" by (simp add: word_less_nat_alt)
  have m: "(0x0f :: UCHAR) = mask 4" by (simp add: mask_eq_exp_minus_1)
  have "unat (take_bit 4 b) < 16"
    by (simp only: unsigned_take_bit_eq) (simp add: take_bit_eq_mod)
  then have "take_bit 4 b < 16" by (simp add: word_less_nat_alt)
  then show "b AND 0x0f < 16" by (simp only: m take_bit_eq_mask)
  show "push_bit 4 (drop_bit 4 b) OR (b AND 0x0f) = b"
    unfolding m take_bit_eq_mask [symmetric] by (intro bit_eqI) (auto simp: bit_or_iff bit_push_bit_iff bit_drop_bit_eq bit_take_bit_iff)
qed

lemma hex_plain: "c \<in> set (hex_of bs) \<Longrightarrow> c \<noteq> NUL \<and> c \<noteq> CHR 0x25 \<and> c \<noteq> LF"
  by (induction bs) (auto simp: hex_char_plain nibbles)

lemma unhex_hex: "unhex (hex_of bs) = bs"
  by (induction bs) (simp_all add: digit_val_hex nibbles)

lemma hexstr_loop_ok:
  "2 * (i + length bs) \<le> length dest \<Longrightarrow> hexstr_loop i bs dest = Some (blit dest (2 * i) (hex_of bs))"
proof (induction bs arbitrary: i dest)
  case (Cons b bs)
  let ?d = "dest[2 * i := hex_char (drop_bit 4 b), Suc (2 * i) := hex_char (b AND 0x0f)]"
  have "hexstr_loop i (b # bs) dest = hexstr_loop (i + 1) bs ?d"
    using Cons.prems by (simp add: mult.commute)
  also have "\<dots> = Some (blit ?d (2 * (i + 1)) (hex_of bs))"
    using Cons.prems by (intro Cons.IH) simp
  also have "blit ?d (2 * (i + 1)) (hex_of bs) = blit dest (2 * i) (hex_of (b # bs))"
    using Cons.prems by (simp add: blit_Cons)
  finally show ?case .
qed simp

lemma hexstr_ok:
  assumes "n \<le> length data" "2 * n \<le> k"
  shows "byte_2_hexstr data (char_array k []) n = Some (hex_of (take n data) @ replicate (k - 2 * n) NUL)"
  using assms by (simp add: byte_2_hexstr_def char_array_def hexstr_loop_ok blit_def)

lemma hexstr_read_back:
  assumes "n \<le> length data" "n \<le> 127"
  shows "\<exists>d str. byte_2_hexstr data (char_array 256 []) n = Some d \<and> cstr d = Some str \<and> length str = 2 * n \<and>
    unhex str = take n data"
proof -
  let ?s = "hex_of (take n data)"
  have "NUL \<notin> set ?s" using hex_plain by blast
  then have "cstr (?s @ replicate (256 - 2 * n) NUL) = Some ?s"
    using assms(2) cstr_append [of ?s "replicate (255 - 2 * n) NUL"] by (cases "256 - 2 * n") auto
  then show ?thesis
    using hexstr_ok [of n data 256] assms unhex_hex
    by (intro exI [of _ "?s @ replicate (256 - 2 * n) NUL"] exI [of _ ?s]) simp
qed

lemma strcat_ok:
  assumes "NUL \<notin> set d" "NUL \<notin> set s" "length d + length s < n" "0 < k"
  shows "\<exists>r. strcat_m (char_array n d) (s @ replicate k NUL) = Some r \<and> cstr r = Some (d @ s)"
proof -
  have "cstr (char_array n d) = Some d"
    using assms(1,3) cstr_append [of d "replicate (n - length d - 1) NUL"]
    by (cases "n - length d") (auto simp: char_array_def)
  moreover have "cstr (s @ replicate k NUL) = Some s"
    using assms(2,4) cstr_append [of s "replicate (k - 1) NUL"] by (cases k) auto
  moreover have "blit (char_array n d) (length d) (s @ [NUL]) = (d @ s) @ NUL # replicate (n - length d - length s - 1) NUL"
    using assms(3) by (simp add: blit_def char_array_def)
  then have "cstr (blit (char_array n d) (length d) (s @ [NUL])) = Some (d @ s)"
    using assms(1,2) cstr_append [of "d @ s"] by simp
  ultimately show ?thesis
    using assms(3) by (simp add: strcat_m_def char_array_def)
qed

section \<open>Sending data\<close>

lemma send_hex_ok:
  assumes ok: "heap_ok m (rheap s)" and n: "unat n \<le> length data" "unat n \<le> 127"
  shows "\<exists>e s'. at_radio_send_hex exec data n s = Some (e, s') \<and> same_radio s s' \<and> costs m e s s' \<and>
    (e = AT_ER_CREAT_RESP \<and> client s' = client s \<or>
     e \<in> {AT_ER_OK, AT_ER_SEND_ERROR, AT_ER_SEND_TIMEOUT} \<and>
       (\<exists>a c. resp_heap c a \<noteq> None \<and> uart_tx c = uart_tx (client s) \<and>
         uart_tx (client s') = uart_tx (snd (exec a (''AT+SENDHEX='' @ hex_of (take (unat n) data)) c))))"
proof -
  let ?cmd = "''AT+SENDHEX='' @ hex_of (take (unat n) data)"
  have hex: "byte_2_hexstr data (char_array 256 []) (unat n) = Some (hex_of (take (unat n) data) @ replicate (256 - 2 * unat n) NUL)"
    using n by (intro hexstr_ok) auto
  have "NUL \<notin> set (hex_of (take (unat n) data))" using hex_plain by blast
  then obtain sendStr where cat: "strcat_m (char_array 512 ''AT+SENDHEX='') (hex_of (take (unat n) data) @ replicate (256 - 2 * unat n) NUL) = Some sendStr"
    "cstr sendStr = Some ?cmd"
    using strcat_ok [of "''AT+SENDHEX=''" "hex_of (take (unat n) data)" 512 "256 - 2 * unat n"] n by auto
  obtain r s1 where s1: "radio_create_resp 64 s = Some (r, s1)" "same_radio s s1"
    and r: "case r of None \<Rightarrow> heap_ok m (rheap s1) \<and> live_blocks (rheap s1) = live_blocks (rheap s) \<and> client s1 = client s
      | Some a \<Rightarrow> holds m (live_blocks (rheap s)) a s1 \<and> client s1 = (client s)\<lparr>resp_heap := (resp_heap (client s))(a \<mapsto>
         \<lparr> buf = replicate 64 NUL, buf_size = 64, line_num = 0, line_counts = 0, timeout = 500 \<rparr>)\<rparr>"
    using create_resp_ok [OF ok] by blast
  show ?thesis
  proof (cases r)
    case None
    then show ?thesis using s1 r hex by (simp add: at_radio_send_hex_def costs_def lost_blocks_def)
  next
    case (Some a)
    obtain re c where re: "exec a ?cmd (client s1) = (re, c)" by (cases "exec a ?cmd (client s1)")
    let ?s = "s1\<lparr>client := c\<rparr>"
    have held: "holds m (live_blocks (rheap s)) a ?s" "same_radio s ?s"
      using r Some s1(2) by (simp_all add: same_radio_def)
    obtain s2 where s2: "radio_delete_resp a ?s = Some s2" "same_radio ?s s2" "heap_ok m (rheap s2)"
      "live_blocks (rheap s2) = live_blocks (rheap s)" "client s2 = at_delete_resp (Some a) c"
      using delete_resp_ok [OF held(1)] by auto
    have "costs m AT_ER_SEND_ERROR s ?s" "costs m AT_ER_SEND_TIMEOUT s ?s"
      by (rule costs_held [OF ok held(1)]; simp add: lost_blocks_def)+
    moreover have "costs m AT_ER_OK s s2" "same_radio s s2"
      using s2 held(2) same_radio_trans by (auto simp: costs_def lost_blocks_def)
    moreover have "resp_heap (client s1) a \<noteq> None" "uart_tx (client s1) = uart_tx (client s)"
      using r Some by simp_all
    moreover have "at_radio_send_hex exec data n s = (if re = - 1 then Some (AT_ER_SEND_ERROR, ?s)
        else if re = - 2 then Some (AT_ER_SEND_TIMEOUT, ?s) else Some (AT_ER_OK, s2))"
      using hex cat s1(1) Some re s2(1) by (simp add: at_radio_send_hex_def)
    moreover have "uart_tx (client s2) = uart_tx c" "uart_tx (snd (exec a ?cmd (client s1))) = uart_tx c"
      using s2(5) re by (simp_all add: at_delete_resp_def)
    ultimately show ?thesis
      using held(2) by (cases "re = - 1"; cases "re = - 2") (auto intro!: exI [of _ a] exI [of _ "client s1"])
  qed
qed

section \<open>The status report\<close>

lemma scan_status:
  assumes "CHR 0x3A \<notin> set k" "k \<noteq> []" "w \<noteq> []" "\<forall>c \<in> set w. c \<notin> {CHR 0x20, CHR 0x09, LF, CHR 0x0B, CHR 0x0C, CR}"
  shows "scan_after_colon (k @ CHR 0x3A # w @ [CR]) = (1, Some w)"
proof -
  let ?white = "\<lambda>c. c \<in> {CHR 0x20, CHR 0x09, LF, CHR 0x0B, CHR 0x0C, CR}"
  have pre: "takeWhile (\<lambda>c. c \<noteq> CHR 0x3A) (k @ CHR 0x3A # w @ [CR]) = k"
    using assms(1) by (induction k) auto
  have "dropWhile ?white (w @ [CR]) = w @ [CR]"
    using assms(3,4) by (cases w) auto
  moreover have "takeWhile (\<lambda>c. \<not> ?white c) (w @ [CR]) = w"
    using assms(4) by (subst takeWhile_append2) auto
  ultimately show ?thesis
    using assms(2,3) by (simp add: scan_after_colon_def pre Let_def)
qed

text \<open>The answer of the module: the line of the status and \<^verbatim>\<open>OK\<close>, collected in the response.\<close>

definition status_answer :: "string \<Rightarrow> at_response \<Rightarrow> bool" where
  "status_answer w rs \<longleftrightarrow> (\<exists>rest. buf rs = cells [''+STATUE:'' @ w, ''OK''] @ rest) \<and> line_counts rs = 2"

definition word_char :: "char \<Rightarrow> bool" where
  "word_char c \<longleftrightarrow> c \<notin> {NUL, CHR 0x20, CHR 0x09, LF, CHR 0x0B, CHR 0x0C, CR}"

lemma parse_status:
  assumes "status_answer w rs" "w \<noteq> []" "list_all word_char w" "length junk = 10"
  shows "parse_statue junk rs =
    (if length w < 10 then Some (1, w @ NUL # drop (length w + 1) junk) else None)"
proof -
  let ?l = "''+STATUE:'' @ w @ [CR]"
  obtain rest where buf: "buf rs = ?l @ NUL # ''OK'' @ [CR, NUL] @ rest" and n: "line_counts rs = 2"
    using assms(1) by (auto simp: status_answer_def)
  have "NUL \<notin> set w" using assms(3) by (auto simp: word_char_def list_all_iff)
  then have "NUL \<notin> set ?l" by simp
  then have "cstr (buf rs) = Some ?l" unfolding buf by (rule cstr_append)
  moreover have "strstr ?l ''+STATUE''"
    unfolding strstr_iff by (intro exI [of _ "[]"] exI [of _ "CHR 0x3A # w @ [CR]"]) simp
  ultimately have "at_resp_get_line_by_kw rs ''+STATUE'' = Some (Some ?l)"
    using n by (simp add: at_resp_get_line_by_kw_def numeral_2_eq_2 del: strstr.simps)
  moreover have "scan_after_colon (''+STATUE'' @ CHR 0x3A # w @ [CR]) = (1, Some w)"
    using assms(2,3) by (intro scan_status) (auto simp: word_char_def list_all_iff)
  ultimately show ?thesis
    using assms(4) by (simp add: parse_statue_def str_cpy_def mem_copy_def blit_def)
qed

text \<open>The exchange of a status query.\<close>

definition answers_status :: "string \<Rightarrow> exec \<Rightarrow> bool" where
  "answers_status w exec \<longleftrightarrow> (\<forall>a c. resp_heap c a \<noteq> None \<longrightarrow>
     (\<exists>rs c'. exec a ''AT+STATUE'' c = (0, c') \<and> resp_heap c' a = Some rs \<and> status_answer w rs))"

lemma status_reported:
  assumes ok: "heap_ok m (rheap s)" and exec: "answers_status w exec"
    and w: "w \<noteq> []" "list_all word_char w" "length junk = 10"
  shows "(\<exists>s'. at_radio_get_statue exec junk s = Some (AT_ER_CREAT_RESP, s') \<and> radioStatue s' = radioStatue s) \<or>
    (if length w < 10
     then \<exists>s'. at_radio_get_statue exec junk s = Some (AT_ER_OK, s') \<and> radioStatue s' = status_of w (radioStatue s) \<and>
       costs m AT_ER_OK s s'
     else at_radio_get_statue exec junk s = None)"
proof -
  obtain r s1 where s1: "radio_create_resp 64 s = Some (r, s1)" "same_radio s s1"
    and r: "case r of None \<Rightarrow> heap_ok m (rheap s1) \<and> live_blocks (rheap s1) = live_blocks (rheap s) \<and> client s1 = client s
      | Some a \<Rightarrow> holds m (live_blocks (rheap s)) a s1 \<and> client s1 = (client s)\<lparr>resp_heap := (resp_heap (client s))(a \<mapsto>
         \<lparr> buf = replicate 64 NUL, buf_size = 64, line_num = 0, line_counts = 0, timeout = 500 \<rparr>)\<rparr>"
    using create_resp_ok [OF ok] by blast
  show ?thesis
  proof (cases r)
    case None
    then show ?thesis using s1 by (simp add: at_radio_get_statue_def same_radio_def)
  next
    case (Some a)
    then have "resp_heap (client s1) a \<noteq> None" using r by simp
    then obtain rs c where re: "exec a ''AT+STATUE'' (client s1) = (0, c)" "resp_heap c a = Some rs" "status_answer w rs"
      using exec unfolding answers_status_def by blast
    note parse = parse_status [OF re(3) w]
    show ?thesis
    proof (cases "length w < 10")
      case True
      have "NUL \<notin> set w" using w(2) by (auto simp: word_char_def list_all_iff)
      then have str: "cstr (w @ NUL # drop (length w + 1) junk) = Some w" by simp
      let ?s = "s1\<lparr>client := c, radioStatue := status_of w (radioStatue s1)\<rparr>"
      have "holds m (live_blocks (rheap s)) a ?s" using r Some by simp
      from delete_resp_ok [OF this] obtain s2 where s2: "radio_delete_resp a ?s = Some s2" "same_radio ?s s2" "heap_ok m (rheap s2)"
        "live_blocks (rheap s2) = live_blocks (rheap s)"
        by blast
      have "at_radio_get_statue exec junk s = Some (AT_ER_OK, s2)"
        using s1(1) Some re True parse str s2(1) by (simp add: at_radio_get_statue_def)
      moreover have "radioStatue s2 = status_of w (radioStatue s)"
        using s2(2) s1(2) by (simp add: same_radio_def)
      ultimately show ?thesis
        using True s2(3,4) by (simp add: costs_def lost_blocks_def)
    next
      case False
      then show ?thesis
        using s1(1) Some re parse by (simp add: at_radio_get_statue_def)
    qed
  qed
qed

end
