(* ===== verification/App_Main.thy ===== *)
theory App_Main
  imports App_Sensor_Data App_Radio_Text
begin

text \<open>
  The main thread of \<^verbatim>\<open>applications/main.c\<close> with the sensor thread and the radio thread: the readings are fetched
  and handed to the radio module in every cycle. A run is a sequence of rounds of the threads; a
  round of the radio thread includes its waiting for the module.
\<close>

section \<open>The program\<close>

record 'd app =
  sensors :: "'d sensor_ctl"
  rad :: radio
  upload_cycle :: int

text \<open>The array \<open>buffer\<close> of \<^verbatim>\<open>main\<close> is the array with this number.\<close>

definition MAIN_BUFFER :: nat where "MAIN_BUFFER = 0"

definition main_round :: "'d app \<Rightarrow> 'd app option" where
  "main_round a = do {
     (size', buffer) \<leftarrow> sensor_get_data (arrays (rad a) MAIN_BUFFER) (sensors a);
     let r = (rad a)\<lparr>arrays := (arrays (rad a))(MAIN_BUFFER := buffer)\<rparr>;
     if radio_read_statue r \<noteq> 0
     then do { (_, r) \<leftarrow> radio_send MAIN_BUFFER size' r; Some (a\<lparr>rad := r\<rparr>) }
     else Some (a\<lparr>rad := r\<rparr>)
   }"

text \<open>The sum of an \<^verbatim>\<open>int\<close> must not overflow.\<close>

fun atoi_loop :: "int \<Rightarrow> char list \<Rightarrow> int option" where
  "atoi_loop n [] = None"
| "atoi_loop n (c # s) =
    (if 0x30 \<le> (of_char c :: int) \<and> (of_char c :: int) \<le> 0x39
     then let n' = 10 * n + (of_char c - 0x30) in if n' < 2 ^ 31 then atoi_loop n' s else None
     else Some n)"

definition atoi' :: "string \<Rightarrow> int option" where
  "atoi' s = atoi_loop 0 (s @ [NUL])"

text \<open>A wrong number of words is reported, but the second word is read all the same.\<close>

definition doing_cyc :: "string list \<Rightarrow> 'd app \<Rightarrow> 'd app option" where
  "doing_cyc argv a = do {
     w \<leftarrow> rd argv 1;
     n \<leftarrow> atoi' w;
     Some (a\<lparr>upload_cycle := n\<rparr>)
   }"

datatype app_event = Main_Round | Sensor_Round "UCHAR list" "32 word" | Radio_Round "char list" | Radio_Timer

fun app_step :: "exec \<Rightarrow> app_event \<Rightarrow> 'd app \<Rightarrow> 'd app option" where
  "app_step exec Main_Round a = main_round a"
| "app_step exec (Sensor_Round low ev) a = do { s \<leftarrow> sensor_thread_event low ev (sensors a); Some (a\<lparr>sensors := s\<rparr>) }"
| "app_step exec (Radio_Round junk) a = do { r \<leftarrow> radio_thread_round exec junk (rad a); Some (a\<lparr>rad := r\<rparr>) }"
| "app_step exec Radio_Timer a = Some (a\<lparr>rad := radio_check_statue_timer_irq (rad a)\<rparr>)"

fun app_run :: "exec \<Rightarrow> app_event list \<Rightarrow> 'd app \<Rightarrow> 'd app option" where
  "app_run exec [] a = Some a"
| "app_run exec (e # es) a = do { a \<leftarrow> app_step exec e a; app_run exec es a }"

section \<open>What is sent\<close>

text \<open>A command is put on the line once, with its end; this is what the AT client does.\<close>

definition sends_command :: "exec \<Rightarrow> bool" where
  "sends_command exec \<longleftrightarrow> (\<forall>a cmd c. uart_tx (snd (exec a cmd c)) = uart_tx c @ at_line cmd)"

lemma create_resp_tx: "radio_create_resp n s = Some (r, s') \<Longrightarrow> same_radio s s' \<and> uart_tx (client s') = uart_tx (client s)"
  by (auto simp: radio_create_resp_def same_radio_def at_create_resp_def split: Option.bind_splits option.splits)

lemma delete_resp_tx: "radio_delete_resp a s = Some s' \<Longrightarrow> same_radio s s' \<and> uart_tx (client s') = uart_tx (client s)"
  by (auto simp: radio_delete_resp_def same_radio_def at_delete_resp_def split: Option.bind_splits option.splits)

lemma send_hex_tx:
  assumes run: "at_radio_send_hex exec data n s = Some (e, s')" and exec: "sends_command exec"
    and n: "unat n \<le> length data" "unat n \<le> 127"
  shows "same_radio s s' \<and> (uart_tx (client s') = uart_tx (client s) \<or>
    uart_tx (client s') = uart_tx (client s) @ at_line (''AT+SENDHEX='' @ hex_of (take (unat n) data)))"
proof -
  have hex: "byte_2_hexstr data (char_array 256 []) (unat n) = Some (hex_of (take (unat n) data) @ replicate (256 - 2 * unat n) NUL)"
    using n by (intro hexstr_ok) auto
  have "NUL \<notin> set (hex_of (take (unat n) data))" using hex_plain by blast
  then obtain sendStr where cat: "strcat_m (char_array 512 ''AT+SENDHEX='') (hex_of (take (unat n) data) @ replicate (256 - 2 * unat n) NUL) = Some sendStr"
    "cstr sendStr = Some (''AT+SENDHEX='' @ hex_of (take (unat n) data))"
    using strcat_ok [of "''AT+SENDHEX=''" "hex_of (take (unat n) data)" 512 "256 - 2 * unat n"] n by auto
  obtain r s1 where s1: "radio_create_resp 64 s = Some (r, s1)"
    using run hex by (auto simp: at_radio_send_hex_def split: Option.bind_splits)
  note t1 = create_resp_tx [OF s1]
  show ?thesis
  proof (cases r)
    case None
    then show ?thesis using run hex s1 t1 by (auto simp: at_radio_send_hex_def)
  next
    case (Some a)
    obtain re c where re: "exec a (''AT+SENDHEX='' @ hex_of (take (unat n) data)) (client s1) = (re, c)" by fastforce
    then have c: "uart_tx c = uart_tx (client s) @ at_line (''AT+SENDHEX='' @ hex_of (take (unat n) data))"
      using exec t1 unfolding sends_command_def by (metis snd_conv)
    let ?s = "s1\<lparr>client := c\<rparr>"
    have "s' = ?s \<or> radio_delete_resp a ?s = Some s'"
      using run hex cat s1 Some re by (auto simp: at_radio_send_hex_def Let_def split: if_splits Option.bind_splits)
    then show ?thesis
      using c t1 delete_resp_tx [of a ?s s'] by (auto simp: same_radio_def)
  qed
qed

lemma get_statue_tx:
  assumes run: "at_radio_get_statue exec junk s = Some (e, s')" and exec: "sends_command exec"
  shows "RadioBuffer s' = RadioBuffer s \<and> datas s' = datas s \<and> arrays s' = arrays s \<and> radio_event s' = radio_event s \<and>
    (uart_tx (client s') = uart_tx (client s) \<or> uart_tx (client s') = uart_tx (client s) @ at_line ''AT+STATUE'')"
proof -
  obtain r s1 where s1: "radio_create_resp 64 s = Some (r, s1)"
    using run by (auto simp: at_radio_get_statue_def split: Option.bind_splits)
  note t1 = create_resp_tx [OF s1]
  show ?thesis
  proof (cases r)
    case None
    then show ?thesis using run s1 t1 by (auto simp: at_radio_get_statue_def same_radio_def)
  next
    case (Some a)
    obtain re c where re: "exec a ''AT+STATUE'' (client s1) = (re, c)" by fastforce
    then have c: "uart_tx c = uart_tx (client s) @ at_line ''AT+STATUE''"
      using exec t1 unfolding sends_command_def by (metis snd_conv)
    have "\<exists>st. s' = s1\<lparr>client := c\<rparr> \<or> s' = s1\<lparr>client := c, radioStatue := st\<rparr> \<or>
        radio_delete_resp a (s1\<lparr>client := c, radioStatue := st\<rparr>) = Some s'"
      using run s1 Some re by (auto simp: at_radio_get_statue_def Let_def split: if_splits Option.bind_splits)
    then show ?thesis
      using c t1 delete_resp_tx by (fastforce simp: same_radio_def)
  qed
qed

text \<open>Every message of the main thread points to its buffer.\<close>

definition main_messages :: "UCHAR list \<Rightarrow> radio \<Rightarrow> bool" where
  "main_messages b r \<longleftrightarrow> arrays r MAIN_BUFFER = b \<and>
     (\<forall>a. RadioBuffer r = Some a \<longrightarrow> data_ptr (datas r a) = MAIN_BUFFER \<and> data_size (datas r a) < 50)"

definition harmless :: "UCHAR list \<Rightarrow> string \<Rightarrow> bool" where
  "harmless b cmd \<longleftrightarrow> cmd = ''AT+STATUE'' \<or> (\<exists>n < 50. cmd = ''AT+SENDHEX='' @ hex_of (take n b))"

definition sent :: "UCHAR list \<Rightarrow> radio \<Rightarrow> radio \<Rightarrow> bool" where
  "sent b r r' \<longleftrightarrow> (\<exists>cmds. uart_tx (client r') = uart_tx (client r) @ concat (map at_line cmds) \<and> list_all (harmless b) cmds)"

lemma sent_refl [simp]: "uart_tx (client r') = uart_tx (client r) \<Longrightarrow> sent b r r'"
  unfolding sent_def by (intro exI [of _ "[]"]) simp

lemma sent_one: "uart_tx (client r') = uart_tx (client r) @ at_line cmd \<Longrightarrow> harmless b cmd \<Longrightarrow> sent b r r'"
  unfolding sent_def by (intro exI [of _ "[cmd]"]) simp

lemma sent_trans:
  assumes "sent b r r'" "sent b r' r''"
  shows "sent b r r''"
proof -
  obtain c1 c2 where "uart_tx (client r') = uart_tx (client r) @ concat (map at_line c1)" "list_all (harmless b) c1"
    "uart_tx (client r'') = uart_tx (client r') @ concat (map at_line c2)" "list_all (harmless b) c2"
    using assms unfolding sent_def by blast
  then show ?thesis unfolding sent_def by (intro exI [of _ "c1 @ c2"]) simp
qed

lemma thread_send_tx:
  assumes run: "radio_thread_send exec r = Some r'" and exec: "sends_command exec"
    and ok: "main_messages b r" "length b = 255"
  shows "main_messages b r' \<and> sent b r r'"
proof (cases "radioStatue r \<noteq> AT_RADIO_STATUE_LOSE \<and> radioStatue r \<noteq> AT_RADIO_STATUE_WAIT")
  case False
  then show ?thesis using run ok by (auto simp: radio_thread_send_def)
next
  case True
  then obtain a where a: "RadioBuffer r = Some a"
    using run by (auto simp: radio_thread_send_def split: Option.bind_splits)
  then have d: "data_ptr (datas r a) = MAIN_BUFFER" "data_size (datas r a) < 50" "arrays r MAIN_BUFFER = b"
    using ok(1) by (simp_all add: main_messages_def)
  obtain e r1 h where r1: "at_radio_send_hex exec b (data_size (datas r a)) r = Some (e, r1)" "r' = r1\<lparr>rheap := h\<rparr>"
    using run True a d by (auto simp: radio_thread_send_def split: Option.bind_splits)
  have n: "unat (data_size (datas r a)) < 50" using d(2) by (simp add: word_less_nat_alt)
  then have tx: "same_radio r r1 \<and> (uart_tx (client r1) = uart_tx (client r) \<or>
    uart_tx (client r1) = uart_tx (client r) @ at_line (''AT+SENDHEX='' @ hex_of (take (unat (data_size (datas r a))) b)))"
    using send_hex_tx [OF r1(1) exec] ok(2) by simp
  moreover have "harmless b (''AT+SENDHEX='' @ hex_of (take (unat (data_size (datas r a))) b))"
    using n by (auto simp: harmless_def)
  ultimately have "sent b r r'"
    using r1(2) sent_one [of r1 r] sent_refl [of r1 r] by (auto simp: sent_def)
  moreover have "main_messages b r'"
    using tx r1(2) ok(1) by (simp add: main_messages_def same_radio_def)
  ultimately show ?thesis by blast
qed

lemma thread_round_tx:
  assumes run: "radio_thread_round exec junk r = Some r'" and exec: "sends_command exec"
    and ok: "main_messages b r" "length b = 255"
  shows "main_messages b r' \<and> sent b r r'"
proof -
  let ?mask = "RADIO_EVENT_SEND OR RADIO_EVENT_CHECK_STATUE"
  let ?ev = "radio_event r AND ?mask" and ?r0 = "r\<lparr>radio_event := radio_event r AND NOT ?mask\<rparr>"
  have run': "(do {
      s \<leftarrow> (if ?ev AND RADIO_EVENT_CHECK_STATUE \<noteq> 0 then map_option snd (at_radio_get_statue exec junk ?r0) else Some ?r0);
      if ?ev AND RADIO_EVENT_SEND \<noteq> 0 then radio_thread_send exec s else Some s }) = Some r'"
  proof -
    have "(if radioStatue r = AT_RADIO_STATUE_WAIT then map_option snd (raido_join_config_join exec None r) else Some r) = Some r"
      by (simp add: raido_join_config_join_def)
    then show ?thesis using run unfolding radio_thread_round_def Let_def by (simp only: Option.bind.bind_lunit)
  qed
  then obtain r1 where r1: "(if ?ev AND RADIO_EVENT_CHECK_STATUE \<noteq> 0
      then map_option snd (at_radio_get_statue exec junk ?r0) else Some ?r0) = Some r1"
    and r2: "(if ?ev AND RADIO_EVENT_SEND \<noteq> 0 then radio_thread_send exec r1 else Some r1) = Some r'"
    by (auto split: Option.bind_splits)
  have r1': "r1 = ?r0 \<or> (\<exists>e. at_radio_get_statue exec junk ?r0 = Some (e, r1))"
    using r1 by (auto split: if_splits)
  have "main_messages b r1 \<and> sent b r r1"
  proof (cases "r1 = ?r0")
    case True
    then show ?thesis using ok(1) by (auto simp: main_messages_def)
  next
    case False
    then obtain e where e: "at_radio_get_statue exec junk ?r0 = Some (e, r1)" using r1' by blast
    have "harmless b ''AT+STATUE''" by (simp add: harmless_def)
    then show ?thesis
      using get_statue_tx [OF e exec] ok(1) sent_one [of r1 r] sent_refl [of r1 r] by (auto simp: main_messages_def)
  qed
  moreover have "r' = r1 \<or> radio_thread_send exec r1 = Some r'"
    using r2 by (auto split: if_splits)
  ultimately show ?thesis
    using thread_send_tx [of exec r1 r' b] exec ok(2) sent_trans by blast
qed

lemma radio_send_stores:
  assumes "radio_send d n r = Some (e, r')" "n < 50"
  obtains x h where "r' = r\<lparr>rheap := h, RadioBuffer := Some x,
    datas := (datas r)(x := \<lparr> data_ptr = d, data_size = n \<rparr>), radio_event := radio_event r OR RADIO_EVENT_SEND\<rparr>"
proof -
  have n: "\<not> 50 \<le> n" using assms(2) by simp
  obtain x h where m: "rt_malloc SIZEOF_DATA_S (rheap r) = Some (Some x, h)"
    using assms(1) n unfolding radio_send_def by (auto split: Option.bind_splits)
  have "r' = r\<lparr>rheap := h, RadioBuffer := Some x,
      datas := (datas r)(x := \<lparr> data_ptr = d, data_size = n \<rparr>), radio_event := radio_event r OR RADIO_EVENT_SEND\<rparr>"
    using assms(1) m unfolding radio_send_def if_not_P [OF n] by simp
  then show thesis by (rule that)
qed

lemma main_round_tx:
  assumes run: "main_round a = Some a'" and ok: "main_messages b (rad a)"
  shows "main_messages b (rad a') \<and> sent b (rad a) (rad a')"
proof -
  let ?r = "rad a"
  obtain size' buffer where d: "sensor_get_data (arrays ?r MAIN_BUFFER) (sensors a) = Some (size', buffer)"
    using run by (auto simp: main_round_def split: Option.bind_splits)
  then have "buffer = arrays ?r MAIN_BUFFER"
    by (auto simp: sensor_get_data_def split: Option.bind_splits)
  then have same: "(arrays ?r)(MAIN_BUFFER := buffer) = arrays ?r" by simp
  have "rad a' = ?r\<lparr>arrays := arrays ?r\<rparr> \<or> (\<exists>e. radio_send MAIN_BUFFER size' (?r\<lparr>arrays := arrays ?r\<rparr>) = Some (e, rad a'))"
    using run d by (auto simp: main_round_def same Let_def split: if_splits Option.bind_splits)
  then show ?thesis
  proof (elim disjE exE)
    fix e assume s: "radio_send MAIN_BUFFER size' (?r\<lparr>arrays := arrays ?r\<rparr>) = Some (e, rad a')"
    show ?thesis
    proof (cases "50 \<le> size'")
      case True
      then show ?thesis using s ok by (auto simp: radio_send_def main_messages_def)
    next
      case False
      then have n: "size' < 50" by simp
      obtain x h where "rad a' = (?r\<lparr>arrays := arrays ?r\<rparr>)\<lparr>rheap := h, RadioBuffer := Some x,
          datas := (datas ?r)(x := \<lparr> data_ptr = MAIN_BUFFER, data_size = size' \<rparr>), radio_event := radio_event ?r OR RADIO_EVENT_SEND\<rparr>"
        by (rule radio_send_stores [OF s n]) simp
      then show ?thesis using ok n by (auto simp: main_messages_def)
    qed
  qed (use ok in \<open>simp add: main_messages_def\<close>)
qed

lemma uploads_without_readings:
  assumes "app_run exec es a = Some a'" "sends_command exec" "main_messages b (rad a)" "length b = 255"
  shows "main_messages b (rad a') \<and> sent b (rad a) (rad a')"
  using assms
proof (induction es arbitrary: a)
  case (Cons e es)
  obtain a1 where a1: "app_step exec e a = Some a1" "app_run exec es a1 = Some a'"
    using Cons.prems(1) by (auto split: Option.bind_splits)
  have "main_messages b (rad a1) \<and> sent b (rad a) (rad a1)"
  proof (cases e)
    case Main_Round
    then show ?thesis using main_round_tx a1(1) Cons.prems(3) by simp
  next
    case (Sensor_Round low ev)
    then have "rad a1 = rad a" using a1(1) by (auto split: Option.bind_splits)
    then show ?thesis using Cons.prems(3) by simp
  next
    case (Radio_Round junk)
    then obtain r where "radio_thread_round exec junk (rad a) = Some r" "rad a1 = r"
      using a1(1) by (auto split: Option.bind_splits)
    then show ?thesis using thread_round_tx Cons.prems(2-4) by blast
  next
    case Radio_Timer
    then show ?thesis using a1(1) Cons.prems(3) by (auto simp: radio_check_statue_timer_irq_def main_messages_def)
  qed
  then show ?case
    using Cons.IH [OF a1(2) Cons.prems(2)] Cons.prems(4) sent_trans by blast
qed simp

text \<open>With a module in service and memory for the message, a cycle of the main thread reaches the module.\<close>

lemma upload_cycle_runs:
  assumes ok: "heap_ok m (rheap (rad a))" "rt_malloc SIZEOF_DATA_S (rheap (rad a)) = Some (Some x, h)"
    and service: "radioStatue (rad a) \<noteq> AT_RADIO_STATUE_LOSE" "radioStatue (rad a) \<noteq> AT_RADIO_STATUE_WAIT" "radio_event (rad a) = 0"
    and buf: "length (arrays (rad a) MAIN_BUFFER) = 255" "length (sb_buf (sensors a)) = 255" "sb_size (sensors a) < 50"
  shows "\<exists>a'. app_run exec [Main_Round, Radio_Round junk] a = Some a'"
proof -
  let ?r = "rad a" and ?n = "sb_size (sensors a)" and ?b = "arrays (rad a) MAIN_BUFFER"
  let ?r1 = "?r\<lparr>rheap := h, RadioBuffer := Some x, datas := (datas ?r)(x := \<lparr> data_ptr = MAIN_BUFFER, data_size = ?n \<rparr>),
    radio_event := RADIO_EVENT_SEND\<rparr>"
  have h: "heap_ok m h"
    using heap.alloc_total [OF ok(1), of SIZEOF_DATA_S] ok(2) by auto
  have x: "x \<in> live_blocks h"
    using heap.alloc_fresh [OF ok] by simp
  have n: "\<not> 50 \<le> ?n" "unat ?n < 50" using buf(3) by (simp_all add: linorder_not_le) (simp add: word_less_nat_alt)
  have "radio_send MAIN_BUFFER ?n ?r = Some (0, ?r1)"
    using ok(2) service(3) unfolding radio_send_def if_not_P [OF n(1)] by simp
  then have main: "main_round a = Some (a\<lparr>rad := ?r1\<rparr>)"
    using sensor_get_data_keeps [OF buf(1,2)] service(1) by (simp add: main_round_def radio_read_statue_def)
  let ?r0 = "?r1\<lparr>radio_event := 0\<rparr>"
  obtain e s' where s': "at_radio_send_hex exec ?b ?n ?r0 = Some (e, s')" "same_radio ?r0 s'" "costs m e ?r0 s'"
    using send_hex_ok [of m ?r0 ?n ?b exec] h n(2) buf(1) by auto
  then obtain h' where "rt_free (Some x) (rheap s') = Some h'"
    using heap.release_ok [of m "rheap s'" x] x by (auto simp: costs_def)
  then have "radio_thread_send exec ?r0 = Some (s'\<lparr>rheap := h'\<rparr>)"
    using s' service by (simp add: radio_thread_send_def same_radio_def)
  moreover have "radio_thread_round exec junk ?r1 = radio_thread_send exec ?r0"
    using service by (simp add: radio_thread_round_def RADIO_EVENT_SEND_def RADIO_EVENT_CHECK_STATUE_def)
  ultimately show ?thesis using main by simp
qed

end
