(* ===== verification/App_Sensor.thy ===== *)
theory App_Sensor
  imports C_String Rt_Mem_Use
begin

text \<open>
  The list of sensors of \<^verbatim>\<open>applications/sensor_control.c\<close>: nodes from the heap, linked by their
  addresses. A node is 16 bytes: the status, a name of at most ten characters with its end, and the link.
  What a fresh node holds is copied over before it is read; here it starts with NULs. The nodes that exist
  are the domain of \<open>nodes\<close>; following a link to any other address is \<^const>\<open>None\<close>.
\<close>

section \<open>Operations\<close>

record sensor_node =
  statue :: UCHAR
  node_name :: "char list"
  next_node :: "nat option"

record sensor_list =
  SensorListHead :: "nat option"
  nodes :: "nat \<Rightarrow> sensor_node option"
  sheap :: mem_heap

definition SIZEOF_SENSOR_NODE :: "32 word" where "SIZEOF_SENSOR_NODE = 16"

definition add_sensor_node :: "string \<Rightarrow> sensor_list \<Rightarrow> (int \<times> sensor_list) option" where
  "add_sensor_node name s = do {
     (r, h) \<leftarrow> rt_malloc SIZEOF_SENSOR_NODE (sheap s);
     case r of
       None \<Rightarrow> Some (1, s\<lparr>sheap := h\<rparr>)
     | Some a \<Rightarrow> do {
         n \<leftarrow> str_cpy (replicate 10 NUL) name;
         let nx = (if SensorListHead s = None then None else SensorListHead s);
         Some (0, s\<lparr>sheap := h, SensorListHead := Some a,
           nodes := (nodes s)(a \<mapsto> \<lparr> statue = 0, node_name = n, next_node = nx \<rparr>)\<rparr>)
       }
   }"

definition unlink_node :: "nat option \<Rightarrow> nat \<Rightarrow> sensor_node \<Rightarrow> sensor_list \<Rightarrow> sensor_list option" where
  "unlink_node last' a node s = do {
     s \<leftarrow> (if last' = Some a
       then do { h \<leftarrow> SensorListHead s; hn \<leftarrow> nodes s h; Some (s\<lparr>SensorListHead := next_node hn\<rparr>) }
       else do { l \<leftarrow> last'; ln \<leftarrow> nodes s l; Some (s\<lparr>nodes := (nodes s)(l \<mapsto> ln\<lparr>next_node := next_node node\<rparr>)\<rparr>) });
     h \<leftarrow> rt_free (Some a) (sheap s);
     Some (s\<lparr>sheap := h, nodes := (nodes s)(a := None)\<rparr>)
   }"

partial_function (option) delete_loop :: "nat option \<Rightarrow> nat option \<Rightarrow> string \<Rightarrow> sensor_list \<Rightarrow> (int \<times> sensor_list) option" where
  "delete_loop last' node name s = (case node of
     None \<Rightarrow> Some (1, s)
   | Some a \<Rightarrow> do {
       nd \<leftarrow> nodes s a;
       c \<leftarrow> rt_strcmp (node_name nd) (name @ [NUL]);
       if c = 0 then do { s \<leftarrow> unlink_node last' a nd s; Some (0, s) }
       else delete_loop node (next_node nd) name s
     })"

definition delete_sensor_node :: "string \<Rightarrow> sensor_list \<Rightarrow> (int \<times> sensor_list) option" where
  "delete_sensor_node name s = delete_loop (SensorListHead s) (SensorListHead s) name s"

partial_function (option) search_loop :: "nat option \<Rightarrow> string \<Rightarrow> sensor_list \<Rightarrow> nat option option" where
  "search_loop node name s = (case node of
     None \<Rightarrow> Some None
   | Some a \<Rightarrow> do {
       nd \<leftarrow> nodes s a;
       c \<leftarrow> rt_strcmp (node_name nd) (name @ [NUL]);
       if c = 0 then Some (Some a) else search_loop (next_node nd) name s
     })"

definition alter_sensor_node :: "string \<Rightarrow> UCHAR \<Rightarrow> sensor_list \<Rightarrow> (int \<times> sensor_list) option" where
  "alter_sensor_node name st s = do {
     r \<leftarrow> search_loop (SensorListHead s) name s;
     case r of
       None \<Rightarrow> Some (1, s)
     | Some a \<Rightarrow> do { nd \<leftarrow> nodes s a; Some (0, s\<lparr>nodes := (nodes s)(a \<mapsto> nd\<lparr>statue := st\<rparr>)\<rparr>) }
   }"

text \<open>\<open>old\<close> is what \<^verbatim>\<open>*statue\<close> holds before; it is left when no node has the name.\<close>

definition find_sensor_node :: "string \<Rightarrow> UCHAR \<Rightarrow> sensor_list \<Rightarrow> (int \<times> UCHAR) option" where
  "find_sensor_node name old s = do {
     r \<leftarrow> search_loop (SensorListHead s) name s;
     case r of
       None \<Rightarrow> Some (1, old)
     | Some a \<Rightarrow> do { nd \<leftarrow> nodes s a; Some (0, statue nd) }
   }"

text \<open>What is printed.\<close>

partial_function (option) display_loop :: "nat option \<Rightarrow> sensor_list \<Rightarrow> (string \<times> UCHAR) list option" where
  "display_loop node s = (case node of
     None \<Rightarrow> Some []
   | Some a \<Rightarrow> do {
       nd \<leftarrow> nodes s a;
       n \<leftarrow> cstr (node_name nd);
       rest \<leftarrow> display_loop (next_node nd) s;
       Some ((n, statue nd) # rest)
     })"

definition display_all_sensor_node :: "sensor_list \<Rightarrow> (string \<times> UCHAR) list option" where
  "display_all_sensor_node s = display_loop (SensorListHead s) s"

definition sensor_get_statue :: "string option \<Rightarrow> sensor_list \<Rightarrow> int option" where
  "sensor_get_statue name s = (case name of
     None \<Rightarrow> do { _ \<leftarrow> display_all_sensor_node s; Some 0 }
   | Some n \<Rightarrow> do { (_, st) \<leftarrow> find_sensor_node n 0 s; Some (uint st) })"

text \<open>The shell commands, with the words of the command line.\<close>

definition add_node :: "string list \<Rightarrow> sensor_list \<Rightarrow> sensor_list option" where
  "add_node argv s = (if length argv \<noteq> 2 then Some s else map_option snd (add_sensor_node (argv ! 1) s))"

definition delete_node :: "string list \<Rightarrow> sensor_list \<Rightarrow> sensor_list option" where
  "delete_node argv s = (if length argv \<noteq> 2 then Some s else map_option snd (delete_sensor_node (argv ! 1) s))"

definition alter_node :: "string list \<Rightarrow> sensor_list \<Rightarrow> sensor_list option" where
  "alter_node argv s =
    (if length argv \<noteq> 3 then Some s
     else do {
       one \<leftarrow> rt_strcmp (argv ! 2 @ [NUL]) (''1'' @ [NUL]);
       zero \<leftarrow> rt_strcmp (argv ! 2 @ [NUL]) (''0'' @ [NUL]);
       if one = 0 then map_option snd (alter_sensor_node (argv ! 1) 1 s)
       else if zero = 0 then map_option snd (alter_sensor_node (argv ! 1) 0 s)
       else Some s
     })"

section \<open>The list as an association list\<close>

text \<open>A node of the model: its address, name and status.\<close>

type_synonym snode = "nat \<times> string \<times> UCHAR"

definition name_cells :: "string \<Rightarrow> char list \<Rightarrow> bool" where
  "name_cells n c \<longleftrightarrow> NUL \<notin> set n \<and> length c = 10 \<and> (\<exists>rest. c = n @ NUL # rest)"

fun nodes_at :: "(nat \<Rightarrow> sensor_node option) \<Rightarrow> nat option \<Rightarrow> snode list \<Rightarrow> bool" where
  "nodes_at m p [] \<longleftrightarrow> p = None"
| "nodes_at m p ((a, n, st) # xs) \<longleftrightarrow> p = Some a \<and>
     (\<exists>c nx. m a = Some \<lparr> statue = st, node_name = c, next_node = nx \<rparr> \<and> name_cells n c \<and> nodes_at m nx xs)"

text \<open>
  Well-formed memory: a list without a cycle of terminated names, whose nodes are live blocks of the
  heap; all other live blocks, \<open>others\<close>, belong to somebody else.
\<close>

definition sensor_ok :: "nat \<Rightarrow> nat set \<Rightarrow> sensor_list \<Rightarrow> snode list \<Rightarrow> bool" where
  "sensor_ok m others s xs \<longleftrightarrow> heap_ok m (sheap s) \<and> nodes_at (nodes s) (SensorListHead s) xs \<and> distinct (map fst xs) \<and>
     dom (nodes s) = set (map fst xs) \<and> live_blocks (sheap s) = others \<union> set (map fst xs) \<and> others \<inter> set (map fst xs) = {}"

lemma nodes_at_frame: "nodes_at m p xs \<Longrightarrow> (\<And>a. a \<in> set (map fst xs) \<Longrightarrow> m' a = m a) \<Longrightarrow> nodes_at m' p xs"
proof (induction xs arbitrary: p)
  case (Cons x xs)
  obtain a n st where "x = (a, n, st)" by (cases x)
  with Cons show ?case by fastforce
qed simp

lemma nodes_at_upd [simp]: "a \<notin> fst ` set xs \<Longrightarrow> nodes_at m p xs \<Longrightarrow> nodes_at (m(a := v)) p xs"
  by (erule nodes_at_frame) auto

lemma name_cells_cmp:
  assumes "name_cells n c" "NUL \<notin> set name"
  shows "\<exists>r. rt_strcmp c (name @ [NUL]) = Some r \<and> (r = 0 \<longleftrightarrow> n = name)"
  using assms rt_strcmp_eq [of n name] by (auto simp: name_cells_def)

lemma name_cells_copy:
  assumes "NUL \<notin> set n" "length n < 10"
  shows "\<exists>c. str_cpy (replicate 10 NUL) n = Some c \<and> name_cells n c"
  using assms by (simp add: str_cpy_def name_cells_def blit_def)

subsection \<open>Adding\<close>

lemma add_ok:
  assumes ok: "sensor_ok m others s xs" and name: "NUL \<notin> set name" "length name < 10"
  shows "\<exists>r s'. add_sensor_node name s = Some (r, s') \<and>
    (r = 1 \<and> s' = s \<or> r = 0 \<and> (\<exists>a. sensor_ok m others s' ((a, name, 0) # xs)))"
proof -
  have h: "heap_ok m (sheap s)" using ok by (simp add: sensor_ok_def)
  obtain r h' where r: "rt_malloc SIZEOF_SENSOR_NODE (sheap s) = Some (r, h')" "heap_ok m h'" "r = None \<longrightarrow> h' = sheap s"
    using heap.alloc_total [OF h] by blast
  show ?thesis
  proof (cases r)
    case None
    then show ?thesis using r by (simp add: add_sensor_node_def)
  next
    case (Some a)
    then have a: "a \<notin> live_blocks (sheap s)" "live_blocks h' = insert a (live_blocks (sheap s))"
      using heap.alloc_fresh [OF h] r(1) by blast+
    obtain c where c: "str_cpy (replicate 10 NUL) name = Some c" "name_cells name c"
      using name_cells_copy [OF name] by blast
    have nx: "(if SensorListHead s = None then None else SensorListHead s) = SensorListHead s" by simp
    let ?s = "s\<lparr>sheap := h', SensorListHead := Some a,
      nodes := (nodes s)(a \<mapsto> \<lparr> statue = 0, node_name = c, next_node = SensorListHead s \<rparr>)\<rparr>"
    have "add_sensor_node name s = Some (0, ?s)"
      using r(1) Some c(1) by (simp add: add_sensor_node_def Let_def nx)
    moreover have "sensor_ok m others ?s ((a, name, 0) # xs)"
      using ok r(2) a c(2) by (auto simp: sensor_ok_def)
    ultimately show ?thesis by blast
  qed
qed

text \<open>A longer name is written over the end of the node's name.\<close>

lemma add_overflows:
  assumes "sensor_ok m others s xs" "10 \<le> length name" "add_sensor_node name s = Some (r, s')"
  shows "r = 1"
proof -
  have "str_cpy (replicate 10 NUL) name = None"
    using assms(2) by (simp add: str_cpy_def mem_copy_def)
  then show ?thesis
    using assms(3) by (auto simp: add_sensor_node_def split: Option.bind_splits option.splits)
qed

subsection \<open>Searching\<close>

lemma search_ok:
  assumes "nodes_at (nodes s) p xs" "NUL \<notin> set name"
  shows "search_loop p name s = Some (map_of (map (\<lambda>(a, n, st). (n, a)) xs) name)"
  using assms(1)
proof (induction xs arbitrary: p)
  case Nil
  then show ?case by (subst search_loop.simps) simp
next
  case (Cons x xs)
  obtain a n st where x: "x = (a, n, st)" by (cases x)
  then obtain c nx where p: "p = Some a" "nodes s a = Some \<lparr> statue = st, node_name = c, next_node = nx \<rparr>"
    "name_cells n c" "nodes_at (nodes s) nx xs"
    using Cons.prems by auto
  obtain r where "rt_strcmp c (name @ [NUL]) = Some r" "r = 0 \<longleftrightarrow> n = name"
    using name_cells_cmp [OF p(3) assms(2)] by blast
  then show ?case
    using Cons.IH [OF p(4)] p x by (subst search_loop.simps) auto
qed

lemma display_ok:
  assumes "nodes_at (nodes s) p xs"
  shows "display_loop p s = Some (map snd xs)"
  using assms
proof (induction xs arbitrary: p)
  case Nil
  then show ?case by (subst display_loop.simps) simp
next
  case (Cons x xs)
  obtain a n st where x: "x = (a, n, st)" by (cases x)
  then obtain c nx where p: "p = Some a" "nodes s a = Some \<lparr> statue = st, node_name = c, next_node = nx \<rparr>"
    "name_cells n c" "nodes_at (nodes s) nx xs"
    using Cons.prems by auto
  then show ?case
    using Cons.IH [OF p(4)] x by (subst display_loop.simps) (auto simp: name_cells_def)
qed

lemma nodes_at_split:
  "nodes_at m p (as @ (a, n, st) # cs) \<Longrightarrow> \<exists>c nx. m a = Some \<lparr> statue = st, node_name = c, next_node = nx \<rparr> \<and> name_cells n c \<and>
    nodes_at m nx cs"
  by (induction m p as rule: nodes_at.induct) auto

text \<open>The first node of a name.\<close>

lemma first_named:
  assumes "map_of (map (\<lambda>(a, n, st). (n, a)) xs) name = Some a"
  shows "\<exists>as st cs. xs = as @ (a, name, st) # cs \<and> name \<notin> fst ` snd ` set as"
  using assms
proof (induction xs)
  case (Cons x xs)
  obtain b n st where x: "x = (b, n, st)" by (cases x)
  show ?case
  proof (cases "n = name")
    case True
    then show ?thesis using Cons.prems x by (intro exI [of _ "[]"]) auto
  next
    case False
    then obtain as st' cs where "xs = as @ (a, name, st') # cs" "name \<notin> fst ` snd ` set as"
      using Cons x by auto
    with False x show ?thesis by (intro exI [of _ "x # as"] exI [of _ st'] exI [of _ cs]) auto
  qed
qed simp

lemma not_named: "map_of (map (\<lambda>(a, n, st). (n, a)) xs) name = None \<longleftrightarrow> name \<notin> fst ` snd ` set xs"
  by (induction xs) auto

subsection \<open>Altering\<close>

lemma nodes_at_alter:
  assumes "nodes_at m p (as @ (a, n, st) # cs)" "distinct (map fst (as @ (a, n, st) # cs))" "m a = Some nd"
  shows "nodes_at (m(a \<mapsto> nd\<lparr>statue := v\<rparr>)) p (as @ (a, n, v) # cs)"
  using assms
proof (induction as arbitrary: p)
  case (Cons x as)
  obtain b k w where "x = (b, k, w)" by (cases x)
  with Cons show ?case by auto
qed auto

lemma alter_ok:
  assumes ok: "sensor_ok m others s xs" and name: "NUL \<notin> set name"
  shows "\<exists>r s'. alter_sensor_node name v s = Some (r, s') \<and>
    (if name \<in> fst ` snd ` set xs
     then r = 0 \<and> (\<exists>as a st cs. xs = as @ (a, name, st) # cs \<and> name \<notin> fst ` snd ` set as \<and>
       sensor_ok m others s' (as @ (a, name, v) # cs))
     else r = 1 \<and> s' = s)"
proof -
  have at: "nodes_at (nodes s) (SensorListHead s) xs" using ok by (simp add: sensor_ok_def)
  note search = search_ok [OF at name]
  show ?thesis
  proof (cases "map_of (map (\<lambda>(a, n, st). (n, a)) xs) name")
    case None
    then show ?thesis
      using search not_named [of xs name] by (simp add: alter_sensor_node_def)
  next
    case (Some a)
    obtain as st cs where xs: "xs = as @ (a, name, st) # cs" "name \<notin> fst ` snd ` set as"
      using first_named [OF Some] by blast
    obtain nd where nd: "nodes s a = Some nd"
      using nodes_at_split [of "nodes s" "SensorListHead s" as a name st cs] at xs(1) by blast
    let ?s = "s\<lparr>nodes := (nodes s)(a \<mapsto> nd\<lparr>statue := v\<rparr>)\<rparr>"
    have "alter_sensor_node name v s = Some (0, ?s)"
      using search Some nd by (simp add: alter_sensor_node_def)
    moreover have "sensor_ok m others ?s (as @ (a, name, v) # cs)"
      using ok nodes_at_alter [of "nodes s" "SensorListHead s" as a name st cs nd v] nd
      by (auto simp: sensor_ok_def xs(1))
    ultimately show ?thesis
      using xs by (simp add: image_iff) blast
  qed
qed

lemma find_ok:
  assumes ok: "sensor_ok m others s xs" and name: "NUL \<notin> set name"
  shows "find_sensor_node name old s = Some (case map_of (map snd xs) name of None \<Rightarrow> (1, old) | Some st \<Rightarrow> (0, st))"
proof -
  have at: "nodes_at (nodes s) (SensorListHead s) xs" using ok by (simp add: sensor_ok_def)
  show ?thesis
  proof (cases "map_of (map (\<lambda>(a, n, st). (n, a)) xs) name")
    case None
    then have "map_of (map snd xs) name = None"
      using not_named [of xs name] by (auto simp: map_of_eq_None_iff)
    with None show ?thesis
      using search_ok [OF at name] by (simp add: find_sensor_node_def)
  next
    case (Some a)
    obtain as st cs where xs: "xs = as @ (a, name, st) # cs" "name \<notin> fst ` snd ` set as"
      using first_named [OF Some] by blast
    then have "map_of (map snd xs) name = Some st"
      using map_of_eq_None_iff [of "map snd as" name] by (simp add: map_add_def)
    then show ?thesis
      using search_ok [OF at name] Some nodes_at_split [OF at [unfolded xs(1)]]
      by (auto simp: find_sensor_node_def)
  qed
qed

subsection \<open>Deleting\<close>

lemma nodes_at_relink:
  assumes "nodes_at m p (bs @ (l, n, st) # x # cs)" "distinct (map fst (bs @ (l, n, st) # x # cs))" "m l = Some ln"
    and "nodes_at m nx cs"
  shows "nodes_at (m(l \<mapsto> ln\<lparr>next_node := nx\<rparr>)) p (bs @ (l, n, st) # cs)"
  using assms
proof (induction bs arbitrary: p)
  case (Cons y bs)
  obtain b k w where "y = (b, k, w)" by (cases y)
  with Cons show ?case by auto
qed auto

lemma unlink_ok:
  assumes ok: "sensor_ok m others s (as @ (a, n, st) # cs)" and nd: "nodes s a = Some nd"
    and last': "last' = (if as = [] then SensorListHead s else Some (fst (last as)))"
  shows "\<exists>s'. unlink_node last' a nd s = Some s' \<and> sensor_ok m others s' (as @ cs)"
proof -
  have at: "nodes_at (nodes s) (SensorListHead s) (as @ (a, n, st) # cs)" and dist: "distinct (map fst (as @ (a, n, st) # cs))"
    and h: "heap_ok m (sheap s)" and lv: "live_blocks (sheap s) = others \<union> insert a (set (map fst (as @ cs)))"
    and dom: "dom (nodes s) = insert a (set (map fst (as @ cs)))" and oth: "others \<inter> insert a (set (map fst (as @ cs))) = {}"
    using ok by (auto simp: sensor_ok_def)
  have nx: "nodes_at (nodes s) (next_node nd) cs"
    using nodes_at_split [OF at] nd by auto
  obtain h' where h': "rt_free (Some a) (sheap s) = Some h'" "heap_ok m h'" "live_blocks h' = live_blocks (sheap s) - {a}"
    using heap.release_ok [OF h, of a] lv by auto
  have a: "a \<notin> set (map fst (as @ cs))" using dist by auto
  have lv': "live_blocks h' = others \<union> set (map fst (as @ cs))"
    using h'(3) lv a oth by auto
  show ?thesis
  proof (cases as rule: rev_cases)
    case Nil
    then have "SensorListHead s = Some a" using at by auto
    then have "unlink_node last' a nd s = Some (s\<lparr>SensorListHead := next_node nd, sheap := h', nodes := (nodes s)(a := None)\<rparr>)"
      using last' nd h'(1) Nil by (simp add: unlink_node_def)
    moreover have "sensor_ok m others (s\<lparr>SensorListHead := next_node nd, sheap := h', nodes := (nodes s)(a := None)\<rparr>) (as @ cs)"
      using Nil nx h'(2) lv' oth dist dom a by (auto simp: sensor_ok_def)
    ultimately show ?thesis by blast
  next
    case (snoc bs y)
    obtain l k w where y: "y = (l, k, w)" by (cases y)
    then obtain ln where ln: "nodes s l = Some ln"
      using nodes_at_split [of "nodes s" "SensorListHead s" bs l k w "(a, n, st) # cs"] at snoc by auto
    let ?m = "(nodes s)(l \<mapsto> ln\<lparr>next_node := next_node nd\<rparr>, a := None)"
    have "last' = Some l" "l \<noteq> a" using last' snoc y dist by auto
    then have run: "unlink_node last' a nd s = Some (s\<lparr>nodes := ?m, sheap := h'\<rparr>)"
      using ln h'(1) by (simp add: unlink_node_def)
    have "nodes_at ((nodes s)(l \<mapsto> ln\<lparr>next_node := next_node nd\<rparr>)) (SensorListHead s) (bs @ (l, k, w) # cs)"
      using nodes_at_relink [OF _ _ ln nx, of "SensorListHead s" bs k w "(a, n, st)"] at dist snoc y by simp
    then have "nodes_at ((nodes s)(l \<mapsto> ln\<lparr>next_node := next_node nd\<rparr>)) (SensorListHead s) (as @ cs)"
      using snoc y by simp
    moreover have "a \<notin> fst ` set (as @ cs)" using a by (simp only: set_map not_False_eq_True)
    ultimately have "nodes_at ?m (SensorListHead s) (as @ cs)"
      by (rule nodes_at_upd [rotated])
    then have "sensor_ok m others (s\<lparr>nodes := ?m, sheap := h'\<rparr>) (as @ cs)"
      using h'(2) lv' oth dist dom snoc y a by (auto simp: sensor_ok_def)
    with run show ?thesis by blast
  qed
qed

lemma delete_loop_ok:
  assumes ok: "sensor_ok m others s (as @ xs)" and p: "nodes_at (nodes s) p xs" and name: "NUL \<notin> set name"
    and last': "last' = (if as = [] then SensorListHead s else Some (fst (last as)))"
    and before: "name \<notin> fst ` snd ` set as"
  shows "\<exists>r s'. delete_loop last' p name s = Some (r, s') \<and>
    (if name \<in> fst ` snd ` set xs
     then r = 0 \<and> (\<exists>bs a st cs. as @ xs = bs @ (a, name, st) # cs \<and> name \<notin> fst ` snd ` set bs \<and> sensor_ok m others s' (bs @ cs))
     else r = 1 \<and> s' = s)"
  using assms
proof (induction xs arbitrary: as p last')
  case Nil
  then show ?case by (subst delete_loop.simps) simp
next
  case (Cons x xs)
  obtain a n st where x: "x = (a, n, st)" by (cases x)
  then obtain c nx where nd: "p = Some a" "nodes s a = Some \<lparr> statue = st, node_name = c, next_node = nx \<rparr>"
    "name_cells n c" "nodes_at (nodes s) nx xs"
    using Cons.prems(2) by auto
  obtain r where r: "rt_strcmp c (name @ [NUL]) = Some r" "r = 0 \<longleftrightarrow> n = name"
    using name_cells_cmp [OF nd(3) name] by blast
  show ?case
  proof (cases "n = name")
    case True
    have "sensor_ok m others s (as @ (a, name, st) # xs)" using Cons.prems(1) x True by simp
    from unlink_ok [OF this nd(2) Cons.prems(4)] obtain s' where
      "unlink_node last' a \<lparr> statue = st, node_name = c, next_node = nx \<rparr> s = Some s'" "sensor_ok m others s' (as @ xs)"
      by blast
    moreover from this have "delete_loop last' p name s = Some (0, s')"
      using nd(1,2) r True by (subst delete_loop.simps) simp
    ultimately show ?thesis
      using x True Cons.prems(5) by auto
  next
    case False
    have eq: "as @ x # xs = (as @ [x]) @ xs" by simp
    have "p = (if as @ [x] = [] then SensorListHead s else Some (fst (last (as @ [x]))))" "name \<notin> fst ` snd ` set (as @ [x])"
      using False Cons.prems(5) x nd(1) by simp_all
    note Cons.IH [OF Cons.prems(1) [unfolded eq] nd(4) name this]
    moreover have "delete_loop last' p name s = delete_loop p nx name s"
      using nd(1,2) r False by (subst delete_loop.simps) simp
    moreover have "name \<in> fst ` snd ` set (x # xs) \<longleftrightarrow> name \<in> fst ` snd ` set xs"
      using x False by auto
    ultimately show ?thesis by (simp only: eq)
  qed
qed

lemma delete_ok:
  assumes ok: "sensor_ok m others s xs" and name: "NUL \<notin> set name"
  shows "\<exists>r s'. delete_sensor_node name s = Some (r, s') \<and>
    (if name \<in> fst ` snd ` set xs
     then r = 0 \<and> (\<exists>as a st cs. xs = as @ (a, name, st) # cs \<and> name \<notin> fst ` snd ` set as \<and> sensor_ok m others s' (as @ cs))
     else r = 1 \<and> s' = s)"
proof -
  have "sensor_ok m others s ([] @ xs)" "nodes_at (nodes s) (SensorListHead s) xs"
    using ok by (simp_all add: sensor_ok_def)
  from delete_loop_ok [OF this name, of "SensorListHead s"] show ?thesis
    by (simp only: delete_sensor_node_def append_Nil if_True simp_thms image_empty list.set empty_iff)
qed

end
