(* ===== verification/App_Sensor_Run.thy ===== *)
theory App_Sensor_Run
  imports App_Sensor Refine
begin

text \<open>
  Sequences of operations on the list of sensors: it behaves like an association list, and its memory
  stays well formed.
\<close>

section \<open>The abstract list\<close>

datatype sensor_op = S_Add string | S_Delete string | S_Alter string UCHAR | S_Find string

fun sensor_step :: "sensor_op \<Rightarrow> sensor_list \<Rightarrow> ((int \<times> UCHAR) \<times> sensor_list) option" where
  "sensor_step (S_Add n) s = do { (r, s) \<leftarrow> add_sensor_node n s; Some ((r, 0), s) }"
| "sensor_step (S_Delete n) s = do { (r, s) \<leftarrow> delete_sensor_node n s; Some ((r, 0), s) }"
| "sensor_step (S_Alter n v) s = do { (r, s) \<leftarrow> alter_sensor_node n v s; Some ((r, 0), s) }"
| "sensor_step (S_Find n) s = do { out \<leftarrow> find_sensor_node n 0 s; Some (out, s) }"

fun remove_named :: "string \<Rightarrow> (string \<times> UCHAR) list \<Rightarrow> (string \<times> UCHAR) list" where
  "remove_named n [] = []"
| "remove_named n ((k, v) # l) = (if k = n then l else (k, v) # remove_named n l)"

fun set_named :: "string \<Rightarrow> UCHAR \<Rightarrow> (string \<times> UCHAR) list \<Rightarrow> (string \<times> UCHAR) list" where
  "set_named n w [] = []"
| "set_named n w ((k, v) # l) = (if k = n then (k, w) # l else (k, v) # set_named n w l)"

text \<open>
  The result 0 is success and 1 a failure; adding may fail when memory runs out, the others fail exactly
  when there is no sensor of the name.
\<close>

fun sensor_post :: "sensor_op \<Rightarrow> int \<times> UCHAR \<Rightarrow> (string \<times> UCHAR) list \<Rightarrow> (string \<times> UCHAR) list option" where
  "sensor_post (S_Add n) (r, _) l = (if r = 0 then Some ((n, 0) # l) else if r = 1 then Some l else None)"
| "sensor_post (S_Delete n) (r, _) l =
    (if map_of l n \<noteq> None \<and> r = 0 then Some (remove_named n l) else if map_of l n = None \<and> r = 1 then Some l else None)"
| "sensor_post (S_Alter n v) (r, _) l =
    (if map_of l n \<noteq> None \<and> r = 0 then Some (set_named n v l) else if map_of l n = None \<and> r = 1 then Some l else None)"
| "sensor_post (S_Find n) (r, v) l =
    (if map_of l n = Some v \<and> r = 0 then Some l else if map_of l n = None \<and> r = 1 then Some l else None)"

fun op_name :: "sensor_op \<Rightarrow> string" where
  "op_name (S_Add n) = n"
| "op_name (S_Delete n) = n"
| "op_name (S_Alter n v) = n"
| "op_name (S_Find n) = n"

definition sensor_valid :: "sensor_op \<Rightarrow> bool" where
  "sensor_valid op \<longleftrightarrow> NUL \<notin> set (op_name op) \<and> length (op_name op) < 10"

definition sensor_rel :: "nat \<Rightarrow> nat set \<Rightarrow> sensor_list \<Rightarrow> (string \<times> UCHAR) list \<Rightarrow> bool" where
  "sensor_rel m others s l \<longleftrightarrow> (\<exists>xs. sensor_ok m others s xs \<and> l = map snd xs)"

lemma named_first:
  "n \<notin> fst ` set as \<Longrightarrow> remove_named n (as @ (n, v) # cs) = as @ cs"
  "n \<notin> fst ` set as \<Longrightarrow> set_named n w (as @ (n, v) # cs) = as @ (n, w) # cs"
  by (induction as) auto

lemma named_iff: "map_of (map snd xs) n \<noteq> None \<longleftrightarrow> n \<in> fst ` snd ` set xs"
  by (auto simp: map_of_eq_None_iff)

section \<open>Refinement\<close>

interpretation sensors: trace_refinement sensor_step sensor_post "sensor_rel m others" sensor_valid for m others
proof
  fix s l op assume rel: "sensor_rel m others s l" and v: "sensor_valid op"
  obtain xs where ok: "sensor_ok m others s xs" and l: "l = map snd xs"
    using rel by (auto simp: sensor_rel_def)
  have name: "NUL \<notin> set (op_name op)" "length (op_name op) < 10"
    using v by (simp_all add: sensor_valid_def)
  show "\<exists>out s' a'. sensor_step op s = Some (out, s') \<and> sensor_post op out l = Some a' \<and> sensor_rel m others s' a'"
  proof (cases op)
    case (S_Add n)
    with add_ok [OF ok, of n] name obtain r s' where "add_sensor_node n s = Some (r, s')"
      "r = 1 \<and> s' = s \<or> r = 0 \<and> (\<exists>a. sensor_ok m others s' ((a, n, 0) # xs))"
      by auto
    then show ?thesis
      using S_Add rel l by (fastforce simp: sensor_rel_def)
  next
    case (S_Delete n)
    with delete_ok [OF ok, of n] name obtain r s' where r: "delete_sensor_node n s = Some (r, s')"
      "if n \<in> fst ` snd ` set xs
       then r = 0 \<and> (\<exists>as a st cs. xs = as @ (a, n, st) # cs \<and> n \<notin> fst ` snd ` set as \<and> sensor_ok m others s' (as @ cs))
       else r = 1 \<and> s' = s"
      by auto
    show ?thesis
    proof (cases "n \<in> fst ` snd ` set xs")
      case True
      with r(2) obtain as a st cs where s': "r = 0" "xs = as @ (a, n, st) # cs" "n \<notin> fst ` snd ` set as"
        "sensor_ok m others s' (as @ cs)"
        by auto
      have "remove_named n l = map snd (as @ cs)"
        using named_first(1) [of n "map snd as" st "map snd cs"] s'(2,3) l by simp
      then have "sensor_rel m others s' (remove_named n l)"
        using s'(4) unfolding sensor_rel_def by blast
      then show ?thesis
        using S_Delete r(1) s'(1) True named_iff [of xs n] l by simp
    next
      case False
      then show ?thesis
        using S_Delete r named_iff [of xs n] l rel by auto
    qed
  next
    case (S_Alter n w)
    with alter_ok [OF ok, of n w] name obtain r s' where r: "alter_sensor_node n w s = Some (r, s')"
      "if n \<in> fst ` snd ` set xs
       then r = 0 \<and> (\<exists>as a st cs. xs = as @ (a, n, st) # cs \<and> n \<notin> fst ` snd ` set as \<and> sensor_ok m others s' (as @ (a, n, w) # cs))
       else r = 1 \<and> s' = s"
      by auto
    show ?thesis
    proof (cases "n \<in> fst ` snd ` set xs")
      case True
      with r(2) obtain as a st cs where s': "r = 0" "xs = as @ (a, n, st) # cs" "n \<notin> fst ` snd ` set as"
        "sensor_ok m others s' (as @ (a, n, w) # cs)"
        by auto
      have "set_named n w l = map snd (as @ (a, n, w) # cs)"
        using named_first(2) [of n "map snd as" w st "map snd cs"] s'(2,3) l by simp
      then have "sensor_rel m others s' (set_named n w l)"
        using s'(4) unfolding sensor_rel_def by blast
      then show ?thesis
        using S_Alter r(1) s'(1) True named_iff [of xs n] l by simp
    next
      case False
      then show ?thesis
        using S_Alter r named_iff [of xs n] l rel by auto
    qed
  next
    case (S_Find n)
    then show ?thesis
      using find_ok [OF ok, of n 0] name l rel by (auto split: option.split)
  qed
qed

text \<open>An empty list on any heap.\<close>

definition sensor_init :: "mem_heap \<Rightarrow> sensor_list" where
  "sensor_init h = \<lparr> SensorListHead = None, nodes = (\<lambda>_. None), sheap = h \<rparr>"

lemma sensor_init_ok: "heap_ok m h \<Longrightarrow> sensor_ok m (live_blocks h) (sensor_init h) []"
  by (simp add: sensor_ok_def sensor_init_def)

lemma display_rel:
  assumes "sensor_rel m others s l"
  shows "display_all_sensor_node s = Some l"
  using assms display_ok by (auto simp: sensor_rel_def sensor_ok_def display_all_sensor_node_def)

lemma sensors_refine:
  assumes "heap_ok m h" "list_all sensor_valid ops"
  shows "\<exists>outs s' l. run_ops sensor_step ops (sensor_init h) = Some (outs, s') \<and> accept_ops sensor_post ops outs [] = Some l \<and>
    display_all_sensor_node s' = Some l"
proof -
  have "sensor_rel m (live_blocks h) (sensor_init h) []"
    using sensor_init_ok [OF assms(1)] by (auto simp: sensor_rel_def)
  from sensors.run_accepted [OF this assms(2)] display_rel show ?thesis by blast
qed

lemma sensors_typed:
  assumes "heap_ok m h" "list_all sensor_valid ops"
  shows "\<exists>outs s' xs. run_ops sensor_step ops (sensor_init h) = Some (outs, s') \<and> sensor_ok m (live_blocks h) s' xs"
proof -
  have "sensor_rel m (live_blocks h) (sensor_init h) []"
    using sensor_init_ok [OF assms(1)] by (auto simp: sensor_rel_def)
  from sensors.run_accepted [OF this assms(2)] show ?thesis by (auto simp: sensor_rel_def)
qed

end
