(* ===== verification/Rt_Ipc_Heap.thy ===== *)
theory Rt_Ipc_Heap
  imports Rt_Sem Rt_Event Rt_Mutex Rt_Mailbox Rt_Mq Rt_Timer Rt_Object Rt_Mem_Use
begin

text \<open>
  Semaphores, mutexes, events, mailboxes, message queues and timers from the heap: the functions of \<^verbatim>\<open>ipc.c\<close> and
  \<^verbatim>\<open>timer.c\<close> that create and delete them. The registry of objects, the heap and the kernel are passed along;
  the object itself is its record, and the address of its pool where it has one. \<open>junk\<close> is what a fresh pool
  holds.
\<close>

section \<open>Operations\<close>

definition RT_Object_Class_Semaphore :: "8 word" where "RT_Object_Class_Semaphore = 2"
definition RT_Object_Class_Mutex :: "8 word" where "RT_Object_Class_Mutex = 3"
definition RT_Object_Class_Event :: "8 word" where "RT_Object_Class_Event = 4"
definition RT_Object_Class_MailBox :: "8 word" where "RT_Object_Class_MailBox = 5"
definition RT_Object_Class_MessageQueue :: "8 word" where "RT_Object_Class_MessageQueue = 6"
definition RT_Object_Class_Timer :: "8 word" where "RT_Object_Class_Timer = 10"

text \<open>The checks at the head of every delete function.\<close>

definition deletable :: "8 word \<Rightarrow> obj_ptr \<Rightarrow> object_system \<Rightarrow> bool" where
  "deletable ty p os \<longleftrightarrow> rt_object_get_type p os = ty \<and> \<not> rt_object_is_systemobject p os"

definition rt_sem_create :: "string \<Rightarrow> 32 word \<Rightarrow> ipc_flag \<Rightarrow> object_system \<Rightarrow> mem_heap \<Rightarrow>
    ((obj_ptr \<times> rt_semaphore) option \<times> object_system \<times> mem_heap) option" where
  "rt_sem_create name value fl os h = do {
     (sem, os, h) \<leftarrow> rt_object_allocate RT_Object_Class_Semaphore name os h;
     case sem of
       None \<Rightarrow> Some (None, os, h)
     | Some p \<Rightarrow> Some (Some (p, \<lparr> flag = fl, suspend_thread = [], sem_value = ucast value \<rparr>), os, h)
   }"

definition rt_sem_delete :: "obj_ptr \<Rightarrow> rt_semaphore \<Rightarrow> object_system \<Rightarrow> mem_heap \<Rightarrow> kernel \<Rightarrow>
    (rt_err_t \<times> object_system \<times> mem_heap \<times> kernel) option" where
  "rt_sem_delete p sem os h k = do {
     rt_assert (deletable RT_Object_Class_Semaphore p os);
     (_, k) \<leftarrow> rt_ipc_list_resume_all (suspend_thread sem) k;
     (os, h) \<leftarrow> rt_object_delete p os h;
     Some (RT_EOK, os, h, k)
   }"

definition rt_mutex_create :: "string \<Rightarrow> ipc_flag \<Rightarrow> object_system \<Rightarrow> mem_heap \<Rightarrow>
    ((obj_ptr \<times> rt_mutex) option \<times> object_system \<times> mem_heap) option" where
  "rt_mutex_create name fl os h = do {
     (mutex, os, h) \<leftarrow> rt_object_allocate RT_Object_Class_Mutex name os h;
     case mutex of
       None \<Rightarrow> Some (None, os, h)
     | Some p \<Rightarrow> Some (Some (p, \<lparr> flag = fl, suspend_thread = [], mtx_value = 1, original_priority = 0xFF, hold = 0,
         owner = None \<rparr>), os, h)
   }"

definition rt_mutex_delete :: "obj_ptr \<Rightarrow> rt_mutex \<Rightarrow> object_system \<Rightarrow> mem_heap \<Rightarrow> kernel \<Rightarrow>
    (rt_err_t \<times> object_system \<times> mem_heap \<times> kernel) option" where
  "rt_mutex_delete p mutex os h k = do {
     rt_assert (deletable RT_Object_Class_Mutex p os);
     (_, k) \<leftarrow> rt_ipc_list_resume_all (suspend_thread mutex) k;
     (os, h) \<leftarrow> rt_object_delete p os h;
     Some (RT_EOK, os, h, k)
   }"

definition rt_event_create :: "string \<Rightarrow> ipc_flag \<Rightarrow> object_system \<Rightarrow> mem_heap \<Rightarrow>
    ((obj_ptr \<times> rt_event) option \<times> object_system \<times> mem_heap) option" where
  "rt_event_create name fl os h = do {
     (event, os, h) \<leftarrow> rt_object_allocate RT_Object_Class_Event name os h;
     case event of
       None \<Rightarrow> Some (None, os, h)
     | Some p \<Rightarrow> Some (Some (p, \<lparr> flag = fl, suspend_thread = [], ev_set = 0 \<rparr>), os, h)
   }"

definition rt_event_delete :: "obj_ptr \<Rightarrow> rt_event \<Rightarrow> object_system \<Rightarrow> mem_heap \<Rightarrow> kernel \<Rightarrow>
    (rt_err_t \<times> object_system \<times> mem_heap \<times> kernel) option" where
  "rt_event_delete p event os h k = do {
     rt_assert (deletable RT_Object_Class_Event p os);
     (_, k) \<leftarrow> rt_ipc_list_resume_all (suspend_thread event) k;
     (os, h) \<leftarrow> rt_object_delete p os h;
     Some (RT_EOK, os, h, k)
   }"

definition rt_mb_create :: "(nat \<Rightarrow> 32 word) \<Rightarrow> string \<Rightarrow> 32 word \<Rightarrow> ipc_flag \<Rightarrow> object_system \<Rightarrow> mem_heap \<Rightarrow>
    ((obj_ptr \<times> nat \<times> rt_mailbox) option \<times> object_system \<times> mem_heap) option" where
  "rt_mb_create junk name size' fl os h = do {
     (mb, os, h) \<leftarrow> rt_object_allocate RT_Object_Class_MailBox name os h;
     case mb of
       None \<Rightarrow> Some (None, os, h)
     | Some p \<Rightarrow> do {
         let sz = (ucast size' :: 16 word);
         (pool, h) \<leftarrow> rt_malloc (ucast sz * 4) h;
         case pool of
           None \<Rightarrow> do { (os, h) \<leftarrow> rt_object_delete p os h; Some (None, os, h) }
         | Some a \<Rightarrow> Some (Some (p, a, \<lparr> flag = fl, suspend_thread = [], msg_pool = map junk [0..<unat sz], mb_size = sz, mb_entry = 0,
             in_offset = 0, out_offset = 0, suspend_sender_thread = [] \<rparr>), os, h)
       }
   }"

definition rt_mb_delete :: "obj_ptr \<Rightarrow> nat \<Rightarrow> rt_mailbox \<Rightarrow> object_system \<Rightarrow> mem_heap \<Rightarrow> kernel \<Rightarrow>
    (rt_err_t \<times> object_system \<times> mem_heap \<times> kernel) option" where
  "rt_mb_delete p pool mb os h k = do {
     rt_assert (deletable RT_Object_Class_MailBox p os);
     (_, k) \<leftarrow> rt_ipc_list_resume_all (suspend_thread mb) k;
     (_, k) \<leftarrow> rt_ipc_list_resume_all (suspend_sender_thread mb) k;
     h \<leftarrow> rt_free (Some pool) h;
     (os, h) \<leftarrow> rt_object_delete p os h;
     Some (RT_EOK, os, h, k)
   }"

definition rt_mq_delete :: "obj_ptr \<Rightarrow> nat option \<Rightarrow> rt_messagequeue \<Rightarrow> object_system \<Rightarrow> mem_heap \<Rightarrow> kernel \<Rightarrow>
    (rt_err_t \<times> object_system \<times> mem_heap \<times> kernel) option" where
  "rt_mq_delete p pool mq os h k = do {
     rt_assert (deletable RT_Object_Class_MessageQueue p os);
     (_, k) \<leftarrow> rt_ipc_list_resume_all (suspend_thread mq) k;
     h \<leftarrow> rt_free pool h;
     (os, h) \<leftarrow> rt_object_delete p os h;
     Some (RT_EOK, os, h, k)
   }"

definition rt_mq_create :: "(nat \<Rightarrow> UCHAR list) \<Rightarrow> string \<Rightarrow> 32 word \<Rightarrow> 32 word \<Rightarrow> ipc_flag \<Rightarrow> object_system \<Rightarrow> mem_heap \<Rightarrow>
    kernel \<Rightarrow> ((obj_ptr \<times> nat \<times> rt_messagequeue) option \<times> object_system \<times> mem_heap \<times> kernel) option" where
  "rt_mq_create junk name size' n' fl os h k = do {
     (mq, os, h) \<leftarrow> rt_object_allocate RT_Object_Class_MessageQueue name os h;
     case mq of
       None \<Rightarrow> Some (None, os, h, k)
     | Some p \<Rightarrow> do {
         let sz = (ucast (rt_align size') :: 16 word);
         let n = (ucast n' :: 16 word);
         let mq = \<lparr> flag = fl, suspend_thread = [], msg_size = sz, max_msgs = n, mq_entry = 0, msg_next = [], msg_data = [],
           msg_queue_head = None, msg_queue_tail = None, msg_queue_free = None \<rparr>;
         (pool, h) \<leftarrow> rt_malloc ((ucast sz + mq_header) * ucast n) h;
         case pool of
           None \<Rightarrow> do { (_, os, h, k) \<leftarrow> rt_mq_delete p None mq os h k; Some (None, os, h, k) }
         | Some a \<Rightarrow> do {
             (nx, free) \<leftarrow> mq_link (unat n) 0 (replicate (unat n) None, None);
             Some (Some (p, a, mq\<lparr>msg_next := nx, msg_data := map junk [0..<unat n], msg_queue_free := free\<rparr>), os, h, k)
           }
       }
   }"

text \<open>The timer is the number \<open>t\<close> of the timer system; it exists while its object does.\<close>

definition rt_timer_create :: "nat \<Rightarrow> string \<Rightarrow> 32 word \<Rightarrow> 8 word \<Rightarrow> object_system \<Rightarrow> mem_heap \<Rightarrow> 'w timer_system \<Rightarrow>
    (obj_ptr option \<times> object_system \<times> mem_heap \<times> 'w timer_system) option" where
  "rt_timer_create t name time fl os h s = do {
     (timer, os, h) \<leftarrow> rt_object_allocate RT_Object_Class_Timer name os h;
     case timer of
       None \<Rightarrow> Some (None, os, h, s)
     | Some p \<Rightarrow> Some (Some p, os, h, rt_timer_init t time fl s)
   }"

definition rt_timer_delete :: "nat \<Rightarrow> obj_ptr \<Rightarrow> object_system \<Rightarrow> mem_heap \<Rightarrow> 'w timer_system \<Rightarrow>
    (rt_err_t \<times> object_system \<times> mem_heap \<times> 'w timer_system) option" where
  "rt_timer_delete t p os h s = do {
     rt_assert (deletable RT_Object_Class_Timer p os);
     let s = timer_remove t s;
     (os, h) \<leftarrow> rt_object_delete p os h;
     Some (RT_EOK, os, h, s)
   }"

section \<open>Objects on the heap\<close>

text \<open>The objects that are registered are live blocks of the heap.\<close>

definition storage_ok :: "nat \<Rightarrow> object_system \<Rightarrow> mem_heap \<Rightarrow> bool" where
  "storage_ok m os h \<longleftrightarrow> heap_ok m h \<and> objects_ok os \<and> (\<forall>a. linked (O_Heap a) os \<longrightarrow> a \<in> live_blocks h)"

definition same_storage :: "object_system \<Rightarrow> mem_heap \<Rightarrow> object_system \<Rightarrow> mem_heap \<Rightarrow> bool" where
  "same_storage os h os' h' \<longleftrightarrow> live_blocks h' = live_blocks h \<and> (\<forall>ty. registry ty os' = registry ty os)"

text \<open>A new object of class \<open>ty\<close>, and nothing else.\<close>

definition one_more :: "8 word \<Rightarrow> string \<Rightarrow> nat \<Rightarrow> object_system \<Rightarrow> mem_heap \<Rightarrow> object_system \<Rightarrow> mem_heap \<Rightarrow> bool" where
  "one_more ty name a os h os' h' \<longleftrightarrow> a \<notin> live_blocks h \<and> live_blocks h' = insert a (live_blocks h) \<and>
     deletable ty (O_Heap a) os' \<and> \<not> linked (O_Heap a) os \<and>
     registry ty os' = (take RT_NAME_MAX name, O_Heap a) # registry ty os \<and>
     (\<forall>ty'. ty' \<noteq> ty \<longrightarrow> registry ty' os' = registry ty' os)"

lemma registered:
  assumes "(n, p) \<in> set (registry ty s)"
  shows "linked p s"
proof (cases "info_index ty (rt_object_container s)")
  case (Some i)
  then have "p \<in> set (object_list (rt_object_container s ! i))" "i < length (rt_object_container s)"
    using assms info_index_bound by (auto simp: registry_def rt_object_get_information_def)
  then show ?thesis unfolding linked_iff by (rule in_container [rotated])
qed (use assms in \<open>simp add: registry_def rt_object_get_information_def\<close>)

lemma object_allocate_ok:
  assumes ok: "storage_ok m os h" "ty \<in> set object_classes" "NUL \<notin> set name"
  shows "\<exists>r os' h'. rt_object_allocate ty name os h = Some (r, os', h') \<and> storage_ok m os' h' \<and>
    (case r of None \<Rightarrow> os' = os \<and> h' = h | Some p \<Rightarrow> \<exists>a. p = O_Heap a \<and> one_more ty name a os h os' h')"
proof -
  have h: "heap_ok m h" "objects_ok os" using ok(1) by (simp_all add: storage_ok_def)
  obtain i where i: "rt_object_get_information ty os = Some i"
    using objects_okD [OF h(2) ok(2)] by blast
  obtain r h' where r: "rt_malloc (object_size (rt_object_container os ! i)) h = Some (r, h')" "heap_ok m h'" "r = None \<longrightarrow> h' = h"
    using heap.alloc_total [OF h(1)] by blast
  show ?thesis
  proof (cases r)
    case None
    then show ?thesis using i r ok(1) by (simp add: rt_object_allocate_def)
  next
    case (Some a)
    then have a: "a \<notin> live_blocks h" "live_blocks h' = insert a (live_blocks h)"
      using heap.alloc_fresh [OF h(1)] r(1) by blast+
    then have fresh: "\<not> linked (O_Heap a) os" using ok(1) by (auto simp: storage_ok_def)
    from linking_ok [OF h(2) ok(2,3) fresh, of ty] i obtain os' where os':
      "obj_link i (O_Heap a) (os\<lparr>objects := (objects os)(O_Heap a := \<lparr> obj_name = str_ncpy name RT_NAME_MAX, obj_type = ty \<rparr>)\<rparr>) = Some os'"
      "objects_ok os'" "obj_type (objects os' (O_Heap a)) = ty"
      "registry ty os' = (take RT_NAME_MAX name, O_Heap a) # registry ty os"
      "\<forall>ty'. ty' \<noteq> ty \<longrightarrow> registry ty' os' = registry ty' os" "\<forall>q. linked q os' \<longleftrightarrow> q = O_Heap a \<or> linked q os"
      by auto
    have "deletable ty (O_Heap a) os'"
      using os'(3) ok(2) by (auto simp: deletable_def rt_object_get_type_def rt_object_is_systemobject_def object_classes_def
          RT_Object_Class_Static_def)
    then have "one_more ty name a os h os' h'" using os' a fresh by (simp add: one_more_def)
    moreover have "storage_ok m os' h'" using os'(2,6) r(2) a ok(1) by (auto simp: storage_ok_def)
    ultimately show ?thesis
      using i r(1) Some os'(1) by (simp add: rt_object_allocate_def rt_strncpy_fits)
  qed
qed

lemma object_delete_ok:
  assumes ok: "storage_ok m os h" "deletable ty (O_Heap a) os" "a \<in> live_blocks h"
  shows "\<exists>os' h'. rt_object_delete (O_Heap a) os h = Some (os', h') \<and> storage_ok m os' h' \<and> live_blocks h' = live_blocks h - {a} \<and>
    (\<forall>ty'. registry ty' os' = filter (\<lambda>(n, q). q \<noteq> O_Heap a) (registry ty' os))"
proof -
  have h: "heap_ok m h" "objects_ok os" using ok(1) by (simp_all add: storage_ok_def)
  obtain h' where h': "rt_free (Some a) h = Some h'" "heap_ok m h'" "live_blocks h' = live_blocks h - {a}"
    using heap.release_ok [OF h(1) ok(3)] by blast
  note det = rt_object_detach_ok [OF h(2), of "O_Heap a"]
  have "rt_object_delete (O_Heap a) os h = Some (rt_object_detach (O_Heap a) os, h')"
    using ok(2) h'(1)
    by (simp add: rt_object_delete_def deletable_def rt_object_is_systemobject_def rt_object_detach_def)
  moreover have "storage_ok m (rt_object_detach (O_Heap a) os) h'"
    using ok(1) h'(2,3) det by (auto simp: storage_ok_def)
  ultimately show ?thesis using h'(3) det by blast
qed

text \<open>What was created is gone without a trace when it is deleted.\<close>

lemma one_more_gone:
  assumes "one_more ty name a os h os1 h1" "\<forall>ty'. registry ty' os2 = filter (\<lambda>(n, q). q \<noteq> O_Heap a) (registry ty' os1)"
    and "live_blocks h2 = live_blocks h1 - {a}"
  shows "same_storage os h os2 h2"
proof -
  have out: "filter (\<lambda>(n, q). q \<noteq> O_Heap a) (registry ty' os) = registry ty' os" for ty'
    using assms(1) registered [of _ "O_Heap a" ty' os] by (auto simp: one_more_def filter_id_conv)
  have "registry ty' os2 = registry ty' os" for ty'
    using assms(1,2) out [of ty'] by (cases "ty' = ty") (simp_all add: one_more_def)
  then show ?thesis using assms(1,3) by (auto simp: same_storage_def one_more_def)
qed

section \<open>Message queues\<close>

text \<open>Deleting a queue gives back its two blocks and lets all waiting threads run.\<close>

lemma rt_mq_delete_ok:
  assumes st: "storage_ok m os h" "deletable RT_Object_Class_MessageQueue (O_Heap a) os" "a \<in> live_blocks h"
    and pool: "case pool of None \<Rightarrow> True | Some b \<Rightarrow> b \<in> live_blocks h \<and> b \<noteq> a \<and> \<not> linked (O_Heap b) os"
    and k: "kinv k" "sus_ok k (suspend_thread mq)"
  shows "\<exists>os' h' k'. rt_mq_delete (O_Heap a) pool mq os h k = Some (RT_EOK, os', h', k') \<and> storage_ok m os' h' \<and>
    live_blocks h' = live_blocks h - insert a (set_option pool) \<and>
    (\<forall>ty'. registry ty' os' = filter (\<lambda>(n, q). q \<noteq> O_Heap a) (registry ty' os)) \<and> kinv k' \<and>
    (\<forall>t \<in> set (suspend_thread mq). stat (threads k' t) \<noteq> RT_THREAD_SUSPEND \<and> error (threads k' t) = - RT_ERROR)"
proof -
  obtain k' where k': "rt_ipc_list_resume_all (suspend_thread mq) k = Some ([], k')" "kinv k'"
    "\<forall>t \<in> set (suspend_thread mq). stat (threads k' t) \<noteq> RT_THREAD_SUSPEND \<and> error (threads k' t) = - RT_ERROR"
    using rt_ipc_list_resume_all_ok [OF k] by auto
  obtain h1 where h1: "rt_free pool h = Some h1" "storage_ok m os h1" "live_blocks h1 = live_blocks h - set_option pool"
  proof (cases pool)
    case None
    then show ?thesis using that [of h] st(1) by (simp add: rt_free_def)
  next
    case (Some b)
    have "heap_ok m h" using st(1) by (simp add: storage_ok_def)
    then obtain h1 where "rt_free (Some b) h = Some h1" "heap_ok m h1" "live_blocks h1 = live_blocks h - {b}"
      using heap.release_ok [of m h b] pool Some by auto
    then show ?thesis using that [of h1] st(1) pool Some by (auto simp: storage_ok_def)
  qed
  have "a \<in> live_blocks h1" using h1(3) st(3) pool by (cases pool) auto
  from object_delete_ok [OF h1(2) st(2) this] obtain os' h' where "rt_object_delete (O_Heap a) os h1 = Some (os', h')" "storage_ok m os' h'"
    "live_blocks h' = live_blocks h1 - {a}" "\<forall>ty'. registry ty' os' = filter (\<lambda>(n, q). q \<noteq> O_Heap a) (registry ty' os)"
    by blast
  then show ?thesis
    using st(2) k' h1(1,3) by (auto simp: rt_mq_delete_def)
qed

lemma mq_class: "RT_Object_Class_MessageQueue \<in> set object_classes"
  by (simp add: RT_Object_Class_MessageQueue_def object_classes_def)

lemma mq_comes_and_goes:
  assumes ok: "storage_ok m os h" "NUL \<notin> set name" "\<And>i. length (junk i) = unat (ucast (rt_align sz) :: 16 word)" and k: "kinv k"
  shows "\<exists>r os1 h1 k1. rt_mq_create junk name sz n fl os h k = Some (r, os1, h1, k1) \<and> storage_ok m os1 h1 \<and>
    (case r of
       None \<Rightarrow> same_storage os h os1 h1
     | Some (p, pool, mq) \<Rightarrow> mq_inv mq \<and> mq_items mq = [] \<and> max_msgs mq = ucast n \<and>
         (\<forall>mq2 k2. kinv k2 \<longrightarrow> sus_ok k2 (suspend_thread mq2) \<longrightarrow>
           (\<exists>os2 h2 k3. rt_mq_delete p (Some pool) mq2 os1 h1 k2 = Some (RT_EOK, os2, h2, k3) \<and> same_storage os h os2 h2 \<and> kinv k3 \<and>
             (\<forall>t \<in> set (suspend_thread mq2). stat (threads k3 t) \<noteq> RT_THREAD_SUSPEND \<and> error (threads k3 t) = - RT_ERROR))))"
proof -
  let ?ty = "RT_Object_Class_MessageQueue" and ?sz = "ucast (rt_align sz) :: 16 word" and ?n = "ucast n :: 16 word"
  obtain r os1 h1 where r: "rt_object_allocate ?ty name os h = Some (r, os1, h1)" "storage_ok m os1 h1"
    "case r of None \<Rightarrow> os1 = os \<and> h1 = h | Some p \<Rightarrow> \<exists>a. p = O_Heap a \<and> one_more ?ty name a os h os1 h1"
    using object_allocate_ok [OF ok(1) mq_class ok(2)] by blast
  show ?thesis
  proof (cases r)
    case None
    then show ?thesis using r by (simp add: rt_mq_create_def same_storage_def)
  next
    case (Some p)
    then obtain a where p: "p = O_Heap a" and more: "one_more ?ty name a os h os1 h1" using r(3) by auto
    have del: "deletable ?ty (O_Heap a) os1" "a \<in> live_blocks h1" using more by (simp_all add: one_more_def)
    have heap1: "heap_ok m h1" using r(2) by (simp add: storage_ok_def)
    obtain b h2 where b: "rt_malloc ((ucast ?sz + mq_header) * ucast ?n) h1 = Some (b, h2)" "heap_ok m h2" "b = None \<longrightarrow> h2 = h1"
      using heap.alloc_total [OF heap1] by blast
    show ?thesis
    proof (cases b)
      case None
      let ?mq = "\<lparr> flag = fl, suspend_thread = [], msg_size = ?sz, max_msgs = ?n, mq_entry = 0, msg_next = [], msg_data = [],
        msg_queue_head = None, msg_queue_tail = None, msg_queue_free = None \<rparr> :: rt_messagequeue"
      obtain os2 h3 k' where d: "rt_mq_delete (O_Heap a) None ?mq os1 h1 k = Some (RT_EOK, os2, h3, k')" "storage_ok m os2 h3"
        "live_blocks h3 = live_blocks h1 - {a}" "\<forall>ty'. registry ty' os2 = filter (\<lambda>(n, q). q \<noteq> O_Heap a) (registry ty' os1)"
        using rt_mq_delete_ok [OF r(2) del, of None k ?mq] k by auto
      then have "same_storage os h os2 h3" using one_more_gone [OF more] by blast
      then show ?thesis
        using r(1) Some p b None d(1,2) by (simp add: rt_mq_create_def Let_def)
    next
      case (Some c)
      then have c: "c \<notin> live_blocks h1" "live_blocks h2 = insert c (live_blocks h1)"
        using heap.alloc_fresh [OF heap1] b(1) by blast+
      have unlinked: "\<not> linked (O_Heap c) os1" "c \<noteq> a" using c(1) r(2) del(2) by (auto simp: storage_ok_def)
      have st: "storage_ok m os1 h2" using r(2) b(2) c(2) by (auto simp: storage_ok_def)
      obtain nx free where link: "mq_link (unat ?n) 0 (replicate (unat ?n) None, None) = Some (nx, free)" and
        inv: "let mq = \<lparr> flag = fl, suspend_thread = [], msg_size = ?sz, max_msgs = ?n, mq_entry = 0, msg_next = nx,
         msg_data = map junk [0..<unat ?n], msg_queue_head = None, msg_queue_tail = None, msg_queue_free = free \<rparr> in
       mq_inv mq \<and> mq_items mq = []"
        using mq_linked_ok [of junk ?sz ?n fl] ok(3) by blast
      have gone: "\<exists>os2 h3 k3. rt_mq_delete (O_Heap a) (Some c) mq2 os1 h2 k2 = Some (RT_EOK, os2, h3, k3) \<and> same_storage os h os2 h3 \<and> kinv k3 \<and>
          (\<forall>t \<in> set (suspend_thread mq2). stat (threads k3 t) \<noteq> RT_THREAD_SUSPEND \<and> error (threads k3 t) = - RT_ERROR)"
        if k2: "kinv k2" "sus_ok k2 (suspend_thread mq2)" for mq2 :: rt_messagequeue and k2
      proof -
        obtain os2 h3 k3 where d: "rt_mq_delete (O_Heap a) (Some c) mq2 os1 h2 k2 = Some (RT_EOK, os2, h3, k3)"
          "live_blocks h3 = live_blocks h1 - {a, c}" "\<forall>ty'. registry ty' os2 = filter (\<lambda>(n, q). q \<noteq> O_Heap a) (registry ty' os1)"
          "kinv k3" "\<forall>t \<in> set (suspend_thread mq2). stat (threads k3 t) \<noteq> RT_THREAD_SUSPEND \<and> error (threads k3 t) = - RT_ERROR"
          using rt_mq_delete_ok [OF st del(1), of "Some c" k2 mq2] del(2) c(2) unlinked k2 by auto
        have "live_blocks h3 = live_blocks h1 - {a}" using d(2) c by auto
        with one_more_gone [OF more d(3)] d(1,4,5) show ?thesis by blast
      qed
      then show ?thesis
        using r(1) \<open>r = Some p\<close> p b(1) Some link inv st by (simp add: rt_mq_create_def Let_def)
    qed
  qed
qed

end
