(* ===== verification/App_Props.thy ===== *)
theory App_Props
  imports App_Main App_Sensor_Run Rt_Ipc_Heap Heap_Props At_Props
begin

text \<open>
  The properties of the control board's own code, of the devices and of kernel objects from the heap, each with a concrete instance.
\<close>

section \<open>Devices\<close>

text \<open>
  C26: Registering a device succeeds exactly when no device has a name with the same first eight
  characters. Afterwards every name that agrees in these characters finds it, and all other names
  find what they found before; on a failure nothing changes.
\<close>

theorem device_registration:
  assumes "objects_ok (osys s)" "NUL \<notin> set name" "\<not> linked p (osys s)" "length (obj_name (objects (osys s) p)) = RT_NAME_MAX"
  shows "\<exists>r s'. rt_device_register (Some p) name flags s = Some (r, s') \<and> objects_ok (osys s') \<and>
    (if rt_device_find name s = Some None
     then r = RT_EOK \<and> (\<forall>n. NUL \<notin> set n \<longrightarrow>
       rt_device_find n s' = (if take 8 n = take 8 name then Some (Some p) else rt_device_find n s))
     else r = - RT_ERROR \<and> s' = s)"
  using assms by (rule registration)

definition ex_objects :: object_system where
  "ex_objects = \<lparr> objects = (\<lambda>_. \<lparr> obj_name = replicate 8 NUL, obj_type = 0 \<rparr>), rt_object_container = rt_object_containers (\<lambda>_. 68) \<rparr>"

definition ex_devices :: "unit device_sys" where
  "ex_devices = \<lparr> osys = ex_objects, dheap = ex_heap,
     devs = (\<lambda>_. \<lparr> dev_flag = 0, open_flag = 0, ref_count = 0, rx_indicate = None, tx_complete = None \<rparr>),
     ops = (\<lambda>_. no_ops), drv = (), errno = 0 \<rparr>"

lemma ex_objects_ok: "objects_ok ex_objects" "\<not> linked p ex_objects"
proof -
  have "object_list (rt_object_containers f ! i) = []" if "i < 10" for f i
  proof -
    have "i < length object_classes" using that by (simp add: object_classes_def)
    then show ?thesis by (simp add: rt_object_containers_def)
  qed
  moreover have "distinct (concat (map object_list (rt_object_containers f)))" "\<not> list_ex (\<lambda>i. p \<in> set (object_list i)) (rt_object_containers f)" for f
    by (simp_all add: rt_object_containers_def object_classes_def)
  moreover have "map info_type (rt_object_containers f) = object_classes" for f
    by (simp add: rt_object_containers_def comp_def)
  ultimately show "objects_ok ex_objects" "\<not> linked p ex_objects"
    by (simp_all add: objects_ok_def ex_objects_def linked_def)
qed

theorem device_registration_witness:
  "\<exists>s'. rt_device_register (Some (O_Static 3)) ''windDirection'' 3 ex_devices = Some (RT_EOK, s') \<and>
    rt_device_find ''windDirect'' s' = Some (Some (O_Static 3)) \<and> rt_device_find ''rain'' s' = Some None"
proof -
  have ok: "objects_ok (osys ex_devices)" "\<not> linked (O_Static 3) (osys ex_devices)"
    "length (obj_name (objects (osys ex_devices) (O_Static 3))) = RT_NAME_MAX"
    using ex_objects_ok by (simp_all add: ex_devices_def) (simp add: ex_objects_def RT_NAME_MAX_def)
  have "devices ex_devices = []"
    by (simp add: devices_def registry_def ex_devices_def ex_objects_def rt_object_get_information_def rt_object_containers_def
        object_classes_def RT_Object_Class_Device_def)
  then have "rt_device_find n ex_devices = Some None" if "NUL \<notin> set n" for n
    using rt_device_find_ok [OF ok(1) that] by simp
  then show ?thesis
    using device_registration [OF ok(1) _ ok(2,3), of "''windDirection''" 3] by auto
qed

text \<open>
  C40: A device that was created from the heap cannot be destroyed: in every state that the operations on
  devices lead to, \<^verbatim>\<open>rt_device_destroy\<close> fails one of its assertions, before the device is registered because it
  has no class, and afterwards because registering marks it as static.
\<close>

theorem created_device_stays:
  assumes "dev_reach s"
  shows "rt_device_destroy p s = None"
  using assms by (rule destroy_fails)

lemma ex_heap_serves:
  assumes "n \<noteq> 0" "max (unat (rt_align n)) 12 < 100"
  shows "\<exists>x h. rt_malloc n ex_heap = Some (Some x, h)"
proof -
  have "heap_inv ex_heap [(0, False)]"
    by (rule heap_init_ok [OF ex_heap_init]) (simp add: ex_heap_def)
  from rt_malloc_ok [OF this assms(1) refl] assms(2) show ?thesis
    by (auto simp: ex_heap_def)
qed

lemma ex_heap_ok: "heap_ok 100 ex_heap"
  using heap_init_ok [OF ex_heap_init] by (auto simp: heap_ok_def ex_heap_def)

theorem created_device_stays_witness:
  "\<exists>p s s'. rt_device_create 0 ex_devices = Some (Some p, s) \<and> rt_device_register (Some p) ''temp'' 3 s = Some (RT_EOK, s') \<and>
    rt_device_destroy p s = None \<and> rt_device_destroy p s' = None"
proof -
  have "dev_reach ex_devices"
    by (rule dev_reach.start) (simp add: ex_devices_def ex_objects_def)
  obtain x h where x: "rt_malloc (rt_align SIZEOF_DEVICE + rt_align 0) ex_heap = Some (Some x, h)"
    using ex_heap_serves [of 68] by (auto simp: SIZEOF_DEVICE_def rt_align_def)
  then obtain s where s: "rt_device_create 0 ex_devices = Some (Some (O_Heap x), s)"
    "osys s = ex_objects\<lparr>objects := (objects ex_objects)(O_Heap x := \<lparr> obj_name = replicate 8 NUL, obj_type = 0 \<rparr>)\<rparr>"
    by (simp add: rt_device_create_def ex_devices_def RT_NAME_MAX_def)
  have same: "osys s = ex_objects"
    unfolding s(2) by (simp add: ex_objects_def fun_upd_idem)
  have reach: "dev_reach s"
    using dev_reach.create [OF \<open>dev_reach ex_devices\<close> s(1)] .
  have "rt_device_find ''temp'' s = Some None"
    by (simp add: rt_device_find_def same ex_objects_def rt_object_get_information_def rt_object_containers_def object_classes_def
        RT_Object_Class_Device_def)
  moreover have "length (obj_name (objects (osys s) (O_Heap x))) = RT_NAME_MAX"
    unfolding same by (simp add: ex_objects_def RT_NAME_MAX_def)
  ultimately obtain s' where s': "rt_device_register (Some (O_Heap x)) ''temp'' 3 s = Some (RT_EOK, s')"
    using registration [of s "''temp''" "O_Heap x" 3] ex_objects_ok same by auto
  have "dev_reach s'" using dev_reach.register [OF reach s'] .
  then show ?thesis
    using s(1) s' created_device_stays [OF reach] created_device_stays by blast
qed

section \<open>Objects from the heap\<close>

text \<open>
  C15: Creating a message queue either fails and leaves heap and registry as they were, or gives an empty queue. However that
  queue is used, deleting it later succeeds, leaves heap and registry as they were before it was created, and lets every
  thread that waits for it run, with an error.
\<close>

theorem message_queue_comes_and_goes:
  assumes "storage_ok m os h" "NUL \<notin> set name" "\<And>i. length (junk i) = unat (ucast (rt_align sz) :: 16 word)" "kinv k"
  shows "\<exists>r os1 h1 k1. rt_mq_create junk name sz n fl os h k = Some (r, os1, h1, k1) \<and> storage_ok m os1 h1 \<and>
    (case r of
       None \<Rightarrow> same_storage os h os1 h1
     | Some (p, pool, mq) \<Rightarrow> mq_inv mq \<and> mq_items mq = [] \<and> max_msgs mq = ucast n \<and>
         (\<forall>mq2 k2. kinv k2 \<longrightarrow> sus_ok k2 (suspend_thread mq2) \<longrightarrow>
           (\<exists>os2 h2 k3. rt_mq_delete p (Some pool) mq2 os1 h1 k2 = Some (RT_EOK, os2, h2, k3) \<and> same_storage os h os2 h2 \<and> kinv k3 \<and>
             (\<forall>t \<in> set (suspend_thread mq2). stat (threads k3 t) \<noteq> RT_THREAD_SUSPEND \<and> error (threads k3 t) = - RT_ERROR))))"
  using assms by (rule mq_comes_and_goes)

theorem message_queue_comes_and_goes_witness:
  "\<exists>r os1 h1 k1. rt_mq_create (\<lambda>_. replicate 8 0) ''mq'' 6 2 RT_IPC_FLAG_FIFO ex_objects ex_heap ex_contended = Some (r, os1, h1, k1) \<and>
    (case r of None \<Rightarrow> live_blocks h1 = live_blocks ex_heap | Some (p, pool, mq) \<Rightarrow> mq_items mq = [] \<and> max_msgs mq = 2 \<and>
      (\<exists>os2 h2 k3. rt_mq_delete p (Some pool) (mq\<lparr>suspend_thread := []\<rparr>) os1 h1 ex_contended = Some (RT_EOK, os2, h2, k3) \<and>
        live_blocks h2 = live_blocks ex_heap))"
proof -
  have "storage_ok 100 ex_objects ex_heap"
    using ex_heap_ok ex_objects_ok by (simp add: storage_ok_def)
  moreover have "length (replicate 8 0 :: UCHAR list) = unat (ucast (rt_align 6) :: 16 word)" by (simp add: rt_align_def)
  ultimately obtain r os1 h1 k1 where run: "rt_mq_create (\<lambda>_. replicate 8 0) ''mq'' 6 2 RT_IPC_FLAG_FIFO ex_objects ex_heap ex_contended =
      Some (r, os1, h1, k1)" and r: "case r of
       None \<Rightarrow> same_storage ex_objects ex_heap os1 h1
     | Some (p, pool, mq) \<Rightarrow> mq_inv mq \<and> mq_items mq = [] \<and> max_msgs mq = ucast (2 :: 32 word) \<and>
         (\<forall>mq2 k2. kinv k2 \<longrightarrow> sus_ok k2 (suspend_thread mq2) \<longrightarrow>
           (\<exists>os2 h2 k3. rt_mq_delete p (Some pool) mq2 os1 h1 k2 = Some (RT_EOK, os2, h2, k3) \<and> same_storage ex_objects ex_heap os2 h2 \<and> kinv k3 \<and>
             (\<forall>t \<in> set (suspend_thread mq2). stat (threads k3 t) \<noteq> RT_THREAD_SUSPEND \<and> error (threads k3 t) = - RT_ERROR)))"
    using message_queue_comes_and_goes [of 100 ex_objects ex_heap "''mq''" "\<lambda>_. replicate 8 0" 6 ex_contended 2 RT_IPC_FLAG_FIFO]
      ex_contended_kinv by auto
  show ?thesis
  proof (cases r)
    case None
    then show ?thesis using run r by (auto simp: same_storage_def)
  next
    case (Some x)
    obtain p pool mq where x: "x = (p, pool, mq)" by (cases x)
    note queue = r [unfolded Some x option.case prod.case]
    then have "mq_items mq = []" "max_msgs mq = 2" by simp_all
    moreover have "sus_ok ex_contended (suspend_thread (mq\<lparr>suspend_thread := []\<rparr>))" by simp
    with queue ex_contended_kinv have "\<exists>os2 h2 k3. rt_mq_delete p (Some pool) (mq\<lparr>suspend_thread := []\<rparr>) os1 h1 ex_contended = Some (RT_EOK, os2, h2, k3) \<and>
        live_blocks h2 = live_blocks ex_heap"
      unfolding same_storage_def by blast
    ultimately show ?thesis using run Some x by simp
  qed
qed

section \<open>Sensors\<close>












section \<open>The radio module\<close>

text \<open>
  At most 127 bytes are converted to a terminated string inside the array of 256 characters, from
  which exactly these bytes are read back.
\<close>

theorem hex_round_trip:
  assumes "n \<le> length data" "n \<le> 127"
  shows "\<exists>d str. byte_2_hexstr data (char_array 256 []) n = Some d \<and> cstr d = Some str \<and> length str = 2 * n \<and>
    unhex str = take n data"
  using assms by (rule hexstr_read_back)

theorem hex_round_trip_witness:
  "\<exists>d str. byte_2_hexstr [0x01, 0x23, 0xFF] (char_array 256 []) 2 = Some d \<and> cstr d = Some str \<and> unhex str = [0x01, 0x23]"
  using hex_round_trip [of 2 "[0x01, 0x23, 0xFF]"] by auto

definition ex_radio :: radio where
  "ex_radio = \<lparr> client = ex_client, rheap = ex_heap, resp_bufs = (\<lambda>_. 0), radioStatue = AT_RADIO_STATUE_SEND, RadioBuffer = None,
     datas = (\<lambda>_. \<lparr> data_ptr = 0, data_size = 0 \<rparr>), arrays = (\<lambda>_. replicate 255 0), radio_event = 0 \<rparr>"

lemma ex_radio_heap: "heap_ok 100 (rheap ex_radio)"
  using ex_heap_ok by (simp add: ex_radio_def)





text \<open>
  C30: A module that does not answer uses up the heap: every status query that times out keeps its response
  object and its buffer, so that only as many queries can time out as the heap has room for; all others,
  however many the timer starts, fail to create a response.
\<close>

theorem status_queries_exhaust_heap:
  assumes "heap_ok m (rheap s)" "\<forall>a c. fst (exec a ''AT+STATUE'' c) = - 2"
  shows "\<exists>es s'. status_checks exec junk n s = Some (es, s') \<and> length es = n \<and>
    set es \<subseteq> {AT_ER_CREAT_RESP, AT_ER_SEND_TIMEOUT} \<and>
    2 * count_list es AT_ER_SEND_TIMEOUT \<le> (m + 12) div 24 - card (live_blocks (rheap s))"
  using assms by (rule silent_module_exhausts)

theorem status_queries_exhaust_heap_witness:
  "\<exists>es s'. status_checks (\<lambda>a cmd c. (- 2, c)) (replicate 10 NUL) 1000 ex_radio = Some (es, s') \<and>
    set es \<subseteq> {AT_ER_CREAT_RESP, AT_ER_SEND_TIMEOUT} \<and> count_list es AT_ER_SEND_TIMEOUT \<le> 2"
proof -
  have "count_list es AT_ER_SEND_TIMEOUT \<le> 2"
    if "2 * count_list es AT_ER_SEND_TIMEOUT \<le> (100 + 12) div 24 - k" for es :: "AtError list" and k :: nat
    using that by simp
  then show ?thesis
    using status_queries_exhaust_heap [OF ex_radio_heap, of "\<lambda>a cmd c. (- 2, c)" "replicate 10 NUL" 1000] by auto
qed

section \<open>The main thread\<close>





end
