(* ===== verification/Spec2Isabelle.thy ===== *)
theory Spec2Isabelle
  imports Master_Props Kernel_Props Ipc_Props Register_Props Heap_Props At_Props App_Props
begin

text \<open>
  A control board: an STM32F103 with the RT-Thread kernel that reads sensors over Modbus RTU, answers as a
  Modbus slave, and uploads readings through a radio module with AT commands. This development models
  the parts of the repository that decide what the board does: the kernel (\<^verbatim>\<open>Kernel/\<close>), the Modbus
  stack with its port layer (\<^verbatim>\<open>pck/freemodbus/\<close>), the AT client (\<^verbatim>\<open>pck/at/\<close>) and the board's own program
  (\<^verbatim>\<open>bsp/stm32f10x-controller/applications/\<close>).

  How the parts interact. The serial driver hands received bytes to the receive state machine of
  the RTU transport; the silence timer ends a frame and posts an event; the poll loop of the
  stack waits for that event, checks address and checksum, runs the function handler, which
  calls back into the register banks of the application, and gives the answer to the
  transmit state machine. The master runs the same way, with a request that takes a semaphore, is sent by
  the poll loop and ended by the reply or the response timer. Events, and the blocking they imply, are the
  kernel's event objects; blocking is suspension on an IPC list and a call of the scheduler. The AT client takes a
  mutex, sends a line and waits on a semaphore until its parser thread has collected the lines of the answer
  in a response object from the heap. The sensor thread reads the registered devices into a buffer, the main
  thread asks for it and leaves a message for the radio thread.

  Theories, from the bottom:
  \<^item> \<open>Prelude\<close>: C integers, arrays with checked access, byte order, segments of arrays.
    \<open>Refine\<close>: runs of operations and what it means that they implement an abstract object, as locales.
    \<open>C_String\<close>: terminated strings and the functions on them.
  \<^item> \<open>Rt_Kernel\<close>: \<^verbatim>\<open>scheduler.c\<close>, \<^verbatim>\<open>thread.c\<close> and \<^verbatim>\<open>__rt_ffs\<close>. The ready queues are lists of
    thread numbers, one per priority. \<open>kinv\<close> says that queues and group word describe the ready
    threads exactly; \<open>rt_schedule_correct\<close> is the contract of a schedule.
  \<^item> \<open>Rt_Ipc\<close>, \<open>Rt_Event\<close>, \<open>Rt_Sem\<close>, \<open>Rt_Mailbox\<close>, \<open>Rt_Mq\<close>, \<open>Rt_Mutex\<close>: \<^verbatim>\<open>ipc.c\<close>: the suspend lists and the
    objects on top of them. A call that blocks is split at its \<^verbatim>\<open>rt_schedule\<close>: the operation yields the state in
    which the caller sleeps, and a \<open>_return\<close> or \<open>_resume\<close> function what the caller does when it runs
    again. Mailbox and message queue refine bounded queues.
  \<^item> \<open>Rt_Clock\<close>, \<open>Rt_Timer\<close>: \<^verbatim>\<open>clock.c\<close> and \<^verbatim>\<open>timer.c\<close>. The timer list is a list of timer numbers; its order is by the ticks
    that are left, which is meaningful as long as every timer has less than half the range of the counter.
    What a timer function does is a parameter.
  \<^item> \<open>Rt_Mem\<close>, \<open>Rt_Mem_Alloc\<close>, \<open>Rt_Mem_Use\<close>: \<^verbatim>\<open>mem.c\<close>. A block header is found by its offset in the heap; offsets are
    natural numbers, and the subtractions that C does on 32 bits are \<open>sub32\<close>. \<open>heap_inv\<close> says that the headers
    form a doubly linked segmentation of the heap without two free blocks side by side. The locale of an
    allocator is interpreted on these operations, and the users above rest on it.
  \<^item> \<open>Rt_Object\<close>, \<open>Rt_Device\<close>: \<^verbatim>\<open>object.c\<close> and \<^verbatim>\<open>device.c\<close>. A registry is a list of objects by name; a driver is a record of
    functions, a parameter of the model.
    \<open>Rt_Ipc_Heap\<close>: IPC objects and timers that are created on the heap and deleted.
  \<^item> \<open>Mb_Types\<close>, \<open>Mb_Crc\<close>, \<open>Mb_Utils\<close>: the enumerations of \<^verbatim>\<open>modbus/include\<close>, \<^verbatim>\<open>mbcrc.c\<close> against a
    bit-serial reference, \<^verbatim>\<open>mbutils.c\<close>.
  \<^item> \<open>Mb_Regs\<close>: the copying loops of the register callbacks, and the interfaces between a
    function handler and the application's registers, as locales. \<open>Mb_Line\<close>: what both transports do with bytes.
  \<^item> \<open>Mb_Slave_Regs\<close>, \<open>Mb_Slave_Func\<close>: \<^verbatim>\<open>port/user_mb_app.c\<close>, which interprets these locales, and
    the function handlers \<^verbatim>\<open>functions/mbfunc*.c\<close>.
  \<^item> \<open>Mb_Port\<close>, \<open>Mb_Rtu\<close>, \<open>Mb_Slave\<close>: \<^verbatim>\<open>port/port*.c\<close>, \<^verbatim>\<open>rtu/mbrtu.c\<close> and \<^verbatim>\<open>mb.c\<close>, each extending the
    record of the one before by its own static variables.
  \<^item> \<open>Mb_Port_M\<close>, \<open>Mb_Rtu_M\<close>, \<open>Mb_Master_Regs\<close>, \<open>Mb_Master_Func\<close>, \<open>Mb_Master\<close>: the same for the master, \<^verbatim>\<open>port/port*_m.c\<close>,
    \<^verbatim>\<open>rtu/mbrtu_m.c\<close>, \<^verbatim>\<open>port/user_mb_app_m.c\<close>, \<^verbatim>\<open>functions/mbfunc*_m.c\<close> and \<^verbatim>\<open>mb_m.c\<close>. A request function is split where it
    waits for its end. \<open>Mb_Master_Run\<close>, \<open>Mb_Transaction\<close>, \<open>Mb_Broadcast\<close>: whole transactions, with the slave of \<open>Mb_Slave\<close> at the
    other end of the line.
  \<^item> \<open>At_Client\<close>, \<open>At_Lines\<close>, \<open>At_Exec\<close>: \<^verbatim>\<open>at_client.c\<close>; the input is a list of bytes, and a call of the parser ends when they are
    used up. \<open>cells\<close> is what the lines of an answer leave in the response buffer.
  \<^item> \<open>App_Sensor\<close>, \<open>App_Sensor_Run\<close>, \<open>App_Sensor_Data\<close>: \<^verbatim>\<open>sensor_control.c\<close> and \<^verbatim>\<open>protocol.h\<close>: the list of sensors in memory, which refines an
    association list, and the readings. \<open>App_Radio\<close>, \<open>App_Radio_Mem\<close>, \<open>App_Radio_Text\<close>: \<^verbatim>\<open>AT_client_radio.c\<close> and \<^verbatim>\<open>radio_control.c\<close>: the commands,
    what they cost in memory, and their strings. A call of \<^verbatim>\<open>at_exec_cmd\<close> spans the time in which the module answers, so
    that its effect is the parameter \<open>exec\<close>; what is proved holds for every such function or states what it assumes of
    the module. \<open>App_Main\<close>: \<^verbatim>\<open>main.c\<close>, whose rounds are interleaved with those of the other threads in any order.
  \<^item> \<open>Examples\<close>, \<open>Kernel_Examples\<close>: concrete states. \<open>Kernel_Props\<close>, \<open>Ipc_Props\<close>, \<open>Heap_Props\<close>, \<open>Register_Props\<close>, \<open>Master_Props\<close>, \<open>At_Props\<close>,
    \<open>App_Props\<close> and this theory: the properties, each on the model of the code, with a concrete instance where it has
    hypotheses.

  Bounds. An access outside a C array, a failed \<^verbatim>\<open>RT_ASSERT\<close>, an unassigned value and the use of memory that is not there
  are \<^const>\<open>None\<close>, so a theorem that an operation yields \<^const>\<open>Some\<close> also says that it stays inside its arrays.
  \<open>rtu_drain\<close> runs a given number of transmit interrupts; a frame needs one for each of its at most
  256 bytes and one more, and the theorems ask for at least that many; the master's \<open>rtu_m_drain\<close> is given 300.
  \<open>for_slaves\<close> runs over the 16 addresses of the configuration. \<open>rt_ipc_list_resume_all\<close>
  and the loop of \<open>rt_event_send\<close> recurse on the suspend list. Loops over links in memory and the check loop of the
  timers are \<^theory_text>\<open>partial_function\<close>s, so that a loop that does not end is \<^const>\<open>None\<close>.

  Not modelled: creation and deletion of threads, hooks,
  stacks and the context switch itself, the contents of heap blocks other than those of the structures above, the
  initialisation and raw transfer of the AT client, \<^verbatim>\<open>at_radio_find_uart_config\<close>, which nobody calls, the start of the application's threads and
  timers, the ASCII and TCP transports and the flash storage of settings, which the configuration
  disables, the drivers below the serial device and the sensor drivers of \<^verbatim>\<open>pck/sensor\<close>, which are stubs, and the storage, logging,
  shell and C library packages, which have no part in the control path.
\<close>

section \<open>Properties of the slave\<close>

text \<open>
  C1: Reading holding registers over the wire. A ready slave that hears a well-formed
  read request for registers it has answers with the frame that carries exactly their
  current values, high byte first, with a valid checksum, changes no register, and is
  back to receiving.
\<close>

theorem read_holding_over_the_wire:
  assumes "slave_ready s" "ucMBAddress s \<noteq> 0" "xFuncHandlers s = func_handlers_init"
    and "wf_slave (sregs s)" "1 \<le> unat n" "unat a + unat n \<le> 100"
  shows "\<exists>s'. slave_serves user (rtu_frame (ucMBAddress s) (read_holding_req a n)) s = Some s' \<and>
    tx_line s' = tx_line s @ rtu_frame (ucMBAddress s) (MB_FUNC_READ_HOLDING_REGISTER #
      ucast (n * 2) # regs_bytes (take (unat n) (drop (unat a) (usSRegHoldBuf (sregs s))))) \<and>
    sregs s' = sregs s \<and>
    eSndState s' = STATE_TX_IDLE \<and> eRcvState s' = STATE_RX_IDLE \<and> rx_int s'"
  using assms by (rule slave_serves_read_holding)

theorem read_holding_over_the_wire_witness:
  "\<exists>s'. slave_serves (\<lambda>_ _ _ _ _. None) (rtu_frame 1 (read_holding_req 98 2)) ex_slave = Some s' \<and>
    tx_line s' = rtu_frame 1 [3, 4, 0, 0, 0, 0]"
  using read_holding_over_the_wire [of ex_slave 2 98 "\<lambda>_ _ _ _ _. None"] ex_ready ex_wf
  by (auto simp: func_defs replicate_2)

text \<open>
  C11: Writing several holding registers over the wire replaces exactly the addressed run by
  the values sent and is acknowledged with address and count.
\<close>

theorem write_holding_over_the_wire:
  assumes "slave_ready s" "ucMBAddress s \<noteq> 0" "xFuncHandlers s = func_handlers_init"
    and "wf_slave (sregs s)" "1 \<le> length vs" "unat a + length vs \<le> 100"
  shows "\<exists>s'. slave_serves user (rtu_frame (ucMBAddress s) (write_multiple_req a vs)) s = Some s' \<and>
    tx_line s' = tx_line s @ rtu_frame (ucMBAddress s) (take 5 (write_multiple_req a vs)) \<and>
    sregs s' = (sregs s)\<lparr>usSRegHoldBuf := blit (usSRegHoldBuf (sregs s)) (unat a) vs\<rparr> \<and>
    eSndState s' = STATE_TX_IDLE \<and> eRcvState s' = STATE_RX_IDLE \<and> rx_int s'"
  using assms by (rule slave_serves_write_multiple)

theorem write_holding_over_the_wire_witness:
  "\<exists>s'. slave_serves (\<lambda>_ _ _ _ _. None) (rtu_frame 1 (write_multiple_req 7 [0x1234])) ex_slave = Some s' \<and>
    usSRegHoldBuf (sregs s') ! 7 = 0x1234"
proof -
  obtain s' where
    "slave_serves (\<lambda>_ _ _ _ _. None) (rtu_frame 1 (write_multiple_req 7 [0x1234])) ex_slave = Some s'"
    "sregs s' = (sregs ex_slave)\<lparr>usSRegHoldBuf := blit (usSRegHoldBuf (sregs ex_slave)) 7 [0x1234]\<rparr>"
    using write_holding_over_the_wire [of ex_slave "[0x1234]" 7 "\<lambda>_ _ _ _ _. None"] ex_ready ex_wf by auto
  then show ?thesis
    by (simp add: nth_blit)
qed

text \<open>
  A request that the address check of the registers refuses is answered with the
  exception frame for an illegal data address, and nothing is changed.
\<close>

theorem read_holding_out_of_range:
  assumes "slave_ready s" "ucMBAddress s \<noteq> 0" "xFuncHandlers s = func_handlers_init"
    and "wf_slave (sregs s)" "1 \<le> unat n" "unat n \<le> 125" "100 < unat a + unat n"
  shows "\<exists>s'. slave_serves user (rtu_frame (ucMBAddress s) (read_holding_req a n)) s = Some s' \<and>
    tx_line s' = tx_line s @ rtu_frame (ucMBAddress s) [0x83, MB_EX_ILLEGAL_DATA_ADDRESS] \<and>
    sregs s' = sregs s \<and>
    eSndState s' = STATE_TX_IDLE \<and> eRcvState s' = STATE_RX_IDLE \<and> rx_int s'"
  using assms by (rule slave_serves_read_holding_range)

theorem read_holding_out_of_range_witness:
  "\<exists>s'. slave_serves (\<lambda>_ _ _ _ _. None) (rtu_frame 1 (read_holding_req 99 2)) ex_slave = Some s' \<and>
    tx_line s' = rtu_frame 1 [0x83, MB_EX_ILLEGAL_DATA_ADDRESS]"
  using read_holding_out_of_range [of ex_slave 2 99 "\<lambda>_ _ _ _ _. None"] ex_ready ex_wf by auto

text \<open>
  C21: A burst that is too short, has a wrong checksum or is addressed to another station is
  dropped: nothing is sent, no register changes, and the slave is ready for the next
  frame.
\<close>

theorem bad_frame_dropped:
  assumes "slave_ready s" "bs \<noteq> []" "length bs \<le> 256"
    and "length bs < 4 \<or> usMBCRC16 bs \<noteq> 0 \<or> (bs ! 0 \<noteq> ucMBAddress s \<and> bs ! 0 \<noteq> MB_ADDRESS_BROADCAST)"
  shows "\<exists>s'. slave_hears user bs s = Some (Poll_Done MB_ENOERR, s') \<and> slave_untouched s s'"
  using assms by (rule slave_hears_drop)

theorem bad_frame_dropped_witness:
  "\<exists>s'. slave_hears (\<lambda>_ _ _ _ _. None) [1, 3, 0] ex_slave = Some (Poll_Done MB_ENOERR, s') \<and>
    slave_untouched ex_slave s'"
  using bad_frame_dropped [of ex_slave "[1, 3, 0]" "\<lambda>_ _ _ _ _. None"] ex_ready by simp

text \<open>
  C22: A burst of more than 256 bytes never overruns the frame buffer: the receiver goes
  through its error state, no event is posted and the slave is ready again.
\<close>

theorem overlong_frame_dropped:
  assumes "slave_ready s" "256 < length bs"
  shows "\<exists>s'. rtu_burst bs s = Some s' \<and> slave_untouched s s'"
  using assms by (rule slave_hears_overlong)

theorem overlong_frame_dropped_witness:
  "\<exists>s'. rtu_burst (replicate 300 7) ex_slave = Some s' \<and> slave_untouched ex_slave s'"
  using overlong_frame_dropped [of ex_slave "replicate 300 7"] ex_ready by simp

text \<open>
  A broadcast request is executed by the handler of its function code and is not
  answered.
\<close>

theorem broadcast_executed_silently:
  assumes "slave_ready s" "1 \<le> length pdu" "length pdu \<le> 253"
    and "handled user s (drop 1 (blit (ucRTUBuf s) 0 (rtu_frame 0 pdu))) (of_nat (length pdu)) =
      Some (e, fr, n, r, i)"
  shows "\<exists>s1 s2. slave_hears user (rtu_frame 0 pdu) s = Some (Poll_Done MB_ENOERR, s1) \<and>
    eMBPoll user s1 = Some (Poll_Done MB_ENOERR, s2) \<and> tx_line s2 = tx_line s \<and>
    sregs s2 = r \<and> sid s2 = i \<and> eSndState s2 = STATE_TX_IDLE"
  using assms by (rule slave_broadcast_executes)

theorem broadcast_executed_silently_witness:
  "\<exists>s1 s2. slave_hears (\<lambda>_ _ _ _ _. None) (rtu_frame 0 [99]) ex_slave = Some (Poll_Done MB_ENOERR, s1) \<and>
    eMBPoll (\<lambda>_ _ _ _ _. None) s1 = Some (Poll_Done MB_ENOERR, s2) \<and> tx_line s2 = []"
proof -
  let ?fr = "drop 1 (blit (ucRTUBuf ex_slave) 0 (rtu_frame 0 [99]))"
  have "rd ?fr 0 = Some 99"
    using request_buffer [of "[99]" "ucRTUBuf ex_slave" 0] by (simp add: rd_def)
  then have "handled (\<lambda>_ _ _ _ _. None) ex_slave ?fr (of_nat (length [99 :: UCHAR])) =
      Some (MB_EX_ILLEGAL_FUNCTION, ?fr, 1, sregs ex_slave, sid ex_slave)"
    by (simp add: handled_def func_handlers_init_def func_defs)
  from broadcast_executed_silently [OF ex_ready _ _ this] show ?thesis by auto
qed

text \<open>
  Enabling the stack and letting the line fall silent once, whatever noise came before,
  makes the slave ready.
\<close>

theorem slave_comes_up:
  assumes "eMBState s = STATE_DISABLED" "transport s = Some MB_RTU"
    and "port_calm s" "eSndState s = STATE_TX_IDLE" "rx_fifo s = []" "length (ucRTUBuf s) = 256"
    and "ev_set (os_event s) = 0"
  shows "\<exists>s1 s2. eMBEnable s = Some (MB_ENOERR, s1) \<and>
    slave_hears user noise s1 = Some (Poll_Done MB_ENOERR, s2) \<and> slave_ready s2 \<and>
    tx_line s2 = tx_line s \<and> sregs s2 = sregs s"
  using assms by (rule slave_boot)

theorem slave_comes_up_witness:
  "\<exists>s1 s2. eMBEnable (ex_slave\<lparr>eMBState := STATE_DISABLED\<rparr>) = Some (MB_ENOERR, s1) \<and>
    slave_hears (\<lambda>_ _ _ _ _. None) [5, 6, 7] s1 = Some (Poll_Done MB_ENOERR, s2) \<and> slave_ready s2"
proof -
  have "port_calm (ex_slave\<lparr>eMBState := STATE_DISABLED\<rparr>)"
    using ex_calm by (simp add: port_calm_def)
  then show ?thesis
    using slave_comes_up [of "ex_slave\<lparr>eMBState := STATE_DISABLED\<rparr>" "\<lambda>_ _ _ _ _. None" "[5, 6, 7]"]
    by (auto simp: ex_slave_def rt_event_init_def)
qed

section \<open>Properties of the RTU transport\<close>



text \<open>
  Sending puts exactly one well-formed frame on the line. The transmit state machine,
  called until it stops, emits the address, the PDU that lies in the buffer and the
  checksum, posts the sent event and turns the receiver on again.
\<close>

theorem send_emits_frame:
  assumes "port_calm s" "eRcvState s = STATE_RX_IDLE" "length (ucRTUBuf s) = 256"
    and "unat n + 3 \<le> 256" "unat n + 4 \<le> m"
  shows "\<exists>s1 s2. eMBRTUSend a 1 n s = Some (MB_ENOERR, s1) \<and> rtu_drain m s1 = Some s2 \<and>
    tx_line s2 = tx_line s @ rtu_frame a (take (unat n) (drop 1 (ucRTUBuf s))) \<and>
    eSndState s2 = STATE_TX_IDLE \<and> eRcvState s2 = STATE_RX_IDLE \<and> rx_int s2 \<and>
    ev_set (os_event s2) = ev_set (os_event s) OR ev_code EV_FRAME_SENT"
  using rtu_send_drain [OF assms(1-5), of a] by blast

theorem send_emits_frame_witness:
  "\<exists>s1 s2. eMBRTUSend 1 1 2 ex_slave = Some (MB_ENOERR, s1) \<and> rtu_drain 10 s1 = Some s2 \<and>
    tx_line s2 = rtu_frame 1 [0, 0]"
  using send_emits_frame [of ex_slave 2 10 1] ex_calm by (auto simp: replicate_2)

text \<open>
  C18: What one station sends another one accepts: the bytes of a frame, heard by a
  listening receiver and followed by silence, are handed out with the address, the PDU and
  its length.
\<close>

theorem frame_round_trip:
  assumes "rtu_listens s" "eRcvState s = STATE_RX_IDLE" "suspend_thread (os_event s) = []"
    and "1 \<le> length pdu" "length pdu \<le> 253"
  shows "\<exists>s'. rtu_burst (rtu_frame a pdu) s = Some s' \<and>
    eMBRTUReceive s' = Some (MB_ENOERR, Some (a, 1, of_nat (length pdu))) \<and>
    take (length pdu) (drop 1 (ucRTUBuf s')) = pdu"
proof -
  have len: "length (ucRTUBuf s) = 256"
    using assms(1) by (simp add: rtu_listens_def)
  have fr: "rtu_frame a pdu \<noteq> []" "length (rtu_frame a pdu) \<le> 256" "rtu_frame a pdu ! 0 = a"
    using assms(5) by (auto simp: rtu_frame_def Let_def)
  let ?s' = "s\<lparr>ucRTUBuf := blit (ucRTUBuf s) 0 (rtu_frame a pdu),
    usRcvBufferPos := of_nat (length (rtu_frame a pdu)), timer_on := False,
    os_event := (os_event s)\<lparr>ev_set := ev_set (os_event s) OR ev_code EV_FRAME_RECEIVED\<rparr>\<rparr>"
  have "take (length (rtu_frame a pdu)) (blit (ucRTUBuf s) 0 (rtu_frame a pdu)) = rtu_frame a pdu"
    using segment_blit [of 0 "rtu_frame a pdu" "ucRTUBuf s"] len fr(2) by simp
  then have "eMBRTUReceive ?s' = Some (MB_ENOERR, Some (a, 1, of_nat (length pdu)))"
    using eMBRTUReceive_frame [of "rtu_frame a pdu" ?s'] crc_rtu_frame [of a pdu] fr assms(4) by simp
  moreover have "take (length pdu) (drop 1 (ucRTUBuf ?s')) = pdu"
    using request_buffer(5) [OF assms(5,4) len, of a] by simp
  moreover have "rtu_burst (rtu_frame a pdu) s = Some ?s'"
    by (rule rtu_burst_frame [OF assms(1-3) fr(1,2)])
  ultimately show ?thesis
    by blast
qed

theorem frame_round_trip_witness:
  "\<exists>s'. rtu_burst (rtu_frame 9 [1, 2, 3]) ex_slave = Some s' \<and>
    eMBRTUReceive s' = Some (MB_ENOERR, Some (9, 1, 3))"
  using frame_round_trip [of ex_slave "[1, 2, 3]" 9]
  by (auto simp: rtu_listens_def ex_slave_def rt_event_init_def)

text \<open>
  C20: Every corruption of a frame that is confined to two neighbouring bytes is detected:
  the received bytes have a non-zero checksum, so the frame is not accepted.
\<close>

theorem burst_error_detected:
  assumes "pre @ [x, y] @ post = rtu_frame a pdu" "(x, y) \<noteq> (x', y')"
  shows "usMBCRC16 (pre @ [x', y'] @ post) \<noteq> 0"
  using usMBCRC16_burst [of pre x y post x' y'] crc_rtu_frame [of a pdu] assms by auto

theorem burst_error_detected_witness:
  "usMBCRC16 ([] @ [2, 7] @ drop 2 (rtu_frame 1 [3])) \<noteq> 0"
  by (rule burst_error_detected [of "[]" 1 3 _ 1 "[3]"]) (simp_all add: rtu_frame_def Let_def)

text \<open>
  C19: The table-driven checksum is the bit-serial CRC-16 with the reflected polynomial
  0xA001 and initial value 0xFFFF.
\<close>

theorem crc_table_correct: "usMBCRC16 bs = crc_ref 0xFFFF bs"
  by (rule usMBCRC16_ref)

text \<open>
  The transmitter is not reset by a stop. \<^verbatim>\<open>eMBRTUStop\<close> in the middle of a transmission followed
  by \<^verbatim>\<open>eMBRTUStart\<close> enables the receiver while the transmitter is still in its transfer
  state, so the first byte received fails the assertion of \<^verbatim>\<open>xMBRTUReceiveFSM\<close>.
\<close>

theorem restart_asserts:
  assumes "port_calm s" "eSndState s = STATE_TX_XMIT"
  shows "\<exists>s1 s2. eMBRTUStop s = Some s1 \<and> eMBRTUStart s1 = Some s2 \<and> rx_int s2 \<and>
    serial_rx_ind b s2 = None"
  using assms by (rule restart_while_sending)

theorem restart_asserts_witness:
  "\<exists>s1 s2. eMBRTUStop (ex_slave\<lparr>eSndState := STATE_TX_XMIT\<rparr>) = Some s1 \<and> eMBRTUStart s1 = Some s2 \<and>
    serial_rx_ind 7 s2 = None"
  using restart_asserts [of "ex_slave\<lparr>eSndState := STATE_TX_XMIT\<rparr>" 7] ex_calm
  by (auto simp: port_calm_def)

text \<open>
  Two different events that are posted before the poll thread gets them match no case
  of the switch in \<^verbatim>\<open>xMBPortEventGet\<close>: the output parameter stays unassigned and both
  flags are cleared.
\<close>

theorem simultaneous_events_lost:
  assumes "port_calm s" "ev_set (os_event s) = ev_code e OR ev_code e'" "e \<noteq> e'"
  shows "\<exists>s'. xMBPortEventGet s = Some (Event_Got None, s') \<and> ev_set (os_event s') = 0"
  using assms by (rule xMBPortEventGet_several)

theorem simultaneous_events_lost_witness:
  "\<exists>s'. xMBPortEventGet (ex_slave\<lparr>os_event := (os_event ex_slave)\<lparr>ev_set := 6\<rparr>\<rparr>) =
    Some (Event_Got None, s')"
  using simultaneous_events_lost [of "ex_slave\<lparr>os_event := (os_event ex_slave)\<lparr>ev_set := 6\<rparr>\<rparr>"
      EV_FRAME_RECEIVED EV_EXECUTE] ex_calm
  by (auto simp: port_calm_def ev_code_def)

text \<open>
  Removing a handler hides the ones behind it. The cleared entry has function code 0,
  where the search of \<^verbatim>\<open>eMBPoll\<close> stops, so a function code registered later in the table is
  answered as illegal from then on.
\<close>

theorem removing_hides_handlers:
  assumes "find_handler fc (pre @ (c, g) # post) = Some h" "c \<noteq> fc"
    and "\<forall>x \<in> fst ` set pre. x \<noteq> fc \<and> x \<noteq> c" "c \<noteq> 0"
  shows "find_handler fc (remove_handler c (pre @ (c, g) # post)) = None"
  using remove_handler_hides [OF assms(1,2) _ assms(4)] assms(3) by blast

theorem removing_hides_handlers_witness:
  "find_handler MB_FUNC_READ_COILS (remove_handler MB_FUNC_READ_INPUT_REGISTER func_handlers_init) = None"
  using removing_hides_handlers [of MB_FUNC_READ_COILS "take 1 func_handlers_init"
      MB_FUNC_READ_INPUT_REGISTER "Some H_ReadInputRegister" "drop 2 func_handlers_init" "Some H_ReadCoils"]
  by (simp add: func_handlers_init_def func_defs)

end
